(* ===== verification/Prelude.thy ===== *)
theory Prelude
  imports Main "HOL-Library.Word" "HOL-Library.Char_ord" "HOL-Library.List_Lexorder"
begin

text \<open>
  What every component of the model shares: the result types that stand for C++
  exceptions, bytes and character strings, decimal printing (\<open>std::to_string\<close>), loops that
  may throw, and the lemmas on them.

  A C++ function that may throw is a function into \<open>'a result\<close>: \<open>Inl\<close> carries the text of
  the exception (\<open>what()\<close>), \<open>Inr\<close> the value. A member function that also changes the
  object is a function into \<open>('s, 'a) action\<close>: the new state is returned on the error path
  as well, because an exception does not undo the writes made before it.
\<close>

unbundle bit_operations_syntax

named_theorems result_simps \<open>equations and inversions of the result and action combinators\<close>
named_theorems byte_simps \<open>characters, bytes and little-endian words\<close>

section \<open>Results: exceptions as values\<close>

type_synonym 'a result = "string + 'a"

definition bindR :: "'a result \<Rightarrow> ('a \<Rightarrow> 'b result) \<Rightarrow> 'b result" where
  "bindR m f = (case m of Inl e \<Rightarrow> Inl e | Inr x \<Rightarrow> f x)"

definition checkR :: "bool \<Rightarrow> string \<Rightarrow> unit result" where
  "checkR ok msg = (if ok then Inr () else Inl msg)"

fun foldR :: "('a \<Rightarrow> 'b \<Rightarrow> 'b result) \<Rightarrow> 'a list \<Rightarrow> 'b \<Rightarrow> 'b result" where
  "foldR f [] b = Inr b"
| "foldR f (x # xs) b = bindR (f x b) (foldR f xs)"

fun mapR :: "('a \<Rightarrow> 'b result) \<Rightarrow> 'a list \<Rightarrow> 'b list result" where
  "mapR f [] = Inr []"
| "mapR f (x # xs) = bindR (f x) (\<lambda>y. bindR (mapR f xs) (\<lambda>ys. Inr (y # ys)))"

lemma bindR_simps [simp]: "bindR (Inl e) f = Inl e" "bindR (Inr x) f = f x"
  by (simp_all add: bindR_def)

lemma bindR_Inr [result_simps]: "bindR m f = Inr y \<longleftrightarrow> (\<exists>x. m = Inr x \<and> f x = Inr y)"
  by (cases m) auto

lemma bindR_Inl [result_simps]:
  "bindR m f = Inl e \<longleftrightarrow> m = Inl e \<or> (\<exists>x. m = Inr x \<and> f x = Inl e)"
  by (cases m) auto

lemma bindR_assoc: "bindR (bindR m f) g = bindR m (\<lambda>x. bindR (f x) g)"
  by (cases m) auto

lemma bindR_ret [simp]: "bindR m Inr = m"
  by (cases m) auto

lemma checkR_simps [simp]: "checkR True msg = Inr ()" "checkR False msg = Inl msg"
  by (simp_all add: checkR_def)

lemma checkR_Inr [result_simps]: "checkR ok msg = Inr u \<longleftrightarrow> ok"
  by (simp add: checkR_def)

lemma checkR_Inl [result_simps]: "checkR ok msg = Inl e \<longleftrightarrow> \<not> ok \<and> e = msg"
  by (auto simp: checkR_def)

lemma foldR_Nil_fun [simp]: "foldR f [] = Inr"
  by (rule ext) simp

lemma mapR_snoc: "mapR f (xs @ [x]) = bindR (mapR f xs) (\<lambda>ys. bindR (f x) (\<lambda>y. Inr (ys @ [y])))"
  by (induction xs) (simp_all add: bindR_assoc)

lemma foldR_append: "foldR f (xs @ ys) b = bindR (foldR f xs b) (foldR f ys)"
  by (induction xs arbitrary: b) (simp_all add: bindR_assoc bindR_def split: sum.splits)

lemma mapR_Inr_length: "mapR f xs = Inr ys \<Longrightarrow> length ys = length xs"
  by (induction xs arbitrary: ys) (auto simp: result_simps)

lemma mapR_Inr_iff:
  "mapR f xs = Inr ys \<longleftrightarrow> length ys = length xs \<and> (\<forall>i < length xs. f (xs ! i) = Inr (ys ! i))"
proof (induction xs arbitrary: ys)
  case (Cons x xs)
  show ?case
  proof (cases ys)
    case Nil
    then show ?thesis by (auto simp: result_simps)
  next
    case (Cons z zs)
    then show ?thesis
      by (auto simp: result_simps Cons.IH less_Suc_eq_0_disj)
  qed
qed auto

lemma mapR_cong: "(\<And>x. x \<in> set xs \<Longrightarrow> f x = g x) \<Longrightarrow> mapR f xs = mapR g xs"
  by (induction xs) simp_all

lemma mapR_all_Inr: "(\<And>x. x \<in> set xs \<Longrightarrow> f x = Inr (g x)) \<Longrightarrow> mapR f xs = Inr (map g xs)"
  by (induction xs) simp_all

section \<open>Actions: member functions that change their object and may throw\<close>

type_synonym ('s, 'a) action = "'s \<Rightarrow> 'a result \<times> 's"

definition retA :: "'a \<Rightarrow> ('s, 'a) action" where
  "retA x = (\<lambda>s. (Inr x, s))"

definition throwA :: "string \<Rightarrow> ('s, 'a) action" where
  "throwA e = (\<lambda>s. (Inl e, s))"

definition bindA :: "('s, 'a) action \<Rightarrow> ('a \<Rightarrow> ('s, 'b) action) \<Rightarrow> ('s, 'b) action" where
  "bindA m f = (\<lambda>s. case m s of (Inl e, s') \<Rightarrow> (Inl e, s') | (Inr x, s') \<Rightarrow> f x s')"

definition liftA :: "'a result \<Rightarrow> ('s, 'a) action" where
  "liftA r = (\<lambda>s. (r, s))"

definition checkA :: "bool \<Rightarrow> string \<Rightarrow> ('s, unit) action" where
  "checkA ok msg = liftA (checkR ok msg)"

definition getA :: "('s, 's) action" where
  "getA = (\<lambda>s. (Inr s, s))"

definition modifyA :: "('s \<Rightarrow> 's) \<Rightarrow> ('s, unit) action" where
  "modifyA g = (\<lambda>s. (Inr (), g s))"

fun foldA :: "('a \<Rightarrow> 'b \<Rightarrow> ('s, 'b) action) \<Rightarrow> 'a list \<Rightarrow> 'b \<Rightarrow> ('s, 'b) action" where
  "foldA f [] b = retA b"
| "foldA f (x # xs) b = bindA (f x b) (foldA f xs)"

lemmas action_defs = retA_def throwA_def liftA_def getA_def modifyA_def

lemma bindA_apply [simp]:
  "bindA m f s = (case m s of (Inl e, s') \<Rightarrow> (Inl e, s') | (Inr x, s') \<Rightarrow> f x s')"
  by (simp add: bindA_def)

lemma action_apply [simp]:
  "retA x s = (Inr x, s)" "throwA e s = (Inl e, s)" "liftA r s = (r, s)" "getA s = (Inr s, s)"
  "modifyA g s = (Inr (), g s)" "checkA ok msg s = (checkR ok msg, s)"
  by (simp_all add: action_defs checkA_def)

declare bindA_apply [simp del]

lemma bindA_Inr [result_simps]:
  "bindA m f s = (Inr y, s') \<longleftrightarrow> (\<exists>x t. m s = (Inr x, t) \<and> f x t = (Inr y, s'))"
  by (auto simp: bindA_apply split: prod.splits sum.splits)

lemma bindA_step: "m s = (Inr x, t) \<Longrightarrow> bindA m f s = f x t"
  by (simp add: bindA_apply)

lemma bindA_fail: "m s = (Inl e, t) \<Longrightarrow> bindA m f s = (Inl e, t)"
  by (simp add: bindA_apply)

lemma bindA_ret [simp]: "bindA (retA x) f s = f x s"
  by (simp add: bindA_apply)

lemma bindA_throw [simp]: "bindA (throwA e) f s = (Inl e, s)"
  by (simp add: bindA_apply)

lemma bindA_get [simp]: "bindA getA f s = f s s"
  by (simp add: bindA_apply)

lemma bindA_modify [simp]: "bindA (modifyA g) f s = f () (g s)"
  by (simp add: bindA_apply)

lemma bindA_lift [simp]:
  "bindA (liftA r) f s = (case r of Inl e \<Rightarrow> (Inl e, s) | Inr x \<Rightarrow> f x s)"
  by (simp add: bindA_apply split: sum.splits)

lemma bindA_Pair [simp]:
  "bindA (Pair r) f s = (case r of Inl e \<Rightarrow> (Inl e, s) | Inr x \<Rightarrow> f x s)"
  by (simp add: bindA_apply split: sum.splits)

lemma bindA_check [simp]:
  "bindA (checkA ok msg) f s = (if ok then f () s else (Inl msg, s))"
  by (simp add: bindA_apply checkR_def)

lemma bindA_assoc: "bindA (bindA m f) g = bindA m (\<lambda>x. bindA (f x) g)"
  by (rule ext) (auto simp: bindA_apply split: prod.splits sum.splits)

lemma foldA_Nil_fun [simp]: "foldA f [] = retA"
  by (rule ext) simp

lemma foldA_append: "foldA f (xs @ ys) b s = bindA (foldA f xs b) (foldA f ys) s"
  by (induction xs arbitrary: b s)
    (auto simp: bindA_assoc bindA_apply split: prod.splits sum.splits)

section \<open>Bytes and characters\<close>

type_synonym byte = "8 word"

definition byte_of_char :: "char \<Rightarrow> byte" where
  "byte_of_char c = word_of_nat (of_char c)"

definition char_of_byte :: "byte \<Rightarrow> char" where
  "char_of_byte b = char_of (unat b)"

definition bytes_of_string :: "string \<Rightarrow> byte list" where
  "bytes_of_string s = map byte_of_char s"

definition string_of_bytes :: "byte list \<Rightarrow> string" where
  "string_of_bytes bs = map char_of_byte bs"

lemma char_of_byte_of_char [simp]: "char_of_byte (byte_of_char c) = c"
  by (simp add: char_of_byte_def byte_of_char_def unsigned_of_nat take_bit_eq_mod)

lemma byte_of_char_of_byte [simp]: "byte_of_char (char_of_byte b) = b"
proof -
  have "unat b < 256" using unsigned_less [of b, where ?'a = nat] by simp
  then have "unat b mod 256 = unat b" by simp
  then show ?thesis by (simp add: char_of_byte_def byte_of_char_def)
qed

lemma string_of_bytes_of_string [simp]: "string_of_bytes (bytes_of_string s) = s"
  by (simp add: string_of_bytes_def bytes_of_string_def comp_def)

lemma bytes_of_string_of_bytes [simp]: "bytes_of_string (string_of_bytes bs) = bs"
  by (simp add: string_of_bytes_def bytes_of_string_def comp_def)

lemma length_bytes_of_string [simp]: "length (bytes_of_string s) = length s"
  by (simp add: bytes_of_string_def)

lemma length_string_of_bytes [simp]: "length (string_of_bytes bs) = length bs"
  by (simp add: string_of_bytes_def)

section \<open>Decimal numerals\<close>

text \<open>\<open>std::to_string\<close> on integers, and \<open>operator<<\<close> on integers.\<close>

definition digit_char :: "nat \<Rightarrow> char" where
  "digit_char d = char_of (48 + d)"

fun show_nat :: "nat \<Rightarrow> string" where
  "show_nat n = (if n < 10 then [digit_char n] else show_nat (n div 10) @ [digit_char (n mod 10)])"

declare show_nat.simps [simp del]

definition show_int :: "int \<Rightarrow> string" where
  "show_int i = (if i < 0 then CHR ''-'' # show_nat (nat (- i)) else show_nat (nat i))"

definition is_digit :: "char \<Rightarrow> bool" where
  "is_digit c \<longleftrightarrow> 48 \<le> (of_char c :: nat) \<and> (of_char c :: nat) \<le> 57"

definition digit_value :: "char \<Rightarrow> nat" where
  "digit_value c = of_char c - 48"

definition read_nat :: "string \<Rightarrow> nat" where
  "read_nat s = foldl (\<lambda>n c. 10 * n + digit_value c) 0 s"

lemma digit_char_props [simp]:
  assumes "d < 10"
  shows "is_digit (digit_char d)" "digit_value (digit_char d) = d"
  using assms by (simp_all add: is_digit_def digit_value_def digit_char_def)

lemma show_nat_digits: "c \<in> set (show_nat n) \<Longrightarrow> is_digit c"
proof (induction n rule: show_nat.induct)
  case (1 n)
  then show ?case
    by (cases "n < 10") (auto simp: show_nat.simps [of n])
qed

lemma show_nat_nonempty [simp]: "show_nat n \<noteq> []"
  by (simp add: show_nat.simps [of n])

lemma read_show_nat [simp]: "read_nat (show_nat n) = n"
proof (induction n rule: show_nat.induct)
  case (1 n)
  show ?case
  proof (cases "n < 10")
    case True
    then show ?thesis by (simp add: show_nat.simps [of n] read_nat_def)
  next
    case False
    with "1.IH" have "read_nat (show_nat (n div 10)) = n div 10" by simp
    with False show ?thesis
      by (simp add: show_nat.simps [of n]) (simp add: read_nat_def)
  qed
qed

lemma show_nat_inj [simp]: "show_nat m = show_nat n \<longleftrightarrow> m = n"
  by (metis read_show_nat)

lemma not_digit_minus [simp]: "\<not> is_digit CHR ''-''"
  by (simp add: is_digit_def)

lemma show_int_chars: "c \<in> set (show_int i) \<Longrightarrow> is_digit c \<or> c = CHR ''-''"
  by (auto simp: show_int_def dest: show_nat_digits split: if_splits)

lemma hd_show_nat_digit: "is_digit (hd (show_nat n))"
  by (rule show_nat_digits [of _ n]) simp

lemma show_int_inj [simp]: "show_int i = show_int j \<longleftrightarrow> i = j"
proof
  assume eq: "show_int i = show_int j"
  have neq: "CHR ''-'' # xs \<noteq> show_nat n" for xs n
    using hd_show_nat_digit [of n] by (metis list.sel(1) not_digit_minus)
  from eq show "i = j"
    using neq neq [symmetric] by (auto simp: show_int_def split: if_splits)
qed simp

section \<open>Machine integers written out on \<open>int\<close>\<close>

text \<open>
  \<open>std::int64_t\<close> values are integers in \<open>[-2^63, 2^63)\<close>; a product that leaves the range
  wraps in two's complement (what the compilers in use do with this overflow).
  \<open>std::size_t\<close> and \<open>std::uint64_t\<close> values are taken modulo \<open>2^64\<close>.
\<close>

definition i64_wrap :: "int \<Rightarrow> int" where
  "i64_wrap x = (x + 2 ^ 63) mod 2 ^ 64 - 2 ^ 63"

definition u64_wrap :: "int \<Rightarrow> int" where
  "u64_wrap x = x mod 2 ^ 64"

definition i32_wrap :: "int \<Rightarrow> int" where
  "i32_wrap x = (x + 2 ^ 31) mod 2 ^ 32 - 2 ^ 31"

lemma i64_wrap_id: "- (2 ^ 63) \<le> x \<Longrightarrow> x < 2 ^ 63 \<Longrightarrow> i64_wrap x = x"
  by (simp add: i64_wrap_def)

lemma i64_wrap_range: "- (2 ^ 63) \<le> i64_wrap x" "i64_wrap x < 2 ^ 63"
  by (simp_all add: i64_wrap_def)

lemma i64_wrap_mod: "i64_wrap x mod 2 ^ 64 = x mod 2 ^ 64"
  by (simp add: i64_wrap_def mod_simps)

lemma u64_wrap_id: "0 \<le> x \<Longrightarrow> x < 2 ^ 64 \<Longrightarrow> u64_wrap x = x"
  by (simp add: u64_wrap_def)

lemma i32_wrap_id: "- (2 ^ 31) \<le> x \<Longrightarrow> x < 2 ^ 31 \<Longrightarrow> i32_wrap x = x"
  by (simp add: i32_wrap_def)

section \<open>Strings\<close>

text \<open>\<open>value.rfind(prefix, 0) == 0\<close>, as every \<open>starts_with\<close> helper of the code is written.\<close>

fun is_prefix :: "'a list \<Rightarrow> 'a list \<Rightarrow> bool" where
  "is_prefix [] s \<longleftrightarrow> True"
| "is_prefix pat [] \<longleftrightarrow> pat = []"
| "is_prefix (c # pat) (d # s) \<longleftrightarrow> d = c \<and> is_prefix pat s"

definition starts_with :: "string \<Rightarrow> string \<Rightarrow> bool" where
  "starts_with s prefix = is_prefix prefix s"

lemma is_prefix_append [simp]: "is_prefix xs (xs @ ys)"
  by (induction xs) simp_all

lemma is_prefix_iff: "is_prefix xs ys \<longleftrightarrow> (\<exists>zs. ys = xs @ zs)"
  by (induction xs ys rule: is_prefix.induct) auto

text \<open>\<open>s.find(pat) != npos\<close> and the position found.\<close>

fun find_sub :: "'a list \<Rightarrow> 'a list \<Rightarrow> nat option" where
  "find_sub pat [] = (if pat = [] then Some 0 else None)"
| "find_sub pat (x # xs) =
     (if is_prefix pat (x # xs) then Some 0 else map_option Suc (find_sub pat xs))"

lemma find_sub_Some:
  "find_sub pat s = Some i \<Longrightarrow> \<exists>rest. s = take i s @ pat @ rest \<and> i \<le> length s"
proof (induction pat s arbitrary: i rule: find_sub.induct)
  case (1 pat)
  then show ?case by (auto split: if_splits)
next
  case (2 pat x xs)
  show ?case
  proof (cases "is_prefix pat (x # xs)")
    case True
    with "2.prems" show ?thesis by (auto simp: is_prefix_iff)
  next
    case False
    with "2.prems" obtain j where j: "find_sub pat xs = Some j" "i = Suc j" by auto
    with "2.IH" [OF False j(1)] show ?thesis by auto
  qed
qed

lemma find_sub_None: "find_sub pat s = None \<longleftrightarrow> (\<forall>pre post. s \<noteq> pre @ pat @ post)"
proof (induction pat s rule: find_sub.induct)
  case (1 pat)
  then show ?case by auto
next
  case (2 pat x xs)
  show ?case
  proof (cases "is_prefix pat (x # xs)")
    case True
    then obtain zs where zs: "x # xs = [] @ pat @ zs" by (auto simp: is_prefix_iff)
    have "\<exists>pre post. x # xs = pre @ pat @ post" using zs by (intro exI)
    with True show ?thesis by simp
  next
    case False
    then have nz: "x # xs \<noteq> pat @ zs" for zs by (simp add: is_prefix_iff)
    have "(\<forall>pre post. xs \<noteq> pre @ pat @ post) \<longleftrightarrow> (\<forall>pre post. x # xs \<noteq> pre @ pat @ post)"
      using nz by (metis append_Cons append_Nil list.exhaust list.inject)
    with "2.IH" [OF False] False show ?thesis by simp
  qed
qed

end
