(* ===== verification/Dli2_Protocol.thy ===== *)
theory Dli2_Protocol
  imports Prelude
begin

text \<open>
  The DLI2 frame of \<open>dli_common_cpp/src/protocol.cpp\<close>: a fixed header of 20 bytes (magic,
  version, metadata length, tensor length, little-endian), the metadata JSON and the tensor
  payload. \<open>encode_frame\<close> and \<open>decode_frame\<close> are exact inverses of each other on everything
  they accept.
\<close>

section \<open>Constants and the frame\<close>

definition DLI2_MAGIC :: "byte list" where
  "DLI2_MAGIC = bytes_of_string ''DLI2''"

definition DLI2_VERSION :: "32 word" where
  "DLI2_VERSION = 2"

definition DLI2_HEADER_BYTES :: nat where
  "DLI2_HEADER_BYTES = 20"

definition DLI2_MAX_METADATA_BYTES :: nat where
  "DLI2_MAX_METADATA_BYTES = 16 * 1024 * 1024"

definition DLI2_MAX_TENSOR_BYTES :: nat where
  "DLI2_MAX_TENSOR_BYTES = 8 * 1024 * 1024 * 1024"

record dli_frame =
  metadata_json :: string
  tensor_bytes :: "byte list"

section \<open>Little-endian integers\<close>

definition append_u32_le :: "byte list \<Rightarrow> 32 word \<Rightarrow> byte list" where
  "append_u32_le out v = out @
     [ucast (v AND 255), ucast (drop_bit 8 v AND 255), ucast (drop_bit 16 v AND 255),
      ucast (drop_bit 24 v AND 255)]"

definition append_u64_le :: "byte list \<Rightarrow> 64 word \<Rightarrow> byte list" where
  "append_u64_le out v =
     fold (\<lambda>shift out. out @ [ucast (drop_bit shift v AND 255)])
       [0, 8, 16, 24, 32, 40, 48, 56] out"

definition read_u32_le :: "byte list \<Rightarrow> 32 word" where
  "read_u32_le data =
     ucast (data ! 0) OR push_bit 8 (ucast (data ! 1)) OR push_bit 16 (ucast (data ! 2))
       OR push_bit 24 (ucast (data ! 3))"

definition read_u64_le :: "byte list \<Rightarrow> 64 word" where
  "read_u64_le data =
     fold (\<lambda>i value. value OR push_bit (i * 8) (ucast (data ! i))) [0..<8] 0"

definition magic_matches :: "byte list \<Rightarrow> bool" where
  "magic_matches data \<longleftrightarrow> take 4 data = DLI2_MAGIC"

section \<open>Encoding and decoding\<close>

definition encode_frame :: "dli_frame \<Rightarrow> byte list result" where
  "encode_frame frame =
     (if length (metadata_json frame) > DLI2_MAX_METADATA_BYTES
      then Inl ''DLI2 metadata JSON exceeds maximum allowed size''
      else if length (tensor_bytes frame) > DLI2_MAX_TENSOR_BYTES
      then Inl ''DLI2 tensor payload exceeds maximum allowed size''
      else
        let metadata_len = (word_of_nat (length (metadata_json frame)) :: 32 word);
            tensor_len = (word_of_nat (length (tensor_bytes frame)) :: 64 word)
        in if word_of_nat DLI2_HEADER_BYTES + ucast metadata_len + tensor_len > (- 1 :: 64 word)
           then Inl ''DLI2 frame is too large for this platform''
           else
             Inr (append_u64_le
                    (append_u32_le (append_u32_le ([] @ DLI2_MAGIC) DLI2_VERSION) metadata_len)
                    tensor_len
                  @ bytes_of_string (metadata_json frame) @ tensor_bytes frame))"

text \<open>
  The pointer overload: \<open>None\<close> is the null pointer, \<open>Some data\<close> a pointer to a buffer whose
  first \<open>sz\<close> bytes are \<open>take sz data\<close>.
\<close>

definition decode_frame_ptr :: "byte list option \<Rightarrow> nat \<Rightarrow> dli_frame result" where
  "decode_frame_ptr ptr sz =
     (if ptr = None \<and> sz > 0 then Inl ''DLI2 decode received null data pointer''
      else if sz < DLI2_HEADER_BYTES then Inl ''DLI2 frame is smaller than fixed header''
      else let data = the ptr in
        if \<not> magic_matches data then Inl ''DLI2 frame has invalid magic''
        else if read_u32_le (drop 4 data) \<noteq> DLI2_VERSION
        then Inl ''DLI2 frame has unsupported version''
        else
          let metadata_len = read_u32_le (drop 8 data);
              tensor_len = read_u64_le (drop 12 data)
          in if unat metadata_len > DLI2_MAX_METADATA_BYTES
             then Inl ''DLI2 metadata length exceeds maximum allowed size''
             else if unat tensor_len > DLI2_MAX_TENSOR_BYTES
             then Inl ''DLI2 tensor length exceeds maximum allowed size''
             else if word_of_nat DLI2_HEADER_BYTES + ucast metadata_len + tensor_len
                     \<noteq> (word_of_nat sz :: 64 word)
             then Inl ''DLI2 frame size does not match metadata/tensor lengths''
             else
               let metadata_start = drop DLI2_HEADER_BYTES data;
                   tensor_start = drop (unat metadata_len) metadata_start
               in Inr \<lparr>metadata_json = string_of_bytes (take (unat metadata_len) metadata_start),
                       tensor_bytes = take (unat tensor_len) tensor_start\<rparr>)"

definition decode_frame :: "byte list \<Rightarrow> dli_frame result" where
  "decode_frame bytes = decode_frame_ptr (Some bytes) (length bytes)"

section \<open>Little-endian round trips\<close>

lemma length_append_le [simp]:
  "length (append_u32_le out v) = length out + 4" "length (append_u64_le out w) = length out + 8"
  by (simp_all add: append_u32_le_def append_u64_le_def)

lemma append_le_prefix:
  "append_u32_le out v = out @ append_u32_le [] v" "append_u64_le out w = out @ append_u64_le [] w"
  by (simp_all add: append_u32_le_def append_u64_le_def)

lemma append_le_nonempty:
  "out \<noteq> [] \<Longrightarrow> append_u32_le out v = out @ append_u32_le [] v"
  "out \<noteq> [] \<Longrightarrow> append_u64_le out w = out @ append_u64_le [] w"
  by (rule append_le_prefix)+

lemma and_255: "v AND 255 = take_bit 8 (v :: 'a::len word)"
  by (simp add: take_bit_eq_mask mask_eq_exp_minus_1)

lemma take_bit_add_byte:
  "take_bit (m + 8) v = take_bit m v OR push_bit m (take_bit 8 (drop_bit m (v :: 'a::len word)))"
  by (rule bit_word_eqI) (auto simp: bit_simps)

lemma ucast_ucast_byte: "8 \<le> LENGTH('a) \<Longrightarrow> ucast (ucast (take_bit 8 (x :: 'a::len word)) :: byte) = take_bit 8 x"
  by (rule bit_word_eqI) (auto simp: bit_simps)

lemma read_u32_le_append [simp]: "read_u32_le (append_u32_le [] v @ rest) = v"
proof -
  have "read_u32_le (append_u32_le [] v @ rest) = take_bit 8 v OR push_bit 8 (take_bit 8 (drop_bit 8 v))
      OR push_bit 16 (take_bit 8 (drop_bit 16 v)) OR push_bit 24 (take_bit 8 (drop_bit 24 v))"
    by (simp add: read_u32_le_def append_u32_le_def and_255 ucast_ucast_byte)
  also have "\<dots> = take_bit 32 v"
    using take_bit_add_byte [of 8 v] take_bit_add_byte [of 16 v] take_bit_add_byte [of 24 v] by (simp add: or.assoc)
  finally show ?thesis by (simp add: take_bit_word_eq_self)
qed

lemma append_u64_le_nth: "i < 8 \<Longrightarrow> (append_u64_le [] v @ rest) ! i = ucast (take_bit 8 (drop_bit (8 * i) v))"
proof -
  assume "i < 8"
  then consider "i = 0" | "i = 1" | "i = 2" | "i = 3" | "i = 4" | "i = 5" | "i = 6" | "i = 7"
    by linarith
  then show ?thesis by cases (simp_all add: append_u64_le_def and_255)
qed

lemma read_u64_loop:
  fixes data :: "byte list"
  assumes "\<And>i. i < 8 \<Longrightarrow> data ! i = ucast (take_bit 8 (drop_bit (8 * i) v))" and "k \<le> 8"
  shows "fold (\<lambda>i value. value OR push_bit (i * 8) (ucast (data ! i))) [0..<k] 0 = take_bit (8 * k) (v :: 64 word)"
  using assms(2)
proof (induction k)
  case (Suc k)
  then have "data ! k = ucast (take_bit 8 (drop_bit (8 * k) v))" using assms(1) by simp
  with Suc show ?case
    using take_bit_add_byte [of "8 * k" v]
    by (simp add: ucast_ucast_byte mult.commute add.commute)
qed simp

lemma read_u64_le_append [simp]: "read_u64_le (append_u64_le [] v @ rest) = v"
  using read_u64_loop [of "append_u64_le [] v @ rest" v 8]
  by (simp add: read_u64_le_def append_u64_le_nth take_bit_word_eq_self)

lemma append_read_u32_le: 
  assumes "length d = 4" shows "append_u32_le [] (read_u32_le d) = d"
proof -
  obtain a b c e where d: "d = [a, b, c, e]"
    using assms by (auto simp: length_Suc_conv numeral_eq_Suc)
  have "ucast (read_u32_le d AND 255) = a" "ucast (drop_bit 8 (read_u32_le d) AND 255) = b"
     "ucast (drop_bit 16 (read_u32_le d) AND 255) = c" "ucast (drop_bit 24 (read_u32_le d) AND 255) = e"
    by (rule bit_word_eqI; auto simp: d read_u32_le_def and_255 bit_simps dest: bit_imp_le_length)+
  then show ?thesis by (simp add: append_u32_le_def d)
qed

lemma append_u64_le_eqI:
  assumes "length d = 8" and "\<And>i. i < 8 \<Longrightarrow> d ! i = ucast (take_bit 8 (drop_bit (8 * i) v))"
  shows "append_u64_le [] v = d"
proof (rule nth_equalityI)
  show "length (append_u64_le [] v) = length d" using assms(1) by simp
  fix i assume "i < length (append_u64_le [] v)"
  then show "append_u64_le [] v ! i = d ! i"
    using assms(2) [of i] append_u64_le_nth [of i v "[]"] by simp
qed

lemma read_u64_bit:
  fixes data :: "byte list"
  assumes "k \<le> 8"
  shows "bit (fold (\<lambda>i value. value OR push_bit (i * 8) (ucast (data ! i))) [0..<k] (0 :: 64 word)) n
     \<longleftrightarrow> n < 8 * k \<and> bit (data ! (n div 8)) (n mod 8)"
  using assms
proof (induction k)
  case (Suc k)
  have *: "bit (data ! k) (n - k * 8) \<and> k * 8 \<le> n \<longleftrightarrow> k = n div 8 \<and> bit (data ! (n div 8)) (n mod 8)"
  proof (cases "k = n div 8")
    case True
    then show ?thesis by (auto simp: minus_div_mult_eq_mod)
  next
    case False
    then have "k * 8 \<le> n \<Longrightarrow> 8 \<le> n - k * 8" by arith
    with False show ?thesis by (auto dest!: bit_imp_le_length)
  qed
  have "n < 64 \<or> \<not> n < 8 * Suc k" using Suc.prems by arith
  then show ?case
    using Suc * by (auto simp: bit_simps)
qed simp

lemma append_read_u64_le: 
  assumes "length d = 8" shows "append_u64_le [] (read_u64_le d) = d"
proof (rule append_u64_le_eqI [OF assms])
  fix i :: nat assume i: "i < 8"
  show "d ! i = ucast (take_bit 8 (drop_bit (8 * i) (read_u64_le d)))"
    using i by (intro bit_word_eqI) (auto simp: bit_simps read_u64_le_def read_u64_bit)
qed

section \<open>Frames\<close>

definition frame_fits :: "dli_frame \<Rightarrow> bool" where
  "frame_fits f \<longleftrightarrow> length (metadata_json f) \<le> DLI2_MAX_METADATA_BYTES \<and>
     length (tensor_bytes f) \<le> DLI2_MAX_TENSOR_BYTES"

definition frame_bytes :: "dli_frame \<Rightarrow> byte list" where
  "frame_bytes f = DLI2_MAGIC @ append_u32_le [] DLI2_VERSION @
     append_u32_le [] (word_of_nat (length (metadata_json f))) @
     append_u64_le [] (word_of_nat (length (tensor_bytes f))) @
     bytes_of_string (metadata_json f) @ tensor_bytes f"

lemmas dli2_limits = DLI2_MAX_METADATA_BYTES_def DLI2_MAX_TENSOR_BYTES_def DLI2_HEADER_BYTES_def

lemma length_DLI2_MAGIC [simp]: "length DLI2_MAGIC = 4"
  by (simp add: DLI2_MAGIC_def)

lemma DLI2_MAGIC_nonempty [simp]: "DLI2_MAGIC \<noteq> []"
  by (simp add: DLI2_MAGIC_def bytes_of_string_def)

text \<open>The size of a frame is what it takes on the wire.\<close>

instantiation dli_frame_ext :: (type) size
begin

definition size_dli_frame_ext :: "'a dli_frame_scheme \<Rightarrow> nat" where
  "size_dli_frame_ext f = DLI2_HEADER_BYTES + length (metadata_json f) + length (tensor_bytes f)"

instance ..

end

lemma size_frame: "length (frame_bytes f) = size f"
  by (simp add: frame_bytes_def size_dli_frame_ext_def DLI2_HEADER_BYTES_def)

lemma length_frame_bytes:
  "length (frame_bytes f) = 20 + length (metadata_json f) + length (tensor_bytes f)"
  by (simp add: frame_bytes_def)

text \<open>The platform check of \<open>encode_frame\<close> never fires: the sizes checked before it fit.\<close>

lemma encode_frame_eq:
  "encode_frame f =
     (if length (metadata_json f) > DLI2_MAX_METADATA_BYTES
      then Inl ''DLI2 metadata JSON exceeds maximum allowed size''
      else if length (tensor_bytes f) > DLI2_MAX_TENSOR_BYTES
      then Inl ''DLI2 tensor payload exceeds maximum allowed size''
      else Inr (frame_bytes f))"
proof -
  have "\<not> (- 1 :: 64 word) < x" for x by simp
  then show ?thesis
    by (simp add: encode_frame_def frame_bytes_def Let_def append_le_nonempty)
qed

lemma encode_frame_Inr: "encode_frame f = Inr bs \<longleftrightarrow> frame_fits f \<and> bs = frame_bytes f"
  by (auto simp: encode_frame_eq frame_fits_def)

lemma encode_frame_cases:
  obtains "frame_fits f" "encode_frame f = Inr (frame_bytes f)" | e where "\<not> frame_fits f" "encode_frame f = Inl e"
  using encode_frame_Inr [of f] by (cases "encode_frame f") auto

lemma size_sum_64:
  assumes "unat (m :: 32 word) \<le> DLI2_MAX_METADATA_BYTES" "unat (t :: 64 word) \<le> DLI2_MAX_TENSOR_BYTES"
  shows "unat (word_of_nat DLI2_HEADER_BYTES + ucast m + t :: 64 word) = 20 + unat m + unat t"
proof -
  have "unat (ucast m :: 64 word) = unat m"
    using assms(1) by (simp add: unsigned_ucast_eq take_bit_nat_eq_self dli2_limits)
  with assms show ?thesis by (simp add: dli2_limits unat_word_ariths)
qed

text \<open>
  What the decoder reads from a buffer, and when it accepts: the buffer is exactly the
  encoding of the frame it returns.
\<close>

lemma decode_frame_bytes:
  assumes "frame_fits f"
  shows "decode_frame (frame_bytes f) = Inr f"
proof -
  let ?m = "word_of_nat (length (metadata_json f)) :: 32 word"
  let ?t = "word_of_nat (length (tensor_bytes f)) :: 64 word"
  let ?data = "frame_bytes f"
  have m: "unat ?m = length (metadata_json f)" and t: "unat ?t = length (tensor_bytes f)"
    using assms by (simp_all add: frame_fits_def dli2_limits unsigned_of_nat take_bit_nat_eq_self)
  have reads: "magic_matches ?data" "read_u32_le (drop 4 ?data) = DLI2_VERSION"
    "read_u32_le (drop 8 ?data) = ?m" "read_u64_le (drop 12 ?data) = ?t"
    by (simp_all add: frame_bytes_def magic_matches_def)
  have parts: "drop 20 ?data = bytes_of_string (metadata_json f) @ tensor_bytes f"
    by (simp add: frame_bytes_def)
  then have parts': "drop (length (metadata_json f) + 20) ?data = tensor_bytes f"
    by (simp flip: drop_drop)
  have len: "word_of_nat DLI2_HEADER_BYTES + ucast ?m + ?t = (word_of_nat (length ?data) :: 64 word)"
  proof (rule word_unat_eq_iff [THEN iffD2])
    have "length ?data < 2 ^ 64"
      using assms by (simp add: length_frame_bytes frame_fits_def dli2_limits)
    then show "unat (word_of_nat DLI2_HEADER_BYTES + ucast ?m + ?t) =
        unat (word_of_nat (length ?data) :: 64 word)"
      using assms size_sum_64 [of ?m ?t] m t
      by (simp add: frame_fits_def length_frame_bytes unsigned_of_nat take_bit_nat_eq_self
          DLI2_HEADER_BYTES_def)
  qed
  show ?thesis
    using assms
    by (simp add: decode_frame_def decode_frame_ptr_def Let_def reads m t len parts frame_fits_def)
      (simp add: DLI2_HEADER_BYTES_def length_frame_bytes parts parts')
qed

lemma read_u32_le_take: "4 \<le> length d \<Longrightarrow> append_u32_le [] (read_u32_le d) = take 4 d"
proof -
  assume "4 \<le> length d"
  then have "append_u32_le [] (read_u32_le (take 4 d)) = take 4 d"
    by (intro append_read_u32_le) simp
  moreover have "read_u32_le (take 4 d) = read_u32_le d"
    by (simp add: read_u32_le_def)
  ultimately show ?thesis by simp
qed

lemma read_u64_le_take: "8 \<le> length d \<Longrightarrow> append_u64_le [] (read_u64_le d) = take 8 d"
proof -
  assume "8 \<le> length d"
  then have "append_u64_le [] (read_u64_le (take 8 d)) = take 8 d"
    by (intro append_read_u64_le) simp
  moreover have "read_u64_le (take 8 d) = read_u64_le d"
    unfolding read_u64_le_def by (intro fold_cong) simp_all
  ultimately show ?thesis by simp
qed

lemma split_header:
  "bs = take 4 bs @ take 4 (drop 4 bs) @ take 4 (drop 8 bs) @ take 8 (drop 12 bs) @ drop 20 bs"
proof -
  have step: "drop m bs = take n (drop m bs) @ drop (m + n) bs" for m n
    by (metis append_take_drop_id drop_drop add.commute)
  show ?thesis
    using append_take_drop_id [of 4 bs] step [of 4 4] step [of 8 4] step [of 12 8] by simp
qed

lemma decode_frame_ptr_accepts:
  assumes "decode_frame_ptr (Some bs) (length bs) = Inr f"
  shows "20 \<le> length bs" "magic_matches bs" "read_u32_le (drop 4 bs) = DLI2_VERSION"
    "unat (read_u32_le (drop 8 bs)) \<le> DLI2_MAX_METADATA_BYTES"
    "unat (read_u64_le (drop 12 bs)) \<le> DLI2_MAX_TENSOR_BYTES"
    "word_of_nat DLI2_HEADER_BYTES + ucast (read_u32_le (drop 8 bs)) + read_u64_le (drop 12 bs)
       = (word_of_nat (length bs) :: 64 word)"
    "metadata_json f = string_of_bytes (take (unat (read_u32_le (drop 8 bs))) (drop 20 bs))"
    "tensor_bytes f = take (unat (read_u64_le (drop 12 bs)))
       (drop (unat (read_u32_le (drop 8 bs))) (drop 20 bs))"
  using assms by (auto simp: decode_frame_ptr_def Let_def DLI2_HEADER_BYTES_def split: if_splits)

lemma decode_frame_Inr_bytes:
  assumes dec: "decode_frame bs = Inr f" and small: "length bs < 2 ^ 64"
  shows "frame_fits f \<and> bs = frame_bytes f"
proof -
  note acc = decode_frame_ptr_accepts [OF dec [unfolded decode_frame_def]]
  define m where "m = read_u32_le (drop 8 bs)"
  define t where "t = read_u64_le (drop 12 bs)"
  have "20 + unat m + unat t = length bs"
  proof -
    have "20 + unat m + unat t = unat (word_of_nat (length bs) :: 64 word)"
      using size_sum_64 [of m t] acc by (simp add: m_def t_def)
    then show ?thesis using small by (simp add: unsigned_of_nat take_bit_nat_eq_self)
  qed
  then have lens: "length (metadata_json f) = unat m" "length (tensor_bytes f) = unat t"
    and body: "drop 20 bs = bytes_of_string (metadata_json f) @ tensor_bytes f"
    using acc(7,8) append_take_drop_id [of "unat m" "drop 20 bs"]
    by (simp_all add: m_def t_def add.commute)
  have "bs = DLI2_MAGIC @ append_u32_le [] DLI2_VERSION @ append_u32_le [] m @
      append_u64_le [] t @ drop 20 bs"
    using split_header [of bs] acc(1,2,3) read_u32_le_take [of "drop 4 bs"]
      read_u32_le_take [of "drop 8 bs"] read_u64_le_take [of "drop 12 bs"]
    by (simp add: magic_matches_def m_def t_def)
  moreover have "frame_fits f"
    using acc(4,5) lens by (simp add: frame_fits_def m_def t_def)
  ultimately show ?thesis
    using lens body by (simp add: frame_bytes_def)
qed

text \<open>
  A bound on the buffer is needed because the lengths are compared modulo \<open>2^64\<close>; every
  buffer that fits in memory meets it.
\<close>

lemma frame_bytes_inj_prefix:
  assumes "frame_fits f" "frame_fits g" "frame_bytes g = frame_bytes f @ rest"
  shows "rest = []"
proof -
  have "read_u32_le (drop 8 (frame_bytes g)) = read_u32_le (drop 8 (frame_bytes f))"
    unfolding assms(3) by (simp add: frame_bytes_def)
  moreover have "read_u64_le (drop 12 (frame_bytes g)) = read_u64_le (drop 12 (frame_bytes f))"
    unfolding assms(3) by (simp add: frame_bytes_def)
  ultimately have m: "(word_of_nat (length (metadata_json g)) :: 32 word) = word_of_nat (length (metadata_json f))"
    and t: "(word_of_nat (length (tensor_bytes g)) :: 64 word) = word_of_nat (length (tensor_bytes f))"
    by (simp_all add: frame_bytes_def)
  have small: "frame_fits h \<Longrightarrow> length (metadata_json h) < 2 ^ 32 \<and> length (tensor_bytes h) < 2 ^ 64" for h
    by (auto simp: frame_fits_def dli2_limits)
  have "length (metadata_json g) = length (metadata_json f)" "length (tensor_bytes g) = length (tensor_bytes f)"
    using arg_cong [OF m, of unat] arg_cong [OF t, of unat] small [OF assms(1)] small [OF assms(2)]
    by (simp_all add: unsigned_of_nat take_bit_nat_eq_self)
  with arg_cong [OF assms(3), of length] show ?thesis by (simp add: length_frame_bytes)
qed

section \<open>Properties\<close>

text \<open>C39. A frame within the size limits is encoded, to 20 bytes plus its two parts, and decoding
  the result gives back exactly that frame.\<close>

theorem decode_encode_frame:
  assumes "frame_fits f"
  shows "\<exists>bs. encode_frame f = Inr bs \<and> decode_frame bs = Inr f \<and>
     length bs = 20 + length (metadata_json f) + length (tensor_bytes f)"
  using assms decode_frame_bytes [OF assms] by (simp add: encode_frame_Inr length_frame_bytes)

definition sample_frame :: dli_frame where
  "sample_frame = \<lparr>metadata_json = ''{}'', tensor_bytes = [1, 2, 255]\<rparr>"

lemma sample_frame_fits: "frame_fits sample_frame"
  by (simp add: sample_frame_def frame_fits_def dli2_limits)

theorem decode_encode_frame_witness:
  "\<exists>bs. encode_frame sample_frame = Inr bs \<and> decode_frame bs = Inr sample_frame \<and> length bs = 25"
  using decode_encode_frame [OF sample_frame_fits] by (simp add: sample_frame_def)

text \<open>C40. The wire format is canonical and self-delimiting: an accepted buffer is the encoding of
  the frame it decodes to, and neither a proper extension nor, therefore, a proper prefix of an
  accepted buffer is accepted.\<close>

theorem encode_decode_frame:
  assumes "decode_frame bs = Inr f" and "length (bs @ rest) < 2 ^ 64"
  shows "encode_frame f = Inr bs \<and> (rest \<noteq> [] \<longrightarrow> (\<exists>e. decode_frame (bs @ rest) = Inl e))"
proof (intro conjI impI)
  have f: "frame_fits f \<and> bs = frame_bytes f"
    using assms by (intro decode_frame_Inr_bytes) simp_all
  then show "encode_frame f = Inr bs" by (simp add: encode_frame_Inr)
  assume "rest \<noteq> []"
  then have "decode_frame (bs @ rest) \<noteq> Inr g" for g
    using f decode_frame_Inr_bytes [OF _ assms(2), of g] frame_bytes_inj_prefix by metis
  then show "\<exists>e. decode_frame (bs @ rest) = Inl e" by (metis sum.exhaust)
qed

theorem encode_decode_frame_witness:
  "decode_frame (frame_bytes sample_frame) = Inr sample_frame \<and>
   encode_frame sample_frame = Inr (frame_bytes sample_frame) \<and>
   (\<exists>e. decode_frame (frame_bytes sample_frame @ [0]) = Inl e)"
proof -
  have dec: "decode_frame (frame_bytes sample_frame) = Inr sample_frame"
    by (rule decode_frame_bytes) (rule sample_frame_fits)
  have "length (frame_bytes sample_frame @ [0]) < 2 ^ 64"
    by (simp add: length_frame_bytes sample_frame_def)
  from encode_decode_frame [OF dec this] dec show ?thesis by simp
qed

end
