(* ===== verification/Tensor_Abi.thy ===== *)
theory Tensor_Abi
  imports Prelude
begin

text \<open>
  The tensor ABI of \<open>tensor.hpp\<close>, \<open>tensor.cpp\<close> and \<open>dli2_abi.hpp\<close>: shapes, element types and
  the validators every stage runs before it touches a payload. A shape is a list of
  \<open>int64_t\<close> values, kept as integers with the wrap-around of the element product written out.
\<close>

record tensor_metadata =
  dtype :: string
  shape :: "int list"
  byte_order :: string

record tensor_buffer =
  metadata :: tensor_metadata
  bytes :: "byte list"

datatype dli2_payload_kind = TokenIds | HiddenStates | EmptyPayload

definition default_tensor_metadata :: tensor_metadata where
  "default_tensor_metadata = \<lparr>dtype = [], shape = [], byte_order = ''little''\<rparr>"

definition empty_tensor :: tensor_buffer where
  "empty_tensor = \<lparr>metadata = default_tensor_metadata, bytes = []\<rparr>"

definition infer_sequence_length_from_shape :: "int list \<Rightarrow> int" where
  "infer_sequence_length_from_shape sh =
     (if sh = [] then 0
      else if length sh \<ge> 2 then let s = sh ! 1 in (if s > 0 then i32_wrap s else 0)
      else let s = sh ! 0 in (if s > 0 then i32_wrap s else 0))"

section \<open>The ABI header\<close>

definition dtype_token_ids :: string where "dtype_token_ids = ''int64''"
definition dtype_hidden_f32 :: string where "dtype_hidden_f32 = ''float32''"
definition dtype_hidden_f16 :: string where "dtype_hidden_f16 = ''float16''"
definition byte_order_little :: string where "byte_order_little = ''little''"

lemmas dtype_names = dtype_token_ids_def dtype_hidden_f32_def dtype_hidden_f16_def byte_order_little_def

definition product_shape :: "int list \<Rightarrow> int result" where
  "product_shape sh =
     (if sh = [] then Inr 0
      else foldR (\<lambda>dim product.
             if dim \<le> 0 then Inl ''DLI2 tensor shape contains non-positive dimension''
             else Inr (i64_wrap (product * dim))) sh 1)"

definition dtype_size_bytes :: "string \<Rightarrow> int result" where
  "dtype_size_bytes dt =
     (if dt = dtype_token_ids then Inr 8
      else if dt = dtype_hidden_f32 then Inr 4
      else if dt = dtype_hidden_f16 then Inr 2
      else Inl (''unsupported DLI2 dtype: '' @ dt))"

definition validate_tensor_byte_size :: "tensor_buffer \<Rightarrow> unit result" where
  "validate_tensor_byte_size tensor =
     bindR (product_shape (shape (metadata tensor))) (\<lambda>elements.
       if elements < 0 then Inl ''invalid DLI2 tensor element count''
       else bindR (dtype_size_bytes (dtype (metadata tensor))) (\<lambda>elem_size.
         let expected = u64_wrap (elements * elem_size)
         in if int (length (bytes tensor)) \<noteq> expected
            then Inl (''DLI2 tensor byte size mismatch: expected '' @ show_int expected @
                      '' bytes, got '' @ show_nat (length (bytes tensor)))
            else Inr ()))"

definition validate_little_endian :: "tensor_buffer \<Rightarrow> unit result" where
  "validate_little_endian tensor =
     (if byte_order (metadata tensor) = [] \<or> byte_order (metadata tensor) = byte_order_little
      then Inr ()
      else Inl (''unsupported DLI2 tensor byte_order: '' @ byte_order (metadata tensor)))"

definition validate_token_ids_tensor :: "tensor_buffer \<Rightarrow> unit result" where
  "validate_token_ids_tensor tensor =
     bindR (validate_little_endian tensor) (\<lambda>_.
       if dtype (metadata tensor) \<noteq> dtype_token_ids
       then Inl (''DLI2 token ids tensor must have dtype=int64, got '' @ dtype (metadata tensor))
       else if length (shape (metadata tensor)) \<noteq> 2
       then Inl ''DLI2 token ids tensor must have shape [batch, seq]''
       else validate_tensor_byte_size tensor)"

definition validate_hidden_states_tensor :: "tensor_buffer \<Rightarrow> int \<Rightarrow> bool \<Rightarrow> unit result" where
  "validate_hidden_states_tensor tensor expected_hidden_size allow_float16 =
     bindR (validate_little_endian tensor) (\<lambda>_.
       let is_f32 = (dtype (metadata tensor) = dtype_hidden_f32);
           is_f16 = (dtype (metadata tensor) = dtype_hidden_f16);
           sh = shape (metadata tensor)
       in if \<not> is_f32 \<and> \<not> (allow_float16 \<and> is_f16)
          then Inl ''DLI2 hidden states tensor must have dtype=float32 during correctness phase''
          else if length sh \<noteq> 3
          then Inl ''DLI2 hidden states tensor must have shape [batch, seq, hidden_size]''
          else if expected_hidden_size > 0 \<and> sh ! 2 \<noteq> expected_hidden_size
          then Inl (''DLI2 hidden_size mismatch: expected '' @ show_int expected_hidden_size @
                    '', got '' @ show_int (sh ! 2))
          else if \<not> is_f32 \<and> \<not> (allow_float16 \<and> is_f16)
          then Inl (if allow_float16
                    then ''DLI2 hidden states tensor must have dtype=float32 or float16''
                    else ''DLI2 hidden states tensor must have dtype=float32'')
          else validate_tensor_byte_size tensor)"

definition infer_dli2_payload_kind :: "tensor_buffer \<Rightarrow> dli2_payload_kind result" where
  "infer_dli2_payload_kind tensor =
     (if bytes tensor = [] \<and> shape (metadata tensor) = [] then Inr EmptyPayload
      else if dtype (metadata tensor) = dtype_token_ids then Inr TokenIds
      else if dtype (metadata tensor) = dtype_hidden_f32 \<or> dtype (metadata tensor) = dtype_hidden_f16
      then Inr HiddenStates
      else Inl (''cannot infer DLI2 payload kind for dtype: '' @ dtype (metadata tensor)))"

definition dli2_batch_size :: "tensor_buffer \<Rightarrow> int" where
  "dli2_batch_size tensor =
     (if shape (metadata tensor) = [] then 0 else shape (metadata tensor) ! 0)"

definition dli2_sequence_length :: "tensor_buffer \<Rightarrow> int" where
  "dli2_sequence_length tensor =
     (if length (shape (metadata tensor)) < 2 then 0 else shape (metadata tensor) ! 1)"

section \<open>The element product\<close>

lemma i64_wrap_mult: "i64_wrap (i64_wrap a * b) = i64_wrap (a * b)"
proof -
  have "(i64_wrap a * b) mod 2 ^ 64 = (a * b) mod 2 ^ 64"
    by (metis i64_wrap_mod mod_mult_left_eq)
  then have "(i64_wrap a * b + 2 ^ 63) mod 2 ^ 64 = (a * b + 2 ^ 63) mod 2 ^ 64"
    by (metis mod_add_left_eq)
  then show ?thesis by (simp add: i64_wrap_def)
qed

lemma product_loop:
  assumes "\<forall>d \<in> set sh. d > 0" and "i64_wrap p = p"
  shows "foldR (\<lambda>dim product.
             if dim \<le> 0 then Inl ''DLI2 tensor shape contains non-positive dimension''
             else Inr (i64_wrap (product * dim))) sh p = Inr (i64_wrap (p * prod_list sh))"
  using assms
proof (induction sh arbitrary: p)
  case (Cons d sh)
  have idem: "i64_wrap (i64_wrap (p * d)) = i64_wrap (p * d)"
    using i64_wrap_mult [of "p * d" 1] by simp
  from Cons.prems(1) Cons.IH [OF _ idem] show ?case
    by (simp add: i64_wrap_mult mult.assoc)
qed simp

lemma product_shape_positive:
  assumes "sh \<noteq> []" "\<forall>d \<in> set sh. d > 0"
  shows "product_shape sh = Inr (i64_wrap (prod_list sh))"
  using assms product_loop [of sh 1] by (simp add: product_shape_def i64_wrap_def)

lemma product_loop_bad:
  assumes "\<exists>d \<in> set sh. d \<le> 0"
  shows "foldR (\<lambda>dim product.
             if dim \<le> 0 then Inl ''DLI2 tensor shape contains non-positive dimension''
             else Inr (i64_wrap (product * dim))) sh p
     = Inl ''DLI2 tensor shape contains non-positive dimension''"
  using assms by (induction sh arbitrary: p) auto

lemma product_shape_nonpositive:
  "\<exists>d \<in> set sh. d \<le> 0 \<Longrightarrow>
     product_shape sh = Inl ''DLI2 tensor shape contains non-positive dimension''"
  using product_loop_bad [of sh 1] by (auto simp: product_shape_def)

lemma product_shape_Inr:
  "product_shape sh = Inr n \<longleftrightarrow>
     (sh = [] \<and> n = 0) \<or> (sh \<noteq> [] \<and> (\<forall>d \<in> set sh. d > 0) \<and> n = i64_wrap (prod_list sh))"
proof (cases "\<exists>d \<in> set sh. d \<le> 0")
  case True
  then have "sh \<noteq> []" "\<not> (\<forall>d \<in> set sh. d > 0)" by (auto simp: not_less)
  with product_shape_nonpositive [OF True] show ?thesis by simp
next
  case False
  then show ?thesis
    using product_shape_positive [of sh] by (cases "sh = []") (auto simp: product_shape_def not_le)
qed

lemma prod_list_pos: "\<forall>d \<in> set sh. d > 0 \<Longrightarrow> 0 < prod_list (sh :: int list)"
  by (induction sh) simp_all

lemma dtype_size_pos: "dtype_size_bytes dt = Inr k \<Longrightarrow> k = 2 \<or> k = 4 \<or> k = 8"
  by (auto simp: dtype_size_bytes_def split: if_splits)

lemma validate_tensor_byte_size_Inr:
  "validate_tensor_byte_size t = Inr u \<longleftrightarrow>
     (\<exists>n k. product_shape (shape (metadata t)) = Inr n \<and> 0 \<le> n \<and>
        dtype_size_bytes (dtype (metadata t)) = Inr k \<and>
        int (length (bytes t)) = u64_wrap (n * k))"
  by (simp add: validate_tensor_byte_size_def bindR_def Let_def not_le split: sum.splits)

section \<open>Properties\<close>

text \<open>When the element count and the byte count fit their machine types, the byte-size check
  accepts a non-empty shape exactly if every dimension is positive and the payload has
  (product of the dimensions) times (element size) bytes.\<close>

theorem validate_tensor_byte_size_exact:
  assumes "shape (metadata t) \<noteq> []" and "dtype_size_bytes (dtype (metadata t)) = Inr k"
    and "prod_list (shape (metadata t)) < 2 ^ 63" and "prod_list (shape (metadata t)) * k < 2 ^ 64"
  shows "validate_tensor_byte_size t = Inr () \<longleftrightarrow>
     (\<forall>d \<in> set (shape (metadata t)). d > 0) \<and>
     int (length (bytes t)) = prod_list (shape (metadata t)) * k"
proof (cases "\<forall>d \<in> set (shape (metadata t)). d > 0")
  case True
  then have pos: "0 < prod_list (shape (metadata t))" by (rule prod_list_pos)
  have "i64_wrap (prod_list (shape (metadata t))) = prod_list (shape (metadata t))"
    using pos assms(3) by (intro i64_wrap_id) simp_all
  moreover have "u64_wrap (prod_list (shape (metadata t)) * k) = prod_list (shape (metadata t)) * k"
    using pos assms(4) dtype_size_pos [OF assms(2)] by (intro u64_wrap_id) auto
  ultimately show ?thesis
    using True pos assms(1,2) by (auto simp: validate_tensor_byte_size_Inr product_shape_Inr)
next
  case False
  then show ?thesis using assms(1) by (auto simp: validate_tensor_byte_size_Inr product_shape_Inr)
qed

definition two_tokens :: tensor_buffer where
  "two_tokens = \<lparr>metadata = \<lparr>dtype = ''int64'', shape = [1, 2], byte_order = ''little''\<rparr>,
     bytes = replicate 16 0\<rparr>"

theorem validate_tensor_byte_size_exact_witness:
  "validate_tensor_byte_size two_tokens = Inr ()"
proof -
  have "shape (metadata two_tokens) \<noteq> []" "dtype_size_bytes (dtype (metadata two_tokens)) = Inr 8"
    "prod_list (shape (metadata two_tokens)) < 2 ^ 63"
    "prod_list (shape (metadata two_tokens)) * 8 < 2 ^ 64"
    by (simp_all add: two_tokens_def dtype_size_bytes_def dtype_names)
  from validate_tensor_byte_size_exact [OF this] show ?thesis
    by (simp add: two_tokens_def)
qed

text \<open>The byte count is computed modulo \<open>2^64\<close>: a token tensor that declares \<open>2^61\<close> tokens and
  carries no byte at all passes the validator of the token payload.\<close>

theorem validate_token_ids_tensor_overflow:
  "validate_token_ids_tensor
     \<lparr>metadata = \<lparr>dtype = ''int64'', shape = [1, 2 ^ 61], byte_order = ''little''\<rparr>, bytes = []\<rparr>
   = Inr ()"
  by (simp add: validate_token_ids_tensor_def validate_little_endian_def dtype_names
      validate_tensor_byte_size_def product_shape_def i64_wrap_def u64_wrap_def dtype_size_bytes_def)

end
