(* ===== verification/Float_Bits.thy ===== *)
theory Float_Bits
  imports Prelude "HOL-Library.While_Combinator"
begin

text \<open>
  Floating point values as bit patterns. A \<open>float\<close> is a 32-bit word, a \<open>double\<close> a 64-bit
  word and a half-precision value a 16-bit word, so \<open>memcpy\<close> between a float and an integer is
  the identity and the serialisation code is modelled bit for bit. Comparisons are defined on
  the patterns (IEEE 754 order: NaN is unordered, the two zeros are equal). The arithmetic of
  the machine is the record \<open>fpu\<close>, a parameter: the theorems hold for every choice of it, in
  particular for the rounding arithmetic of the hardware.

  The conversions to and from half precision are those of \<open>llama_cpu_executor.cpp\<close>.
\<close>

type_synonym f16 = "16 word"
type_synonym f32 = "32 word"
type_synonym f64 = "64 word"

record fpu =
  fadd :: "f32 \<Rightarrow> f32 \<Rightarrow> f32"
  fsub :: "f32 \<Rightarrow> f32 \<Rightarrow> f32"
  fmul :: "f32 \<Rightarrow> f32 \<Rightarrow> f32"
  fdiv :: "f32 \<Rightarrow> f32 \<Rightarrow> f32"
  fsqrt :: "f32 \<Rightarrow> f32"
  fexp :: "f32 \<Rightarrow> f32"
  fcos :: "f32 \<Rightarrow> f32"
  fsin :: "f32 \<Rightarrow> f32"
  fpow :: "f32 \<Rightarrow> f32 \<Rightarrow> f32"
  fneg :: "f32 \<Rightarrow> f32"
  f32_of_int :: "int \<Rightarrow> f32"
  f64_of_f32 :: "f32 \<Rightarrow> f64"
  f32_of_f64 :: "f64 \<Rightarrow> f32"
  f64_of_int :: "int \<Rightarrow> f64"
  dadd :: "f64 \<Rightarrow> f64 \<Rightarrow> f64"
  dmul :: "f64 \<Rightarrow> f64 \<Rightarrow> f64"
  ddiv :: "f64 \<Rightarrow> f64 \<Rightarrow> f64"
  dexp :: "f64 \<Rightarrow> f64"

definition f32_zero :: f32 where "f32_zero = 0"
definition f32_one :: f32 where "f32_one = 0x3F800000"
definition f32_neg_infinity :: f32 where "f32_neg_infinity = 0xFF800000"
definition f64_zero :: f64 where "f64_zero = 0"

section \<open>IEEE comparisons on bit patterns\<close>

definition f32_is_nan :: "f32 \<Rightarrow> bool" where
  "f32_is_nan x \<longleftrightarrow> x AND 0x7FFFFFFF > 0x7F800000"

definition f32_key :: "f32 \<Rightarrow> int" where
  "f32_key x = (if bit x 31 then - uint (x AND 0x7FFFFFFF) else uint (x AND 0x7FFFFFFF))"

definition f32_lt :: "f32 \<Rightarrow> f32 \<Rightarrow> bool" where
  "f32_lt a b \<longleftrightarrow> \<not> f32_is_nan a \<and> \<not> f32_is_nan b \<and> f32_key a < f32_key b"

definition f32_le :: "f32 \<Rightarrow> f32 \<Rightarrow> bool" where
  "f32_le a b \<longleftrightarrow> \<not> f32_is_nan a \<and> \<not> f32_is_nan b \<and> f32_key a \<le> f32_key b"

definition f64_is_nan :: "f64 \<Rightarrow> bool" where
  "f64_is_nan x \<longleftrightarrow> x AND 0x7FFFFFFFFFFFFFFF > 0x7FF0000000000000"

definition f64_key :: "f64 \<Rightarrow> int" where
  "f64_key x = (if bit x 63 then - uint (x AND 0x7FFFFFFFFFFFFFFF)
                else uint (x AND 0x7FFFFFFFFFFFFFFF))"

definition f64_lt :: "f64 \<Rightarrow> f64 \<Rightarrow> bool" where
  "f64_lt a b \<longleftrightarrow> \<not> f64_is_nan a \<and> \<not> f64_is_nan b \<and> f64_key a < f64_key b"

definition f64_le :: "f64 \<Rightarrow> f64 \<Rightarrow> bool" where
  "f64_le a b \<longleftrightarrow> \<not> f64_is_nan a \<and> \<not> f64_is_nan b \<and> f64_key a \<le> f64_key b"

text \<open>\<open>std::max(a, b)\<close> is \<open>(a < b) ? b : a\<close>.\<close>

definition f32_max :: "f32 \<Rightarrow> f32 \<Rightarrow> f32" where
  "f32_max a b = (if f32_lt a b then b else a)"

lemma f32_lt_trans: "f32_lt a b \<Longrightarrow> f32_lt b c \<Longrightarrow> f32_lt a c"
  by (auto simp: f32_lt_def)

lemma f32_lt_irrefl [simp]: "\<not> f32_lt a a"
  by (simp add: f32_lt_def)

lemma f32_not_lt_trans:
  "\<not> f32_is_nan b \<Longrightarrow> \<not> f32_lt a b \<Longrightarrow> \<not> f32_lt b c \<Longrightarrow> \<not> f32_lt a c"
  by (auto simp: f32_lt_def)

section \<open>Half precision\<close>

definition float_to_f16_bits :: "f32 \<Rightarrow> f16" where
  "float_to_f16_bits bits =
     (let sign = drop_bit 16 bits AND 0x8000;
          exponent = uint (drop_bit 23 bits AND 0xFF) - 127 + 15;
          mantissa = bits AND 0x7FFFFF
      in if exponent \<le> 0
         then if exponent < - 10 then ucast sign
              else let mantissa = drop_bit (nat (1 - exponent)) (mantissa OR 0x800000)
                   in ucast (sign OR drop_bit 13 (mantissa + 0x1000))
         else if exponent \<ge> 31 then ucast (sign OR 0x7C00)
         else ucast (sign OR push_bit 10 (word_of_int exponent) OR drop_bit 13 (mantissa + 0x1000)))"

text \<open>The loop that normalises a subnormal: shift the mantissa left until bit 10 is set.\<close>

definition f16_normalise :: "f32 \<times> f32 \<Rightarrow> (f32 \<times> f32) option" where
  "f16_normalise =
     while_option (\<lambda>(mantissa, exponent). mantissa AND 0x400 = 0)
       (\<lambda>(mantissa, exponent). (push_bit 1 mantissa, exponent - 1))"

definition f16_bits_to_float :: "f16 \<Rightarrow> f32" where
  "f16_bits_to_float value =
     (let sign = push_bit 16 (ucast (value AND 0x8000)) :: f32;
          exponent = ucast (drop_bit 10 value AND 0x1F) :: f32;
          mantissa = ucast (value AND 0x3FF) :: f32
      in if exponent = 0
         then if mantissa = 0 then sign
              else case f16_normalise (mantissa, 1) of
                     None \<Rightarrow> sign
                   | Some (mantissa, exponent) \<Rightarrow>
                       sign OR push_bit 23 (exponent + (127 - 15)) OR push_bit 13 (mantissa AND 0x3FF)
         else if exponent = 31 then sign OR 0x7F800000 OR push_bit 13 mantissa
         else sign OR push_bit 23 (exponent + (127 - 15)) OR push_bit 13 mantissa)"

section \<open>Fields of the patterns\<close>

lemma mask_words:
  "x AND 0x7FFFFF = take_bit 23 (x :: 32 word)" "x AND 0xFF = take_bit 8 (x :: 32 word)"
  "x AND 0x3FF = take_bit 10 (x :: 32 word)" "y AND 0x3FF = take_bit 10 (y :: 16 word)"
  "y AND 0x1F = take_bit 5 (y :: 16 word)"
  by (simp_all add: take_bit_eq_mask mask_eq_exp_minus_1)

lemma sign_words:
  "x AND 0x8000 = (if bit x 15 then 0x8000 else (0 :: 32 word))"
  "y AND 0x8000 = (if bit y 15 then 0x8000 else (0 :: 16 word))"
proof -
  have 1: "(0x8000 :: 32 word) = push_bit 15 1" and 2: "(0x8000 :: 16 word) = push_bit 15 1" by simp_all
  show "x AND 0x8000 = (if bit x 15 then 0x8000 else (0 :: 32 word))"
    unfolding 1 by (rule bit_word_eqI) (auto simp: bit_simps simp del: push_bit_of_1)
  show "y AND 0x8000 = (if bit y 15 then 0x8000 else (0 :: 16 word))"
    unfolding 2
  proof (rule bit_word_eqI)
    fix n assume "n < LENGTH(16)"
    then have "n = 15 \<or> n < 15" by auto
    then show "bit (y AND push_bit 15 1) n = bit (if bit y 15 then push_bit 15 1 else (0 :: 16 word)) n"
      by (auto simp: bit_simps simp del: push_bit_of_1)
  qed
qed

definition sign32 :: "bool \<Rightarrow> f32" where "sign32 s = (if s then push_bit 31 1 else 0)"
definition sign16 :: "bool \<Rightarrow> f16" where "sign16 s = (if s then push_bit 15 1 else 0)"

lemma bit_sign [bit_simps]:
  "bit (sign32 s) n \<longleftrightarrow> s \<and> n = 31" "bit (sign16 s) n \<longleftrightarrow> s \<and> n = 15"
  by (auto simp: sign32_def sign16_def bit_simps simp del: push_bit_of_1)

lemma round_exact:
  assumes "take_bit 10 m = (m :: 32 word)"
  shows "drop_bit 13 (push_bit 13 m + 0x1000) = m"
proof -
  have c: "(0x1000 :: 32 word) = push_bit 12 1" by simp
  have b: "bit m n \<Longrightarrow> n < 10" for n using assms by (metis bit_take_bit_iff)
  have "push_bit 13 m + 0x1000 = push_bit 13 m OR 0x1000"
    unfolding c by (rule disjunctive_add) (auto simp: bit_simps simp del: push_bit_of_1)
  then show ?thesis
    unfolding c by (intro bit_word_eqI) (auto simp: bit_simps simp del: push_bit_of_1 dest: b)
qed

definition pack_f32 :: "bool \<Rightarrow> f32 \<Rightarrow> f32 \<Rightarrow> f32" where
  "pack_f32 s e m = sign32 s OR push_bit 23 e OR m"

lemma pack_f32_fields:
  assumes "take_bit 8 e = e" "take_bit 23 m = m"
  shows "bit (drop_bit 16 (pack_f32 s e m)) 15 = s" "take_bit 8 (drop_bit 23 (pack_f32 s e m)) = e"
    "take_bit 23 (pack_f32 s e m) = m"
proof -
  have b: "bit e n \<Longrightarrow> n < 8" "bit m n \<Longrightarrow> n < 23" for n
    using assms by (metis bit_take_bit_iff)+
  show "bit (drop_bit 16 (pack_f32 s e m)) 15 = s"
    by (auto simp: pack_f32_def bit_simps dest: b)
  show "take_bit 8 (drop_bit 23 (pack_f32 s e m)) = e"
    by (rule bit_word_eqI) (auto simp: pack_f32_def bit_simps dest: b)
  show "take_bit 23 (pack_f32 s e m) = m"
    by (rule bit_word_eqI) (auto simp: pack_f32_def bit_simps dest: b)
qed

lemma encode_pack_f32:
  assumes "take_bit 8 e = e" "take_bit 23 m = m"
  shows "float_to_f16_bits (pack_f32 s e m) =
     (let exponent = uint e - 112
      in if exponent \<le> 0
         then if exponent < - 10 then sign16 s
              else ucast (ucast (sign16 s) OR drop_bit 13
                  (drop_bit (nat (1 - exponent)) (m OR 0x800000) + 0x1000))
         else if exponent \<ge> 31 then sign16 s OR 0x7C00
         else ucast (ucast (sign16 s) OR push_bit 10 (word_of_int exponent) OR drop_bit 13 (m + 0x1000)))"
  using pack_f32_fields [OF assms, of s]
  by (simp add: float_to_f16_bits_def Let_def mask_words sign_words sign16_def)

definition pack32 :: "bool \<Rightarrow> f32 \<Rightarrow> f32 \<Rightarrow> f32" where
  "pack32 s e m = pack_f32 s e (push_bit 13 m)"

lemma encode_pack32:
  assumes "take_bit 8 e = e" "take_bit 10 m = m"
  shows "float_to_f16_bits (pack32 s e m) =
     (let exponent = uint e - 112
      in if exponent \<le> 0
         then if exponent < - 10 then sign16 s
              else ucast (ucast (sign16 s) OR drop_bit 13
                  (drop_bit (nat (1 - exponent)) (push_bit 13 m OR 0x800000) + 0x1000))
         else if exponent \<ge> 31 then sign16 s OR 0x7C00
         else ucast (ucast (sign16 s) OR push_bit 10 (word_of_int exponent) OR m))"
proof -
  have b: "bit m n \<Longrightarrow> n < 10" for n using assms(2) by (metis bit_take_bit_iff)
  have "take_bit 23 (push_bit 13 m) = push_bit 13 m"
    by (rule bit_word_eqI) (auto simp: bit_simps dest: b)
  from encode_pack_f32 [OF assms(1) this, of s] show ?thesis
    by (simp add: pack32_def Let_def round_exact [OF assms(2)])
qed

lemma decode_fields:
  "f16_bits_to_float h =
     (let e = ucast (take_bit 5 (drop_bit 10 h)) :: f32; m = ucast (take_bit 10 h) :: f32; s = bit h 15
      in if e = 0
         then if m = 0 then pack32 s 0 0
              else case f16_normalise (m, 1) of None \<Rightarrow> sign32 s
                | Some (m, e) \<Rightarrow> pack32 s (e + 112) (take_bit 10 m)
         else if e = 31 then pack32 s 255 m
         else pack32 s (e + 112) m)"
proof -
  have "push_bit 16 (ucast (if bit h 15 then 0x8000 else (0 :: 16 word))) = sign32 (bit h 15)"
    by (simp add: sign32_def)
  then show ?thesis
    by (simp add: f16_bits_to_float_def mask_words sign_words pack32_def pack_f32_def Let_def split: option.splits)
qed

lemma f16_split:
  "h = sign16 (bit h 15) OR push_bit 10 (take_bit 5 (drop_bit 10 h)) OR take_bit 10 h"
proof (rule bit_word_eqI)
  fix n assume "n < LENGTH(16)"
  then have "n = 15 \<or> n < 15" by auto
  then show "bit h n = bit (sign16 (bit h 15) OR push_bit 10 (take_bit 5 (drop_bit 10 h)) OR take_bit 10 h) n"
    by (auto simp: bit_simps)
qed

lemma ucast_take_bits:
  "take_bit 8 (ucast (take_bit 5 (x :: 16 word)) :: 32 word) = ucast (take_bit 5 x)"
  "take_bit 10 (ucast (take_bit 10 (x :: 16 word)) :: 32 word) = ucast (take_bit 10 x)"
  by (rule bit_word_eqI, auto simp: bit_simps)+

lemma uint_field:
  "uint (ucast (take_bit 5 (x :: 16 word)) :: 32 word) = uint (take_bit 5 x)"
  "uint (take_bit 5 (x :: 16 word)) < 32"
proof -
  show "uint (ucast (take_bit 5 (x :: 16 word)) :: 32 word) = uint (take_bit 5 x)"
    by (simp add: unsigned_ucast_eq unsigned_take_bit_eq)
  show "uint (take_bit 5 (x :: 16 word)) < 32"
    using take_bit_int_less_exp [of 5 "uint x"] by (simp add: unsigned_take_bit_eq)
qed

text \<open>The normalisation loop stops after at most ten steps, with the leading bit in position 10.\<close>

lemma f16_normalise_run:
  assumes "\<And>j. j < k \<Longrightarrow> push_bit j m AND 0x400 = 0" "push_bit k m AND 0x400 \<noteq> (0 :: f32)"
  shows "f16_normalise (m, e) = Some (push_bit k m, e - word_of_nat k)"
  using assms
proof (induction k arbitrary: m e)
  case 0
  then show ?case by (simp add: f16_normalise_def while_option_unfold)
next
  case (Suc k)
  have step: "f16_normalise (m, e) = f16_normalise (push_bit 1 m, e - 1)"
    using Suc.prems(1) [of 0] unfolding f16_normalise_def by (subst while_option_unfold) simp
  have "f16_normalise (push_bit 1 m, e - 1) = Some (push_bit k (push_bit 1 m), e - 1 - word_of_nat k)"
    using Suc.prems(1) [of "Suc j" for j] Suc.prems(2) by (intro Suc.IH) simp_all
  then show ?case using step by (simp add: algebra_simps)
qed

lemma normalise_subnormal:
  assumes "take_bit 10 m = m" "m \<noteq> (0 :: f32)"
  obtains k where "1 \<le> k" "k \<le> 10" "bit m (10 - k)" "\<And>n. bit m n \<Longrightarrow> n \<le> 10 - k"
    "f16_normalise (m, e) = Some (push_bit k m, e - word_of_nat k)"
proof -
  have c: "(0x400 :: f32) = push_bit 10 1" by simp
  have and_bit: "x AND 0x400 = 0 \<longleftrightarrow> \<not> bit x 10" for x :: f32
  proof
    assume "x AND 0x400 = 0"
    then have "\<not> bit (x AND push_bit 10 1) 10" by simp
    then show "\<not> bit x 10" by (simp add: bit_simps del: push_bit_of_1)
  next
    assume "\<not> bit x 10"
    then have "x AND push_bit 10 1 = 0"
      by (intro bit_word_eqI) (auto simp: bit_simps simp del: push_bit_of_1)
    then show "x AND 0x400 = 0" by simp
  qed
  have b: "bit m n \<Longrightarrow> n < 10" for n using assms(1) by (metis bit_take_bit_iff)
  define k where "k = (LEAST k. k \<le> 10 \<and> bit m (10 - k))"
  obtain n where n: "bit m n" using assms(2) by (metis bit_eq_iff bit_0_eq bot_apply bot_bool_def)
  then have ex: "10 - n \<le> 10 \<and> bit m (10 - (10 - n))" using b [OF n] by simp
  have k: "k \<le> 10 \<and> bit m (10 - k)" unfolding k_def by (rule LeastI [where P = "\<lambda>k. k \<le> 10 \<and> bit m (10 - k)", OF ex])
  have min: "\<not> (j \<le> 10 \<and> bit m (10 - j))" if "j < k" for j
    using that not_less_Least [of j "\<lambda>k. k \<le> 10 \<and> bit m (10 - k)"] unfolding k_def by blast
  have "1 \<le> k" using k b [of 10] by (cases k) auto
  moreover have "n \<le> 10 - k" if "bit m n" for n
    using min [of "10 - n"] that b [OF that] k by (metis diff_diff_cancel diff_le_mono2 diff_le_self less_imp_le nat_le_linear not_le)
  moreover have "f16_normalise (m, e) = Some (push_bit k m, e - word_of_nat k)"
    using k min by (intro f16_normalise_run) (auto simp: and_bit bit_simps)
  ultimately show thesis using that k by blast
qed


lemma roundtrip_normal:
  assumes "take_bit 5 (drop_bit 10 h) \<noteq> 0" "take_bit 5 (drop_bit 10 h) \<noteq> 31"
  shows "float_to_f16_bits (f16_bits_to_float h) = h"
proof -
  let ?e5 = "take_bit 5 (drop_bit 10 h)"
  let ?e = "ucast ?e5 :: f32" and ?m = "ucast (take_bit 10 h) :: f32" and ?s = "bit h 15"
  have "uint ?e5 \<noteq> uint (0 :: 16 word)" "uint ?e5 \<noteq> uint (31 :: 16 word)"
    using assms by (simp_all only: word_uint_eq_iff [symmetric])  simp_all
  then have r: "0 < uint ?e5" "uint ?e5 < 31"
    using uint_field(2) [of "drop_bit 10 h"] by (simp_all add: order_less_le)
  have ue: "uint ?e = uint ?e5" by (rule uint_field)
  have nz: "?e \<noteq> 0" "?e \<noteq> 31"
    using r ue by auto
  have sum: "uint (?e + 112) = uint ?e5 + 112"
    using r ue by (simp add: uint_word_ariths)
  have fit: "take_bit 8 (?e + 112) = ?e + 112"
    using sum r by (intro word_uint_eqI) (simp add: unsigned_take_bit_eq take_bit_int_eq_self)
  have "f16_bits_to_float h = pack32 ?s (?e + 112) ?m"
    using nz by (simp add: decode_fields Let_def)
  also have "float_to_f16_bits \<dots> =
      ucast (ucast (sign16 ?s) OR push_bit 10 (word_of_int (uint ?e5)) OR ?m)"
    using r sum by (subst encode_pack32 [OF fit ucast_take_bits(2)]) (simp add: Let_def)
  also have "\<dots> = sign16 ?s OR push_bit 10 ?e5 OR take_bit 10 h"
    by (rule bit_word_eqI) (auto simp: bit_simps)
  also have "\<dots> = h" by (rule f16_split [symmetric])
  finally show ?thesis .
qed


lemma ucast_sign16: "ucast (ucast (sign16 s) :: f32) = sign16 s"
  by (rule bit_word_eqI) (auto simp: bit_simps)

lemma roundtrip_subnormal:
  assumes "take_bit 5 (drop_bit 10 h) = 0" "take_bit 10 h \<noteq> 0"
  shows "float_to_f16_bits (f16_bits_to_float h) = h"
proof -
  let ?m = "ucast (take_bit 10 h) :: f32" and ?s = "bit h 15"
  have nz: "?m \<noteq> 0"
  proof
    assume "?m = 0"
    then have "(ucast ?m :: 16 word) = 0" by simp
    moreover have "(ucast ?m :: 16 word) = take_bit 10 h" by (rule bit_word_eqI) (auto simp: bit_simps)
    ultimately show False using assms(2) by simp
  qed
  obtain k where k: "1 \<le> k" "k \<le> 10" and top: "bit ?m (10 - k)"
    and low: "\<And>n. bit ?m n \<Longrightarrow> n \<le> 10 - k"
    and run: "f16_normalise (?m, 1) = Some (push_bit k ?m, 1 - word_of_nat k)"
    using normalise_subnormal [OF ucast_take_bits(2) nz, of 1] by metis
  define e where "e = 1 - word_of_nat k + (112 :: f32)"
  have e: "uint e = 113 - int k"
  proof -
    have eq: "e = word_of_int (113 - int k)"
      by (simp add: e_def)
    show ?thesis using k by (simp only: eq uint_word_of_int) simp
  qed
  have fit: "take_bit 8 e = e"
    using e k by (intro word_uint_eqI) (simp add: unsigned_take_bit_eq take_bit_int_eq_self)
  have dec: "f16_bits_to_float h = pack32 ?s e (take_bit 10 (push_bit k ?m))"
    using assms(1) nz run by (simp add: decode_fields Let_def e_def)
  have c: "(0x800000 :: f32) = push_bit 23 1" by simp
  have hidden: "push_bit 13 (take_bit 10 (push_bit k ?m)) OR 0x800000 = push_bit 13 (push_bit k ?m)"
    unfolding c
  proof (rule bit_word_eqI)
    fix n assume "n < LENGTH(32)"
    show "bit (push_bit 13 (take_bit 10 (push_bit k ?m)) OR push_bit 23 1) n =
        bit (push_bit 13 (push_bit k ?m)) n"
      using k top low [of "n - 13 - k"] by (auto simp: bit_simps simp del: push_bit_of_1)
  qed
  have unshift: "drop_bit k (push_bit 13 (push_bit k ?m)) = push_bit 13 ?m"
  proof (rule bit_word_eqI)
    fix n assume "n < LENGTH(32)"
    show "bit (drop_bit k (push_bit 13 (push_bit k ?m))) n = bit (push_bit 13 ?m) n"
    proof (cases "bit ?m (n - 13)")
      case True
      then show ?thesis using k low [OF True] \<open>n < LENGTH(32)\<close> by (auto simp: bit_simps)
    next
      case False
      then show ?thesis using k by (auto simp: bit_simps)
    qed
  qed
  have "float_to_f16_bits (f16_bits_to_float h) =
      ucast (ucast (sign16 ?s) OR drop_bit 13 (push_bit 13 ?m + 0x1000))"
    using e k hidden unshift
    by (simp add: dec encode_pack32 [OF fit] Let_def)
  also have "\<dots> = ucast (ucast (sign16 ?s) OR ?m)"
    by (simp add: round_exact [OF ucast_take_bits(2)])
  also have "\<dots> = sign16 ?s OR push_bit 10 (take_bit 5 (drop_bit 10 h)) OR take_bit 10 h"
    unfolding assms(1) by (rule bit_word_eqI) (auto simp: bit_simps)
  also have "\<dots> = h" by (rule f16_split [symmetric])
  finally show ?thesis .
qed

definition f16_is_nan :: "f16 \<Rightarrow> bool" where
  "f16_is_nan h \<longleftrightarrow> drop_bit 10 h AND 0x1F = 31 \<and> h AND 0x3FF \<noteq> 0"

lemma roundtrip_special:
  assumes "take_bit 5 (drop_bit 10 h) = 0 \<and> take_bit 10 h = 0 \<or> take_bit 5 (drop_bit 10 h) = 31"
  shows "float_to_f16_bits (f16_bits_to_float h) = 
    (if take_bit 5 (drop_bit 10 h) = 0 then sign16 (bit h 15) else sign16 (bit h 15) OR 0x7C00)"
  using assms
proof
  assume z: "take_bit 5 (drop_bit 10 h) = 0 \<and> take_bit 10 h = 0"
  then have "f16_bits_to_float h = pack32 (bit h 15) 0 0" by (simp add: decode_fields)
  with z show ?thesis by (simp add: encode_pack32 Let_def)
next
  assume i: "take_bit 5 (drop_bit 10 h) = 31"
  then have "f16_bits_to_float h = pack32 (bit h 15) 255 (ucast (take_bit 10 h))"
    by (simp add: decode_fields Let_def)
  moreover have "take_bit 8 (255 :: f32) = 255" by (simp add: take_bit_eq_mask mask_eq_exp_minus_1)
  ultimately show ?thesis using i by (simp add: encode_pack32 ucast_take_bits Let_def)
qed


section \<open>Properties\<close>

text \<open>Half precision survives the pair of conversions bit for bit, zeros, subnormals and
  infinities included; only a NaN changes, into the infinity of its sign.\<close>

theorem f16_round_trip:
  "float_to_f16_bits (f16_bits_to_float h) =
     (if f16_is_nan h then (h AND 0x8000) OR 0x7C00 else h)"
proof (cases "take_bit 5 (drop_bit 10 h) = 31")
  case True
  then show ?thesis
    using roundtrip_special [of h] f16_split [of h]
    by (auto simp: f16_is_nan_def mask_words sign_words sign16_def)
next
  case False
  then have "\<not> f16_is_nan h" by (simp add: f16_is_nan_def mask_words)
  moreover have "float_to_f16_bits (f16_bits_to_float h) = h"
    using False roundtrip_normal [of h] roundtrip_subnormal [of h] roundtrip_special [of h] f16_split [of h]
    by (cases "take_bit 5 (drop_bit 10 h) = 0"; cases "take_bit 10 h = 0") simp_all
  ultimately show ?thesis by simp
qed

text \<open>\<open>float_to_f16_bits\<close> loses the carry of its rounding: for every normal value with an odd
  exponent field whose mantissa rounds up to the next power of two, the result is the value with
  mantissa zero (half of the correct one), because the carry is combined with OR.\<close>

theorem float_to_f16_bits_lost_carry:
  assumes "take_bit 8 e = e" "113 \<le> uint e" "uint e \<le> 142" "odd (uint e)"
    and "take_bit 23 m = m" "0x7FF000 \<le> m"
  shows "float_to_f16_bits (pack_f32 s e m) = float_to_f16_bits (pack_f32 s e 0)"
proof -
  have "uint m < 2 ^ 23"
    using assms(5) take_bit_int_less_exp [of 23 "uint m"] by (metis unsigned_take_bit_eq)
  moreover have "0x7FF000 \<le> uint m" using assms(6) by (simp add: word_le_def)
  ultimately have "uint (m + 0x1000) div 2 ^ 13 = 0x400"
    by (simp add: uint_word_ariths)
  then have "uint (drop_bit 13 (m + 0x1000)) = uint (push_bit 10 1 :: f32)"
    by (simp add: unsigned_drop_bit_eq drop_bit_eq_div uint_div)
  then have carry: "drop_bit 13 (m + 0x1000) = push_bit 10 1" by (rule word_uint_eqI)
  let ?x = "word_of_int (uint e - 112) :: f32"
  have x: "uint ?x = uint e - 112"
    using assms(2,3) by (simp only: uint_word_of_int) simp
  then have "odd (uint ?x)" using assms(4) by simp
  then have "bit ?x 0" by (metis bit_0 bit_uint_iff)
  then have absorb: "push_bit 10 ?x OR push_bit 10 1 = push_bit 10 ?x"
    by (intro bit_word_eqI) (auto simp: bit_simps simp del: push_bit_of_1)
  have none: "drop_bit 13 (0x1000 :: f32) = 0" by simp
  show ?thesis
    using assms(2,3) carry absorb none
    by (simp add: encode_pack_f32 [OF assms(1)] assms(5) Let_def or.assoc del: push_bit_of_1)
qed

theorem float_to_f16_bits_lost_carry_witness:
  "float_to_f16_bits (pack_f32 False 127 0x7FFFFF) = float_to_f16_bits (pack_f32 False 127 0) \<and>
   float_to_f16_bits (pack_f32 False 127 0) = 0x3C00 \<and> pack_f32 False 127 0 = f32_one"
proof -
  have h: "take_bit 8 (127 :: f32) = 127" "113 \<le> uint (127 :: f32)" "uint (127 :: f32) \<le> 142"
    "odd (uint (127 :: f32))" "take_bit 23 (0x7FFFFF :: f32) = 0x7FFFFF" "(0x7FF000 :: f32) \<le> 0x7FFFFF"
    by (simp_all add: take_bit_eq_mask mask_eq_exp_minus_1)
  from float_to_f16_bits_lost_carry [OF h, of False] show ?thesis
    by (simp add: pack_f32_def sign32_def f32_one_def float_to_f16_bits_def Let_def)
qed

end
