(* ===== verification/Tensor_Codec.thy ===== *)
theory Tensor_Codec
  imports Dli2_Protocol Tensor_Abi Float_Bits
begin

text \<open>
  Serialisation of activations and token ids: the little-endian readers and writers of
  \<open>llama_cpu_executor.cpp\<close> with the conversions between tensors and vectors, and the gateway's
  \<open>int64_tokens_to_bytes\<close>. Reads check their bounds and throw; the float32 writer does not,
  and the lemmas show that it stays inside the buffer.
\<close>

section \<open>Readers and writers\<close>

definition read_i64_le :: "byte list \<Rightarrow> nat \<Rightarrow> int result" where
  "read_i64_le bs offset =
     (if offset + 8 > length bs then Inl ''cannot read int64 past token tensor''
      else Inr (sint (fold (\<lambda>i value. value OR push_bit (8 * i) (ucast (bs ! (offset + i))))
                        [0..<8] (0 :: 64 word))))"

definition read_f32_le :: "byte list \<Rightarrow> nat \<Rightarrow> f32 result" where
  "read_f32_le bs offset =
     (if offset + 4 > length bs then Inl ''cannot read float32 past hidden tensor''
      else Inr (ucast (bs ! offset) OR push_bit 8 (ucast (bs ! (offset + 1)))
        OR push_bit 16 (ucast (bs ! (offset + 2))) OR push_bit 24 (ucast (bs ! (offset + 3)))))"

definition write_f32_le :: "byte list \<Rightarrow> nat \<Rightarrow> f32 \<Rightarrow> byte list" where
  "write_f32_le bs offset value =
     bs[offset := ucast (value AND 255), offset + 1 := ucast (drop_bit 8 value AND 255),
        offset + 2 := ucast (drop_bit 16 value AND 255), offset + 3 := ucast (drop_bit 24 value AND 255)]"

definition read_f16_le :: "byte list \<Rightarrow> nat \<Rightarrow> f32 result" where
  "read_f16_le bs offset =
     (if offset + 2 > length bs then Inl ''cannot read float16 past hidden tensor''
      else Inr (f16_bits_to_float (ucast (bs ! offset) OR push_bit 8 (ucast (bs ! (offset + 1))))))"

definition write_f16_le :: "byte list \<Rightarrow> nat \<Rightarrow> f32 \<Rightarrow> byte list result" where
  "write_f16_le bs offset value =
     (if offset + 2 > length bs then Inl ''cannot write float16 past hidden tensor''
      else let raw = float_to_f16_bits value
           in Inr (bs[offset := ucast (raw AND 255), offset + 1 := ucast (drop_bit 8 raw AND 255)]))"

section \<open>Tensors and vectors\<close>

text \<open>
  \<open>static_cast<std::size_t>(batch * seq * hidden)\<close> of the shape; a count too large to allocate
  fails in the code when the vector is built and here at the first read past the payload.
\<close>

definition tensor_to_hidden_f32 :: "int \<Rightarrow> tensor_buffer \<Rightarrow> f32 list result" where
  "tensor_to_hidden_f32 hidden_size tensor =
     bindR (validate_hidden_states_tensor tensor hidden_size True) (\<lambda>_.
       let batch = shape (metadata tensor) ! 0;
           seq = shape (metadata tensor) ! 1;
           hidden = shape (metadata tensor) ! 2
       in if batch \<noteq> 1 then Inl ''CPU reference executor currently supports batch=1''
          else let count = nat (u64_wrap (i64_wrap (batch * seq * hidden)))
          in if dtype (metadata tensor) = dtype_hidden_f32
             then mapR (\<lambda>i. read_f32_le (bytes tensor) (i * 4)) [0..<count]
             else if dtype (metadata tensor) = dtype_hidden_f16
             then mapR (\<lambda>i. read_f16_le (bytes tensor) (i * 2)) [0..<count]
             else Inl (''unsupported hidden-state dtype: '' @ dtype (metadata tensor)))"

definition tensor_to_token_ids :: "tensor_buffer \<Rightarrow> int list result" where
  "tensor_to_token_ids tensor =
     bindR (validate_token_ids_tensor tensor) (\<lambda>_.
       let batch = shape (metadata tensor) ! 0; seq = shape (metadata tensor) ! 1
       in if batch \<noteq> 1 then Inl ''CPU reference executor currently supports batch=1''
          else mapR (\<lambda>i. read_i64_le (bytes tensor) (i * 8)) [0..<nat (u64_wrap seq)])"

definition float_hidden_to_tensor :: "int \<Rightarrow> f32 list \<Rightarrow> int \<Rightarrow> int \<Rightarrow> string \<Rightarrow> tensor_buffer result" where
  "float_hidden_to_tensor hidden_size hidden batch seq_len activation_precision =
     (let use_f16 = (activation_precision = ''fp16'' \<or> activation_precision = ''float16'');
          md = \<lparr>dtype = (if use_f16 then dtype_hidden_f16 else dtype_hidden_f32),
                shape = [batch, seq_len, hidden_size], byte_order = byte_order_little\<rparr>
      in if use_f16
         then bindR (foldR (\<lambda>i bs. write_f16_le bs (i * 2) (hidden ! i)) [0..<length hidden]
                      (replicate (length hidden * 2) 0))
                (\<lambda>bs. Inr \<lparr>metadata = md, bytes = bs\<rparr>)
         else Inr \<lparr>metadata = md,
                bytes = fold (\<lambda>i bs. write_f32_le bs (i * 4) (hidden ! i)) [0..<length hidden]
                          (replicate (length hidden * 4) 0)\<rparr>)"

definition int64_tokens_to_bytes :: "int list \<Rightarrow> byte list" where
  "int64_tokens_to_bytes tokens =
     fold (\<lambda>i bs.
         let value = word_of_int (tokens ! i) :: 64 word
         in fold (\<lambda>b bs. bs[i * 8 + b := ucast (drop_bit (b * 8) value AND 255)]) [0..<8] bs)
       [0..<length tokens] (replicate (length tokens * 8) 0)"

section \<open>Blocks of bytes\<close>

text \<open>
  All three writers fill a zeroed buffer block by block; the loops are instances of one lemma:
  a writer that replaces the block at its offset produces the concatenation of the blocks.
\<close>

definition writes_block :: "(byte list \<Rightarrow> nat \<Rightarrow> 'a \<Rightarrow> byte list) \<Rightarrow> nat \<Rightarrow> ('a \<Rightarrow> byte list) \<Rightarrow> bool" where
  "writes_block w k blk \<longleftrightarrow>
     (\<forall>pre old post v. length old = k \<longrightarrow> w (pre @ old @ post) (length pre) v = pre @ blk v @ post) \<and>
     (\<forall>v. length (blk v) = k)"

lemma length_concat_blocks:
  "writes_block w k blk \<Longrightarrow> length (concat (map blk xs)) = length xs * k"
  by (induction xs) (simp_all add: writes_block_def)

lemma fill_loop:
  assumes w: "writes_block w k blk"
  shows "fold (\<lambda>i bs. w bs (i * k) (xs ! i)) [0..<length xs] (replicate (length xs * k) 0)
     = concat (map blk xs)"
proof -
  have "fold (\<lambda>i bs. w bs (i * k) (xs ! i)) [0..<n] (replicate (length xs * k) 0)
     = concat (map blk (take n xs)) @ replicate ((length xs - n) * k) 0" if "n \<le> length xs" for n
    using that
  proof (induction n)
    case (Suc n)
    have split: "replicate ((length xs - n) * k) 0 =
        replicate k 0 @ replicate ((length xs - Suc n) * k) (0 :: byte)"
      using Suc.prems by (simp add: Suc_diff_Suc flip: replicate_add mult_Suc)
    have pre: "length (concat (map blk (take n xs))) = n * k"
      using length_concat_blocks [OF w, of "take n xs"] Suc.prems by simp
    have "fold (\<lambda>i bs. w bs (i * k) (xs ! i)) [0..<Suc n] (replicate (length xs * k) 0) =
        w (concat (map blk (take n xs)) @ replicate k 0 @ replicate ((length xs - Suc n) * k) 0)
          (n * k) (xs ! n)"
      using Suc by (simp add: split)
    also have "\<dots> = concat (map blk (take n xs)) @ blk (xs ! n) @ replicate ((length xs - Suc n) * k) 0"
      using w pre unfolding writes_block_def by (metis length_replicate)
    finally show ?case using Suc.prems by (simp add: take_Suc_conv_app_nth)
  qed simp
  from this [of "length xs"] show ?thesis by simp
qed

lemma blocks_at:
  assumes "writes_block w k blk" "i < length xs"
  obtains pre post where "concat (map blk xs) = pre @ blk (xs ! i) @ post" "length pre = i * k"
proof
  show "concat (map blk xs) = concat (map blk (take i xs)) @ blk (xs ! i) @ concat (map blk (drop (Suc i) xs))"
    using id_take_nth_drop [OF assms(2)] by (metis concat.simps(2) concat_append list.simps(9) map_append)
  show "length (concat (map blk (take i xs))) = i * k"
    using length_concat_blocks [OF assms(1), of "take i xs"] assms(2) by simp
qed

section \<open>The three block formats\<close>

definition f32_block :: "f32 \<Rightarrow> byte list" where
  "f32_block v = append_u32_le [] v"

definition f16_block :: "f16 \<Rightarrow> byte list" where
  "f16_block v = [ucast (v AND 255), ucast (drop_bit 8 v AND 255)]"

definition i64_block :: "int \<Rightarrow> byte list" where
  "i64_block v = append_u64_le [] (word_of_int v)"

lemma length_blocks [simp]:
  "length (f32_block v) = 4" "length (f16_block h) = 2" "length (i64_block n) = 8"
  by (simp_all add: f32_block_def f16_block_def i64_block_def)

lemma writes_f32_block: "writes_block write_f32_le 4 f32_block"
proof -
  have "write_f32_le (pre @ old @ post) (length pre) v = pre @ f32_block v @ post"
    if old: "length old = 4" for pre old post v
  proof -
    obtain a b c d where "old = [a, b, c, d]"
      using old by (auto simp: length_Suc_conv numeral_eq_Suc)
    then show ?thesis
      by (simp add: write_f32_le_def f32_block_def append_u32_le_def list_update_append)
  qed
  then show ?thesis by (simp add: writes_block_def)
qed

definition put_f16 :: "byte list \<Rightarrow> nat \<Rightarrow> f32 \<Rightarrow> byte list" where
  "put_f16 bs offset value = bs[offset := ucast (float_to_f16_bits value AND 255),
     offset + 1 := ucast (drop_bit 8 (float_to_f16_bits value) AND 255)]"

lemma writes_f16_block: "writes_block put_f16 2 (f16_block \<circ> float_to_f16_bits)"
proof -
  have "put_f16 (pre @ old @ post) (length pre) v = pre @ (f16_block \<circ> float_to_f16_bits) v @ post"
    if old: "length old = 2" for pre old post v
  proof -
    obtain a b where "old = [a, b]"
      using old by (auto simp: length_Suc_conv numeral_eq_Suc)
    then show ?thesis
      by (simp add: put_f16_def f16_block_def list_update_append)
  qed
  then show ?thesis by (simp add: writes_block_def)
qed

text \<open>The bounds check of the half-precision writer never fires inside the loop.\<close>

lemma f16_fill_loop:
  "foldR (\<lambda>i bs. write_f16_le bs (i * 2) (xs ! i)) is bs =
     Inr (fold (\<lambda>i bs. put_f16 bs (i * 2) (xs ! i)) is bs)"
  if "\<forall>i \<in> set is. i * 2 + 2 \<le> length bs"
  using that
  by (induction "is" arbitrary: bs) (auto simp: write_f16_le_def put_f16_def Let_def)

definition put_i64 :: "byte list \<Rightarrow> nat \<Rightarrow> int \<Rightarrow> byte list" where
  "put_i64 bs offset v = fold (\<lambda>b bs. bs[offset + b :=
     ucast (drop_bit (b * 8) (word_of_int v :: 64 word) AND 255)]) [0..<8] bs"

lemma writes_i64_block: "writes_block put_i64 8 i64_block"
proof -
  have "put_i64 (pre @ old @ post) (length pre) v = pre @ i64_block v @ post"
    if old: "length old = 8" for pre old post v
  proof -
    obtain b0 b1 b2 b3 b4 b5 b6 b7 where "old = [b0, b1, b2, b3, b4, b5, b6, b7]"
      using old by (auto simp: length_Suc_conv numeral_eq_Suc)
    then show ?thesis
      by (simp add: put_i64_def i64_block_def append_u64_le_def upt_rec list_update_append)
  qed
  then show ?thesis by (simp add: writes_block_def)
qed

lemma int64_tokens_to_bytes_eq: "int64_tokens_to_bytes tokens = concat (map i64_block tokens)"
  using fill_loop [OF writes_i64_block, of tokens]
  by (simp add: int64_tokens_to_bytes_def put_i64_def Let_def)

lemma hidden_to_tensor_f32:
  assumes "prec \<noteq> ''fp16''" "prec \<noteq> ''float16''"
  shows "float_hidden_to_tensor hs hidden batch seq prec =
     Inr \<lparr>metadata = \<lparr>dtype = dtype_hidden_f32, shape = [batch, seq, hs], byte_order = byte_order_little\<rparr>,
          bytes = concat (map f32_block hidden)\<rparr>"
  using assms fill_loop [OF writes_f32_block, of hidden] by (simp add: float_hidden_to_tensor_def)

lemma hidden_to_tensor_f16:
  assumes "prec = ''fp16'' \<or> prec = ''float16''"
  shows "float_hidden_to_tensor hs hidden batch seq prec =
     Inr \<lparr>metadata = \<lparr>dtype = dtype_hidden_f16, shape = [batch, seq, hs], byte_order = byte_order_little\<rparr>,
          bytes = concat (map (f16_block \<circ> float_to_f16_bits) hidden)\<rparr>"
proof -
  have "\<forall>i \<in> set [0..<length hidden]. i * 2 + 2 \<le> length (replicate (length hidden * 2) (0 :: byte))"
    by auto
  from f16_fill_loop [OF this, of hidden] show ?thesis
    using assms fill_loop [OF writes_f16_block, of hidden]
    by (auto simp: float_hidden_to_tensor_def Let_def)
qed

section \<open>Reading the blocks back\<close>

lemma read_f32_block: "read_f32_le (pre @ f32_block v @ post) (length pre) = Inr v"
proof -
  let ?data = "f32_block v @ post"
  have "read_f32_le (pre @ ?data) (length pre) = Inr (read_u32_le ?data)"
    by (simp add: read_f32_le_def read_u32_le_def nth_append)
  then show ?thesis by (simp add: f32_block_def)
qed

lemma f16_block_bits: "ucast (f16_block h ! 0) OR push_bit 8 (ucast (f16_block h ! 1)) = (h :: f16)"
  by (rule bit_word_eqI) (auto simp: f16_block_def and_255 bit_simps)

lemma read_f16_block: "read_f16_le (pre @ f16_block h @ post) (length pre) = Inr (f16_bits_to_float h)"
  using f16_block_bits [of h] by (simp add: read_f16_le_def nth_append)

lemma read_i64_block:
  assumes "- (2 ^ 63) \<le> v" "v < 2 ^ 63"
  shows "read_i64_le (pre @ i64_block v @ post) (length pre) = Inr v"
proof -
  let ?data = "i64_block v @ post"
  have "fold (\<lambda>i value. value OR push_bit (8 * i) (ucast ((pre @ ?data) ! (length pre + i)))) [0..<8] (0 :: 64 word)
      = read_u64_le ?data"
    by (simp add: read_u64_le_def nth_append mult.commute)
  then have "read_i64_le (pre @ ?data) (length pre) = Inr (sint (read_u64_le ?data))"
    by (simp add: read_i64_le_def)
  moreover have "sint (word_of_int v :: 64 word) = v"
    using assms by (simp add: sint_sbintrunc' signed_take_bit_int_eq_self)
  ultimately show ?thesis by (simp add: i64_block_def)
qed

lemma read_loop:
  assumes w: "writes_block w k blk"
    and r: "\<And>pre post v. v \<in> set xs \<Longrightarrow> rd (pre @ blk v @ post) (length pre) = Inr (g v)"
  shows "mapR (\<lambda>i. rd (concat (map blk xs)) (i * k)) [0..<length xs] = Inr (map g xs)"
proof -
  have "mapR (\<lambda>i. rd (concat (map blk xs)) (i * k)) [0..<length xs] = Inr (map (\<lambda>i. g (xs ! i)) [0..<length xs])"
  proof (rule mapR_all_Inr)
    fix i assume "i \<in> set [0..<length xs]"
    then have i: "i < length xs" by simp
    obtain pre post where "concat (map blk xs) = pre @ blk (xs ! i) @ post" "length pre = i * k"
      using blocks_at [OF w i] by metis
    with r [of "xs ! i" pre post] i show "rd (concat (map blk xs)) (i * k) = Inr (g (xs ! i))" by simp
  qed
  also have "map (\<lambda>i. g (xs ! i)) [0..<length xs] = map g xs"
    by (simp add: map_nth flip: map_map [of g "(!) xs", unfolded comp_def])
  finally show ?thesis .
qed

section \<open>Properties\<close>

lemma product3: "prod_list [1, s, h] = (s * h :: int)" by simp

lemma hidden_tensor_valid:
  assumes "dt = dtype_hidden_f32 \<and> k = 4 \<or> dt = dtype_hidden_f16 \<and> k = 2"
    and "0 < s" "0 < h" "s * h < 2 ^ 61" "int (length bs) = s * h * k"
  shows "validate_hidden_states_tensor
     \<lparr>metadata = \<lparr>dtype = dt, shape = [1, s, h], byte_order = byte_order_little\<rparr>, bytes = bs\<rparr> h True = Inr ()"
proof -
  have pos: "0 < s * h" using assms(2,3) by simp
  have "i64_wrap (s * h) = s * h" using pos assms(4) by (intro i64_wrap_id) simp_all
  then have p: "product_shape [1, s, h] = Inr (s * h)"
    using assms(2,3) by (simp add: product_shape_positive)
  have "u64_wrap (s * h * k) = s * h * k"
    using pos assms(1,4) by (intro u64_wrap_id) (auto simp: mult.commute [of h s])
  then have "validate_tensor_byte_size
     \<lparr>metadata = \<lparr>dtype = dt, shape = [1, s, h], byte_order = byte_order_little\<rparr>, bytes = bs\<rparr> = Inr ()"
    using assms(1,5) p pos
    by (auto simp: validate_tensor_byte_size_Inr dtype_size_bytes_def dtype_names)
  then show ?thesis
    using assms(1) by (auto simp: validate_hidden_states_tensor_def validate_little_endian_def Let_def)
qed

lemma hidden_count:
  assumes "0 < s" "0 < h" "s * h < 2 ^ 61" "int n = s * h"
  shows "nat (u64_wrap (i64_wrap (1 * s * h))) = n"
proof -
  have pos: "0 < s * h" using assms(1,2) by simp
  have "i64_wrap (s * h) = s * h" using pos assms(3) by (intro i64_wrap_id) simp_all
  moreover have "u64_wrap (s * h) = s * h" using pos assms(3) by (intro u64_wrap_id) simp_all
  moreover have "nat (s * h) = n" using assms(4) by linarith
  ultimately show ?thesis by simp
qed

lemma hidden_f32_codec:
  assumes "0 < s" "0 < h" "s * h < 2 ^ 61" "int (length hidden) = s * h"
    and "prec \<noteq> ''fp16''" "prec \<noteq> ''float16''"
  shows "bindR (float_hidden_to_tensor h hidden 1 s prec) (tensor_to_hidden_f32 h) = Inr hidden"
proof -
  let ?bs = "concat (map f32_block hidden)"
  have len: "int (length ?bs) = s * h * 4"
    using length_concat_blocks [OF writes_f32_block, of hidden] assms(4) by simp
  have v: "validate_hidden_states_tensor
     \<lparr>metadata = \<lparr>dtype = dtype_hidden_f32, shape = [1, s, h], byte_order = byte_order_little\<rparr>, bytes = ?bs\<rparr>
     h True = Inr ()"
    using assms(1-3) len by (intro hidden_tensor_valid [where k = 4]) simp_all
  have "mapR (\<lambda>i. read_f32_le ?bs (i * 4)) [0..<length hidden] = Inr (map (\<lambda>x. x) hidden)"
    using writes_f32_block read_f32_block by (rule read_loop)
  with v show ?thesis
    using assms(5,6) hidden_count [OF assms(1-4)]
    by (simp add: hidden_to_tensor_f32 tensor_to_hidden_f32_def)
qed

lemma hidden_f16_codec:
  assumes "0 < s" "0 < h" "s * h < 2 ^ 61" "int (length hidden) = s * h"
    and "prec = ''fp16'' \<or> prec = ''float16''"
  shows "bindR (float_hidden_to_tensor h hidden 1 s prec) (tensor_to_hidden_f32 h)
     = Inr (map (f16_bits_to_float \<circ> float_to_f16_bits) hidden)"
proof -
  let ?blk = "f16_block \<circ> float_to_f16_bits"
  let ?bs = "concat (map ?blk hidden)"
  have len: "int (length ?bs) = s * h * 2"
    using length_concat_blocks [OF writes_f16_block, of hidden] assms(4) by simp
  have v: "validate_hidden_states_tensor
     \<lparr>metadata = \<lparr>dtype = dtype_hidden_f16, shape = [1, s, h], byte_order = byte_order_little\<rparr>, bytes = ?bs\<rparr>
     h True = Inr ()"
    using assms(1-3) len by (intro hidden_tensor_valid [where k = 2]) simp_all
  have "mapR (\<lambda>i. read_f16_le ?bs (i * 2)) [0..<length hidden]
      = Inr (map (f16_bits_to_float \<circ> float_to_f16_bits) hidden)"
    using writes_f16_block by (rule read_loop) (simp add: read_f16_block)
  with v show ?thesis
    using assms(5) hidden_count [OF assms(1-4)]
    by (simp add: hidden_to_tensor_f16 tensor_to_hidden_f32_def dtype_names)
qed

text \<open>With half-precision activations the next stage reads every value rounded once by
  \<open>float_to_f16_bits\<close>, in order, and the writer's bounds check never fires.\<close>

theorem hidden_f16_round_trip:
  assumes "0 < s" "0 < h" "s * h < 2 ^ 61" "int (length hidden) = s * h"
    and "prec = ''fp16'' \<or> prec = ''float16''"
  shows "bindR (float_hidden_to_tensor h hidden 1 s prec) (tensor_to_hidden_f32 h)
     = Inr (map (f16_bits_to_float \<circ> float_to_f16_bits) hidden)"
  using assms by (rule hidden_f16_codec)

theorem hidden_f16_round_trip_witness:
  "bindR (float_hidden_to_tensor 1 [0x3F800000, 0x00000001] 1 2 ''fp16'') (tensor_to_hidden_f32 1)
     = Inr [f16_bits_to_float (float_to_f16_bits 0x3F800000), f16_bits_to_float (float_to_f16_bits 1)]"
  using hidden_f16_round_trip [of 2 1 "[0x3F800000, 1]" "''fp16''"] by simp

lemma token_ids_codec:
  assumes "tokens \<noteq> []" "int (length tokens) < 2 ^ 61" "\<forall>t \<in> set tokens. - (2 ^ 63) \<le> t \<and> t < 2 ^ 63"
  shows "tensor_to_token_ids
     \<lparr>metadata = \<lparr>dtype = ''int64'', shape = [1, int (length tokens)], byte_order = ''little''\<rparr>,
      bytes = int64_tokens_to_bytes tokens\<rparr> = Inr tokens"
proof -
  let ?bs = "concat (map i64_block tokens)" and ?n = "int (length tokens)"
  have len: "length ?bs = length tokens * 8"
    by (rule length_concat_blocks [OF writes_i64_block])
  have pos: "0 < ?n" using assms(1) by simp
  have "i64_wrap ?n = ?n" using pos assms(2) by (intro i64_wrap_id) simp_all
  then have p: "product_shape [1, ?n] = Inr ?n" using pos by (simp add: product_shape_positive)
  have n8: "u64_wrap (?n * 8) = ?n * 8" "u64_wrap ?n = ?n"
    using pos assms(2) by (auto intro!: u64_wrap_id)
  have v: "validate_token_ids_tensor
     \<lparr>metadata = \<lparr>dtype = ''int64'', shape = [1, ?n], byte_order = ''little''\<rparr>, bytes = ?bs\<rparr> = Inr ()"
    using p n8 len
    by (simp add: validate_token_ids_tensor_def validate_little_endian_def dtype_names
        validate_tensor_byte_size_Inr dtype_size_bytes_def)
  have "mapR (\<lambda>i. read_i64_le ?bs (i * 8)) [0..<length tokens] = Inr (map (\<lambda>t. t) tokens)"
    using writes_i64_block by (rule read_loop) (use assms(3) in \<open>simp add: read_i64_block\<close>)
  with v n8 show ?thesis
    by (simp add: tensor_to_token_ids_def int64_tokens_to_bytes_eq)
qed

end
