(* ===== verification/Ggml_Ops.thy ===== *)
theory Ggml_Ops
  imports Float_Bits
begin

text \<open>
  The executor's view of ggml and its elementary vector operations (\<open>llama_cpu_executor.cpp\<close>:
  tensor lookup, row conversion, matrix-vector product, RMS norm, SiLU).

  ggml itself is not part of the repository. What the code uses of it is the record
  \<open>platform\<close>: gathering a row of a (possibly quantised) weight as float32, multiplying a weight
  with a vector, and the three operations of the attention graph on dense float32 tensors. A
  tensor operation yields \<open>Inl\<close> when the code would throw for it (context or tensor allocation,
  graph status). The result memory of a matrix operation is a function from the index, of which
  \<open>read_f32_tensor_flat\<close> copies exactly the expected number of values.

  A weight tensor is its first two extents and its data (\<open>None\<close> for a null data pointer); a
  shard's tensor context maps names to tensors.
\<close>

record 'w ggml_tensor =
  ne0 :: int
  ne1 :: int
  tdata :: "'w option"

type_synonym 'w tensor_context = "string \<Rightarrow> 'w ggml_tensor option"

type_synonym tensor3 = "f32 list list list"

record ('w, 'g) platform =
  fp :: fpu
  get_row :: "'w ggml_tensor \<Rightarrow> int \<Rightarrow> (nat \<Rightarrow> f32) result"
  mul_vec :: "'w ggml_tensor \<Rightarrow> f32 list \<Rightarrow> (nat \<Rightarrow> f32) result"
  mul_mat :: "tensor3 \<Rightarrow> tensor3 \<Rightarrow> tensor3 result"
  scale_mat :: "tensor3 \<Rightarrow> f32 \<Rightarrow> tensor3"
  soft_max :: "tensor3 \<Rightarrow> tensor3"
  attention_backend_is_ggml :: bool
  mt_seed :: "32 word \<Rightarrow> 'g"
  uniform_draw :: "'g \<Rightarrow> f64 \<times> 'g"
  sort_candidates :: "(int \<times> f32) list \<Rightarrow> (int \<times> f32) list"

section \<open>Tensor access\<close>

definition read_f32_tensor_flat :: "(nat \<Rightarrow> f32) \<Rightarrow> nat \<Rightarrow> f32 list" where
  "read_f32_tensor_flat data expected_count = map data [0..<expected_count]"

definition require_tensor :: "'w tensor_context \<Rightarrow> string \<Rightarrow> 'w ggml_tensor result" where
  "require_tensor ctx name =
     (case ctx name of
        None \<Rightarrow> Inl (''required tensor not found in shard: '' @ name)
      | Some tensor \<Rightarrow>
          if tdata tensor = None then Inl (''required tensor has null data pointer: '' @ name)
          else Inr tensor)"

definition tensor_row_to_float ::
    "('w, 'g) platform \<Rightarrow> 'w ggml_tensor \<Rightarrow> int \<Rightarrow> f32 list result" where
  "tensor_row_to_float pl tensor row =
     (if tdata tensor = None then Inl ''cannot read row from null tensor''
      else let row_width = ne0 tensor;
               row_count = (if ne1 tensor > 0 then ne1 tensor else 1)
      in if row_width \<le> 0 \<or> row_count \<le> 0 then Inl ''tensor has invalid row dimensions''
         else if row < 0 \<or> row \<ge> row_count then Inl ''tensor row index out of range''
         else bindR (get_row pl tensor (i32_wrap row)) (\<lambda>out_f32.
           Inr (read_f32_tensor_flat out_f32 (nat row_width))))"

definition tensor_vector_to_float ::
    "('w, 'g) platform \<Rightarrow> 'w tensor_context \<Rightarrow> string \<Rightarrow> int \<Rightarrow> f32 list result" where
  "tensor_vector_to_float pl ctx name expected_size =
     bindR (require_tensor ctx name) (\<lambda>tensor.
       if ne0 tensor \<noteq> expected_size
       then Inl (''tensor '' @ name @ '' has wrong vector size: expected '' @
                 show_int expected_size @ '', got '' @ show_int (ne0 tensor))
       else tensor_row_to_float pl tensor 0)"

definition matvec ::
    "('w, 'g) platform \<Rightarrow> 'w tensor_context \<Rightarrow> string \<Rightarrow> f32 list \<Rightarrow> f32 list result" where
  "matvec pl ctx tensor_name x =
     bindR (require_tensor ctx tensor_name) (\<lambda>weight.
       let input_dim = ne0 weight; output_dim = ne1 weight
       in if input_dim \<le> 0 \<or> output_dim \<le> 0
          then Inl (''linear tensor has invalid shape: '' @ tensor_name)
          else if int (length x) \<noteq> input_dim
          then Inl (''matvec input size mismatch for '' @ tensor_name @ '': expected '' @
                    show_int input_dim @ '', got '' @ show_nat (length x))
          else bindR (mul_vec pl weight x) (\<lambda>out_f32.
            Inr (read_f32_tensor_flat out_f32 (nat output_dim))))"

section \<open>Vector operations\<close>

definition silu :: "fpu \<Rightarrow> f32 \<Rightarrow> f32" where
  "silu F x = fdiv F x (fadd F f32_one (fexp F (fneg F x)))"

definition rms_norm :: "fpu \<Rightarrow> f32 \<Rightarrow> f32 list \<Rightarrow> f32 list \<Rightarrow> f32 list result" where
  "rms_norm F rms_eps x weight =
     (if length x \<noteq> length weight then Inl ''rms_norm input and weight sizes differ''
      else let sum_sq = foldl (\<lambda>s v. dadd F s (dmul F (f64_of_f32 F v) (f64_of_f32 F v))) f64_zero x;
               mean = f32_of_f64 F (ddiv F sum_sq (f64_of_int F (int (length x))));
               scale = fdiv F f32_one (fsqrt F (fadd F mean rms_eps))
           in Inr (map (\<lambda>i. fmul F (fmul F (x ! i) scale) (weight ! i)) [0..<length x]))"

section \<open>Sizes\<close>

text \<open>A vector read from a tensor has the extent the tensor declares.\<close>

lemma length_read_f32_tensor_flat [simp]: "length (read_f32_tensor_flat f n) = n"
  by (simp add: read_f32_tensor_flat_def)

lemma length_tensor_row_to_float:
  "tensor_row_to_float pl t row = Inr v \<Longrightarrow> int (length v) = ne0 t"
  by (auto simp: tensor_row_to_float_def Let_def result_simps split: if_splits)

lemma length_tensor_vector_to_float:
  "tensor_vector_to_float pl ctx name n = Inr v \<Longrightarrow> int (length v) = n"
  by (auto simp: tensor_vector_to_float_def result_simps length_tensor_row_to_float split: if_splits)

lemma matvec_Inr:
  assumes "matvec pl ctx name x = Inr y"
  obtains w where "ctx name = Some w" "int (length x) = ne0 w" "int (length y) = ne1 w"
  using assms
  by (auto simp: matvec_def require_tensor_def Let_def result_simps split: if_splits option.splits)

lemma length_matvec:
  "matvec pl ctx name x = Inr y \<Longrightarrow> ctx name = Some w \<Longrightarrow> int (length y) = ne1 w"
  by (erule matvec_Inr) simp

lemma length_rms_norm: "rms_norm F e x w = Inr y \<Longrightarrow> length y = length x \<and> length w = length x"
  by (auto simp: rms_norm_def Let_def split: if_splits)

text \<open>An operation looks only at the tensor it names.\<close>

lemma matvec_cong: "ctx name = ctx' name \<Longrightarrow> matvec pl ctx name x = matvec pl ctx' name x"
  by (simp add: matvec_def require_tensor_def)

lemma tensor_vector_to_float_cong:
  "ctx name = ctx' name \<Longrightarrow> tensor_vector_to_float pl ctx name n = tensor_vector_to_float pl ctx' name n"
  by (simp add: tensor_vector_to_float_def require_tensor_def)

section \<open>A small concrete platform\<close>

text \<open>
  An instance of the parameters on which the theorems about them are evaluated: arithmetic on
  the words themselves, a dense weight matrix given by its rows, and tensor operations written
  as their documented formulas.
\<close>

definition sample_fpu :: fpu where
  "sample_fpu = \<lparr>fadd = (+), fsub = (-), fmul = (*), fdiv = (\<lambda>a b. if b = 0 then 0 else a div b),
     fsqrt = (\<lambda>x. x), fexp = (\<lambda>x. x + 1), fcos = (\<lambda>x. 1), fsin = (\<lambda>x. 0), fpow = (\<lambda>x y. x),
     fneg = (\<lambda>x. 0 - x), f32_of_int = word_of_int, f64_of_f32 = ucast, f32_of_f64 = ucast,
     f64_of_int = word_of_int, dadd = (+), dmul = (*), ddiv = (\<lambda>a b. if b = 0 then 0 else a div b),
     dexp = (\<lambda>x. x + 1)\<rparr>"

definition sample_dot :: "f32 list \<Rightarrow> f32 list \<Rightarrow> f32" where
  "sample_dot xs ys = sum_list (map2 (*) xs ys)"

definition sample_rows :: "f32 list list ggml_tensor \<Rightarrow> f32 list list" where
  "sample_rows w = (case tdata w of None \<Rightarrow> [] | Some rows \<Rightarrow> rows)"

definition sample_platform :: "bool \<Rightarrow> (f32 list list, nat) platform" where
  "sample_platform ggml = \<lparr>fp = sample_fpu,
     get_row = (\<lambda>w r. Inr (\<lambda>i. sample_rows w ! nat r ! i)),
     mul_vec = (\<lambda>w x. Inr (\<lambda>i. sample_dot (sample_rows w ! i) x)),
     mul_mat = (\<lambda>A B. Inr (map2 (\<lambda>Ma Mb. map (\<lambda>b. map (\<lambda>a. sample_dot a b) Ma) Mb) A B)),
     scale_mat = (\<lambda>A c. map (map (map (\<lambda>x. x * c))) A),
     soft_max = (\<lambda>A. A),
     attention_backend_is_ggml = ggml,
     mt_seed = unat, uniform_draw = (\<lambda>g. (0, Suc g)),
     sort_candidates = (\<lambda>cs. rev (sort_key (\<lambda>c. f32_key (snd c)) cs))\<rparr>"

lemmas sample_defs = sample_platform_def sample_fpu_def sample_dot_def sample_rows_def

end
