(* ===== verification/Attention.thy ===== *)
theory Attention
  imports Ggml_Ops
begin

text \<open>
  Rotary position embedding, the per-layer KV cache and the attention computation of
  \<open>llama_cpu_executor.cpp\<close>: the scalar reference, the ggml graph over strided views of the
  cache, and the persistent transposed copy of V the graph reads.

  An abstract specification, grouped-query attention over the logical rows of the cache, is
  stated once; both computations are shown to implement it, and the incrementally maintained
  transposed V is shown to be the transposition of V.

  Hyperparameters keep the signed integers of the code; the constructor of the executor
  rejects non-positive ones, so indices are computed on the natural numbers they denote.
\<close>

record hyperparams =
  architecture :: string
  hidden_size :: int
  ffn_size :: int
  n_head :: int
  n_head_kv :: int
  head_dim :: int
  vocab_size :: int
  rms_eps :: f32
  rope_theta :: f32

definition hp_hidden :: "hyperparams \<Rightarrow> nat" where "hp_hidden hp = nat (hidden_size hp)"
definition hp_heads :: "hyperparams \<Rightarrow> nat" where "hp_heads hp = nat (n_head hp)"
definition hp_kv_heads :: "hyperparams \<Rightarrow> nat" where "hp_kv_heads hp = nat (n_head_kv hp)"
definition hp_dim :: "hyperparams \<Rightarrow> nat" where "hp_dim hp = nat (head_dim hp)"
definition hp_kv_dim :: "hyperparams \<Rightarrow> nat" where "hp_kv_dim hp = hp_kv_heads hp * hp_dim hp"
definition hp_q_dim :: "hyperparams \<Rightarrow> nat" where "hp_q_dim hp = hp_heads hp * hp_dim hp"
definition hp_groups :: "hyperparams \<Rightarrow> nat" where "hp_groups hp = hp_heads hp div hp_kv_heads hp"

text \<open>What the constructor of \<open>LlamaCpuExecutor\<close> checks before it accepts the parameters.\<close>

definition check_hyperparams :: "hyperparams \<Rightarrow> unit result" where
  "check_hyperparams hp =
     (if architecture hp \<noteq> ''llama''
      then Inl (''LlamaCpuExecutor currently supports only GGUF architecture=llama, got: '' @ architecture hp)
      else if hidden_size hp \<le> 0 \<or> ffn_size hp \<le> 0 \<or> n_head hp \<le> 0 \<or> n_head_kv hp \<le> 0 \<or>
              head_dim hp \<le> 0 \<or> vocab_size hp \<le> 0
      then Inl ''LlamaCpuExecutor received incomplete hyperparameters''
      else if n_head hp mod n_head_kv hp \<noteq> 0 then Inl ''n_head must be divisible by n_head_kv''
      else if n_head hp * head_dim hp \<noteq> hidden_size hp
      then Inl ''n_head * head_dim must equal hidden_size''
      else Inr ())"

section \<open>Rotary position embedding\<close>

text \<open>\<open>for (int i = 0; i < dim; i += 2)\<close>\<close>

definition evens :: "nat \<Rightarrow> nat list" where
  "evens dim = filter even [0..<dim]"

definition rope_table :: "fpu \<Rightarrow> hyperparams \<Rightarrow> f32 list" where
  "rope_table F hp =
     fold (\<lambda>i tab. tab[i := fpow F (rope_theta hp)
              (fdiv F (fneg F (f32_of_int F (int i))) (f32_of_int F (int (hp_dim hp))))])
       (evens (hp_dim hp)) (replicate (hp_dim hp) f32_zero)"

definition rotate_pair :: "fpu \<Rightarrow> f32 list \<Rightarrow> nat \<Rightarrow> nat \<Rightarrow> nat \<Rightarrow> f32 list \<Rightarrow> f32 list" where
  "rotate_pair F table position base i x =
     (let angle = fmul F (f32_of_int F (int position)) (table ! i);
          c = fcos F angle; s = fsin F angle;
          x0 = x ! (base + i); x1 = x ! (base + i + 1)
      in x[base + i := fsub F (fmul F x0 c) (fmul F x1 s),
           base + i + 1 := fadd F (fmul F x0 s) (fmul F x1 c)])"

definition rotate_heads :: "fpu \<Rightarrow> f32 list \<Rightarrow> nat \<Rightarrow> nat \<Rightarrow> nat \<Rightarrow> f32 list \<Rightarrow> f32 list" where
  "rotate_heads F table dim position heads x =
     fold (\<lambda>h. fold (rotate_pair F table position (h * dim)) (evens dim)) [0..<heads] x"

text \<open>\<open>apply_rope\<close> fills the cached table on first use and rotates q and k in place.\<close>

definition apply_rope ::
    "fpu \<Rightarrow> hyperparams \<Rightarrow> f32 list \<Rightarrow> f32 list \<Rightarrow> nat \<Rightarrow> (f32 list, f32 list \<times> f32 list) action" where
  "apply_rope F hp q k position =
     bindA (modifyA (\<lambda>table. if length table \<noteq> hp_dim hp then rope_table F hp else table)) (\<lambda>_.
     bindA getA (\<lambda>table.
       retA (rotate_heads F table (hp_dim hp) position (hp_heads hp) q,
             rotate_heads F table (hp_dim hp) position (hp_kv_heads hp) k)))"

section \<open>The KV cache of a layer\<close>

record kv_layer =
  kv_seq_len :: nat
  kv_k :: "f32 list"
  kv_v :: "f32 list"
  kv_v_t :: "f32 list"
  kv_v_t_capacity :: nat

definition empty_kv_layer :: kv_layer where
  "empty_kv_layer = \<lparr>kv_seq_len = 0, kv_k = [], kv_v = [], kv_v_t = [], kv_v_t_capacity = 0\<rparr>"

definition resize :: "nat \<Rightarrow> f32 list \<Rightarrow> f32 list" where
  "resize n xs = take n xs @ replicate (n - length xs) f32_zero"

definition copy_at :: "nat \<Rightarrow> f32 list \<Rightarrow> f32 list \<Rightarrow> f32 list" where
  "copy_at offset src dst = take offset dst @ src @ drop (offset + length src) dst"

definition grow_cache :: "nat \<Rightarrow> nat \<Rightarrow> kv_layer \<Rightarrow> kv_layer" where
  "grow_cache kv_dim required_seq cache =
     (if kv_seq_len cache < required_seq
      then cache\<lparr>kv_k := resize (required_seq * kv_dim) (kv_k cache),
                 kv_v := resize (required_seq * kv_dim) (kv_v cache), kv_seq_len := required_seq\<rparr>
      else cache)"

definition store_kv :: "nat \<Rightarrow> nat \<Rightarrow> f32 list \<Rightarrow> f32 list \<Rightarrow> kv_layer \<Rightarrow> kv_layer" where
  "store_kv kv_dim position k v cache =
     cache\<lparr>kv_k := copy_at (position * kv_dim) k (kv_k cache),
           kv_v := copy_at (position * kv_dim) v (kv_v cache)\<rparr>"

text \<open>The transposition \<open>out[pos + cap*d + cap*head_dim*kvh] = v[pos*kv_dim + kvh*head_dim + d]\<close>.\<close>

definition transpose_v :: "hyperparams \<Rightarrow> nat \<Rightarrow> nat \<Rightarrow> f32 list \<Rightarrow> f32 list" where
  "transpose_v hp cap required_seq v =
     fold (\<lambda>kvh. fold (\<lambda>d. fold (\<lambda>pos out.
         out[pos + cap * d + cap * hp_dim hp * kvh := v ! (pos * hp_kv_dim hp + kvh * hp_dim hp + d)])
       [0..<required_seq]) [0..<hp_dim hp]) [0..<hp_kv_heads hp]
     (replicate (cap * hp_kv_dim hp) f32_zero)"

definition append_v_t :: "hyperparams \<Rightarrow> nat \<Rightarrow> nat \<Rightarrow> f32 list \<Rightarrow> f32 list \<Rightarrow> f32 list" where
  "append_v_t hp cap position v v_t =
     fold (\<lambda>kvh. fold (\<lambda>d out.
         out[position + cap * d + cap * hp_dim hp * kvh := v ! (kvh * hp_dim hp + d)])
       [0..<hp_dim hp]) [0..<hp_kv_heads hp] v_t"

definition update_v_t :: "hyperparams \<Rightarrow> nat \<Rightarrow> nat \<Rightarrow> f32 list \<Rightarrow> kv_layer \<Rightarrow> kv_layer" where
  "update_v_t hp required_seq position v cache =
     (if kv_v_t_capacity cache < required_seq
      then let new_cap = max required_seq (max (kv_v_t_capacity cache * 2) 16)
           in cache\<lparr>kv_v_t := transpose_v hp new_cap required_seq (kv_v cache),
                    kv_v_t_capacity := new_cap\<rparr>
      else cache\<lparr>kv_v_t := append_v_t hp (kv_v_t_capacity cache) position v (kv_v_t cache)\<rparr>)"

section \<open>Attention over the cache\<close>

definition score_scale :: "fpu \<Rightarrow> hyperparams \<Rightarrow> f32" where
  "score_scale F hp = fdiv F f32_one (fsqrt F (f32_of_int F (int (hp_dim hp))))"

text \<open>The three inner loops of the scalar path: scores with their running maximum, the
  exponentials with their sum, and the accumulation of the weighted values.\<close>

definition scalar_scores ::
    "fpu \<Rightarrow> hyperparams \<Rightarrow> f32 list \<Rightarrow> f32 list \<Rightarrow> nat \<Rightarrow> nat \<Rightarrow> f32 list \<times> f32" where
  "scalar_scores F hp q k_cache required_seq qh =
     fold (\<lambda>pos (scores, max_score).
         let kvh = qh div hp_groups hp;
             dot = foldl (\<lambda>dot d. fadd F dot (fmul F (q ! (qh * hp_dim hp + d))
                      (k_cache ! (pos * hp_kv_dim hp + kvh * hp_dim hp + d)))) f32_zero [0..<hp_dim hp];
             score = fmul F dot (score_scale F hp)
         in (scores[pos := score], f32_max max_score score))
       [0..<required_seq] (replicate required_seq f32_zero, f32_neg_infinity)"

definition scalar_exps :: "fpu \<Rightarrow> f32 list \<Rightarrow> f32 \<Rightarrow> f32 list \<times> f32" where
  "scalar_exps F scores max_score =
     fold (\<lambda>i (scores, denom). let e = fexp F (fsub F (scores ! i) max_score)
                             in (scores[i := e], fadd F denom e))
       [0..<length scores] (scores, f32_zero)"

definition scalar_accumulate ::
    "fpu \<Rightarrow> hyperparams \<Rightarrow> f32 list \<Rightarrow> nat \<Rightarrow> nat \<Rightarrow> f32 list \<Rightarrow> f32 \<Rightarrow> f32 list \<Rightarrow> f32 list" where
  "scalar_accumulate F hp v_cache required_seq qh scores denom context =
     fold (\<lambda>pos. fold (\<lambda>d context. context[qh * hp_dim hp + d :=
           fadd F (context ! (qh * hp_dim hp + d))
             (fmul F (fdiv F (scores ! pos) denom)
                (v_cache ! (pos * hp_kv_dim hp + (qh div hp_groups hp) * hp_dim hp + d)))]) [0..<hp_dim hp])
       [0..<required_seq] context"

definition compute_attention_scalar ::
    "fpu \<Rightarrow> hyperparams \<Rightarrow> f32 list \<Rightarrow> f32 list \<Rightarrow> f32 list \<Rightarrow> nat \<Rightarrow> f32 list result" where
  "compute_attention_scalar F hp q k_cache v_cache required_seq =
     foldR (\<lambda>qh context.
         let (scores, max_score) = scalar_scores F hp q k_cache required_seq qh;
             (scores, denom) = scalar_exps F scores max_score
         in if f32_le denom f32_zero then Inl ''attention softmax denominator is non-positive''
            else Inr (scalar_accumulate F hp v_cache required_seq qh scores denom context))
       [0..<hp_heads hp] (replicate (hp_q_dim hp) f32_zero)"

text \<open>The elements a ggml view addresses: extents \<open>n0, n1, n2\<close> and strides in elements
  (the code gives them in bytes, each a multiple of \<open>sizeof(float)\<close>).\<close>

definition strided :: "f32 list \<Rightarrow> nat \<times> nat \<times> nat \<Rightarrow> nat \<times> nat \<times> nat \<Rightarrow> tensor3" where
  "strided buf ne nb = (case ne of (n0, n1, n2) \<Rightarrow> case nb of (s0, s1, s2) \<Rightarrow>
     map (\<lambda>i2. map (\<lambda>i1. map (\<lambda>i0. buf ! (i0 * s0 + i1 * s1 + i2 * s2)) [0..<n0]) [0..<n1]) [0..<n2])"

definition compute_attention_ggml_views ::
    "('w, 'g) platform \<Rightarrow> hyperparams \<Rightarrow> f32 list \<Rightarrow> f32 list \<Rightarrow> f32 list \<Rightarrow> nat \<Rightarrow> nat \<Rightarrow> f32 list result" where
  "compute_attention_ggml_views pl hp q k_src v_t_src v_capacity required_seq =
     (let q_t = strided q (hp_dim hp, hp_groups hp, hp_kv_heads hp)
                  (1, hp_dim hp, hp_dim hp * hp_groups hp);
          k_t = strided k_src (hp_dim hp, required_seq, hp_kv_heads hp) (1, hp_kv_dim hp, hp_dim hp);
          v_t = strided v_t_src (required_seq, hp_dim hp, hp_kv_heads hp)
                  (1, v_capacity, v_capacity * hp_dim hp)
      in bindR (mul_mat pl k_t q_t) (\<lambda>scores.
           let probs = soft_max pl (scale_mat pl scores (score_scale (fp pl) hp))
           in bindR (mul_mat pl v_t probs) (\<lambda>ctx_t.
                Inr (take (hp_q_dim hp) (concat (map concat ctx_t))))))"

text \<open>The parity entry point transposes V from scratch.\<close>

definition compute_attention_ggml ::
    "('w, 'g) platform \<Rightarrow> hyperparams \<Rightarrow> f32 list \<Rightarrow> f32 list \<Rightarrow> f32 list \<Rightarrow> nat \<Rightarrow> f32 list result" where
  "compute_attention_ggml pl hp q k_cache v_cache required_seq =
     compute_attention_ggml_views pl hp q k_cache (transpose_v hp required_seq required_seq v_cache)
       required_seq required_seq"

text \<open>\<open>attention\<close>, on the cache entry of its layer.\<close>

definition attention_step ::
    "('w, 'g) platform \<Rightarrow> hyperparams \<Rightarrow> f32 list \<Rightarrow> f32 list \<Rightarrow> f32 list \<Rightarrow> nat \<Rightarrow> (kv_layer, f32 list) action" where
  "attention_step pl hp q k v position =
     (let kv_dim = hp_kv_dim hp; required_seq = position + 1
      in bindA (checkA (length q = hp_q_dim hp) ''Q vector has wrong size'') (\<lambda>_.
         bindA (checkA (length k = kv_dim \<and> length v = kv_dim) ''K/V vector has wrong size'') (\<lambda>_.
         bindA (modifyA (grow_cache kv_dim required_seq)) (\<lambda>_.
         bindA (modifyA (store_kv kv_dim position k v)) (\<lambda>_.
         if attention_backend_is_ggml pl
         then bindA (modifyA (update_v_t hp required_seq position v)) (\<lambda>_.
              bindA getA (\<lambda>cache. liftA
                (compute_attention_ggml_views pl hp q (kv_k cache) (kv_v_t cache)
                   (kv_v_t_capacity cache) required_seq)))
         else bindA getA (\<lambda>cache. liftA
                (compute_attention_scalar (fp pl) hp q (kv_k cache) (kv_v cache) required_seq)))))))"

section \<open>Loops that write a buffer\<close>

lemma fold_product:
  "fold (\<lambda>x. fold (g x) ys) xs s = fold (\<lambda>(x, y). g x y) (List.product xs ys) s"
  by (induction xs arbitrary: s) (simp_all add: fold_map comp_def)

lemma fold_product3:
  "fold (\<lambda>x. fold (\<lambda>y. fold (g x y) zs) ys) xs s =
     fold (\<lambda>(x, y, z). g x y z) (List.product xs (List.product ys zs)) s"
  by (induction xs arbitrary: s) (simp_all add: fold_map comp_def fold_product)

lemma fold_upd_length [simp]: "length (fold (\<lambda>x out. out[f x := g x]) xs out) = length out"
  by (induction xs arbitrary: out) simp_all

lemma fold_upd_other:
  "n \<notin> f ` set xs \<Longrightarrow> fold (\<lambda>x out. out[f x := g x]) xs out ! n = out ! n"
  by (induction xs arbitrary: out) simp_all

lemma fold_upd_nth:
  "inj_on f (set xs) \<Longrightarrow> x \<in> set xs \<Longrightarrow> f x < length out \<Longrightarrow>
     fold (\<lambda>x out. out[f x := g x]) xs out ! f x = g x"
proof (induction xs arbitrary: out)
  case (Cons a xs)
  show ?case
  proof (cases "x \<in> set xs")
    case True
    with Cons show ?thesis by (simp add: inj_on_insert)
  next
    case False
    then have "x = a" "f a \<notin> f ` set xs"
      using Cons.prems by (auto simp: inj_on_def)
    with Cons.prems show ?thesis by (simp add: fold_upd_other)
  qed
qed simp

section \<open>The layout of the transposed V\<close>

definition vt_index :: "hyperparams \<Rightarrow> nat \<Rightarrow> nat \<times> nat \<times> nat \<Rightarrow> nat" where
  "vt_index hp cap = (\<lambda>(kvh, d, pos). pos + cap * d + cap * hp_dim hp * kvh)"

definition vt_range :: "hyperparams \<Rightarrow> nat \<Rightarrow> (nat \<times> nat \<times> nat) set" where
  "vt_range hp n = {..<hp_kv_heads hp} \<times> {..<hp_dim hp} \<times> {..<n}"

lemma vt_index_decode:
  assumes "d < hp_dim hp" "pos < cap"
  shows "vt_index hp cap (kvh, d, pos) mod cap = pos"
    "vt_index hp cap (kvh, d, pos) div cap mod hp_dim hp = d"
    "vt_index hp cap (kvh, d, pos) div cap div hp_dim hp = kvh"
proof -
  have eq: "vt_index hp cap (kvh, d, pos) = pos + cap * (d + hp_dim hp * kvh)"
    by (simp add: vt_index_def algebra_simps)
  have q: "vt_index hp cap (kvh, d, pos) div cap = d + hp_dim hp * kvh"
    using assms(2) by (simp add: eq)
  show "vt_index hp cap (kvh, d, pos) mod cap = pos" using assms(2) by (simp add: eq)
  show "vt_index hp cap (kvh, d, pos) div cap mod hp_dim hp = d" using assms(1) by (simp add: q)
  show "vt_index hp cap (kvh, d, pos) div cap div hp_dim hp = kvh" using assms(1) by (simp add: q)
qed

lemma vt_index_inj: "inj_on (vt_index hp cap) (vt_range hp cap)"
proof (rule inj_onI)
  fix x y
  assume x: "x \<in> vt_range hp cap" and y: "y \<in> vt_range hp cap"
    and eq: "vt_index hp cap x = vt_index hp cap y"
  obtain a b c a' b' c' where xy: "x = (a, b, c)" "y = (a', b', c')" by (metis prod_cases3)
  have "b < hp_dim hp" "c < cap" "b' < hp_dim hp" "c' < cap"
    using x y by (auto simp: xy vt_range_def)
  then show "x = y"
    using eq vt_index_decode [of b hp c cap a] vt_index_decode [of b' hp c' cap a']
    unfolding xy by simp
qed

lemma vt_index_less:
  assumes "x \<in> vt_range hp cap"
  shows "vt_index hp cap x < cap * hp_kv_dim hp"
proof -
  obtain kvh d pos where x: "x = (kvh, d, pos)" by (metis prod_cases3)
  have r: "kvh < hp_kv_heads hp" "d < hp_dim hp" "pos < cap" using assms by (auto simp: x vt_range_def)
  have "d + hp_dim hp * kvh < hp_dim hp * Suc kvh" using r by simp
  also have "\<dots> \<le> hp_dim hp * hp_kv_heads hp" using r by (intro mult_le_mono2) simp
  finally have "Suc (d + hp_dim hp * kvh) \<le> hp_kv_dim hp"
    by (simp add: hp_kv_dim_def mult.commute)
  then have "cap * Suc (d + hp_dim hp * kvh) \<le> cap * hp_kv_dim hp" by (rule mult_le_mono2)
  with r show ?thesis by (simp add: x vt_index_def algebra_simps)
qed

definition v_index :: "hyperparams \<Rightarrow> nat \<times> nat \<times> nat \<Rightarrow> nat" where
  "v_index hp = (\<lambda>(kvh, d, pos). pos * hp_kv_dim hp + kvh * hp_dim hp + d)"

definition vt_triples :: "hyperparams \<Rightarrow> nat \<Rightarrow> (nat \<times> nat \<times> nat) list" where
  "vt_triples hp n = List.product [0..<hp_kv_heads hp] (List.product [0..<hp_dim hp] [0..<n])"

lemma set_vt_triples: "set (vt_triples hp n) = vt_range hp n"
  by (auto simp: vt_triples_def vt_range_def)

lemma transpose_v_fold:
  "transpose_v hp cap n v =
     fold (\<lambda>x out. out[vt_index hp cap x := v ! v_index hp x]) (vt_triples hp n)
       (replicate (cap * hp_kv_dim hp) f32_zero)"
  unfolding transpose_v_def vt_triples_def fold_product3
  by (rule fold_cong) (auto simp: vt_index_def v_index_def fun_eq_iff)

lemma length_transpose_v [simp]: "length (transpose_v hp cap n v) = cap * hp_kv_dim hp"
  by (simp add: transpose_v_fold)

lemma transpose_v_nth:
  assumes "x \<in> vt_range hp cap" "n \<le> cap"
  shows "transpose_v hp cap n v ! vt_index hp cap x = (if x \<in> vt_range hp n then v ! v_index hp x else f32_zero)"
proof -
  have sub: "vt_range hp n \<subseteq> vt_range hp cap" using assms(2) by (auto simp: vt_range_def)
  have inj: "inj_on (vt_index hp cap) (set (vt_triples hp n))"
    using inj_on_subset [OF vt_index_inj sub] by (simp add: set_vt_triples)
  show ?thesis
  proof (cases "x \<in> vt_range hp n")
    case True
    then show ?thesis
      using vt_index_less [OF assms(1)]
      by (simp add: transpose_v_fold fold_upd_nth [OF inj] set_vt_triples)
  next
    case False
    have "vt_index hp cap x \<notin> vt_index hp cap ` vt_range hp n"
      using False assms(1) sub inj_onD [OF vt_index_inj, of hp cap x] by blast
    with False show ?thesis
      using vt_index_less [OF assms(1)]
      by (simp add: transpose_v_fold fold_upd_other set_vt_triples)
  qed
qed

lemma append_v_t_fold:
  "append_v_t hp cap p v out =
     fold (\<lambda>x out. out[vt_index hp cap x := v ! v_index hp (fst x, fst (snd x), 0)])
       (List.product [0..<hp_kv_heads hp] (List.product [0..<hp_dim hp] [p])) out"
proof -
  have "append_v_t hp cap p v out =
      fold (\<lambda>kvh. fold (\<lambda>d. fold (\<lambda>pos out. out[pos + cap * d + cap * hp_dim hp * kvh :=
        v ! (kvh * hp_dim hp + d)]) [p]) [0..<hp_dim hp]) [0..<hp_kv_heads hp] out"
    by (simp add: append_v_t_def)
  also have "\<dots> = fold (\<lambda>x out. out[vt_index hp cap x := v ! v_index hp (fst x, fst (snd x), 0)])
       (List.product [0..<hp_kv_heads hp] (List.product [0..<hp_dim hp] [p])) out"
    unfolding fold_product3
    by (rule fold_cong) (auto simp: vt_index_def v_index_def fun_eq_iff)
  finally show ?thesis .
qed

lemma length_append_v_t [simp]: "length (append_v_t hp cap p v out) = length out"
  by (simp add: append_v_t_fold)

lemma append_v_t_nth:
  assumes "x \<in> vt_range hp cap" "p < cap" "length out = cap * hp_kv_dim hp"
  shows "append_v_t hp cap p v out ! vt_index hp cap x =
     (if snd (snd x) = p then v ! v_index hp (fst x, fst (snd x), 0) else out ! vt_index hp cap x)"
proof -
  let ?xs = "List.product [0..<hp_kv_heads hp] (List.product [0..<hp_dim hp] [p])"
  have sub: "set ?xs \<subseteq> vt_range hp cap" using assms(2) by (auto simp: vt_range_def)
  have inj: "inj_on (vt_index hp cap) (set ?xs)" using inj_on_subset [OF vt_index_inj sub] .
  show ?thesis
  proof (cases "snd (snd x) = p")
    case True
    then have "x \<in> set ?xs" using assms(1) by (auto simp: vt_range_def)
    then show ?thesis
      using True vt_index_less [OF assms(1)] assms(3)
      by (simp add: append_v_t_fold fold_upd_nth [OF inj])
  next
    case False
    then have "x \<notin> set ?xs" by auto
    then have "vt_index hp cap x \<notin> vt_index hp cap ` set ?xs"
      using assms(1) sub inj_onD [OF vt_index_inj, of hp cap x] by blast
    with False show ?thesis by (simp add: append_v_t_fold fold_upd_other)
  qed
qed

section \<open>The invariant of a layer's cache\<close>

definition kv_wf :: "bool \<Rightarrow> hyperparams \<Rightarrow> kv_layer \<Rightarrow> bool" where
  "kv_wf ggml hp kv \<longleftrightarrow>
     length (kv_k kv) = kv_seq_len kv * hp_kv_dim hp \<and>
     length (kv_v kv) = kv_seq_len kv * hp_kv_dim hp \<and>
     (ggml \<longrightarrow> kv_seq_len kv \<le> kv_v_t_capacity kv \<and>
        length (kv_v_t kv) = kv_v_t_capacity kv * hp_kv_dim hp \<and>
        (\<forall>x \<in> vt_range hp (kv_v_t_capacity kv).
           kv_v_t kv ! vt_index hp (kv_v_t_capacity kv) x =
             (if x \<in> vt_range hp (kv_seq_len kv) then kv_v kv ! v_index hp x else f32_zero)))"

lemma empty_kv_wf [simp]: "kv_wf ggml hp empty_kv_layer"
  by (simp add: kv_wf_def empty_kv_layer_def vt_range_def)

lemma v_index_less:
  assumes "x \<in> vt_range hp n"
  shows "v_index hp x < n * hp_kv_dim hp"
    "v_index hp x div hp_kv_dim hp = snd (snd x)"
    "v_index hp x mod hp_kv_dim hp = v_index hp (fst x, fst (snd x), 0)"
proof -
  obtain kvh d pos where x: "x = (kvh, d, pos)" by (metis prod_cases3)
  have r: "kvh < hp_kv_heads hp" "d < hp_dim hp" "pos < n" using assms by (auto simp: x vt_range_def)
  have "d + kvh * hp_dim hp < Suc kvh * hp_dim hp" using r by simp
  also have "\<dots> \<le> hp_kv_dim hp" unfolding hp_kv_dim_def using r by (intro mult_le_mono1) simp
  finally have l: "kvh * hp_dim hp + d < hp_kv_dim hp" by simp
  have "v_index hp x < Suc pos * hp_kv_dim hp" using l by (simp add: x v_index_def)
  also have "\<dots> \<le> n * hp_kv_dim hp" using r by (intro mult_le_mono1) simp
  finally show "v_index hp x < n * hp_kv_dim hp" .
  have eq: "v_index hp x = (kvh * hp_dim hp + d) + pos * hp_kv_dim hp" by (simp add: x v_index_def)
  show "v_index hp x div hp_kv_dim hp = snd (snd x)" unfolding eq using l by (simp add: x)
  show "v_index hp x mod hp_kv_dim hp = v_index hp (fst x, fst (snd x), 0)"
    unfolding eq using l by (simp add: x v_index_def)
qed

lemma length_resize [simp]: "length (resize n xs) = n"
  by (simp add: resize_def)

lemma resize_nth: "i < n \<Longrightarrow> resize n xs ! i = (if i < length xs then xs ! i else f32_zero)"
  by (auto simp: resize_def nth_append)

lemma length_copy_at [simp]:
  "off + length src \<le> length dst \<Longrightarrow> length (copy_at off src dst) = length dst"
  by (simp add: copy_at_def)

lemma copy_at_nth:
  assumes "off + length src \<le> length dst" "i < length dst"
  shows "copy_at off src dst ! i = (if off \<le> i \<and> i < off + length src then src ! (i - off) else dst ! i)"
  using assms by (auto simp: copy_at_def nth_append not_less)

definition put_kv :: "hyperparams \<Rightarrow> nat \<Rightarrow> f32 list \<Rightarrow> f32 list \<Rightarrow> kv_layer \<Rightarrow> kv_layer" where
  "put_kv hp p k v kv = store_kv (hp_kv_dim hp) p k v (grow_cache (hp_kv_dim hp) (p + 1) kv)"

lemma put_kv_fields [simp]:
  "kv_seq_len (put_kv hp p k v kv) = max (kv_seq_len kv) (p + 1)"
  "kv_v_t (put_kv hp p k v kv) = kv_v_t kv" "kv_v_t_capacity (put_kv hp p k v kv) = kv_v_t_capacity kv"
  by (auto simp: put_kv_def store_kv_def grow_cache_def)

definition put_rows :: "hyperparams \<Rightarrow> nat \<Rightarrow> nat \<Rightarrow> f32 list \<Rightarrow> f32 list \<Rightarrow> f32 list" where
  "put_rows hp seq p r rows = copy_at (p * hp_kv_dim hp) r
     (if seq < p + 1 then resize ((p + 1) * hp_kv_dim hp) rows else rows)"

lemma put_kv_rows:
  "kv_k (put_kv hp p k v kv) = put_rows hp (kv_seq_len kv) p k (kv_k kv)"
  "kv_v (put_kv hp p k v kv) = put_rows hp (kv_seq_len kv) p v (kv_v kv)"
  by (auto simp: put_kv_def store_kv_def grow_cache_def put_rows_def)

lemma put_rows:
  assumes "length r = hp_kv_dim hp" "length rows = seq * hp_kv_dim hp"
  shows "length (put_rows hp seq p r rows) = max seq (p + 1) * hp_kv_dim hp"
    and "i < max seq (p + 1) * hp_kv_dim hp \<Longrightarrow> put_rows hp seq p r rows ! i =
      (if i div hp_kv_dim hp = p then r ! (i mod hp_kv_dim hp)
       else if i < seq * hp_kv_dim hp then rows ! i else f32_zero)"
proof -
  let ?d = "hp_kv_dim hp"
  let ?base = "if seq < p + 1 then resize ((p + 1) * ?d) rows else rows"
  have le: "(p + 1) * ?d \<le> max seq (p + 1) * ?d" by (intro mult_le_mono1) simp
  have base: "length ?base = max seq (p + 1) * ?d" using assms(2) by (auto simp: max_def)
  have fits: "p * ?d + length r \<le> length ?base"
    using assms(1) le unfolding base by simp
  show "length (put_rows hp seq p r rows) = max seq (p + 1) * ?d"
    using fits base by (simp add: put_rows_def)
  assume i: "i < max seq (p + 1) * ?d"
  then have d: "0 < ?d" by (cases "?d = 0") simp_all
  have row: "p * ?d \<le> i \<and> i < p * ?d + ?d \<longleftrightarrow> i div ?d = p"
    using d by (metis add.commute div_nat_eqI dividend_less_times_div mult.commute mult_Suc times_div_less_eq_dividend)
  have "?base ! i = (if i < seq * ?d then rows ! i else f32_zero)"
    using i assms(2) by (auto simp: resize_nth max_def split: if_splits)
  moreover have "i - p * ?d = i mod ?d" if "i div ?d = p"
    using that by (metis minus_div_mult_eq_mod)
  ultimately show "put_rows hp seq p r rows ! i =
      (if i div ?d = p then r ! (i mod ?d) else if i < seq * ?d then rows ! i else f32_zero)"
    using copy_at_nth [OF fits, of i] i base row assms(1) by (auto simp: put_rows_def)
qed

lemma put_rows_v_index:
  assumes "length r = hp_kv_dim hp" "length rows = seq * hp_kv_dim hp" "x \<in> vt_range hp (max seq (p + 1))"
  shows "put_rows hp seq p r rows ! v_index hp x =
     (if snd (snd x) = p then r ! v_index hp (fst x, fst (snd x), 0)
      else if x \<in> vt_range hp seq then rows ! v_index hp x else f32_zero)"
proof -
  have d: "0 < hp_kv_dim hp" using v_index_less(1) [OF assms(3)] by (cases "hp_kv_dim hp = 0") simp_all
  have "v_index hp x < seq * hp_kv_dim hp \<longleftrightarrow> snd (snd x) < seq"
    using v_index_less(2) [OF assms(3)] d by (metis div_less_iff_less_mult mult.commute)
  moreover have "x \<in> vt_range hp seq \<longleftrightarrow> snd (snd x) < seq"
    using assms(3) by (auto simp: vt_range_def)
  ultimately show ?thesis
    using put_rows(2) [OF assms(1,2) v_index_less(1) [OF assms(3)]] v_index_less(2,3) [OF assms(3)]
    by simp
qed

lemma attention_step_eq:
  assumes "length q = hp_q_dim hp" "length k = hp_kv_dim hp" "length v = hp_kv_dim hp"
  shows "attention_step pl hp q k v p kv =
     (if attention_backend_is_ggml pl
      then let kv' = update_v_t hp (p + 1) p v (put_kv hp p k v kv)
           in (compute_attention_ggml_views pl hp q (kv_k kv') (kv_v_t kv') (kv_v_t_capacity kv') (p + 1), kv')
      else let kv' = put_kv hp p k v kv
           in (compute_attention_scalar (fp pl) hp q (kv_k kv') (kv_v kv') (p + 1), kv'))"
  using assms by (simp add: attention_step_def put_kv_def Let_def)

lemma attention_step_bad_size:
  assumes "\<not> (length q = hp_q_dim hp \<and> length k = hp_kv_dim hp \<and> length v = hp_kv_dim hp)"
  shows "\<exists>e. attention_step pl hp q k v p kv = (Inl e, kv)"
  using assms by (auto simp: attention_step_def Let_def)

lemma update_v_t_fields [simp]:
  "kv_seq_len (update_v_t hp n p v kv) = kv_seq_len kv" "kv_k (update_v_t hp n p v kv) = kv_k kv"
  "kv_v (update_v_t hp n p v kv) = kv_v kv"
  by (auto simp: update_v_t_def Let_def)

lemma put_kv_wf:
  assumes "kv_wf ggml hp kv" "length k = hp_kv_dim hp" "length v = hp_kv_dim hp"
  shows "kv_wf False hp (put_kv hp p k v kv)"
  using assms by (simp add: kv_wf_def put_kv_rows put_rows)

lemma update_v_t_wf:
  assumes wf: "kv_wf True hp kv" and k: "length k = hp_kv_dim hp" and v: "length v = hp_kv_dim hp"
  shows "kv_wf True hp (update_v_t hp (p + 1) p v (put_kv hp p k v kv))"
proof -
  let ?n = "max (kv_seq_len kv) (p + 1)" and ?put = "put_kv hp p k v kv" and ?cap = "kv_v_t_capacity kv"
  have lens: "length (kv_k kv) = kv_seq_len kv * hp_kv_dim hp" "length (kv_v kv) = kv_seq_len kv * hp_kv_dim hp"
    and cap: "kv_seq_len kv \<le> ?cap" and vt: "length (kv_v_t kv) = ?cap * hp_kv_dim hp"
    and at: "\<And>x. x \<in> vt_range hp ?cap \<Longrightarrow> kv_v_t kv ! vt_index hp ?cap x =
        (if x \<in> vt_range hp (kv_seq_len kv) then kv_v kv ! v_index hp x else f32_zero)"
    using wf by (auto simp: kv_wf_def)
  note base = put_kv_wf [OF wf k v, of p, unfolded kv_wf_def]
  show ?thesis
  proof (cases "?cap < p + 1")
    case True
    define new where "new = max (p + 1) (max (?cap * 2) 16)"
    have upd: "update_v_t hp (p + 1) p v ?put =
        ?put\<lparr>kv_v_t := transpose_v hp new (p + 1) (kv_v ?put), kv_v_t_capacity := new\<rparr>"
      using True by (simp add: update_v_t_def new_def Let_def)
    have n: "?n = p + 1" using True cap by simp
    have "p + 1 \<le> new" by (simp add: new_def)
    then show ?thesis
      using base n unfolding upd by (auto simp: kv_wf_def transpose_v_nth)
  next
    case False
    then have n: "?n \<le> ?cap" "p < ?cap" using cap by auto
    have upd: "update_v_t hp (p + 1) p v ?put = ?put\<lparr>kv_v_t := append_v_t hp ?cap p v (kv_v_t kv)\<rparr>"
      using False by (simp add: update_v_t_def)
    have "append_v_t hp ?cap p v (kv_v_t kv) ! vt_index hp ?cap x =
        (if x \<in> vt_range hp ?n then kv_v ?put ! v_index hp x else f32_zero)"
      if x: "x \<in> vt_range hp ?cap" for x
    proof (cases "x \<in> vt_range hp ?n")
      case True
      then show ?thesis
        using append_v_t_nth [OF x n(2) vt] put_rows_v_index [OF v lens(2) True] at [OF x]
        by (simp add: put_kv_rows)
    next
      case False
      then have "x \<notin> vt_range hp (kv_seq_len kv)" "snd (snd x) \<noteq> p"
        using x by (auto simp: vt_range_def)
      with False show ?thesis using append_v_t_nth [OF x n(2) vt] at [OF x] by simp
    qed
    with base n vt show ?thesis unfolding upd by (auto simp: kv_wf_def)
  qed
qed

section \<open>Grouped-query attention, abstractly\<close>

text \<open>
  The specification is written over logical rows: \<open>dot\<close> combines a row of the cache with a row
  of activations, \<open>smax\<close> turns the scaled scores of all positions into probabilities.
\<close>

definition q_row :: "hyperparams \<Rightarrow> f32 list \<Rightarrow> nat \<Rightarrow> f32 list" where
  "q_row hp q qh = map (\<lambda>d. q ! (qh * hp_dim hp + d)) [0..<hp_dim hp]"

definition k_row :: "hyperparams \<Rightarrow> f32 list \<Rightarrow> nat \<Rightarrow> nat \<Rightarrow> f32 list" where
  "k_row hp k kvh pos = map (\<lambda>d. k ! v_index hp (kvh, d, pos)) [0..<hp_dim hp]"

definition v_col :: "hyperparams \<Rightarrow> f32 list \<Rightarrow> nat \<Rightarrow> nat \<Rightarrow> nat \<Rightarrow> f32 list" where
  "v_col hp v n kvh d = map (\<lambda>pos. v ! v_index hp (kvh, d, pos)) [0..<n]"

definition gqa_head ::
    "fpu \<Rightarrow> (f32 list \<Rightarrow> f32 list \<Rightarrow> f32) \<Rightarrow> (f32 list \<Rightarrow> f32 list result) \<Rightarrow> hyperparams \<Rightarrow>
     f32 list \<Rightarrow> f32 list \<Rightarrow> f32 list \<Rightarrow> nat \<Rightarrow> nat \<Rightarrow> f32 list result" where
  "gqa_head F dot smax hp q k v n qh =
     (let kvh = qh div hp_groups hp
      in bindR (smax (map (\<lambda>pos. fmul F (dot (k_row hp k kvh pos) (q_row hp q qh)) (score_scale F hp)) [0..<n]))
           (\<lambda>probs. Inr (map (\<lambda>d. dot (v_col hp v n kvh d) probs) [0..<hp_dim hp])))"

definition gqa_attention ::
    "fpu \<Rightarrow> (f32 list \<Rightarrow> f32 list \<Rightarrow> f32) \<Rightarrow> (f32 list \<Rightarrow> f32 list result) \<Rightarrow> hyperparams \<Rightarrow>
     f32 list \<Rightarrow> f32 list \<Rightarrow> f32 list \<Rightarrow> nat \<Rightarrow> f32 list result" where
  "gqa_attention F dot smax hp q k v n =
     bindR (mapR (gqa_head F dot smax hp q k v n) [0..<hp_heads hp]) (\<lambda>heads. Inr (concat heads))"

lemma length_gqa_head: "gqa_head F dot smax hp q k v n qh = Inr r \<Longrightarrow> length r = hp_dim hp"
  by (auto simp: gqa_head_def Let_def result_simps)

lemma gqa_attention_Inr_length:
  assumes "gqa_attention F dot smax hp q k v n = Inr r"
  shows "length r = hp_q_dim hp"
proof -
  obtain heads where h: "mapR (gqa_head F dot smax hp q k v n) [0..<hp_heads hp] = Inr heads" "r = concat heads"
    using assms by (auto simp: gqa_attention_def result_simps)
  have "length x = hp_dim hp" if "x \<in> set heads" for x
    using that h(1) length_gqa_head by (force simp: mapR_Inr_iff in_set_conv_nth)
  then have "sum_list (map length heads) = length heads * hp_dim hp"
    using sum_list_triv [of "hp_dim hp" heads] by (simp cong: map_cong)
  with h show ?thesis by (simp add: length_concat mapR_Inr_iff hp_q_dim_def)
qed

subsection \<open>The scalar computation implements it\<close>

definition scalar_dot :: "fpu \<Rightarrow> f32 list \<Rightarrow> f32 list \<Rightarrow> f32" where
  "scalar_dot F cached act = foldl (\<lambda>acc (c, a). fadd F acc (fmul F a c)) f32_zero (zip cached act)"

definition scalar_softmax :: "fpu \<Rightarrow> f32 list \<Rightarrow> f32 list result" where
  "scalar_softmax F scores =
     (let m = foldl f32_max f32_neg_infinity scores;
          exps = map (\<lambda>s. fexp F (fsub F s m)) scores;
          denom = foldl (fadd F) f32_zero exps
      in if f32_le denom f32_zero then Inl ''attention softmax denominator is non-positive''
         else Inr (map (\<lambda>e. fdiv F e denom) exps))"

lemma fold_fill:
  "fold (\<lambda>i (xs, m). (xs[i := g i], h m (g i))) [0..<n] (replicate n z, m0) =
     (map g [0..<n], foldl h m0 (map g [0..<n]))"
proof -
  have "fold (\<lambda>i (xs, m). (xs[i := g i], h m (g i))) [0..<j] (replicate n z, m0) =
     (map g [0..<j] @ replicate (n - j) z, foldl h m0 (map g [0..<j]))" if "j \<le> n" for j
    using that
  proof (induction j)
    case (Suc j)
    have "replicate (n - j) z = z # replicate (n - Suc j) z"
      using Suc.prems by (simp add: Suc_diff_Suc flip: replicate_Suc)
    with Suc show ?case by (simp add: list_update_append)
  qed simp
  from this [of n] show ?thesis by simp
qed

lemma fold_inplace:
  "fold (\<lambda>i (xs, s). let e = g (xs ! i) in (xs[i := e], h s e)) [0..<length xs] (xs, s0) =
     (map g xs, foldl h s0 (map g xs))"
proof -
  have "fold (\<lambda>i (xs, s). let e = g (xs ! i) in (xs[i := e], h s e)) [0..<j] (xs, s0) =
     (map g (take j xs) @ drop j xs, foldl h s0 (map g (take j xs)))" if "j \<le> length xs" for j
    using that
  proof (induction j)
    case (Suc j)
    then have "drop j xs = xs ! j # drop (Suc j) xs" by (simp add: Cons_nth_drop_Suc)
    with Suc show ?case by (simp add: list_update_append nth_append take_Suc_conv_app_nth Let_def)
  qed simp
  from this [of "length xs"] show ?thesis by simp
qed

lemma zip_maps: "zip (map f xs) (map g xs) = map (\<lambda>x. (f x, g x)) xs"
  by (induction xs) simp_all

lemma scalar_scores_eq:
  "scalar_scores F hp q k n qh =
     (let ss = map (\<lambda>pos. fmul F (scalar_dot F (k_row hp k (qh div hp_groups hp) pos) (q_row hp q qh))
          (score_scale F hp)) [0..<n]
      in (ss, foldl f32_max f32_neg_infinity ss))"
  unfolding scalar_scores_def
  using fold_fill [of "\<lambda>pos. fmul F (scalar_dot F (k_row hp k (qh div hp_groups hp) pos) (q_row hp q qh))
      (score_scale F hp)" f32_max n f32_zero f32_neg_infinity]
  by (simp add: Let_def scalar_dot_def k_row_def q_row_def v_index_def zip_maps foldl_map)

lemma scalar_exps_eq:
  "scalar_exps F ss m = (let es = map (\<lambda>s. fexp F (fsub F s m)) ss in (es, foldl (fadd F) f32_zero es))"
  unfolding scalar_exps_def
  using fold_inplace [of "\<lambda>s. fexp F (fsub F s m)" "fadd F" ss f32_zero] by (simp add: Let_def)

lemma fold_block:
  assumes "length pre = off" "length blk = n"
  shows "fold (\<lambda>d ctx. ctx[off + d := f d (ctx ! (off + d))]) [0..<n] (pre @ blk @ post) =
     pre @ map (\<lambda>d. f d (blk ! d)) [0..<n] @ post"
proof -
  have "fold (\<lambda>d ctx. ctx[off + d := f d (ctx ! (off + d))]) [0..<j] (pre @ blk @ post) =
     pre @ map (\<lambda>d. f d (blk ! d)) [0..<j] @ drop j blk @ post" if "j \<le> n" for j
    using that
  proof (induction j)
    case (Suc j)
    then have "drop j blk = blk ! j # drop (Suc j) blk" using assms(2) by (simp add: Cons_nth_drop_Suc)
    with Suc assms(1) show ?case by (simp add: list_update_append nth_append)
  qed simp
  from this [of n] show ?thesis using assms(2) by simp
qed

lemma fold_block_rounds:
  assumes "length pre = off" "length blk = n"
  shows "fold (\<lambda>p. fold (\<lambda>d ctx. ctx[off + d := f p d (ctx ! (off + d))]) [0..<n]) ps (pre @ blk @ post) =
     pre @ map (\<lambda>d. fold (\<lambda>p. f p d) ps (blk ! d)) [0..<n] @ post"
  using assms(2)
proof (induction ps arbitrary: blk)
  case Nil
  then show ?case using map_nth [of blk] by simp
next
  case (Cons p ps)
  show ?case
    using Cons.IH [of "map (\<lambda>d. f p d (blk ! d)) [0..<n]"]
    by (simp add: fold_block [OF assms(1) Cons.prems] cong: map_cong)
qed

lemma scalar_accumulate_eq:
  assumes "length pre = qh * hp_dim hp" "length es = n"
  shows "scalar_accumulate F hp v n qh es denom (pre @ replicate (hp_dim hp) f32_zero @ post) =
     pre @ map (\<lambda>d. scalar_dot F (v_col hp v n (qh div hp_groups hp) d) (map (\<lambda>e. fdiv F e denom) es))
       [0..<hp_dim hp] @ post"
proof -
  have es: "map (\<lambda>e. fdiv F e denom) es = map (\<lambda>pos. fdiv F (es ! pos) denom) [0..<n]"
    using assms(2) by (intro nth_equalityI) simp_all
  have "fold (\<lambda>pos c. fadd F c (fmul F (fdiv F (es ! pos) denom)
      (v ! (pos * hp_kv_dim hp + qh div hp_groups hp * hp_dim hp + d)))) [0..<n] f32_zero =
      scalar_dot F (v_col hp v n (qh div hp_groups hp) d) (map (\<lambda>e. fdiv F e denom) es)" for d
    unfolding es by (simp add: scalar_dot_def v_col_def zip_maps v_index_def foldl_conv_fold fold_map comp_def)
  then show ?thesis
    unfolding scalar_accumulate_def
    using fold_block_rounds [OF assms(1), of "replicate (hp_dim hp) f32_zero" "hp_dim hp"
        "\<lambda>pos d c. fadd F c (fmul F (fdiv F (es ! pos) denom)
           (v ! (pos * hp_kv_dim hp + qh div hp_groups hp * hp_dim hp + d)))" "[0..<n]" post]
    by (simp cong: map_cong)
qed

lemma scalar_head_step:
  assumes "length pre = qh * hp_dim hp"
  shows "(let (scores, max_score) = scalar_scores F hp q k n qh;
              (scores, denom) = scalar_exps F scores max_score
          in if f32_le denom f32_zero then Inl ''attention softmax denominator is non-positive''
             else Inr (scalar_accumulate F hp v n qh scores denom (pre @ replicate (hp_dim hp) f32_zero @ post)))
     = bindR (gqa_head F (scalar_dot F) (scalar_softmax F) hp q k v n qh) (\<lambda>blk. Inr (pre @ blk @ post))"
  using assms
  by (simp add: scalar_scores_eq scalar_exps_eq gqa_head_def scalar_softmax_def Let_def scalar_accumulate_eq)

lemma scalar_heads:
  assumes "j \<le> hp_heads hp"
  shows "foldR (\<lambda>qh context.
         let (scores, max_score) = scalar_scores F hp q k n qh;
             (scores, denom) = scalar_exps F scores max_score
         in if f32_le denom f32_zero then Inl ''attention softmax denominator is non-positive''
            else Inr (scalar_accumulate F hp v n qh scores denom context))
       [0..<j] (replicate (hp_q_dim hp) f32_zero)
     = bindR (mapR (gqa_head F (scalar_dot F) (scalar_softmax F) hp q k v n) [0..<j])
         (\<lambda>heads. Inr (concat heads @ replicate ((hp_heads hp - j) * hp_dim hp) f32_zero))"
  (is "foldR ?step _ _ = _") using assms
proof (induction j)
  case 0
  then show ?case by (simp add: hp_q_dim_def)
next
  case (Suc j)
  let ?head = "gqa_head F (scalar_dot F) (scalar_softmax F) hp q k v n"
  have zeros: "replicate ((hp_heads hp - j) * hp_dim hp) f32_zero =
      replicate (hp_dim hp) f32_zero @ replicate ((hp_heads hp - Suc j) * hp_dim hp) f32_zero"
    using Suc.prems by (simp add: Suc_diff_Suc flip: replicate_add mult_Suc)
  have len: "length (concat heads) = j * hp_dim hp" if "mapR ?head [0..<j] = Inr heads" for heads
  proof -
    have "\<forall>x \<in> set heads. length x = hp_dim hp"
      using that length_gqa_head by (force simp: mapR_Inr_iff in_set_conv_nth)
    then have "sum_list (map length heads) = length heads * hp_dim hp"
      using sum_list_triv [of "hp_dim hp" heads] by (simp cong: map_cong)
    with that show ?thesis by (simp add: length_concat mapR_Inr_iff)
  qed

  have "foldR ?step [0..<Suc j] (replicate (hp_q_dim hp) f32_zero) =
      bindR (mapR ?head [0..<j]) (\<lambda>heads. ?step j (concat heads @ replicate ((hp_heads hp - j) * hp_dim hp) f32_zero))"
    using Suc by (simp add: foldR_append bindR_assoc)
  also have "\<dots> = bindR (mapR ?head [0..<j]) (\<lambda>heads. bindR (?head j)
      (\<lambda>blk. Inr (concat heads @ blk @ replicate ((hp_heads hp - Suc j) * hp_dim hp) f32_zero)))"
  proof (cases "mapR ?head [0..<j]")
    case (Inr heads)
    show ?thesis
      using scalar_head_step [OF len [OF Inr], of F q k n v
          "replicate ((hp_heads hp - Suc j) * hp_dim hp) f32_zero"]
      by (simp only: Inr zeros bindR_simps)
  qed simp
  finally show ?case by (simp add: mapR_snoc bindR_assoc)
qed

lemma compute_attention_scalar_spec:
  "compute_attention_scalar F hp q k v n = gqa_attention F (scalar_dot F) (scalar_softmax F) hp q k v n"
  using scalar_heads [of "hp_heads hp" hp F q k n v]
  by (simp add: compute_attention_scalar_def gqa_attention_def)

subsection \<open>The ggml graph implements it\<close>

text \<open>
  The documented behaviour of the three tensor operations: \<open>ggml_mul_mat(a, b)\<close> has the dot
  products of the rows of \<open>a\<close> with the rows of \<open>b\<close>, \<open>ggml_scale\<close> multiplies by a constant and
  \<open>ggml_soft_max\<close> works row by row. How a dot product or a softmax of a row is rounded is left open.
\<close>

definition ggml_laws :: "('w, 'g) platform \<Rightarrow> (f32 list \<Rightarrow> f32 list \<Rightarrow> f32) \<Rightarrow> (f32 list \<Rightarrow> f32 list) \<Rightarrow> bool" where
  "ggml_laws pl dot smax \<longleftrightarrow>
     (\<forall>A B C. mul_mat pl A B = Inr C \<longrightarrow>
        C = map2 (\<lambda>Ma Mb. map (\<lambda>b. map (\<lambda>a. dot a b) Ma) Mb) A B) \<and>
     (\<forall>A c. scale_mat pl A c = map (map (map (\<lambda>x. fmul (fp pl) x c))) A) \<and>
     (\<forall>A. soft_max pl A = map (map smax) A)"

lemma hyperparams_accepted:
  assumes "check_hyperparams hp = Inr ()"
  shows "0 < hp_dim hp" "0 < hp_kv_heads hp" "0 < hp_heads hp" "0 < hp_hidden hp"
    "hp_heads hp = hp_kv_heads hp * hp_groups hp" "hp_q_dim hp = hp_hidden hp"
proof -
  have c: "0 < hidden_size hp" "0 < n_head hp" "0 < n_head_kv hp" "0 < head_dim hp"
    "n_head hp mod n_head_kv hp = 0" "n_head hp * head_dim hp = hidden_size hp"
    using assms by (auto simp: check_hyperparams_def split: if_splits)
  then show "0 < hp_dim hp" "0 < hp_kv_heads hp" "0 < hp_heads hp" "0 < hp_hidden hp"
    by (simp_all add: hp_dim_def hp_kv_heads_def hp_heads_def hp_hidden_def)
  have "hp_heads hp mod hp_kv_heads hp = 0"
    using c by (simp add: hp_heads_def hp_kv_heads_def flip: nat_mod_distrib)
  then show "hp_heads hp = hp_kv_heads hp * hp_groups hp"
    by (simp add: hp_groups_def mod_eq_0_iff_dvd)
  show "hp_q_dim hp = hp_hidden hp"
    using c by (simp add: hp_q_dim_def hp_heads_def hp_dim_def hp_hidden_def flip: nat_mult_distrib)
qed

lemma upt_blocks:
  "map h [0..<m * g] = concat (map (\<lambda>i. map (\<lambda>j. h (i * g + j)) [0..<g]) [0..<m])"
proof (induction m)
  case (Suc m)
  have "map (\<lambda>j. m * g + j) [0..<g] = [m * g..<m * g + g]"
    using map_add_upt [of "m * g" g] by (simp add: add.commute [of "m * g"])
  then have "[0..<Suc m * g] = [0..<m * g] @ map (\<lambda>j. m * g + j) [0..<g]"
    using upt_add_eq_append [of 0 "m * g" g] by (simp add: add.commute [of g])
  then show ?case using Suc.IH by (simp add: comp_def)
qed simp

lemma strided_k: "strided k (hp_dim hp, n, hp_kv_heads hp) (1, hp_kv_dim hp, hp_dim hp) =
     map (\<lambda>kvh. map (\<lambda>pos. k_row hp k kvh pos) [0..<n]) [0..<hp_kv_heads hp]"
  by (simp add: strided_def k_row_def v_index_def algebra_simps)

lemma strided_q:
  "strided q (hp_dim hp, hp_groups hp, hp_kv_heads hp) (1, hp_dim hp, hp_dim hp * hp_groups hp) =
     map (\<lambda>kvh. map (\<lambda>g. q_row hp q (kvh * hp_groups hp + g)) [0..<hp_groups hp]) [0..<hp_kv_heads hp]"
  by (simp add: strided_def q_row_def algebra_simps)

lemma strided_vt:
  assumes "\<And>x. x \<in> vt_range hp n \<Longrightarrow> vt ! vt_index hp cap x = v ! v_index hp x"
  shows "strided vt (n, hp_dim hp, hp_kv_heads hp) (1, cap, cap * hp_dim hp) =
     map (\<lambda>kvh. map (\<lambda>d. v_col hp v n kvh d) [0..<hp_dim hp]) [0..<hp_kv_heads hp]"
proof -
  have "vt ! (pos + d * cap + kvh * (cap * hp_dim hp)) = v ! v_index hp (kvh, d, pos)"
    if "pos < n" "d < hp_dim hp" "kvh < hp_kv_heads hp" for pos d kvh
    using assms [of "(kvh, d, pos)"] that
    by (simp add: vt_range_def vt_index_def mult.commute mult.left_commute)
  then show ?thesis by (simp add: strided_def v_col_def)
qed

lemma map2_same: "map2 f (map g xs) (map h xs) = map (\<lambda>x. f (g x) (h x)) xs"
  by (induction xs) simp_all

lemma concat_concat: "concat (concat xss) = concat (map concat xss)"
  by (induction xss) simp_all

text \<open>The output of the graph, whatever buffer the transposed values are read from.\<close>

lemma ggml_views_spec:
  assumes laws: "ggml_laws pl dot smax" and hp: "check_hyperparams hp = Inr ()"
    and vt: "\<And>x. x \<in> vt_range hp n \<Longrightarrow> vt ! vt_index hp cap x = v ! v_index hp x"
    and run: "compute_attention_ggml_views pl hp q k vt cap n = Inr r"
  shows "gqa_attention (fp pl) dot (\<lambda>ss. Inr (smax ss)) hp q k v n = Inr r"
proof -
  let ?s = "score_scale (fp pl) hp" and ?g = "hp_groups hp"
  define head where "head qh = map (\<lambda>d. dot (v_col hp v n (qh div ?g) d)
      (smax (map (\<lambda>pos. fmul (fp pl) (dot (k_row hp k (qh div ?g) pos) (q_row hp q qh)) ?s) [0..<n])))
    [0..<hp_dim hp]" for qh
  have heads: "gqa_head (fp pl) dot (\<lambda>ss. Inr (smax ss)) hp q k v n qh = Inr (head qh)" for qh
    by (simp add: gqa_head_def head_def Let_def)
  have mm: "C = map2 (\<lambda>Ma Mb. map (\<lambda>b. map (\<lambda>a. dot a b) Ma) Mb) A B" if "mul_mat pl A B = Inr C" for A B C
    using laws that unfolding ggml_laws_def by blast
  from run obtain scores ctx_t where
    1: "mul_mat pl (strided k (hp_dim hp, n, hp_kv_heads hp) (1, hp_kv_dim hp, hp_dim hp))
      (strided q (hp_dim hp, ?g, hp_kv_heads hp) (1, hp_dim hp, hp_dim hp * ?g)) = Inr scores"
    and 2: "mul_mat pl (strided vt (n, hp_dim hp, hp_kv_heads hp) (1, cap, cap * hp_dim hp))
      (soft_max pl (scale_mat pl scores ?s)) = Inr ctx_t"
    and r: "r = take (hp_q_dim hp) (concat (map concat ctx_t))"
    by (auto simp: compute_attention_ggml_views_def Let_def result_simps)
  have S: "scores = map (\<lambda>kvh. map (\<lambda>g. map (\<lambda>pos. dot (k_row hp k kvh pos) (q_row hp q (kvh * ?g + g)))
      [0..<n]) [0..<?g]) [0..<hp_kv_heads hp]"
    by (simp add: mm [OF 1 [unfolded strided_k strided_q]] map2_same comp_def)
  have group: "(kvh * ?g + g) div ?g = kvh" if "g < ?g" for kvh g
    using that by simp
  have V: "strided vt (n, hp_dim hp, hp_kv_heads hp) (1, cap, cap * hp_dim hp) =
     map (\<lambda>kvh. map (\<lambda>d. v_col hp v n kvh d) [0..<hp_dim hp]) [0..<hp_kv_heads hp]"
    by (rule strided_vt) (rule vt)
  have "ctx_t = map (\<lambda>kvh. map (\<lambda>g. head (kvh * ?g + g)) [0..<?g]) [0..<hp_kv_heads hp]"
    using laws by (simp add: mm [OF 2 [unfolded V]] ggml_laws_def S map2_same comp_def head_def)
  then have flat: "concat (map concat ctx_t) = concat (map head [0..<hp_heads hp])"
    using hyperparams_accepted(5) [OF hp] by (simp add: upt_blocks concat_concat comp_def)
  have "length (concat (map head [0..<hp_heads hp])) = hp_q_dim hp"
    by (simp add: length_concat comp_def head_def hp_q_dim_def sum_list_triv)
  then show ?thesis
    by (simp add: gqa_attention_def heads mapR_all_Inr [of _ _ head] r flat)
qed

section \<open>Rotation, pair by pair\<close>

lemma length_rotate_pair [simp]: "length (rotate_pair F tab p base i x) = length x"
  by (simp add: rotate_pair_def Let_def)

lemma length_fold_rotate_pair [simp]: "length (fold (rotate_pair F tab p base) is x) = length x"
  by (induction "is" arbitrary: x) simp_all

lemma length_rotate_heads [simp]: "length (rotate_heads F tab dim p heads x) = length x"
  by (induction heads arbitrary: x) (simp_all add: rotate_heads_def)

lemma set_evens: "set (evens dim) = {i. i < dim \<and> even i}" "distinct (evens dim)"
  by (auto simp: evens_def)

definition pair_rotation :: "fpu \<Rightarrow> f32 list \<Rightarrow> nat \<Rightarrow> nat \<Rightarrow> f32 list \<Rightarrow> nat \<Rightarrow> f32 \<times> f32" where
  "pair_rotation F tab p i x j =
     (let angle = fmul F (f32_of_int F (int p)) (tab ! i); c = fcos F angle; s = fsin F angle
      in (fsub F (fmul F (x ! j) c) (fmul F (x ! (j + 1)) s),
          fadd F (fmul F (x ! j) s) (fmul F (x ! (j + 1)) c)))"

lemma rotate_pair_other: "n \<noteq> base + i \<Longrightarrow> n \<noteq> base + i + 1 \<Longrightarrow> rotate_pair F tab p base i x ! n = x ! n"
  by (simp add: rotate_pair_def Let_def)

lemma rotate_pair_at:
  "base + i + 1 < length x \<Longrightarrow>
     (rotate_pair F tab p base i x ! (base + i), rotate_pair F tab p base i x ! (base + i + 1))
       = pair_rotation F tab p i x (base + i)"
  by (simp add: rotate_pair_def pair_rotation_def Let_def)

lemma fold_pairs_other:
  assumes "\<forall>(b, i) \<in> set ps. n \<noteq> b + i \<and> n \<noteq> b + i + 1"
  shows "fold (\<lambda>(b, i). rotate_pair F tab p b i) ps x ! n = x ! n"
  using assms by (induction ps arbitrary: x) (auto simp: rotate_pair_other)

lemma fold_pairs_at:
  assumes "distinct ps" "(b, i) \<in> set ps" "b + i + 1 < length x"
    and even: "\<forall>(b, i) \<in> set ps. even (b + i)"
    and inj: "inj_on (\<lambda>(b, i). b + i) (set ps)"
  shows "(fold (\<lambda>(b, i). rotate_pair F tab p b i) ps x ! (b + i),
          fold (\<lambda>(b, i). rotate_pair F tab p b i) ps x ! (b + i + 1)) = pair_rotation F tab p i x (b + i)"
  using assms
proof (induction ps arbitrary: x)
  case (Cons q ps)
  obtain b' i' where q: "q = (b', i')" by (cases q)
  have ne: "b + i \<noteq> b'' + i'' \<and> b + i \<noteq> b'' + i'' + 1 \<and> b + i + 1 \<noteq> b'' + i'' \<and> b + i + 1 \<noteq> b'' + i'' + 1"
    if "(b'', i'') \<in> set (q # ps)" "(b'', i'') \<noteq> (b, i)" for b'' i''
  proof -
    have "b + i \<noteq> b'' + i''" using inj_onD [OF Cons.prems(5), of "(b, i)" "(b'', i'')"] that Cons.prems(2) by auto
    moreover have "even (b + i)" "even (b'' + i'')" using Cons.prems(2,4) that by auto
    ultimately show ?thesis by (metis Suc_eq_plus1 add_right_cancel even_Suc)
  qed
  show ?case
  proof (cases "q = (b, i)")
    case True
    then have "\<forall>(b'', i'') \<in> set ps. b + i \<noteq> b'' + i'' \<and> b + i \<noteq> b'' + i'' + 1"
      "\<forall>(b'', i'') \<in> set ps. b + i + 1 \<noteq> b'' + i'' \<and> b + i + 1 \<noteq> b'' + i'' + 1"
      using ne Cons.prems(1) by fastforce+
    then show ?thesis
      using rotate_pair_at [OF Cons.prems(3), of F tab p] True by (simp add: fold_pairs_other)
  next
    case False
    then have "(b, i) \<in> set ps" using Cons.prems(2) by simp
    moreover have "pair_rotation F tab p i (rotate_pair F tab p b' i' x) (b + i) = pair_rotation F tab p i x (b + i)"
      using ne [of b' i'] False q by (simp add: pair_rotation_def rotate_pair_other)
    ultimately show ?thesis
      using Cons.IH [of "rotate_pair F tab p b' i' x"] Cons.prems by (simp add: q inj_on_insert)
  qed
qed simp

lemma rotate_at:
  assumes "even dim" "length x = heads * dim" "h < heads" "i < dim" "even i"
  shows "(rotate_heads F tab dim p heads x ! (h * dim + i), rotate_heads F tab dim p heads x ! (h * dim + i + 1))
     = pair_rotation F tab p i x (h * dim + i)"
proof -
  let ?ps = "List.product (map (\<lambda>h. h * dim) [0..<heads]) (evens dim)"
  have rot: "rotate_heads F tab dim p heads x = fold (\<lambda>(b, i). rotate_pair F tab p b i) ?ps x"
    unfolding rotate_heads_def fold_product [symmetric] by (simp add: fold_map comp_def)
  have dist: "distinct ?ps"
    using assms(4) by (intro distinct_product) (auto simp: set_evens distinct_map inj_on_def)
  have "h * dim + dim \<le> heads * dim" using assms(3) by (metis Suc_leI add.commute mult_Suc mult_le_mono1)
  moreover have "i + 1 < dim" using assms(1,4,5) by (metis Suc_eq_plus1 Suc_lessI even_Suc)
  ultimately have fits: "h * dim + i + 1 < length x" using assms(2) by linarith
  have inj: "inj_on (\<lambda>(b, i). b + i) (set ?ps)"
  proof (rule inj_onI)
    fix x y assume x: "x \<in> set ?ps" and y: "y \<in> set ?ps" and eq: "(\<lambda>(b, i). b + i) x = (\<lambda>(b, i). b + i) y"
    obtain h i h' i' where xy: "x = (h * dim, i)" "y = (h' * dim, i')" "i < dim" "i' < dim"
      using x y by (auto simp: set_evens)
    from eq have e: "h * dim + i = h' * dim + i'" by (simp add: xy)
    then have "i = i'" using xy(3,4) by (metis mod_less mod_mult_self3)
    with e show "x = y" by (simp add: xy)
  qed
  have "\<forall>(b, i) \<in> set ?ps. even (b + i)" using assms(1) by (auto simp: set_evens)
  moreover have "(h * dim, i) \<in> set ?ps" using assms(3-5) by (auto simp: set_evens)
  ultimately show ?thesis unfolding rot using fold_pairs_at [OF dist _ fits _ inj] by blast
qed

definition rope_ok :: "fpu \<Rightarrow> hyperparams \<Rightarrow> f32 list \<Rightarrow> bool" where
  "rope_ok F hp table \<longleftrightarrow> (length table = hp_dim hp \<longrightarrow> table = rope_table F hp)"

lemma length_rope_table [simp]: "length (rope_table F hp) = hp_dim hp"
  by (simp add: rope_table_def)

lemma rope_ok_table [simp]: "rope_ok F hp (rope_table F hp)"
  by (simp add: rope_ok_def)

text \<open>The memo table never changes the result.\<close>

lemma apply_rope_eq:
  "rope_ok F hp table \<Longrightarrow> apply_rope F hp q k p table =
     (Inr (rotate_heads F (rope_table F hp) (hp_dim hp) p (hp_heads hp) q,
           rotate_heads F (rope_table F hp) (hp_dim hp) p (hp_kv_heads hp) k), rope_table F hp)"
  by (simp add: apply_rope_def rope_ok_def)

lemma attention_step_wf:
  assumes "kv_wf (attention_backend_is_ggml pl) hp kv"
  shows "kv_wf (attention_backend_is_ggml pl) hp (snd (attention_step pl hp q k v position kv))"
proof (cases "length q = hp_q_dim hp \<and> length k = hp_kv_dim hp \<and> length v = hp_kv_dim hp")
  case True
  then show ?thesis
    using assms update_v_t_wf [of hp kv k v position] put_kv_wf [of _ hp kv k v position]
    by (cases "attention_backend_is_ggml pl") (simp_all add: attention_step_eq Let_def)
next
  case False
  with attention_step_bad_size [of q hp k v pl position kv] assms show ?thesis by auto
qed

section \<open>Properties\<close>

text \<open>A small model: two query heads sharing one key-value head of dimension two.\<close>

definition sample_hp :: hyperparams where
  "sample_hp = \<lparr>architecture = ''llama'', hidden_size = 4, ffn_size = 2, n_head = 2, n_head_kv = 1,
     head_dim = 2, vocab_size = 3, rms_eps = 1, rope_theta = 2\<rparr>"

lemma sample_hp_sizes [simp]:
  "hp_dim sample_hp = 2" "hp_heads sample_hp = 2" "hp_kv_heads sample_hp = 1" "hp_kv_dim sample_hp = 2"
  "hp_q_dim sample_hp = 4" "hp_groups sample_hp = 2" "hp_hidden sample_hp = 4"
  "check_hyperparams sample_hp = Inr ()"
  by (simp_all add: sample_hp_def hp_dim_def hp_heads_def hp_kv_heads_def hp_kv_dim_def hp_q_dim_def
      hp_groups_def hp_hidden_def check_hyperparams_def)

definition sample_cache :: kv_layer where
  "sample_cache = snd (attention_step (sample_platform True) sample_hp [1, 2, 3, 4] [5, 6] [7, 8] 0 empty_kv_layer)"

text \<open>C19. Attention keeps the invariant of a layer's cache on every path, the throwing ones
  included: K and V hold one row per cached position, and the transposed copy the ggml path reads
  is, at whatever capacity it has grown to, the transposition of V with zeros behind it.\<close>

theorem attention_step_keeps_invariant:
  assumes "kv_wf (attention_backend_is_ggml pl) hp kv"
  shows "kv_wf (attention_backend_is_ggml pl) hp (snd (attention_step pl hp q k v position kv))"
  using assms by (rule attention_step_wf)

lemma sample_backend: "attention_backend_is_ggml (sample_platform g) = g"
  by (simp add: sample_platform_def)

theorem attention_step_keeps_invariant_witness:
  "kv_wf True sample_hp (snd (attention_step (sample_platform True) sample_hp [1, 1, 1, 1] [2, 2] [3, 3] 1 sample_cache))"
proof -
  have "kv_wf (attention_backend_is_ggml (sample_platform True)) sample_hp sample_cache"
    using update_v_t_wf [of sample_hp empty_kv_layer "[5, 6]" "[7, 8]" 0]
    by (simp add: sample_cache_def attention_step_eq sample_backend Let_def)
  from attention_step_keeps_invariant [OF this] show ?thesis by (simp add: sample_backend)
qed

text \<open>C30. Reading the cache through strided views gives the same result as re-transposing it:
  the production ggml path, with its persistent buffer at any capacity, equals the parity entry
  point \<open>compute_attention_ggml\<close> on the current K and V, errors included.\<close>

theorem persistent_transpose_is_parity_path:
  assumes "attention_backend_is_ggml pl" and "kv_wf True hp kv"
    and "length q = hp_q_dim hp" "length k = hp_kv_dim hp" "length v = hp_kv_dim hp"
    and "attention_step pl hp q k v position kv = (r, kv')"
  shows "r = compute_attention_ggml pl hp q (kv_k kv') (kv_v kv') (position + 1)"
proof -
  let ?n = "position + 1" and ?kv = "update_v_t hp (position + 1) position v (put_kv hp position k v kv)"
  have kv': "kv' = ?kv"
    and r: "r = compute_attention_ggml_views pl hp q (kv_k kv') (kv_v_t kv') (kv_v_t_capacity kv') ?n"
    using assms by (auto simp: attention_step_eq Let_def)
  have wf: "kv_wf True hp kv'" unfolding kv' using assms(2,4,5) by (rule update_v_t_wf)
  have n: "?n \<le> kv_seq_len kv'" by (simp add: kv')
  have "strided (kv_v_t kv') (?n, hp_dim hp, hp_kv_heads hp) (1, kv_v_t_capacity kv', kv_v_t_capacity kv' * hp_dim hp)
      = map (\<lambda>kvh. map (\<lambda>d. v_col hp (kv_v kv') ?n kvh d) [0..<hp_dim hp]) [0..<hp_kv_heads hp]"
    using wf n by (intro strided_vt) (auto simp: kv_wf_def vt_range_def)
  moreover have "strided (transpose_v hp ?n ?n (kv_v kv')) (?n, hp_dim hp, hp_kv_heads hp) (1, ?n, ?n * hp_dim hp)
      = map (\<lambda>kvh. map (\<lambda>d. v_col hp (kv_v kv') ?n kvh d) [0..<hp_dim hp]) [0..<hp_kv_heads hp]"
    by (intro strided_vt) (simp add: transpose_v_nth)
  ultimately show ?thesis
    by (simp add: r compute_attention_ggml_def compute_attention_ggml_views_def)
qed

theorem persistent_transpose_is_parity_path_witness:
  "fst (attention_step (sample_platform True) sample_hp [1, 2, 3, 4] [5, 6] [7, 8] 0 empty_kv_layer)
     = compute_attention_ggml (sample_platform True) sample_hp [1, 2, 3, 4] (kv_k sample_cache) (kv_v sample_cache) 1"
  using persistent_transpose_is_parity_path
    [of "sample_platform True" sample_hp empty_kv_layer "[1, 2, 3, 4]" "[5, 6]" "[7, 8]" 0]
  by (simp add: sample_backend sample_cache_def prod_eq_iff)

text \<open>C32. The scalar computation is grouped-query attention: query head \<open>h\<close> attends to the rows of
  key-value head \<open>h div groups\<close>, its scores are soft-maxed over the positions, a non-positive
  denominator is the only error, and the heads are laid out one after the other.\<close>

theorem scalar_attention_is_gqa:
  "compute_attention_scalar F hp q k v n = gqa_attention F (scalar_dot F) (scalar_softmax F) hp q k v n"
  by (rule compute_attention_scalar_spec)

text \<open>C31. The ggml path implements the same specification, with ggml's own dot product and
  softmax: whatever it returns is the grouped-query attention over the updated K and V.\<close>

theorem ggml_attention_is_gqa:
  assumes "attention_backend_is_ggml pl" and "ggml_laws pl dot smax"
    and "check_hyperparams hp = Inr ()" and "kv_wf True hp kv"
    and "length k = hp_kv_dim hp" "length v = hp_kv_dim hp"
    and "attention_step pl hp q k v position kv = (Inr r, kv')"
  shows "gqa_attention (fp pl) dot (\<lambda>ss. Inr (smax ss)) hp q (kv_k kv') (kv_v kv') (position + 1) = Inr r"
proof -
  let ?kv = "update_v_t hp (position + 1) position v (put_kv hp position k v kv)"
  have q: "length q = hp_q_dim hp"
    using assms(7) attention_step_bad_size [of q hp k v pl position kv] by auto
  have kv': "kv' = ?kv"
    and r: "compute_attention_ggml_views pl hp q (kv_k kv') (kv_v_t kv') (kv_v_t_capacity kv') (position + 1) = Inr r"
    using assms q by (auto simp: attention_step_eq Let_def)
  have wf: "kv_wf True hp kv'" unfolding kv' using assms(4-6) by (rule update_v_t_wf)
  have n: "position + 1 \<le> kv_seq_len kv'" by (simp add: kv')
  show ?thesis
    using assms(2,3) _ r by (rule ggml_views_spec) (use wf n in \<open>auto simp: kv_wf_def vt_range_def\<close>)
qed

theorem ggml_attention_is_gqa_witness:
  "\<exists>r. fst (attention_step (sample_platform True) sample_hp [1, 2, 3, 4] [5, 6] [7, 8] 0 empty_kv_layer) = Inr r \<and>
     gqa_attention sample_fpu sample_dot Inr sample_hp [1, 2, 3, 4] (kv_k sample_cache) (kv_v sample_cache) 1 = Inr r"
proof -
  have laws: "ggml_laws (sample_platform True) sample_dot (\<lambda>ss. ss)"
    by (simp add: ggml_laws_def sample_platform_def sample_fpu_def)
  obtain r where r: "attention_step (sample_platform True) sample_hp [1, 2, 3, 4] [5, 6] [7, 8] 0 empty_kv_layer = (Inr r, sample_cache)"
    by (simp add: sample_cache_def attention_step_eq sample_backend Let_def compute_attention_ggml_views_def sample_platform_def)
  from ggml_attention_is_gqa [OF _ laws _ _ _ _ r] have
    "gqa_attention sample_fpu sample_dot Inr sample_hp [1, 2, 3, 4] (kv_k sample_cache) (kv_v sample_cache) 1 = Inr r"
    by (simp add: sample_backend) (simp add: sample_platform_def)
  with r show ?thesis by auto
qed



end
