(* ===== verification/Layer_Runner.thy ===== *)
theory Layer_Runner
  imports Prelude
begin

text \<open>
  The interface between the transformer layers and whatever drives them: a step that processes
  one row (token) in one layer, on a state of which each layer owns one slot. The laws say that a
  step depends on and changes only the slot of its layer. From them follow, once for every
  implementation, that layers may be distributed over machines that each hold only the slots
  of their own layers, and that a prompt may be processed in chunks.
\<close>

section \<open>Rows in sequence\<close>

fun rowsA :: "(nat \<Rightarrow> 'x \<Rightarrow> ('s, 'y) action) \<Rightarrow> nat \<Rightarrow> 'x list \<Rightarrow> ('s, 'y list) action" where
  "rowsA f p [] = retA []"
| "rowsA f p (x # xs) = bindA (f p x) (\<lambda>y. bindA (rowsA f (p + 1) xs) (\<lambda>ys. retA (y # ys)))"

lemma rowsA_append:
  "rowsA f p (xs @ ys) s =
     bindA (rowsA f p xs) (\<lambda>us. bindA (rowsA f (p + length xs) ys) (\<lambda>vs. retA (us @ vs))) s"
proof (induction xs arbitrary: p s)
  case Nil
  show ?case by (simp add: bindA_apply split: prod.splits sum.splits)
next
  case (Cons x xs)
  show ?case by (simp add: bindA_apply Cons.IH split: prod.splits sum.splits)
qed

lemma rowsA_Inr_length: "rowsA f p xs s = (Inr ys, s') \<Longrightarrow> length ys = length xs"
  by (induction xs arbitrary: p ys s s') (auto simp: result_simps)

text \<open>Stages that each own a state and a list of layers, the output of one the input of the next.\<close>

fun stagesA :: "('l \<Rightarrow> 'x \<Rightarrow> ('s, 'x) action) \<Rightarrow> 'l list list \<Rightarrow> 'x \<Rightarrow> 's list \<Rightarrow> 'x result \<times> 's list" where
  "stagesA run (L # Ls) x (s # ss) =
     (case foldA run L x s of
        (Inl e, s') \<Rightarrow> (Inl e, s' # ss)
      | (Inr y, s') \<Rightarrow> (case stagesA run Ls y ss of (r, ss') \<Rightarrow> (r, s' # ss')))"
| "stagesA run _ x ss = (Inr x, ss)"

section \<open>Layers with their own slots\<close>

locale layer_runner =
  fixes run :: "'l \<Rightarrow> 'x \<Rightarrow> ('s, 'x) action"
    and slot :: "'s \<Rightarrow> 'l \<Rightarrow> 'kv"
    and good :: "'s \<Rightarrow> bool"
  assumes good_run: "good s \<Longrightarrow> good (snd (run l x s))"
    and local_run: "good s \<Longrightarrow> good t \<Longrightarrow> slot s l = slot t l \<Longrightarrow>
      fst (run l x s) = fst (run l x t) \<and> slot (snd (run l x s)) l = slot (snd (run l x t)) l"
    and frame_run: "good s \<Longrightarrow> l' \<noteq> l \<Longrightarrow> slot (snd (run l x s)) l' = slot s l'"
begin

lemma good_fold: "good s \<Longrightarrow> good (snd (foldA run ls x s))"
proof (induction ls arbitrary: x s)
  case (Cons l ls)
  then show ?case using good_run [of s l x]
    by (auto simp: bindA_apply split: prod.splits sum.splits)
qed simp

lemma frame_fold: "good s \<Longrightarrow> l' \<notin> set ls \<Longrightarrow> slot (snd (foldA run ls x s)) l' = slot s l'"
proof (induction ls arbitrary: x s)
  case (Cons l ls)
  then show ?case using good_run [of s l x] frame_run [of s l' l x]
    by (force simp: bindA_apply split: prod.splits sum.splits)
qed simp

lemma local_fold:
  assumes "good s" "good t" "\<forall>l \<in> set ls. slot s l = slot t l"
  shows "fst (foldA run ls x s) = fst (foldA run ls x t) \<and>
     (\<forall>l \<in> set ls. slot (snd (foldA run ls x s)) l = slot (snd (foldA run ls x t)) l)"
  using assms
proof (induction ls arbitrary: x s t)
  case (Cons l ls)
  obtain r s' where s: "run l x s = (r, s')" by (cases "run l x s")
  obtain r' t' where t: "run l x t = (r', t')" by (cases "run l x t")
  have r: "r' = r" "slot s' l = slot t' l" using local_run [of s t l x] Cons.prems by (simp_all add: s t)
  have g: "good s'" "good t'" using good_run [of s l x] good_run [of t l x] Cons.prems by (simp_all add: s t)
  have eq: "\<forall>m \<in> set (l # ls). slot s' m = slot t' m"
  proof
    fix m assume "m \<in> set (l # ls)"
    then show "slot s' m = slot t' m"
      using frame_run [of s m l x] frame_run [of t m l x] Cons.prems r(2) by (cases "m = l") (auto simp: s t)
  qed
  show ?case
  proof (cases r)
    case (Inl e)
    then show ?thesis using eq by (simp add: bindA_apply s t r)
  next
    case (Inr y)
    have ih: "fst (foldA run ls y s') = fst (foldA run ls y t') \<and>
        (\<forall>l \<in> set ls. slot (snd (foldA run ls y s')) l = slot (snd (foldA run ls y t')) l)"
      using Cons.IH [OF g] eq by simp
    then have "slot (snd (foldA run ls y s')) l = slot (snd (foldA run ls y t')) l"
      using frame_fold [OF g(1), of l ls y] frame_fold [OF g(2), of l ls y] r(2) by (cases "l \<in> set ls") auto
    with ih Inr show ?thesis by (simp add: bindA_apply s t r)
  qed
qed simp

text \<open>The same layers on another state that agrees on their slots.\<close>

lemma run_elsewhere:
  assumes "good s" "good t" "slot s l = slot t l" "run l x s = (r, s')"
  shows "\<exists>t'. run l x t = (r, t') \<and> good s' \<and> good t' \<and> slot t' l = slot s' l \<and>
    (\<forall>m. m \<noteq> l \<longrightarrow> slot s' m = slot s m \<and> slot t' m = slot t m)"
proof -
  obtain r' t' where t: "run l x t = (r', t')" by (rule prod.exhaust)
  show ?thesis
    using local_run [OF assms(1-3), of x] good_run [OF assms(1), of l x] good_run [OF assms(2), of l x]
      frame_run [OF assms(1), of _ l x] frame_run [OF assms(2), of _ l x] by (simp add: t assms(4))
qed

lemma fold_elsewhere:
  assumes "good s" "good t" "\<forall>l \<in> set ls. slot s l = slot t l" "foldA run ls x s = (r, s')"
  shows "\<exists>t'. foldA run ls x t = (r, t') \<and> good s' \<and> good t' \<and> (\<forall>l \<in> set ls. slot t' l = slot s' l) \<and>
    (\<forall>l. l \<notin> set ls \<longrightarrow> slot s' l = slot s l \<and> slot t' l = slot t l)"
proof -
  obtain r' t' where t: "foldA run ls x t = (r', t')" by (rule prod.exhaust)
  show ?thesis
    using local_fold [OF assms(1-3), of x] good_fold [OF assms(1), of ls x] good_fold [OF assms(2), of ls x]
      frame_fold [OF assms(1), of _ ls x] frame_fold [OF assms(2), of _ ls x] by (simp add: t assms(4))
qed

text \<open>Distribution: a chain of stages computes what one machine with all the layers computes.\<close>

lemma distribute:
  assumes "good s" "length ss = length Ls" "\<forall>i < length Ls. good (ss ! i)"
    and "distinct (concat Ls)"
    and "\<forall>i < length Ls. \<forall>l \<in> set (Ls ! i). slot (ss ! i) l = slot s l"
  shows "fst (stagesA run Ls x ss) = fst (foldA run (concat Ls) x s) \<and>
    length (snd (stagesA run Ls x ss)) = length Ls \<and>
    (\<forall>i < length Ls. good (snd (stagesA run Ls x ss) ! i)) \<and>
    (\<forall>i < length Ls. \<forall>l \<in> set (Ls ! i).
       slot (snd (stagesA run Ls x ss) ! i) l = slot (snd (foldA run (concat Ls) x s)) l)"
  using assms
proof (induction Ls arbitrary: ss x s)
  case Nil
  then show ?case by simp
next
  case (Cons L Ls)
  obtain t ts where ss: "ss = t # ts" using Cons.prems(2) by (cases ss) auto
  have L: "good t" "\<forall>l \<in> set L. slot t l = slot s l"
    using Cons.prems(3,5) ss by (force dest: spec [of _ 0])+
  have tsg: "\<forall>i < length Ls. good (ts ! i)"
    using Cons.prems(3) ss by auto
  have tsl: "\<forall>i < length Ls. \<forall>l \<in> set (Ls ! i). slot (ts ! i) l = slot s l"
    using Cons.prems(5) ss by force
  obtain r t' where t: "foldA run L x t = (r, t')" by (cases "foldA run L x t")
  obtain r' s' where s: "foldA run L x s = (r', s')" by (cases "foldA run L x s")
  have r: "r' = r" "\<forall>l \<in> set L. slot t' l = slot s' l"
    using local_fold [of t s L x] L Cons.prems(1) by (simp_all add: s t)
  have g: "good s'" "good t'" using good_fold [of s L x] good_fold [of t L x] L Cons.prems(1) by (simp_all add: s t)
  have other: "slot s' l = slot s l" if "l \<notin> set L" for l
    using frame_fold [OF Cons.prems(1) that, of x] by (simp add: s)
  have disj: "l \<notin> set L" if "i < length Ls" "l \<in> set (Ls ! i)" for i l
    using Cons.prems(4) that by (fastforce dest: nth_mem)
  have tsl': "\<forall>i < length Ls. \<forall>l \<in> set (Ls ! i). slot (ts ! i) l = slot s' l"
    using tsl other disj by metis
  show ?case
  proof (cases r)
    case (Inl e)
    then show ?thesis
      using r g tsg tsl' Cons.prems(2) by (auto simp: ss t s foldA_append bindA_apply less_Suc_eq_0_disj)
  next
    case (Inr y)
    have ih: "fst (stagesA run Ls y ts) = fst (foldA run (concat Ls) y s') \<and>
      length (snd (stagesA run Ls y ts)) = length Ls \<and>
      (\<forall>i < length Ls. good (snd (stagesA run Ls y ts) ! i)) \<and>
      (\<forall>i < length Ls. \<forall>l \<in> set (Ls ! i).
         slot (snd (stagesA run Ls y ts) ! i) l = slot (snd (foldA run (concat Ls) y s')) l)"
      using Cons.IH [of s' ts y] g(1) tsg tsl' Cons.prems(2,4) ss by simp
    have keep: "slot (snd (foldA run (concat Ls) y s')) l = slot s' l" if "l \<in> set L" for l
      using frame_fold [OF g(1), of l "concat Ls" y] that Cons.prems(4) by auto
    show ?thesis
      using ih r g Inr keep
      by (auto simp: ss t s foldA_append bindA_apply less_Suc_eq_0_disj split: prod.splits)
  qed
qed

end

section \<open>Layers that process a sequence row by row\<close>

locale row_runner =
  fixes step :: "'l \<Rightarrow> nat \<Rightarrow> 'x \<Rightarrow> ('s, 'x) action"
    and slot :: "'s \<Rightarrow> 'l \<Rightarrow> 'kv"
    and good :: "'s \<Rightarrow> bool"
  assumes good_step: "good s \<Longrightarrow> good (snd (step l p x s))"
    and local_step: "good s \<Longrightarrow> good t \<Longrightarrow> slot s l = slot t l \<Longrightarrow>
      fst (step l p x s) = fst (step l p x t) \<and> slot (snd (step l p x s)) l = slot (snd (step l p x t)) l"
    and frame_step: "good s \<Longrightarrow> l' \<noteq> l \<Longrightarrow> slot (snd (step l p x s)) l' = slot s l'"
begin

lemma good_rows: "good s \<Longrightarrow> good (snd (rowsA (step l) p xs s))"
proof (induction xs arbitrary: p s)
  case (Cons x xs)
  obtain r s' where s: "step l p x s = (r, s')" by (cases "step l p x s")
  have "good s'" using good_step [OF Cons.prems, of l p x] by (simp add: s)
  from Cons.IH [OF this, of "p + 1"] \<open>good s'\<close> show ?case
    by (cases r) (auto simp: bindA_apply s split: prod.splits sum.splits)
qed simp

lemma frame_rows: "good s \<Longrightarrow> l' \<noteq> l \<Longrightarrow> slot (snd (rowsA (step l) p xs s)) l' = slot s l'"
proof (induction xs arbitrary: p s)
  case (Cons x xs)
  obtain r s' where s: "step l p x s = (r, s')" by (cases "step l p x s")
  have "good s'" "slot s' l' = slot s l'"
    using good_step [OF Cons.prems(1), of l p x] frame_step [OF Cons.prems, of p x] by (simp_all add: s)
  with Cons.IH [of s' "p + 1"] Cons.prems(2) show ?case
    by (cases r) (auto simp: bindA_apply s split: prod.splits sum.splits)
qed simp

lemma local_rows:
  "good s \<Longrightarrow> good t \<Longrightarrow> slot s l = slot t l \<Longrightarrow>
     fst (rowsA (step l) p xs s) = fst (rowsA (step l) p xs t) \<and>
     slot (snd (rowsA (step l) p xs s)) l = slot (snd (rowsA (step l) p xs t)) l"
proof (induction xs arbitrary: p s t)
  case (Cons x xs)
  obtain r s' where s: "step l p x s = (r, s')" by (cases "step l p x s")
  obtain r' t' where t: "step l p x t = (r', t')" by (cases "step l p x t")
  have eq: "r' = r" "slot s' l = slot t' l" using local_step [OF Cons.prems, of p x] by (simp_all add: s t)
  have "good s'" "good t'"
    using good_step [OF Cons.prems(1), of l p x] good_step [OF Cons.prems(2), of l p x] by (simp_all add: s t)
  from Cons.IH [OF this eq(2), of "p + 1"] eq show ?case
    by (cases r) (auto simp: bindA_apply s t split: prod.splits sum.splits)
qed simp

sublocale rows: layer_runner "\<lambda>l. rowsA (step l) p" slot good for p
  by unfold_locales (fact good_rows local_rows frame_rows)+

text \<open>Chunking: a prompt may be run through all layers in two parts, the second at the position
  where the first ended.\<close>

lemma chunk:
  assumes "good s" "distinct ls" "foldA (\<lambda>l. rowsA (step l) p) ls (a @ b) s = (Inr y, s1)"
  shows "\<exists>ya yb sa sb. foldA (\<lambda>l. rowsA (step l) p) ls a s = (Inr ya, sa) \<and>
     foldA (\<lambda>l. rowsA (step l) (p + length a)) ls b sa = (Inr yb, sb) \<and>
     y = ya @ yb \<and> (\<forall>l. slot sb l = slot s1 l)"
  using assms
proof (induction ls arbitrary: a b s)
  case Nil
  then show ?case by auto
next
  case (Cons l ls)
  let ?one = "foldA (\<lambda>l. rowsA (step l) p) ls" and ?two = "foldA (\<lambda>l. rowsA (step l) (p + length a)) ls"
  from Cons.prems(3) obtain ua t1 ub t2 where
    ua: "rowsA (step l) p a s = (Inr ua, t1)" and ub: "rowsA (step l) (p + length a) b t1 = (Inr ub, t2)"
    and rest: "?one (ua @ ub) t2 = (Inr y, s1)"
    by (auto simp: result_simps rowsA_append)
  have len: "length ua = length a" using rowsA_Inr_length [OF ua] .
  have g1: "good t1" using good_rows [OF Cons.prems(1), of l p a] by (simp add: ua)
  have g2: "good t2" using good_rows [OF g1, of l "p + length a" b] by (simp add: ub)
  have l: "l \<notin> set ls" using Cons.prems(2) by simp
  from Cons.IH [OF g2 _ rest] Cons.prems(2) obtain ya yb va vb where
    va: "?one ua t2 = (Inr ya, va)" and vb: "?two ub va = (Inr yb, vb)"
    and y: "y = ya @ yb" and eq: "\<forall>l. slot vb l = slot s1 l"
    by (auto simp: len)
  have t12: "slot t2 m = slot t1 m" if "m \<noteq> l" for m
    using frame_rows [OF g1 that, of "p + length a" b] by (simp add: ub)
  have "\<forall>m \<in> set ls. slot t2 m = slot t1 m" using t12 l by metis
  from rows.fold_elsewhere [OF g2 g1 this va] obtain wa where wa: "?one ua t1 = (Inr ya, wa)" "good va" "good wa"
      "\<forall>m \<in> set ls. slot wa m = slot va m" "\<forall>m. m \<notin> set ls \<longrightarrow> slot va m = slot t2 m \<and> slot wa m = slot t1 m"
    by blast
  have "slot t1 l = slot wa l" using wa(5) l by simp
  from rows.run_elsewhere [OF g1 wa(3) this ub] obtain z where z: "rowsA (step l) (p + length a) b wa = (Inr ub, z)" "good z"
      "slot z l = slot t2 l" "\<forall>m. m \<noteq> l \<longrightarrow> slot z m = slot wa m"
    by blast
  have "\<forall>m \<in> set ls. slot va m = slot z m" using z(4) wa(4) l by metis
  from rows.fold_elsewhere [OF wa(2) z(2) this vb] obtain sb where sb: "?two ub z = (Inr yb, sb)"
      "\<forall>m \<in> set ls. slot sb m = slot vb m" "\<forall>m. m \<notin> set ls \<longrightarrow> slot vb m = slot va m \<and> slot sb m = slot z m"
    by blast
  have "slot sb m = slot vb m" for m
    using sb(2,3) wa(5) z(3,4) t12 [of m] by (cases "m \<in> set ls"; cases "m = l") auto
  then show ?case
    using ua wa(1) z(1) sb(1) y eq by (auto simp: bindA_apply)
qed

end

end
