(* ===== verification/Cpu_Executor.thy ===== *)
theory Cpu_Executor
  imports Tensor_Codec Attention Layer_Runner
begin

text \<open>
  The executor object of \<open>llama_cpu_executor.cpp\<close>: its state (one KV cache per layer, the random
  engine, the cached rotary table), the transformer layer and the three entry points for the
  source, intermediate and terminal partition.

  An exception leaves the state as the code leaves it: cache writes made before the throw stay.
  The profiling accumulators are wall-clock measurements and are left out; nothing reads them
  but the metrics. The sampling of the terminal partition is in \<open>Sampling\<close>.
\<close>

record 'g executor =
  layer_cache :: "int \<rightharpoonup> kv_layer"
  rng :: 'g
  rope_inv_freq :: "f32 list"

definition new_executor :: "'g \<Rightarrow> 'g executor" where
  "new_executor g = \<lparr>layer_cache = Map.empty, rng = g, rope_inv_freq = []\<rparr>"

definition construct_executor :: "hyperparams \<Rightarrow> 'w tensor_context option \<Rightarrow> 'g \<Rightarrow> 'g executor result" where
  "construct_executor hp tensor_context g =
     (case tensor_context of
        None \<Rightarrow> Inl ''LlamaCpuExecutor requires non-null ggml_context''
      | Some ctx \<Rightarrow> bindR (check_hyperparams hp) (\<lambda>_. Inr (new_executor g)))"

text \<open>\<open>layer_cache_[layer_id]\<close>: a missing entry is an empty one.\<close>

definition kv_of :: "'g executor \<Rightarrow> int \<Rightarrow> kv_layer" where
  "kv_of s layer_id = (case layer_cache s layer_id of None \<Rightarrow> empty_kv_layer | Some kv \<Rightarrow> kv)"

definition layer_prefix :: "int \<Rightarrow> string" where
  "layer_prefix layer_id = ''blk.'' @ show_int layer_id @ ''.''"

section \<open>A transformer layer\<close>

definition rope_member ::
    "('w, 'g) platform \<Rightarrow> hyperparams \<Rightarrow> f32 list \<Rightarrow> f32 list \<Rightarrow> nat \<Rightarrow> ('g executor, f32 list \<times> f32 list) action" where
  "rope_member pl hp q k position s =
     (case apply_rope (fp pl) hp q k position (rope_inv_freq s) of (r, table) \<Rightarrow> (r, s\<lparr>rope_inv_freq := table\<rparr>))"

definition attention ::
    "('w, 'g) platform \<Rightarrow> hyperparams \<Rightarrow> int \<Rightarrow> f32 list \<Rightarrow> f32 list \<Rightarrow> f32 list \<Rightarrow> nat \<Rightarrow> ('g executor, f32 list) action" where
  "attention pl hp layer_id q k v position s =
     (case attention_step pl hp q k v position (kv_of s layer_id) of
        (r, kv) \<Rightarrow> (r, s\<lparr>layer_cache := (layer_cache s)(layer_id \<mapsto> kv)\<rparr>))"

text \<open>The part of a token's layer before and after attention; neither touches the state.\<close>

definition layer_qkv ::
    "('w, 'g) platform \<Rightarrow> 'w tensor_context \<Rightarrow> hyperparams \<Rightarrow> string \<Rightarrow> f32 list \<Rightarrow> f32 list \<Rightarrow>
     (f32 list \<times> f32 list \<times> f32 list) result" where
  "layer_qkv pl ctx hp prefix attn_norm_weight x =
     bindR (rms_norm (fp pl) (rms_eps hp) x attn_norm_weight) (\<lambda>xn.
     bindR (matvec pl ctx (prefix @ ''attn_q.weight'') xn) (\<lambda>q.
     bindR (matvec pl ctx (prefix @ ''attn_k.weight'') xn) (\<lambda>k.
     bindR (matvec pl ctx (prefix @ ''attn_v.weight'') xn) (\<lambda>v. Inr (q, k, v)))))"

definition layer_ffn ::
    "('w, 'g) platform \<Rightarrow> 'w tensor_context \<Rightarrow> hyperparams \<Rightarrow> string \<Rightarrow> f32 list \<Rightarrow> f32 list \<Rightarrow> f32 list \<Rightarrow>
     f32 list result" where
  "layer_ffn pl ctx hp prefix ffn_norm_weight x att =
     bindR (matvec pl ctx (prefix @ ''attn_output.weight'') att) (\<lambda>attn_out.
     let h1 = map (\<lambda>i. fadd (fp pl) (x ! i) (attn_out ! i)) [0..<hp_hidden hp]
     in bindR (rms_norm (fp pl) (rms_eps hp) h1 ffn_norm_weight) (\<lambda>fn.
        bindR (matvec pl ctx (prefix @ ''ffn_gate.weight'') fn) (\<lambda>gate.
        bindR (matvec pl ctx (prefix @ ''ffn_up.weight'') fn) (\<lambda>up.
        if int (length gate) \<noteq> ffn_size hp \<or> int (length up) \<noteq> ffn_size hp
        then Inl ''FFN gate/up size mismatch''
        else bindR (matvec pl ctx (prefix @ ''ffn_down.weight'')
               (map (\<lambda>i. fmul (fp pl) (silu (fp pl) (gate ! i)) (up ! i)) [0..<nat (ffn_size hp)])) (\<lambda>down.
             Inr (map (\<lambda>i. fadd (fp pl) (h1 ! i) (down ! i)) [0..<hp_hidden hp]))))))"

text \<open>One iteration of the token loop: the new row for the old row at a position.\<close>

definition layer_row ::
    "('w, 'g) platform \<Rightarrow> 'w tensor_context \<Rightarrow> hyperparams \<Rightarrow> int \<Rightarrow> f32 list \<Rightarrow> f32 list \<Rightarrow> nat \<Rightarrow> f32 list \<Rightarrow>
     ('g executor, f32 list) action" where
  "layer_row pl ctx hp layer_id attn_norm_weight ffn_norm_weight position x =
     bindA (liftA (layer_qkv pl ctx hp (layer_prefix layer_id) attn_norm_weight x)) (\<lambda>(q, k, v).
     bindA (rope_member pl hp q k position) (\<lambda>(q, k).
     bindA (attention pl hp layer_id q k v position) (\<lambda>att.
     liftA (layer_ffn pl ctx hp (layer_prefix layer_id) ffn_norm_weight x att))))"

definition run_layer ::
    "('w, 'g) platform \<Rightarrow> 'w tensor_context \<Rightarrow> hyperparams \<Rightarrow> int \<Rightarrow> f32 list \<Rightarrow> nat \<Rightarrow> nat \<Rightarrow>
     ('g executor, f32 list) action" where
  "run_layer pl ctx hp layer_id input seq_len kv_seq_before =
     bindA (liftA (tensor_vector_to_float pl ctx (layer_prefix layer_id @ ''attn_norm.weight'') (hidden_size hp))) (\<lambda>anw.
     bindA (liftA (tensor_vector_to_float pl ctx (layer_prefix layer_id @ ''ffn_norm.weight'') (hidden_size hp))) (\<lambda>fnw.
     foldA (\<lambda>t output.
         bindA (layer_row pl ctx hp layer_id anw fnw (kv_seq_before + t)
                  (take (hp_hidden hp) (drop (t * hp_hidden hp) output))) (\<lambda>row.
         retA (copy_at (t * hp_hidden hp) row output)))
       [0..<seq_len] input))"

definition run_layers ::
    "('w, 'g) platform \<Rightarrow> 'w tensor_context \<Rightarrow> hyperparams \<Rightarrow> int list \<Rightarrow> f32 list \<Rightarrow> nat \<Rightarrow> nat \<Rightarrow>
     ('g executor, f32 list) action" where
  "run_layers pl ctx hp layers hidden seq_len kv_seq_before =
     foldA (\<lambda>layer_id hidden. run_layer pl ctx hp layer_id hidden seq_len kv_seq_before) layers hidden"

section \<open>The entry points\<close>

definition embed_tokens ::
    "('w, 'g) platform \<Rightarrow> 'w tensor_context \<Rightarrow> hyperparams \<Rightarrow> int list \<Rightarrow> f32 list result" where
  "embed_tokens pl ctx hp tokens =
     bindR (require_tensor ctx ''token_embd.weight'') (\<lambda>embedding.
     if ne0 embedding \<noteq> hidden_size hp then Inl ''token_embd.weight hidden size mismatch''
     else if ne1 embedding \<noteq> vocab_size hp then Inl ''token_embd.weight vocab size mismatch''
     else foldR (\<lambda>t hidden.
         let token_id = tokens ! t
         in if token_id < 0 \<or> token_id \<ge> vocab_size hp
            then Inl (''token id out of range: '' @ show_int token_id)
            else bindR (tensor_row_to_float pl embedding token_id) (\<lambda>row.
                 Inr (copy_at (t * hp_hidden hp) row hidden)))
       [0..<length tokens] (replicate (length tokens * hp_hidden hp) f32_zero))"

definition execute_source ::
    "('w, 'g) platform \<Rightarrow> 'w tensor_context \<Rightarrow> hyperparams \<Rightarrow> tensor_buffer \<Rightarrow> int list \<Rightarrow> nat \<Rightarrow> string \<Rightarrow>
     ('g executor, tensor_buffer) action" where
  "execute_source pl ctx hp token_ids layers kv_seq_before output_activation_precision =
     bindA (liftA (tensor_to_token_ids token_ids)) (\<lambda>tokens.
     bindA (liftA (embed_tokens pl ctx hp tokens)) (\<lambda>hidden.
     bindA (run_layers pl ctx hp layers hidden (length tokens) kv_seq_before) (\<lambda>hidden.
     liftA (float_hidden_to_tensor (hidden_size hp) hidden 1 (int (length tokens)) output_activation_precision))))"

text \<open>The intermediate and terminal partitions read the sequence length from the shape before the
  shape has been validated; when there is no second dimension the validation fails right after.\<close>

definition execute_intermediate ::
    "('w, 'g) platform \<Rightarrow> 'w tensor_context \<Rightarrow> hyperparams \<Rightarrow> tensor_buffer \<Rightarrow> int list \<Rightarrow> nat \<Rightarrow> string \<Rightarrow>
     ('g executor, tensor_buffer) action" where
  "execute_intermediate pl ctx hp hidden_states layers kv_seq_before output_activation_precision =
     (let seq_len = i32_wrap (shape (metadata hidden_states) ! 1)
      in bindA (liftA (tensor_to_hidden_f32 (hidden_size hp) hidden_states)) (\<lambda>hidden.
         bindA (run_layers pl ctx hp layers hidden (nat seq_len) kv_seq_before) (\<lambda>hidden.
         liftA (float_hidden_to_tensor (hidden_size hp) hidden 1 seq_len output_activation_precision))))"

definition kv_cache_bytes :: "'g executor \<Rightarrow> nat" where
  "kv_cache_bytes s = (\<Sum>l \<in> dom (layer_cache s). length (kv_k (kv_of s l)) * 4 + length (kv_v (kv_of s l)) * 4)"

section \<open>A layer depends only on its own cache\<close>

definition executor_ok :: "('w, 'g) platform \<Rightarrow> hyperparams \<Rightarrow> 'g executor \<Rightarrow> bool" where
  "executor_ok pl hp s \<longleftrightarrow> rope_ok (fp pl) hp (rope_inv_freq s) \<and>
     (\<forall>l. kv_wf (attention_backend_is_ggml pl) hp (kv_of s l))"

lemma kv_of_new [simp]: "kv_of (new_executor g) l = empty_kv_layer"
  by (simp add: kv_of_def new_executor_def)

lemma new_executor_ok [simp]: "check_hyperparams hp = Inr () \<Longrightarrow> executor_ok pl hp (new_executor g)"
  using hyperparams_accepted(1) [of hp]
  by (simp add: executor_ok_def rope_ok_def) (simp add: new_executor_def)

lemma kv_of_upd [simp]:
  "kv_of (s\<lparr>rope_inv_freq := t, layer_cache := (layer_cache s)(l \<mapsto> kv)\<rparr>) l' = (if l' = l then kv else kv_of s l')"
  by (simp add: kv_of_def)

definition attended ::
    "('w, 'g) platform \<Rightarrow> hyperparams \<Rightarrow> f32 list \<Rightarrow> f32 list \<Rightarrow> f32 list \<Rightarrow> nat \<Rightarrow> kv_layer \<Rightarrow> f32 list result \<times> kv_layer" where
  "attended pl hp q k v position kv = attention_step pl hp
     (rotate_heads (fp pl) (rope_table (fp pl) hp) (hp_dim hp) position (hp_heads hp) q)
     (rotate_heads (fp pl) (rope_table (fp pl) hp) (hp_dim hp) position (hp_kv_heads hp) k) v position kv"

lemma layer_row_closed:
  assumes "rope_ok (fp pl) hp (rope_inv_freq s)"
  shows "layer_row pl ctx hp l anw fnw p x s =
     (case layer_qkv pl ctx hp (layer_prefix l) anw x of
        Inl e \<Rightarrow> (Inl e, s)
      | Inr (q, k, v) \<Rightarrow> (case attended pl hp q k v p (kv_of s l) of
          (r, kv) \<Rightarrow> (bindR r (layer_ffn pl ctx hp (layer_prefix l) fnw x),
            s\<lparr>rope_inv_freq := rope_table (fp pl) hp, layer_cache := (layer_cache s)(l \<mapsto> kv)\<rparr>)))"
proof (cases "layer_qkv pl ctx hp (layer_prefix l) anw x")
  case (Inl e)
  then show ?thesis by (simp add: layer_row_def)
next
  case (Inr qkv)
  obtain q k v where qkv: "qkv = (q, k, v)" by (metis prod_cases3)
  obtain r kv where a: "attended pl hp q k v p (kv_of s l) = (r, kv)" by (rule prod.exhaust)
  have frame: "kv_of (s\<lparr>rope_inv_freq := t\<rparr>) l = kv_of s l" for t by (simp add: kv_of_def)
  show ?thesis
    using assms a
    by (cases r) (simp_all add: layer_row_def bindA_apply rope_member_def apply_rope_eq attention_def
        attended_def Inr qkv frame)
qed

definition layer_step ::
    "('w, 'g) platform \<Rightarrow> 'w tensor_context \<Rightarrow> hyperparams \<Rightarrow> int \<Rightarrow> nat \<Rightarrow> f32 list \<Rightarrow> ('g executor, f32 list) action" where
  "layer_step pl ctx hp l p x =
     bindA (liftA (tensor_vector_to_float pl ctx (layer_prefix l @ ''attn_norm.weight'') (hidden_size hp))) (\<lambda>anw.
     bindA (liftA (tensor_vector_to_float pl ctx (layer_prefix l @ ''ffn_norm.weight'') (hidden_size hp))) (\<lambda>fnw.
     layer_row pl ctx hp l anw fnw p x))"

text \<open>What one step does, as a function of the slot of its layer.\<close>

definition slot_step ::
    "('w, 'g) platform \<Rightarrow> 'w tensor_context \<Rightarrow> hyperparams \<Rightarrow> int \<Rightarrow> nat \<Rightarrow> f32 list \<Rightarrow> kv_layer \<Rightarrow>
     f32 list result \<times> kv_layer option" where
  "slot_step pl ctx hp l p x kv =
     (case tensor_vector_to_float pl ctx (layer_prefix l @ ''attn_norm.weight'') (hidden_size hp) of
        Inl e \<Rightarrow> (Inl e, None)
      | Inr anw \<Rightarrow> (case tensor_vector_to_float pl ctx (layer_prefix l @ ''ffn_norm.weight'') (hidden_size hp) of
        Inl e \<Rightarrow> (Inl e, None)
      | Inr fnw \<Rightarrow> (case layer_qkv pl ctx hp (layer_prefix l) anw x of
        Inl e \<Rightarrow> (Inl e, None)
      | Inr (q, k, v) \<Rightarrow> (case attended pl hp q k v p kv of
          (r, kv') \<Rightarrow> (bindR r (layer_ffn pl ctx hp (layer_prefix l) fnw x), Some kv')))))"

lemma layer_step_slot:
  assumes "rope_ok (fp pl) hp (rope_inv_freq s)"
  shows "layer_step pl ctx hp l p x s =
     (case slot_step pl ctx hp l p x (kv_of s l) of
        (r, None) \<Rightarrow> (r, s)
      | (r, Some kv) \<Rightarrow>
          (r, s\<lparr>rope_inv_freq := rope_table (fp pl) hp, layer_cache := (layer_cache s)(l \<mapsto> kv)\<rparr>))"
  by (simp add: layer_step_def slot_step_def layer_row_closed [OF assms] split: sum.splits prod.splits)

lemma slot_step_wf:
  assumes "kv_wf (attention_backend_is_ggml pl) hp kv" "slot_step pl ctx hp l p x kv = (r, Some kv')"
  shows "kv_wf (attention_backend_is_ggml pl) hp kv'"
proof -
  have inv: "kv_wf (attention_backend_is_ggml pl) hp (snd (attention_step pl hp q k v p kv))" for q k v
    using assms(1) by (rule attention_step_wf)
  from assms(2) obtain q k v where "kv' = snd (attended pl hp q k v p kv)"
    by (auto simp: slot_step_def split: sum.splits prod.splits; metis snd_conv)
  with inv show ?thesis by (simp add: attended_def)
qed

interpretation layer: row_runner "layer_step pl ctx hp" kv_of "executor_ok pl hp" for pl ctx hp
proof
  fix s t :: "'b executor" and l l' :: int and p x
  assume s: "executor_ok pl hp s"
  then have rs: "rope_ok (fp pl) hp (rope_inv_freq s)" by (simp add: executor_ok_def)
  show "executor_ok pl hp (snd (layer_step pl ctx hp l p x s))"
    using s slot_step_wf [of pl hp "kv_of s l" ctx l p x]
    by (auto simp: layer_step_slot [OF rs] executor_ok_def split: prod.splits option.splits)
  {
    assume "l' \<noteq> l"
    then show "kv_of (snd (layer_step pl ctx hp l p x s)) l' = kv_of s l'"
      by (auto simp: layer_step_slot [OF rs] split: prod.splits option.splits)
  }
  assume t: "executor_ok pl hp t" and eq: "kv_of s l = kv_of t l"
  then have rt: "rope_ok (fp pl) hp (rope_inv_freq t)" by (simp add: executor_ok_def)
  show "fst (layer_step pl ctx hp l p x s) = fst (layer_step pl ctx hp l p x t) \<and>
      kv_of (snd (layer_step pl ctx hp l p x s)) l = kv_of (snd (layer_step pl ctx hp l p x t)) l"
    using eq by (auto simp: layer_step_slot [OF rs] layer_step_slot [OF rt] split: prod.splits option.splits)
qed

section \<open>The token loop, row by row\<close>

definition is_rows :: "hyperparams \<Rightarrow> f32 list list \<Rightarrow> bool" where
  "is_rows hp rows \<longleftrightarrow> (\<forall>r \<in> set rows. length r = hp_hidden hp)"

lemma is_rows_simps [simp]:
  "is_rows hp []" "is_rows hp (r # rs) \<longleftrightarrow> length r = hp_hidden hp \<and> is_rows hp rs"
  "is_rows hp (as @ bs) \<longleftrightarrow> is_rows hp as \<and> is_rows hp bs"
  by (auto simp: is_rows_def)

lemma length_concat_rows: "is_rows hp rows \<Longrightarrow> length (concat rows) = length rows * hp_hidden hp"
  by (induction rows) simp_all

text \<open>The rows of a flat activation vector.\<close>

fun rows_of :: "nat \<Rightarrow> nat \<Rightarrow> 'a list \<Rightarrow> 'a list list" where
  "rows_of hs 0 xs = []"
| "rows_of hs (Suc n) xs = take hs xs # rows_of hs n (drop hs xs)"

lemma rows_of:
  assumes "length xs = n * hp_hidden hp"
  shows "is_rows hp (rows_of (hp_hidden hp) n xs)" "concat (rows_of (hp_hidden hp) n xs) = xs"
    "length (rows_of (hp_hidden hp) n xs) = n"
  using assms by (induction n arbitrary: xs) simp_all

lemma length_layer_ffn: "layer_ffn pl ctx hp pre fnw x att = Inr y \<Longrightarrow> length y = hp_hidden hp"
  by (auto simp: layer_ffn_def Let_def result_simps split: if_splits)

lemma length_layer_step: "layer_step pl ctx hp l p x s = (Inr y, s') \<Longrightarrow> length y = hp_hidden hp"
  by (auto simp: layer_step_def layer_row_def result_simps split: sum.splits intro: length_layer_ffn)

lemma token_loop:
  assumes "\<And>p x s y s'. step p x s = (Inr y, s') \<Longrightarrow> length y = hp_hidden hp"
    and "is_rows hp ys" "is_rows hp rows"
  shows "foldA (\<lambda>t output. bindA (step (before + t) (take (hp_hidden hp) (drop (t * hp_hidden hp) output)))
        (\<lambda>row. retA (copy_at (t * hp_hidden hp) row output)))
      [length ys..<length ys + length rows] (concat ys @ concat rows) s
    = bindA (rowsA step (before + length ys) rows) (\<lambda>rs. retA (concat (ys @ rs))) s"
  using assms(2,3)
proof (induction rows arbitrary: ys s)
  case (Cons x rows)
  let ?f = "\<lambda>t output. bindA (step (before + t) (take (hp_hidden hp) (drop (t * hp_hidden hp) output)))
        (\<lambda>row. retA (copy_at (t * hp_hidden hp) row output))"
  have range: "[length ys..<length ys + length (x # rows)] = length ys # [Suc (length ys)..<Suc (length ys) + length rows]"
    by (simp add: upt_rec)
  have len: "length (concat ys) = length ys * hp_hidden hp" using Cons.prems by (simp add: length_concat_rows)
  obtain r s' where r: "step (before + length ys) x s = (r, s')" by (rule prod.exhaust)
  have first: "?f (length ys) (concat ys @ concat (x # rows)) s =
      bindA (step (before + length ys) x) (\<lambda>row. retA (copy_at (length ys * hp_hidden hp) row (concat ys @ x @ concat rows))) s"
    using Cons.prems(2) len by simp
  show ?case
  proof (cases r)
    case (Inl e)
    have f: "?f (length ys) (concat ys @ concat (x # rows)) s = (Inl e, s')"
      unfolding first by (rule bindA_fail) (simp add: r Inl)
    have "rowsA step (before + length ys) (x # rows) s = (Inl e, s')"
      unfolding rowsA.simps by (rule bindA_fail) (simp add: r Inl)
    then have rhs: "bindA (rowsA step (before + length ys) (x # rows)) (\<lambda>rs. retA (concat (ys @ rs))) s = (Inl e, s')"
      by (rule bindA_fail)
    show ?thesis unfolding range foldA.simps rhs by (rule bindA_fail) (rule f)
  next
    case (Inr y)
    have y: "length y = hp_hidden hp" using assms(1) r Inr by blast
    have out: "copy_at (length ys * hp_hidden hp) y (concat ys @ x @ concat rows) = concat (ys @ [y]) @ concat rows"
      using len y Cons.prems(2) by (simp add: copy_at_def)
    have "foldA ?f [length ys..<length ys + length (x # rows)] (concat ys @ concat (x # rows)) s =
        foldA ?f [length (ys @ [y])..<length (ys @ [y]) + length rows] (concat (ys @ [y]) @ concat rows) s'"
    proof -
      have "?f (length ys) (concat ys @ concat (x # rows)) s = (Inr (concat (ys @ [y]) @ concat rows), s')"
        unfolding first out [symmetric] by (rule bindA_step [THEN trans]) (simp_all add: r Inr)
      then show ?thesis unfolding range foldA.simps by (subst bindA_step) simp_all
    qed
    also have "\<dots> = bindA (rowsA step (before + length (ys @ [y])) rows) (\<lambda>rs. retA (concat ((ys @ [y]) @ rs))) s'"
      using Cons.prems y by (intro Cons.IH) simp_all
    also have "\<dots> = bindA (rowsA step (before + length ys) (x # rows)) (\<lambda>rs. retA (concat (ys @ rs))) s"
      by (simp add: bindA_apply r Inr split: prod.splits sum.splits)
    finally show ?thesis .
  qed
qed simp

lemma run_layer_rows:
  assumes "rows \<noteq> []" "is_rows hp rows"
  shows "run_layer pl ctx hp l (concat rows) (length rows) before s =
     bindA (rowsA (layer_step pl ctx hp l) before rows) (\<lambda>rs. retA (concat rs)) s"
proof -
  let ?an = "tensor_vector_to_float pl ctx (layer_prefix l @ ''attn_norm.weight'') (hidden_size hp)"
  let ?fn = "tensor_vector_to_float pl ctx (layer_prefix l @ ''ffn_norm.weight'') (hidden_size hp)"
  obtain x xs where rows: "rows = x # xs" using assms(1) by (cases rows) auto
  show ?thesis
  proof (cases ?an)
    case (Inl e)
    then show ?thesis by (simp add: run_layer_def layer_step_def rows bindA_apply)
  next
    case (Inr anw)
    note an = Inr
    show ?thesis
    proof (cases ?fn)
      case (Inl e)
      then show ?thesis by (simp add: an run_layer_def layer_step_def rows bindA_apply)
    next
      case (Inr fnw)
      have "layer_step pl ctx hp l = layer_row pl ctx hp l anw fnw"
        by (intro ext) (simp add: layer_step_def an Inr)
      then have eq: "layer_row pl ctx hp l anw fnw = layer_step pl ctx hp l" by simp
      have "foldA (\<lambda>t output. bindA (layer_step pl ctx hp l (before + t) (take (hp_hidden hp) (drop (t * hp_hidden hp) output)))
          (\<lambda>row. retA (copy_at (t * hp_hidden hp) row output)))
        [length ([] :: f32 list list)..<length ([] :: f32 list list) + length rows] (concat [] @ concat rows) s
        = bindA (rowsA (layer_step pl ctx hp l) (before + length ([] :: f32 list list)) rows) (\<lambda>rs. retA (concat ([] @ rs))) s"
        using assms(2) by (intro token_loop) (auto dest: length_layer_step)
      then show ?thesis by (simp add: run_layer_def an Inr eq)
    qed
  qed
qed

lemma run_layer_rows_ok:
  assumes "is_rows hp rows" "rowsA (layer_step pl ctx hp l) before rows s = (Inr rs, s')"
  shows "is_rows hp rs"
  using assms(2)
proof (induction rows arbitrary: before s rs)
  case (Cons x rows)
  then show ?case using length_layer_step by (force simp: result_simps)
qed simp

lemma run_layers_rows:
  assumes "rows \<noteq> []" "is_rows hp rows"
  shows "run_layers pl ctx hp layers (concat rows) (length rows) before s =
     bindA (foldA (\<lambda>l. rowsA (layer_step pl ctx hp l) before) layers rows) (\<lambda>rs. retA (concat rs)) s"
  using assms
proof (induction layers arbitrary: rows s)
  case Nil
  then show ?case by (simp add: run_layers_def)
next
  case (Cons l layers)
  obtain r s' where r: "rowsA (layer_step pl ctx hp l) before rows s = (r, s')" by (rule prod.exhaust)
  show ?case
  proof (cases r)
    case (Inl e)
    then show ?thesis using Cons.prems by (simp add: run_layers_def bindA_apply run_layer_rows r)
  next
    case (Inr rs)
    have rs: "rowsA (layer_step pl ctx hp l) before rows s = (Inr rs, s')" using r Inr by simp
    note rowsA_Inr_length [OF rs] run_layer_rows_ok [OF Cons.prems(2) rs]
    moreover have "rs \<noteq> []" using Cons.prems(1) rowsA_Inr_length [OF rs] by auto
    ultimately show ?thesis
      using Cons.IH [of rs s'] Cons.prems
      by (simp add: run_layers_def bindA_apply run_layer_rows r Inr split: prod.splits)
  qed
qed

lemma run_layers_rows_ok:
  assumes "is_rows hp rows" "foldA (\<lambda>l. rowsA (layer_step pl ctx hp l) before) layers rows s = (Inr rs, s')"
  shows "is_rows hp rs \<and> length rs = length rows"
  using assms
proof (induction layers arbitrary: rows s)
  case (Cons l layers)
  from Cons.prems(2) obtain ms t where
    1: "rowsA (layer_step pl ctx hp l) before rows s = (Inr ms, t)"
    and 2: "foldA (\<lambda>l. rowsA (layer_step pl ctx hp l) before) layers ms t = (Inr rs, s')"
    by (auto simp: result_simps)
  show ?case
    using Cons.IH [OF run_layer_rows_ok [OF Cons.prems(1) 1] 2] rowsA_Inr_length [OF 1] by simp
qed simp

section \<open>Consequences for the layer loop\<close>

lemma run_layers_flat:
  assumes "0 < n" "length h = n * hp_hidden hp"
  shows "run_layers pl ctx hp layers h n before s =
     bindA (foldA (\<lambda>l. rowsA (layer_step pl ctx hp l) before) layers (rows_of (hp_hidden hp) n h))
       (\<lambda>rs. retA (concat rs)) s"
  using run_layers_rows [of "rows_of (hp_hidden hp) n h" hp pl ctx layers before s] rows_of [OF assms(2)] assms(1)
  by fastforce

lemma run_layers_flat_snd:
  assumes "0 < n" "length h = n * hp_hidden hp"
  shows "snd (run_layers pl ctx hp layers h n before s) =
     snd (foldA (\<lambda>l. rowsA (layer_step pl ctx hp l) before) layers (rows_of (hp_hidden hp) n h) s)"
  by (simp add: run_layers_flat [OF assms] bindA_apply split: prod.splits sum.splits)

lemma run_layers_length:
  assumes "0 < n" "length h = n * hp_hidden hp" "run_layers pl ctx hp layers h n before s = (Inr y, s')"
  shows "length y = n * hp_hidden hp"
proof -
  obtain rs where "foldA (\<lambda>l. rowsA (layer_step pl ctx hp l) before) layers (rows_of (hp_hidden hp) n h) s = (Inr rs, s')"
    and y: "y = concat rs"
    using assms(3) by (auto simp: run_layers_flat [OF assms(1,2)] result_simps)
  from run_layers_rows_ok [OF rows_of(1) [OF assms(2)] this(1)] show ?thesis
    using rows_of(3) [OF assms(2)] by (auto simp: y length_concat_rows)
qed

lemma run_layers_ok:
  assumes "0 < n" "length h = n * hp_hidden hp" "executor_ok pl hp s"
  shows "executor_ok pl hp (snd (run_layers pl ctx hp layers h n before s))"
  unfolding run_layers_flat_snd [OF assms(1,2)] using assms(3) by (rule layer.rows.good_fold)

lemma rows_of_append:
  "length a = m * hs \<Longrightarrow> rows_of hs (m + n) (a @ b) = rows_of hs m a @ rows_of hs n b"
  by (induction m arbitrary: a) simp_all

text \<open>A layer reads only its own tensors, so a shard that holds them is as good as the full model.\<close>

definition layer_tensors :: "int \<Rightarrow> string set" where
  "layer_tensors l = (\<lambda>suffix. layer_prefix l @ suffix) `
     {''attn_norm.weight'', ''ffn_norm.weight'', ''attn_q.weight'', ''attn_k.weight'', ''attn_v.weight'',
      ''attn_output.weight'', ''ffn_gate.weight'', ''ffn_up.weight'', ''ffn_down.weight''}"

lemma layer_step_cong:
  assumes "\<forall>name \<in> layer_tensors l. ctx name = ctx' name"
  shows "layer_step pl ctx hp l = layer_step pl ctx' hp l"
proof -
  have t: "tensor_vector_to_float pl ctx (layer_prefix l @ suffix) n = tensor_vector_to_float pl ctx' (layer_prefix l @ suffix) n"
    if "layer_prefix l @ suffix \<in> layer_tensors l" for suffix n
    using assms that by (intro tensor_vector_to_float_cong) blast
  have m: "matvec pl ctx (layer_prefix l @ suffix) x = matvec pl ctx' (layer_prefix l @ suffix) x"
    if "layer_prefix l @ suffix \<in> layer_tensors l" for suffix x
    using assms that by (intro matvec_cong) blast
  have "layer_qkv pl ctx hp (layer_prefix l) w x = layer_qkv pl ctx' hp (layer_prefix l) w x" for w x
    by (simp add: layer_qkv_def m layer_tensors_def)
  moreover have "layer_ffn pl ctx hp (layer_prefix l) w x a = layer_ffn pl ctx' hp (layer_prefix l) w x a" for w x a
    by (simp add: layer_ffn_def m layer_tensors_def Let_def cong: if_cong)
  ultimately show ?thesis
    by (intro ext) (simp add: layer_step_def layer_row_def t layer_tensors_def)
qed

section \<open>Embedding\<close>

lemma embed_loop:
  assumes "\<And>t r. row t = Inr r \<Longrightarrow> length r = hs" "n \<le> m"
  shows "foldR (\<lambda>t hidden. bindR (row t) (\<lambda>r. Inr (copy_at (t * hs) r hidden))) [0..<n] (replicate (m * hs) z)
     = bindR (mapR row [0..<n]) (\<lambda>rs. Inr (concat rs @ replicate ((m - n) * hs) z))"
  using assms(2)
proof (induction n)
  case (Suc n)
  have zeros: "replicate ((m - n) * hs) z = replicate hs z @ replicate ((m - Suc n) * hs) z"
    using Suc.prems by (simp add: Suc_diff_Suc flip: replicate_add mult_Suc)
  have len: "length (concat rs) = n * hs" if "mapR row [0..<n] = Inr rs" for rs
  proof -
    have "\<forall>x \<in> set rs. length x = hs"
      using that assms(1) by (force simp: mapR_Inr_iff in_set_conv_nth)
    then have "sum_list (map length rs) = length rs * hs"
      using sum_list_triv [of hs rs] by (simp cong: map_cong)
    with that show ?thesis by (simp add: length_concat mapR_Inr_iff)
  qed
  show ?case
  proof (cases "mapR row [0..<n]")
    case (Inl e)
    then show ?thesis using Suc by (simp add: foldR_append mapR_snoc)
  next
    case (Inr rs)
    have "copy_at (n * hs) r (concat rs @ replicate ((m - n) * hs) z) =
        concat rs @ r @ replicate ((m - Suc n) * hs) z" if "row n = Inr r" for r
      using len [OF Inr] assms(1) [OF that] by (simp add: copy_at_def zeros)
    then show ?thesis using Suc Inr by (cases "row n") (simp_all add: foldR_append mapR_snoc)
  qed
qed simp

text \<open>The embedding of a prompt, as the first bad token or the rows of the embedding matrix.\<close>

definition embed_row :: "('w, 'g) platform \<Rightarrow> hyperparams \<Rightarrow> 'w ggml_tensor \<Rightarrow> int \<Rightarrow> f32 list result" where
  "embed_row pl hp embedding token_id =
     (if token_id < 0 \<or> token_id \<ge> vocab_size hp
      then Inl (''token id out of range: '' @ show_int token_id)
      else tensor_row_to_float pl embedding token_id)"

lemma embed_tokens_rows:
  assumes "require_tensor ctx ''token_embd.weight'' = Inr embedding"
    and "ne0 embedding = hidden_size hp" "ne1 embedding = vocab_size hp"
  shows "embed_tokens pl ctx hp tokens =
     bindR (mapR (embed_row pl hp embedding) tokens) (\<lambda>rows. Inr (concat rows))"
proof -
  have len: "length r = hp_hidden hp" if "embed_row pl hp embedding (tokens ! t) = Inr r" for t r
    using that assms(2) length_tensor_row_to_float [of pl embedding "tokens ! t" r]
    by (auto simp: embed_row_def hp_hidden_def split: if_splits)
  have step: "(\<lambda>t hidden. let token_id = tokens ! t
       in if token_id < 0 \<or> token_id \<ge> vocab_size hp
          then Inl (''token id out of range: '' @ show_int token_id)
          else bindR (tensor_row_to_float pl embedding token_id)
             (\<lambda>row. Inr (copy_at (t * hp_hidden hp) row hidden))) =
      (\<lambda>t hidden. bindR (embed_row pl hp embedding (tokens ! t)) (\<lambda>r. Inr (copy_at (t * hp_hidden hp) r hidden)))"
    by (intro ext) (simp add: embed_row_def Let_def)
  have idx: "mapR (\<lambda>t. f (tokens ! t)) [0..<length tokens] = mapR f tokens" for f :: "int \<Rightarrow> f32 list result"
  proof -
    have "mapR f (map ((!) tokens) ts) = mapR (\<lambda>t. f (tokens ! t)) ts" for ts by (induction ts) simp_all
    from this [of "[0..<length tokens]"] show ?thesis by (simp add: map_nth)
  qed
  show ?thesis
    using embed_loop [of "\<lambda>t. embed_row pl hp embedding (tokens ! t)" "hp_hidden hp" "length tokens" "length tokens" f32_zero] len
    by (simp add: embed_tokens_def assms step idx)
qed

lemma embed_tokens_length:
  assumes "embed_tokens pl ctx hp tokens = Inr h"
  shows "length h = length tokens * hp_hidden hp \<and> (\<forall>t \<in> set tokens. 0 \<le> t \<and> t < vocab_size hp)"
proof -
  obtain emb where emb: "require_tensor ctx ''token_embd.weight'' = Inr emb"
    "ne0 emb = hidden_size hp" "ne1 emb = vocab_size hp"
    using assms by (auto simp: embed_tokens_def result_simps split: if_splits)
  obtain rows where rows: "mapR (embed_row pl hp emb) tokens = Inr rows" "h = concat rows"
    using assms by (auto simp: embed_tokens_rows [OF emb] result_simps)
  have row: "length (rows ! i) = hp_hidden hp \<and> 0 \<le> tokens ! i \<and> tokens ! i < vocab_size hp" if "i < length tokens" for i
    using rows(1) that emb(2) length_tensor_row_to_float [of pl emb "tokens ! i" "rows ! i"]
    by (auto simp: mapR_Inr_iff embed_row_def hp_hidden_def split: if_splits)
  have "is_rows hp rows" using rows(1) row by (auto simp: is_rows_def mapR_Inr_iff in_set_conv_nth)
  then show ?thesis
    using rows row by (auto simp: length_concat_rows mapR_Inr_iff in_set_conv_nth)
qed

section \<open>A complete shard never throws\<close>

text \<open>The tensors of a layer with the extents the architecture gives them.\<close>

definition layer_shape_table :: "hyperparams \<Rightarrow> (string \<times> int \<times> int) list" where
  "layer_shape_table hp =
     [(''attn_norm.weight'', hidden_size hp, 1), (''ffn_norm.weight'', hidden_size hp, 1),
      (''attn_q.weight'', hidden_size hp, int (hp_q_dim hp)), (''attn_k.weight'', hidden_size hp, int (hp_kv_dim hp)),
      (''attn_v.weight'', hidden_size hp, int (hp_kv_dim hp)), (''attn_output.weight'', int (hp_q_dim hp), hidden_size hp),
      (''ffn_gate.weight'', hidden_size hp, ffn_size hp), (''ffn_up.weight'', hidden_size hp, ffn_size hp),
      (''ffn_down.weight'', ffn_size hp, hidden_size hp)]"

definition has_shape :: "'w tensor_context \<Rightarrow> string \<Rightarrow> int \<Rightarrow> int \<Rightarrow> bool" where
  "has_shape ctx name n0 n1 \<longleftrightarrow> (case ctx name of None \<Rightarrow> False
     | Some w \<Rightarrow> tdata w \<noteq> None \<and> ne0 w = n0 \<and> ne1 w = n1)"

definition layer_complete :: "'w tensor_context \<Rightarrow> hyperparams \<Rightarrow> int \<Rightarrow> bool" where
  "layer_complete ctx hp l \<longleftrightarrow>
     (\<forall>(suffix, n0, n1) \<in> set (layer_shape_table hp). has_shape ctx (layer_prefix l @ suffix) n0 n1)"

definition ggml_never_fails :: "('w, 'g) platform \<Rightarrow> bool" where
  "ggml_never_fails pl \<longleftrightarrow> (\<forall>w i. \<exists>f. get_row pl w i = Inr f) \<and> (\<forall>w x. \<exists>f. mul_vec pl w x = Inr f) \<and>
     (\<forall>A B. \<exists>C. mul_mat pl A B = Inr C)"

lemma matvec_total:
  assumes "ggml_never_fails pl" "has_shape ctx name (int (length x)) (int m)" "0 < length x" "0 < m"
  shows "\<exists>y. matvec pl ctx name x = Inr y \<and> length y = m"
proof -
  obtain w where w: "ctx name = Some w" "tdata w \<noteq> None" "ne0 w = int (length x)" "ne1 w = int m"
    using assms(2) by (auto simp: has_shape_def split: option.splits)
  obtain f where "mul_vec pl w x = Inr f" using assms(1) unfolding ggml_never_fails_def by blast
  with w assms(3,4) show ?thesis by (simp add: matvec_def require_tensor_def Let_def)
qed

lemma vector_total:
  assumes "ggml_never_fails pl" "has_shape ctx name n 1" "0 < n"
  shows "\<exists>y. tensor_vector_to_float pl ctx name n = Inr y \<and> length y = nat n"
proof -
  obtain w where w: "ctx name = Some w" "tdata w \<noteq> None" "ne0 w = n" "ne1 w = 1"
    using assms(2) by (auto simp: has_shape_def split: option.splits)
  obtain f where "get_row pl w (i32_wrap 0) = Inr f" using assms(1) unfolding ggml_never_fails_def by blast
  with w assms(3) show ?thesis
    by (simp add: tensor_vector_to_float_def require_tensor_def tensor_row_to_float_def Let_def)
qed

lemma attention_total:
  assumes "ggml_never_fails pl" "ggml_laws pl dot smax" "attention_backend_is_ggml pl"
    and "check_hyperparams hp = Inr ()" "kv_wf True hp kv"
    and "length q = hp_q_dim hp" "length k = hp_kv_dim hp" "length v = hp_kv_dim hp"
  shows "\<exists>r kv'. attention_step pl hp q k v p kv = (Inr r, kv') \<and> length r = hp_q_dim hp"
proof -
  let ?kv = "update_v_t hp (p + 1) p v (put_kv hp p k v kv)"
  have wf: "kv_wf True hp ?kv" using assms(5,7,8) by (rule update_v_t_wf)
  have "\<exists>C. mul_mat pl A B = Inr C" for A B using assms(1) by (simp add: ggml_never_fails_def)
  then obtain r where r: "compute_attention_ggml_views pl hp q (kv_k ?kv) (kv_v_t ?kv) (kv_v_t_capacity ?kv) (p + 1) = Inr r"
    by (metis (no_types, lifting) bindR_simps(2) compute_attention_ggml_views_def)
  have "gqa_attention (fp pl) dot (\<lambda>ss. Inr (smax ss)) hp q (kv_k ?kv) (kv_v ?kv) (p + 1) = Inr r"
    using assms(2,4) _ r by (rule ggml_views_spec) (use wf in \<open>auto simp: kv_wf_def vt_range_def\<close>)
  from gqa_attention_Inr_length [OF this] r show ?thesis
    by (simp add: attention_step_eq [OF assms(6-8)] assms(3) Let_def)
qed

lemma layer_step_total:
  assumes nf: "ggml_never_fails pl" and laws: "ggml_laws pl dot smax" and g: "attention_backend_is_ggml pl"
    and hp: "check_hyperparams hp = Inr ()" and lc: "layer_complete ctx hp l"
    and ok: "executor_ok pl hp s" and x: "length x = hp_hidden hp"
  shows "\<exists>y s'. layer_step pl ctx hp l p x s = (Inr y, s')"
proof -
  note pos = hyperparams_accepted [OF hp]
  have f: "0 < ffn_size hp" "0 < hidden_size hp" using hp by (auto simp: check_hyperparams_def split: if_splits)
  have hs: "hidden_size hp = int (hp_hidden hp)" using f by (simp add: hp_hidden_def)
  have sh: "has_shape ctx (layer_prefix l @ suffix) n0 n1" if "(suffix, n0, n1) \<in> set (layer_shape_table hp)" for suffix n0 n1
    using lc that by (auto simp: layer_complete_def)
  have kvd: "0 < hp_kv_dim hp" using pos by (simp add: hp_kv_dim_def)
  obtain anw where anw: "tensor_vector_to_float pl ctx (layer_prefix l @ ''attn_norm.weight'') (hidden_size hp) = Inr anw"
    "length anw = hp_hidden hp"
    using vector_total [OF nf sh [of "''attn_norm.weight''" "hidden_size hp" 1]] f by (auto simp: layer_shape_table_def hp_hidden_def)
  obtain fnw where fnw: "tensor_vector_to_float pl ctx (layer_prefix l @ ''ffn_norm.weight'') (hidden_size hp) = Inr fnw"
    "length fnw = hp_hidden hp"
    using vector_total [OF nf sh [of "''ffn_norm.weight''" "hidden_size hp" 1]] f by (auto simp: layer_shape_table_def hp_hidden_def)
  have norm: "\<exists>y. rms_norm (fp pl) e x w = Inr y \<and> length y = hp_hidden hp" if "length x = hp_hidden hp" "length w = hp_hidden hp" for e x w
    using that by (simp add: rms_norm_def Let_def)
  have mv: "\<exists>y. matvec pl ctx (layer_prefix l @ suffix) z = Inr y \<and> length y = m"
    if "(suffix, int (length z), int m) \<in> set (layer_shape_table hp)" "0 < length z" "0 < m" for suffix z m
    using matvec_total [OF nf sh [OF that(1)] that(2,3)] .
  obtain xn where xn: "rms_norm (fp pl) (rms_eps hp) x anw = Inr xn" "length xn = hp_hidden hp"
    using norm [OF x anw(2)] by blast
  obtain q where q: "matvec pl ctx (layer_prefix l @ ''attn_q.weight'') xn = Inr q" "length q = hp_q_dim hp"
    using mv [of "''attn_q.weight''" xn "hp_q_dim hp"] xn(2) pos by (auto simp: layer_shape_table_def hs)
  obtain k where k: "matvec pl ctx (layer_prefix l @ ''attn_k.weight'') xn = Inr k" "length k = hp_kv_dim hp"
    using mv [of "''attn_k.weight''" xn "hp_kv_dim hp"] xn(2) pos kvd by (auto simp: layer_shape_table_def hs)
  obtain v where v: "matvec pl ctx (layer_prefix l @ ''attn_v.weight'') xn = Inr v" "length v = hp_kv_dim hp"
    using mv [of "''attn_v.weight''" xn "hp_kv_dim hp"] xn(2) pos kvd by (auto simp: layer_shape_table_def hs)
  have qkv: "layer_qkv pl ctx hp (layer_prefix l) anw x = Inr (q, k, v)"
    by (simp add: layer_qkv_def xn q k v)
  obtain att kv where att: "attended pl hp q k v p (kv_of s l) = (Inr att, kv)" "length att = hp_q_dim hp"
  proof -
    have wf: "kv_wf True hp (kv_of s l)" using ok g by (auto simp: executor_ok_def)
    let ?t = "rope_table (fp pl) hp"
    show thesis
      using attention_total [OF nf laws g hp wf, of "rotate_heads (fp pl) ?t (hp_dim hp) p (hp_heads hp) q"
          "rotate_heads (fp pl) ?t (hp_dim hp) p (hp_kv_heads hp) k" v p] q(2) k(2) v(2) that
      by (auto simp: attended_def)
  qed
  obtain ao where ao: "matvec pl ctx (layer_prefix l @ ''attn_output.weight'') att = Inr ao"
    using mv [of "''attn_output.weight''" att "hp_hidden hp"] att(2) pos by (auto simp: layer_shape_table_def hs)
  let ?h1 = "map (\<lambda>i. fadd (fp pl) (x ! i) (ao ! i)) [0..<hp_hidden hp]"
  obtain fn where fn: "rms_norm (fp pl) (rms_eps hp) ?h1 fnw = Inr fn" "length fn = hp_hidden hp"
    using norm [of ?h1 fnw] fnw(2) by auto
  obtain gate where gate: "matvec pl ctx (layer_prefix l @ ''ffn_gate.weight'') fn = Inr gate" "length gate = nat (ffn_size hp)"
    using mv [of "''ffn_gate.weight''" fn "nat (ffn_size hp)"] fn(2) pos f by (auto simp: layer_shape_table_def hs)
  obtain up where up: "matvec pl ctx (layer_prefix l @ ''ffn_up.weight'') fn = Inr up" "length up = nat (ffn_size hp)"
    using mv [of "''ffn_up.weight''" fn "nat (ffn_size hp)"] fn(2) pos f by (auto simp: layer_shape_table_def hs)
  let ?act = "map (\<lambda>i. fmul (fp pl) (silu (fp pl) (gate ! i)) (up ! i)) [0..<nat (ffn_size hp)]"
  obtain down where down: "matvec pl ctx (layer_prefix l @ ''ffn_down.weight'') ?act = Inr down"
    using mv [of "''ffn_down.weight''" ?act "hp_hidden hp"] pos f by (auto simp: layer_shape_table_def hs)
  have "\<exists>y. layer_ffn pl ctx hp (layer_prefix l) fnw x att = Inr y"
    using f by (simp add: layer_ffn_def ao fn gate up down Let_def)
  with ok show ?thesis
    by (auto simp: executor_ok_def layer_step_slot slot_step_def anw fnw qkv att)
qed

lemma rows_total:
  assumes "ggml_never_fails pl" "ggml_laws pl dot smax" "attention_backend_is_ggml pl"
    and "check_hyperparams hp = Inr ()" "layer_complete ctx hp l" "executor_ok pl hp s" "is_rows hp rows"
  shows "\<exists>rs s'. rowsA (layer_step pl ctx hp l) p rows s = (Inr rs, s') \<and> executor_ok pl hp s' \<and> is_rows hp rs"
  using assms(6,7)
proof (induction rows arbitrary: p s)
  case (Cons x rows)
  obtain y s' where y: "layer_step pl ctx hp l p x s = (Inr y, s')"
    using layer_step_total [OF assms(1-5) Cons.prems(1), of x p] Cons.prems(2) by auto
  have "executor_ok pl hp s'" using layer.good_step [OF Cons.prems(1), of ctx l p x] by (simp add: y)
  from Cons.IH [OF this, of "p + 1"] Cons.prems(2) y length_layer_step [OF y] show ?case
    by (auto simp: y bindA_apply)
qed simp

lemma layers_total:
  assumes "ggml_never_fails pl" "ggml_laws pl dot smax" "attention_backend_is_ggml pl"
    and "check_hyperparams hp = Inr ()" "\<forall>l \<in> set layers. layer_complete ctx hp l"
    and "executor_ok pl hp s" "is_rows hp rows"
  shows "\<exists>rs s'. foldA (\<lambda>l. rowsA (layer_step pl ctx hp l) p) layers rows s = (Inr rs, s')"
  using assms(5-7)
proof (induction layers arbitrary: rows s)
  case (Cons l layers)
  obtain rs s' where r: "rowsA (layer_step pl ctx hp l) p rows s = (Inr rs, s')" "executor_ok pl hp s'" "is_rows hp rs"
    using rows_total [OF assms(1-4) _ Cons.prems(2,3), of ctx l p] Cons.prems(1) by auto
  from Cons.IH [OF _ r(2,3)] Cons.prems(1) show ?case by (auto simp: r(1) bindA_apply)
qed simp

section \<open>The length of the caches\<close>

lemma slot_step_length:
  assumes "slot_step pl ctx hp l p x kv = (Inr y, kv')"
  shows "\<exists>kv''. kv' = Some kv'' \<and> kv_seq_len kv'' = max (kv_seq_len kv) (p + 1)"
proof -
  from assms obtain q k v r kv'' where a: "attended pl hp q k v p kv = (Inr r, kv'')" "kv' = Some kv''"
    by (auto simp: slot_step_def result_simps split: sum.splits prod.splits)
  have s: "kv_seq_len kv'' = max (kv_seq_len kv) (p + 1)"
    if step: "attention_step pl hp q k v p kv = (Inr r, kv'')" for q k
  proof -
    have sizes: "length q = hp_q_dim hp" "length k = hp_kv_dim hp" "length v = hp_kv_dim hp"
      using attention_step_bad_size [of q hp k v pl p kv] step by auto
    show ?thesis using step by (auto simp: attention_step_eq [OF sizes] Let_def split: if_splits)
  qed
  from s a show ?thesis by (auto simp: attended_def)
qed

lemma rows_kv_length:
  assumes "executor_ok pl hp s" "rows \<noteq> []" "rowsA (layer_step pl ctx hp l) p rows s = (Inr rs, s')"
  shows "kv_seq_len (kv_of s' l) = max (kv_seq_len (kv_of s l)) (p + length rows)"
  using assms
proof (induction rows arbitrary: p s rs)
  case (Cons x rows)
  from Cons.prems(3) obtain y t ys where y: "layer_step pl ctx hp l p x s = (Inr y, t)"
    and rest: "rowsA (layer_step pl ctx hp l) (p + 1) rows t = (Inr ys, s')"
    by (auto simp: result_simps)
  have t: "executor_ok pl hp t" using layer.good_step [OF Cons.prems(1), of ctx l p x] by (simp add: y)
  have "kv_seq_len (kv_of t l) = max (kv_seq_len (kv_of s l)) (p + 1)"
    using y Cons.prems(1) slot_step_length [of pl ctx hp l p x "kv_of s l"]
    by (auto simp: executor_ok_def layer_step_slot split: prod.splits option.splits)
  moreover have "kv_seq_len (kv_of s' l) = max (kv_seq_len (kv_of t l)) (p + 1 + length rows)" if "rows \<noteq> []"
    using Cons.IH [OF t that rest] .
  moreover have "s' = t" if "rows = []" using rest that by simp
  ultimately show ?case by (cases "rows = []") auto
qed simp

lemma layers_kv_length:
  assumes "executor_ok pl hp s" "rows \<noteq> []" "distinct layers"
    and "foldA (\<lambda>l. rowsA (layer_step pl ctx hp l) p) layers rows s = (Inr rs, s')" "l \<in> set layers"
  shows "kv_seq_len (kv_of s' l) = max (kv_seq_len (kv_of s l)) (p + length rows)"
  using assms
proof (induction layers arbitrary: rows s)
  case (Cons m layers)
  from Cons.prems(4) obtain us t where u: "rowsA (layer_step pl ctx hp m) p rows s = (Inr us, t)"
    and rest: "foldA (\<lambda>l. rowsA (layer_step pl ctx hp l) p) layers us t = (Inr rs, s')"
    by (auto simp: result_simps)
  have t: "executor_ok pl hp t" using layer.good_rows [OF Cons.prems(1), of ctx m p rows] by (simp add: u)
  have len: "length us = length rows" "us \<noteq> []" using rowsA_Inr_length [OF u] Cons.prems(2) by auto
  show ?case
  proof (cases "l \<in> set layers")
    case True
    then have "l \<noteq> m" using Cons.prems(3) by auto
    then have "kv_of t l = kv_of s l" using layer.frame_rows [OF Cons.prems(1), of l m ctx p rows] by (simp add: u)
    with Cons.IH [OF t len(2) _ rest True] Cons.prems(3) len(1) show ?thesis by simp
  next
    case False
    then have "kv_of s' l = kv_of t l"
      using layer.rows.frame_fold [OF t, of l layers ctx p us] by (simp add: rest)
    moreover have "l = m" using False Cons.prems(5) by simp
    ultimately show ?thesis using rows_kv_length [OF Cons.prems(1,2) u] by simp
  qed
qed simp

section \<open>A small shard\<close>

definition sample_weight :: "int \<Rightarrow> int \<Rightarrow> f32 list list ggml_tensor" where
  "sample_weight n0 n1 = \<lparr>ne0 = n0, ne1 = n1, tdata = Some (replicate (nat n1) (replicate (nat n0) 1))\<rparr>"

text \<open>All layers of the sample model, whatever their number.\<close>

definition sample_tensors :: "int list \<Rightarrow> f32 list list tensor_context" where
  "sample_tensors layers = map_of
     ([(''token_embd.weight'', sample_weight 4 3), (''output_norm.weight'', sample_weight 4 1),
       (''output.weight'', sample_weight 4 3)] @
      concat (map (\<lambda>l. map (\<lambda>(suffix, n0, n1). (layer_prefix l @ suffix, sample_weight n0 n1))
        (layer_shape_table sample_hp)) layers))"

lemma layer_prefix_inj:
  assumes "layer_prefix l @ s = layer_prefix m @ t"
  shows "l = m \<and> s = t"
proof -
  have dot: "CHR ''.'' \<notin> set (show_int i)" for i
    using show_int_chars [of "CHR ''.''" i] by (auto simp: is_digit_def)
  have "show_int l @ CHR ''.'' # s = show_int m @ CHR ''.'' # t" using assms by (simp add: layer_prefix_def)
  then have "show_int l = show_int m \<and> s = t"
  proof -
    assume e: "show_int l @ CHR ''.'' # s = show_int m @ CHR ''.'' # t"
    have "takeWhile (\<lambda>c. c \<noteq> CHR ''.'') (xs @ CHR ''.'' # ys) = xs" if "CHR ''.'' \<notin> set xs" for xs ys :: string
      using that by (induction xs) auto
    then have "show_int l = show_int m" using dot e by metis
    with e show ?thesis by simp
  qed
  then show ?thesis by simp
qed

lemma sample_complete:
  assumes "l \<in> set layers"
  shows "layer_complete (sample_tensors layers) sample_hp l"
proof -
  have pre: "layer_prefix l @ s \<noteq> ''token_embd.weight''" "layer_prefix l @ s \<noteq> ''output_norm.weight''"
    "layer_prefix l @ s \<noteq> ''output.weight''" for s
    by (simp_all add: layer_prefix_def)
  have dist: "distinct (map fst (layer_shape_table sample_hp))" by (simp add: layer_shape_table_def)
  have look: "map_of (concat (map (\<lambda>l. map (\<lambda>(suffix, n0, n1). (layer_prefix l @ suffix, sample_weight n0 n1))
      (layer_shape_table sample_hp)) ls)) (layer_prefix l @ s) = Some (sample_weight n0 n1)"
    if "l \<in> set ls" "(s, n0, n1) \<in> set (layer_shape_table sample_hp)" for ls s n0 n1
    using that(1)
  proof (induction ls)
    case (Cons m ls)
    let ?block = "map (\<lambda>(suffix, n0, n1). (layer_prefix m @ suffix, sample_weight n0 n1)) (layer_shape_table sample_hp)"
    show ?case
    proof (cases "m = l")
      case True
      have "distinct (map fst ?block)"
        using dist by (simp add: case_prod_unfold distinct_map inj_on_def comp_def)
      then have "map_of ?block (layer_prefix l @ s) = Some (sample_weight n0 n1)"
        using that(2) True by (intro map_of_is_SomeI) force+
      then show ?thesis by (simp add: map_add_def)
    next
      case False
      then have "map_of ?block (layer_prefix l @ s) = None"
        by (auto simp: map_of_eq_None_iff dest: layer_prefix_inj)
      with False Cons show ?thesis by (simp add: map_add_def)
    qed
  qed simp
  show ?thesis
    unfolding layer_complete_def
  proof clarify
    fix s n0 n1 assume "(s, n0, n1) \<in> set (layer_shape_table sample_hp)"
    from look [OF assms this] show "has_shape (sample_tensors layers) (layer_prefix l @ s) n0 n1"
      using pre by (simp add: has_shape_def sample_tensors_def sample_weight_def map_add_def)
  qed
qed

lemma sample_platform_laws:
  "ggml_never_fails (sample_platform g)" "ggml_laws (sample_platform g) sample_dot (\<lambda>ss. ss)"
  by (simp_all add: ggml_never_fails_def ggml_laws_def sample_platform_def sample_fpu_def)

section \<open>Properties\<close>

text \<open>C18. Processing a prompt in two chunks is processing it at once: if the layers run on
  \<open>a @ b\<close>, then running them on \<open>a\<close> and afterwards on \<open>b\<close>, at the position where \<open>a\<close> ended, gives the
  same activations and leaves every layer with the same cache. A decode step is the case of one row.\<close>

theorem chunked_prefill:
  assumes "executor_ok pl hp s" "distinct layers"
    and "0 < m" "length a = m * hp_hidden hp" "0 < n" "length b = n * hp_hidden hp"
    and "run_layers pl ctx hp layers (a @ b) (m + n) before s = (Inr y, s1)"
  shows "\<exists>ya yb sa sb. run_layers pl ctx hp layers a m before s = (Inr ya, sa) \<and>
     run_layers pl ctx hp layers b n (before + m) sa = (Inr yb, sb) \<and>
     y = ya @ yb \<and> (\<forall>l. kv_of sb l = kv_of s1 l)"
proof -
  let ?ra = "rows_of (hp_hidden hp) m a" and ?rb = "rows_of (hp_hidden hp) n b"
  have ab: "0 < m + n" "length (a @ b) = (m + n) * hp_hidden hp"
    using assms(3-6) by (simp_all add: add_mult_distrib)
  obtain rs where "foldA (\<lambda>l. rowsA (layer_step pl ctx hp l) before) layers (?ra @ ?rb) s = (Inr rs, s1)" "y = concat rs"
    using assms(7) by (auto simp: run_layers_flat [OF ab] rows_of_append [OF assms(4)] result_simps)
  moreover from layer.chunk [OF assms(1,2) this(1)] rows_of(3) [OF assms(4)] obtain ya yb sa sb where
    "foldA (\<lambda>l. rowsA (layer_step pl ctx hp l) before) layers ?ra s = (Inr ya, sa)"
    "foldA (\<lambda>l. rowsA (layer_step pl ctx hp l) (before + m)) layers ?rb sa = (Inr yb, sb)"
    "rs = ya @ yb" "\<forall>l. kv_of sb l = kv_of s1 l" by auto
  ultimately show ?thesis
    by (simp add: run_layers_flat [OF assms(3,4)] run_layers_flat [OF assms(5,6)] bindA_apply)
qed

lemma sample_new_ok: "executor_ok (sample_platform True) sample_hp (new_executor (0 :: nat))"
  by simp

lemma sample_run:
  assumes "0 < n" "length h = n * hp_hidden sample_hp"
  shows "\<exists>y s'. run_layers (sample_platform True) (sample_tensors layers) sample_hp layers h n 0 (new_executor 0) = (Inr y, s')"
proof -
  have "\<forall>l \<in> set layers. layer_complete (sample_tensors layers) sample_hp l" by (simp add: sample_complete)
  from layers_total [OF sample_platform_laws _ _ this sample_new_ok rows_of(1) [OF assms(2)], of 0]
  show ?thesis by (auto simp: run_layers_flat [OF assms] bindA_apply sample_backend)
qed

theorem chunked_prefill_witness:
  "\<exists>y s1 ya yb sa sb.
     run_layers (sample_platform True) (sample_tensors [0, 1]) sample_hp [0, 1] [1, 2, 3, 4, 5, 6, 7, 8] (1 + 1) 0 (new_executor 0) = (Inr y, s1) \<and>
     run_layers (sample_platform True) (sample_tensors [0, 1]) sample_hp [0, 1] [1, 2, 3, 4] 1 0 (new_executor 0) = (Inr ya, sa) \<and>
     run_layers (sample_platform True) (sample_tensors [0, 1]) sample_hp [0, 1] [5, 6, 7, 8] 1 (0 + 1) sa = (Inr yb, sb) \<and>
     y = ya @ yb \<and> (\<forall>l. kv_of sb l = kv_of s1 l)"
proof -
  obtain y s1 where r: "run_layers (sample_platform True) (sample_tensors [0, 1]) sample_hp [0, 1]
      ([1, 2, 3, 4] @ [5, 6, 7, 8]) (1 + 1) 0 (new_executor 0) = (Inr y, s1)"
    using sample_run [of "1 + 1" "[1, 2, 3, 4, 5, 6, 7, 8]" "[0, 1]"] by auto
  have d: "distinct [0, 1 :: int]" "0 < (1 :: nat)" "length [1, 2, 3, 4 :: f32] = 1 * hp_hidden sample_hp"
    "length [5, 6, 7, 8 :: f32] = 1 * hp_hidden sample_hp" by simp_all
  from chunked_prefill [OF sample_new_ok d(1,2,3,2,4) r] r show ?thesis
    unfolding append.simps by blast
qed

lemma complete_shard_total:
  assumes "ggml_never_fails pl" "ggml_laws pl dot smax" "attention_backend_is_ggml pl"
    and "check_hyperparams hp = Inr ()" "\<forall>l \<in> set layers. layer_complete ctx hp l" "distinct layers"
    and "executor_ok pl hp s" "0 < n" "length h = n * hp_hidden hp"
  shows "\<exists>y s'. run_layers pl ctx hp layers h n before s = (Inr y, s') \<and> length y = n * hp_hidden hp \<and>
     (\<forall>l \<in> set layers. kv_seq_len (kv_of s' l) = max (kv_seq_len (kv_of s l)) (before + n))"
proof -
  note r = rows_of [OF assms(9)]
  have ne: "rows_of (hp_hidden hp) n h \<noteq> []" using r(3) assms(8) by auto
  obtain rs s' where run: "foldA (\<lambda>l. rowsA (layer_step pl ctx hp l) before) layers (rows_of (hp_hidden hp) n h) s = (Inr rs, s')"
    using layers_total [OF assms(1-5,7) r(1)] by blast
  have "run_layers pl ctx hp layers h n before s = (Inr (concat rs), s')"
    by (simp add: run_layers_flat [OF assms(8,9)] run bindA_apply)
  moreover note run_layers_length [OF assms(8,9) this]
  moreover have "\<forall>l \<in> set layers. kv_seq_len (kv_of s' l) = max (kv_seq_len (kv_of s l)) (before + n)"
    using layers_kv_length [OF assms(7) ne assms(6) run] r(3) by simp
  ultimately show ?thesis by blast
qed



text \<open>The source stage embeds exactly the prompts it should: with a matching embedding matrix
  the result is the row of each token in order, and the first token outside the vocabulary is the
  error.\<close>

theorem embed_tokens_exact:
  assumes "require_tensor ctx ''token_embd.weight'' = Inr embedding"
    and "ne0 embedding = hidden_size hp" "ne1 embedding = vocab_size hp"
  shows "embed_tokens pl ctx hp tokens =
     bindR (mapR (embed_row pl hp embedding) tokens) (\<lambda>rows. Inr (concat rows))"
  using assms by (rule embed_tokens_rows)

theorem embed_tokens_exact_witness:
  "embed_tokens (sample_platform True) (sample_tensors []) sample_hp [2, 0] = Inr [1, 1, 1, 1, 1, 1, 1, 1] \<and>
   embed_tokens (sample_platform True) (sample_tensors []) sample_hp [2, 3, 5] = Inl ''token id out of range: 3''"
proof -
  have e: "require_tensor (sample_tensors []) ''token_embd.weight'' = Inr (sample_weight 4 3)"
    by (simp add: require_tensor_def sample_tensors_def sample_weight_def)
  have n: "ne0 (sample_weight 4 3) = hidden_size sample_hp" "ne1 (sample_weight 4 3) = vocab_size sample_hp"
    by (simp_all add: sample_weight_def sample_hp_def)
  note row = embed_row_def tensor_row_to_float_def sample_weight_def sample_hp_def sample_platform_def
    read_f32_tensor_flat_def sample_rows_def i32_wrap_def Let_def numeral_eq_Suc
  have "embed_row (sample_platform True) sample_hp (sample_weight 4 3) 3 = Inl ''token id out of range: 3''"
    by (simp add: embed_row_def sample_hp_def show_int_def show_nat.simps digit_char_def)
      (simp add: char_of_def bit_iff_odd)
  moreover have "embed_row (sample_platform True) sample_hp (sample_weight 4 3) i = Inr [1, 1, 1, 1]" if "i = 0 \<or> i = 2" for i
    using that by (auto simp: row upt_rec)
  ultimately show ?thesis
    using embed_tokens_exact [OF e n, of "sample_platform True" "[2, 0]"] embed_tokens_exact [OF e n, of "sample_platform True" "[2, 3, 5]"]
    by simp
qed

end
