(* ===== verification/Sampling.thy ===== *)
theory Sampling
  imports Cpu_Executor "HOL-Library.Multiset"
begin

text \<open>
  The last stage: output norm, language-model head and token selection of
  \<open>llama_cpu_executor.cpp\<close> (\<open>sample_from_logits\<close>, \<open>sample_lm_head\<close>, \<open>execute_terminal\<close>).

  \<open>std::sort\<close> may order equal candidates as it likes, so the sorting function is a parameter;
  what is assumed of it is that it returns a permutation sorted by the comparator, for
  candidates without NaN (with a NaN the comparator is no ordering and the call is undefined).
  The random engine is the rest of its stream: seeding and drawing are parameters.
\<close>

record sampling_params =
  sampling_enabled :: bool
  temperature :: f32
  top_k :: int
  top_p :: f32
  has_seed :: bool
  seed :: int

definition default_sampling :: sampling_params where
  "default_sampling = \<lparr>sampling_enabled = False, temperature = f32_one, top_k = 0, top_p = f32_one,
     has_seed = False, seed = 0\<rparr>"

definition greedy_token :: "f32 list \<Rightarrow> nat" where
  "greedy_token logits =
     fst (fold (\<lambda>i (best_id, best_value).
              if f32_lt best_value (logits ! i) then (i, logits ! i) else (best_id, best_value))
            [1..<length logits] (0, logits ! 0))"

definition softmax_probs :: "fpu \<Rightarrow> (int \<times> f32) list \<Rightarrow> f64 list" where
  "softmax_probs F candidates =
     (let max_logit = snd (hd candidates);
          probs = map (\<lambda>c. dexp F (f64_of_f32 F (fsub F (snd c) max_logit))) candidates;
          sum_exp = foldl (dadd F) f64_zero probs
      in map (\<lambda>p. ddiv F p sum_exp) probs)"

text \<open>The nucleus loop: the first index at which the cumulative probability reaches the bound.\<close>

fun nucleus_scan :: "fpu \<Rightarrow> f64 \<Rightarrow> f64 \<Rightarrow> nat \<Rightarrow> f64 list \<Rightarrow> nat" where
  "nucleus_scan F bound cumulative i [] = i"
| "nucleus_scan F bound cumulative i (p # ps) =
     (let cumulative = dadd F cumulative p
      in if f64_le bound cumulative then i + 1 else nucleus_scan F bound cumulative (i + 1) ps)"

definition nucleus :: "fpu \<Rightarrow> f32 \<Rightarrow> f64 list \<Rightarrow> nat \<times> f64 list" where
  "nucleus F p probs =
     (if f32_lt p f32_one \<and> f32_lt f32_zero p
      then let cutoff = nucleus_scan F (f64_of_f32 F p) f64_zero 0 probs;
               renorm = foldl (dadd F) f64_zero (take cutoff probs)
           in (cutoff, if f64_lt f64_zero renorm
                       then map (\<lambda>p. ddiv F p renorm) (take cutoff probs) @ drop cutoff probs
                       else probs)
      else (length probs, probs))"

fun draw_candidate :: "fpu \<Rightarrow> f64 \<Rightarrow> f64 \<Rightarrow> (int \<times> f32) list \<Rightarrow> f64 list \<Rightarrow> int option" where
  "draw_candidate F draw cumulative (c # cs) (p # ps) =
     (let cumulative = dadd F cumulative p
      in if f64_le draw cumulative then Some (fst c) else draw_candidate F draw cumulative cs ps)"
| "draw_candidate F draw cumulative _ _ = None"

definition top_k_candidates :: "('w, 'g) platform \<Rightarrow> f32 list \<Rightarrow> sampling_params \<Rightarrow> (int \<times> f32) list" where
  "top_k_candidates pl logits sampling =
     (let inv_temperature = fdiv (fp pl) f32_one (temperature sampling);
          candidates = sort_candidates pl
            (map (\<lambda>i. (int i, fmul (fp pl) (logits ! i) inv_temperature)) [0..<length logits])
      in if top_k sampling > 0 \<and> top_k sampling < int (length candidates)
         then take (nat (top_k sampling)) candidates else candidates)"

definition sample_from_logits ::
    "('w, 'g) platform \<Rightarrow> f32 list \<Rightarrow> sampling_params \<Rightarrow> ('g executor, int) action" where
  "sample_from_logits pl logits sampling s =
     (if \<not> sampling_enabled sampling \<or> f32_le (temperature sampling) f32_zero
      then (Inr (int (greedy_token logits)), s)
      else let candidates = top_k_candidates pl logits sampling;
               (cutoff, probs) = nucleus (fp pl) (top_p sampling) (softmax_probs (fp pl) candidates);
               (draw, rng') = uniform_draw pl (rng s)
           in (Inr (case draw_candidate (fp pl) draw f64_zero (take cutoff candidates) (take cutoff probs) of
                      Some token \<Rightarrow> token
                    | None \<Rightarrow> fst (hd candidates)), s\<lparr>rng := rng'\<rparr>))"

definition sample_lm_head ::
    "('w, 'g) platform \<Rightarrow> 'w tensor_context \<Rightarrow> f32 list \<Rightarrow> sampling_params \<Rightarrow> ('g executor, int) action" where
  "sample_lm_head pl ctx last_hidden sampling =
     bindA (liftA (matvec pl ctx ''output.weight'' last_hidden)) (\<lambda>logits.
     if logits = [] then throwA ''empty logits from lm_head''
     else sample_from_logits pl logits sampling)"

text \<open>\<open>entropy\<close> is the value \<open>std::random_device\<close> yields, should it be asked.\<close>

definition reseed :: "('w, 'g) platform \<Rightarrow> 32 word \<Rightarrow> sampling_params \<Rightarrow> nat \<Rightarrow> 'g executor \<Rightarrow> 'g executor" where
  "reseed pl entropy sampling kv_seq_before s =
     (if has_seed sampling \<and> kv_seq_before = 0
      then s\<lparr>rng := mt_seed pl (if seed sampling \<ge> 0 then word_of_int (seed sampling) else entropy)\<rparr>
      else s)"

text \<open>From the activations of the last layer to the token: the row of the last position only.\<close>

definition terminal_head ::
    "('w, 'g) platform \<Rightarrow> 'w tensor_context \<Rightarrow> hyperparams \<Rightarrow> f32 list \<Rightarrow> nat \<Rightarrow> bool \<Rightarrow> bool \<Rightarrow> sampling_params \<Rightarrow>
     ('g executor, int) action" where
  "terminal_head pl ctx hp hidden seq_len owns_norm owns_lm_head sampling =
     bindA (checkA owns_norm ''terminal partition must own output norm'') (\<lambda>_.
     bindA (checkA owns_lm_head ''terminal partition must own lm_head'') (\<lambda>_.
     bindA (liftA (tensor_vector_to_float pl ctx ''output_norm.weight'' (hidden_size hp))) (\<lambda>norm_weight.
     bindA (liftA (rms_norm (fp pl) (rms_eps hp)
              (take (hp_hidden hp) (drop ((seq_len - 1) * hp_hidden hp) hidden)) norm_weight)) (\<lambda>normed.
     sample_lm_head pl ctx normed sampling))))"

definition execute_terminal ::
    "('w, 'g) platform \<Rightarrow> 'w tensor_context \<Rightarrow> hyperparams \<Rightarrow> 32 word \<Rightarrow> tensor_buffer \<Rightarrow> int list \<Rightarrow> nat \<Rightarrow>
     bool \<Rightarrow> bool \<Rightarrow> sampling_params \<Rightarrow> ('g executor, int) action" where
  "execute_terminal pl ctx hp entropy hidden_states layers kv_seq_before owns_norm owns_lm_head sampling =
     bindA (modifyA (reseed pl entropy sampling kv_seq_before)) (\<lambda>_.
     let seq_len = i32_wrap (shape (metadata hidden_states) ! 1)
     in bindA (liftA (tensor_to_hidden_f32 (hidden_size hp) hidden_states)) (\<lambda>hidden.
        bindA (run_layers pl ctx hp layers hidden (nat seq_len) kv_seq_before) (\<lambda>hidden.
        terminal_head pl ctx hp hidden (nat seq_len) owns_norm owns_lm_head sampling)))"

section \<open>Greedy selection\<close>

definition no_nan :: "f32 list \<Rightarrow> bool" where
  "no_nan xs \<longleftrightarrow> (\<forall>x \<in> set xs. \<not> f32_is_nan x)"

lemma greedy_loop:
  assumes "no_nan logits" "n \<le> length logits" "1 \<le> n"
  shows "\<exists>r. fold (\<lambda>i (best_id, best_value).
        if f32_lt best_value (logits ! i) then (i, logits ! i) else (best_id, best_value))
      [1..<n] (0, logits ! 0) = (r, logits ! r) \<and> r < n \<and>
    (\<forall>i < n. \<not> f32_lt (logits ! r) (logits ! i)) \<and> (\<forall>i < r. f32_lt (logits ! i) (logits ! r))"
  using assms(2,3)
proof (induction n)
  case (Suc n)
  show ?case
  proof (cases "n = 0")
    case False
    with Suc obtain r where r: "fold (\<lambda>i (best_id, best_value).
        if f32_lt best_value (logits ! i) then (i, logits ! i) else (best_id, best_value))
      [1..<n] (0, logits ! 0) = (r, logits ! r)" "r < n"
      and max: "\<forall>i < n. \<not> f32_lt (logits ! r) (logits ! i)" and first: "\<forall>i < r. f32_lt (logits ! i) (logits ! r)"
      by auto
    have nan: "\<not> f32_is_nan (logits ! i)" if "i < Suc n" for i
      using assms(1) that Suc.prems by (simp add: no_nan_def)
    show ?thesis
    proof (cases "f32_lt (logits ! r) (logits ! n)")
      case True
      have "f32_lt (logits ! i) (logits ! n)" if "i < n" for i
        using max that nan [of i] nan [of r] nan [of n] r(2) True by (fastforce simp: f32_lt_def)
      then have "\<forall>i < Suc n. \<not> f32_lt (logits ! n) (logits ! i)"
        by (metis f32_lt_irrefl f32_lt_trans less_Suc_eq)
      with True r False \<open>\<And>i. i < n \<Longrightarrow> f32_lt (logits ! i) (logits ! n)\<close> show ?thesis by simp
    next
      case not_less: False
      with r max first False show ?thesis by (auto simp: less_Suc_eq)
    qed
  qed simp
qed simp

lemma greedy_token:
  assumes "no_nan logits" "logits \<noteq> []"
  shows "greedy_token logits < length logits"
    "i < length logits \<Longrightarrow> \<not> f32_lt (logits ! greedy_token logits) (logits ! i)"
    "i < greedy_token logits \<Longrightarrow> f32_lt (logits ! i) (logits ! greedy_token logits)"
  using greedy_loop [OF assms(1), of "length logits"] assms(2)
  by (cases logits; force simp: greedy_token_def)+

section \<open>Selection among the best candidates\<close>

definition sorts_candidates :: "('w, 'g) platform \<Rightarrow> bool" where
  "sorts_candidates pl \<longleftrightarrow> (\<forall>cs. (\<forall>c \<in> set cs. \<not> f32_is_nan (snd c)) \<longrightarrow>
     mset (sort_candidates pl cs) = mset cs \<and>
     sorted_wrt (\<lambda>a b. \<not> f32_lt (snd a) (snd b)) (sort_candidates pl cs))"

definition scaled_logit :: "('w, 'g) platform \<Rightarrow> f32 list \<Rightarrow> sampling_params \<Rightarrow> nat \<Rightarrow> f32" where
  "scaled_logit pl logits sampling i = fmul (fp pl) (logits ! i) (fdiv (fp pl) f32_one (temperature sampling))"

lemma draw_candidate_member: "draw_candidate F d c cs ps = Some t \<Longrightarrow> t \<in> fst ` set cs"
  by (induction F d c cs ps rule: draw_candidate.induct) (auto simp: Let_def split: if_splits)

text \<open>In a list sorted by a comparator that never holds of equal values, the better ones come first.\<close>

lemma better_before:
  assumes "sorted_wrt (\<lambda>a b. \<not> f32_lt (snd a) (snd b)) xs" "j < length xs" "p < length xs" "f32_lt (snd (xs ! j)) (snd (xs ! p))"
  shows "p < j"
proof (rule ccontr)
  assume "\<not> p < j"
  then consider "p = j" | "j < p" by linarith
  then show False using assms by cases (auto simp: sorted_wrt_iff_nth_less)
qed

lemma better_count:
  assumes ord: "sorted_wrt (\<lambda>a b. \<not> f32_lt (snd a) (snd b)) xs" and set: "set xs = (\<lambda>i. (int i, L i)) ` {..<n}"
    and j: "j < length xs" "xs ! j = (int i, L i)"
  shows "card {m. m < n \<and> f32_lt (L i) (L m)} \<le> j"
proof -
  have "{m. m < n \<and> f32_lt (L i) (L m)} \<subseteq> (\<lambda>c. nat (fst c)) ` set (take j xs)"
  proof
    fix m assume "m \<in> {m. m < n \<and> f32_lt (L i) (L m)}"
    then have m: "(int m, L m) \<in> set xs" "f32_lt (L i) (L m)" using set by auto
    then obtain p where p: "p < length xs" "xs ! p = (int m, L m)" by (auto simp: in_set_conv_nth)
    then have "p < j" using better_before [OF ord j(1), of p] j(2) m(2) by simp
    then have "xs ! p \<in> set (take j xs)" using p(1) by (metis in_set_conv_nth length_take min_less_iff_conj nth_take)
    then show "m \<in> (\<lambda>c. nat (fst c)) ` set (take j xs)" using p(2) by force
  qed
  then have "card {m. m < n \<and> f32_lt (L i) (L m)} \<le> card ((\<lambda>c. nat (fst c)) ` set (take j xs))" by (intro card_mono) auto
  also have "\<dots> \<le> j" using card_image_le [of "set (take j xs)" "\<lambda>c. nat (fst c)"] card_length [of "take j xs"] j(1) by auto
  finally show ?thesis .
qed

lemma top_k_better:
  assumes sorts: "sorts_candidates pl" and nan: "\<forall>i < length logits. \<not> f32_is_nan (scaled_logit pl logits sampling i)"
    and c: "c \<in> set (top_k_candidates pl logits sampling)"
  shows "0 \<le> fst c \<and> fst c < int (length logits) \<and>
    (top_k sampling > 0 \<longrightarrow>
      card {i. i < length logits \<and> f32_lt (scaled_logit pl logits sampling (nat (fst c))) (scaled_logit pl logits sampling i)}
        < nat (top_k sampling))"
proof -
  let ?L = "scaled_logit pl logits sampling"
  define cs where "cs = map (\<lambda>i. (int i, ?L i)) [0..<length logits]"
  define sorted where "sorted = sort_candidates pl cs"
  have "\<forall>c \<in> set cs. \<not> f32_is_nan (snd c)" using nan by (auto simp: cs_def)
  then have perm: "mset sorted = mset cs" and ord: "sorted_wrt (\<lambda>a b. \<not> f32_lt (snd a) (snd b)) sorted"
    using sorts by (auto simp: sorts_candidates_def sorted_def)
  have len: "length sorted = length logits"
    using perm by (metis cs_def length_map length_upt minus_nat.diff_0 size_mset)
  have set: "set sorted = (\<lambda>i. (int i, ?L i)) ` {..<length logits}"
    using perm by (metis cs_def atLeast_upt set_map set_mset_mset)
  have top: "top_k_candidates pl logits sampling =
      (if top_k sampling > 0 \<and> top_k sampling < int (length sorted) then take (nat (top_k sampling)) sorted else sorted)"
    by (simp add: top_k_candidates_def Let_def sorted_def cs_def scaled_logit_def)
  obtain j where j: "j < length sorted" "c = sorted ! j" and k: "top_k sampling > 0 \<Longrightarrow> j < nat (top_k sampling)"
  proof (cases "top_k sampling > 0 \<and> top_k sampling < int (length sorted)")
    case True
    then obtain j where "j < length (take (nat (top_k sampling)) sorted)" "c = take (nat (top_k sampling)) sorted ! j"
      using c unfolding top by (auto simp: in_set_conv_nth)
    with that [of j] show thesis by simp
  next
    case False
    then obtain j where "j < length sorted" "c = sorted ! j" using c unfolding top by (auto simp: in_set_conv_nth)
    with that [of j] False show thesis by force
  qed
  have "c \<in> set sorted" using j by simp
  then obtain i where i: "i < length logits" "c = (int i, ?L i)" using set by auto
  then have "card {m. m < length logits \<and> f32_lt (?L i) (?L m)} \<le> j" using better_count [OF ord set j(1), of i] j(2) by simp
  then show ?thesis using i k by force
qed

lemma top_k_nonempty:
  assumes "sorts_candidates pl" "\<forall>i < length logits. \<not> f32_is_nan (scaled_logit pl logits sampling i)" "logits \<noteq> []"
  shows "top_k_candidates pl logits sampling \<noteq> []"
proof -
  define cs where "cs = map (\<lambda>i. (int i, scaled_logit pl logits sampling i)) [0..<length logits]"
  have "\<forall>c \<in> set cs. \<not> f32_is_nan (snd c)" using assms(2) by (auto simp: cs_def)
  then have "mset (sort_candidates pl cs) = mset cs" using assms(1) by (simp add: sorts_candidates_def)
  moreover have "cs \<noteq> []" using assms(3) by (simp add: cs_def)
  ultimately have "sort_candidates pl cs \<noteq> []" by (metis mset_zero_iff)
  then show ?thesis by (auto simp: top_k_candidates_def Let_def cs_def scaled_logit_def)
qed

section \<open>The nucleus\<close>

definition cumulative :: "fpu \<Rightarrow> f64 \<Rightarrow> f64 list \<Rightarrow> f64" where
  "cumulative F start ps = foldl (dadd F) start ps"

lemma nucleus_scan:
  "\<exists>n \<le> length ps. nucleus_scan F bound c i ps = i + n \<and>
     (\<forall>m. 0 < m \<and> m < n \<longrightarrow> \<not> f64_le bound (cumulative F c (take m ps))) \<and>
     (n = length ps \<or> 0 < n \<and> f64_le bound (cumulative F c (take n ps)))"
proof (induction ps arbitrary: c i)
  case (Cons p ps)
  show ?case
  proof (cases "f64_le bound (dadd F c p)")
    case True
    then show ?thesis by (intro exI [of _ 1]) (simp add: cumulative_def)
  next
    case False
    from Cons.IH [of "dadd F c p" "i + 1"] obtain n where n: "n \<le> length ps"
      "nucleus_scan F bound (dadd F c p) (i + 1) ps = i + 1 + n"
      "\<forall>m. 0 < m \<and> m < n \<longrightarrow> \<not> f64_le bound (cumulative F (dadd F c p) (take m ps))"
      "n = length ps \<or> 0 < n \<and> f64_le bound (cumulative F (dadd F c p) (take n ps))" by blast
    have "\<not> f64_le bound (cumulative F c (take m (p # ps)))" if "0 < m" "m < Suc n" for m
      using that n(3) False by (cases m; cases "m = 1") (auto simp: cumulative_def)
    with n False show ?thesis by (intro exI [of _ "Suc n"]) (auto simp: cumulative_def)
  qed
qed simp

section \<open>The random engine\<close>

lemma rng_layer_step: "executor_ok pl hp s \<Longrightarrow> rng (snd (layer_step pl ctx hp l p x s)) = rng s"
  by (auto simp: executor_ok_def layer_step_slot split: prod.splits option.splits)

lemma rng_rows:
  "executor_ok pl hp s \<Longrightarrow> rng (snd (rowsA (layer_step pl ctx hp l) p xs s)) = rng s"
proof (induction xs arbitrary: p s)
  case (Cons x xs)
  obtain r s' where s: "layer_step pl ctx hp l p x s = (r, s')" by (rule prod.exhaust)
  have "executor_ok pl hp s'" "rng s' = rng s"
    using layer.good_step [OF Cons.prems, of ctx l p x] rng_layer_step [OF Cons.prems, of ctx l p x] by (simp_all add: s)
  with Cons.IH [of s' "p + 1"] show ?case
    by (cases r) (auto simp: bindA_apply s split: prod.splits sum.splits)
qed simp

lemma rng_layers:
  "executor_ok pl hp s \<Longrightarrow> rng (snd (foldA (\<lambda>l. rowsA (layer_step pl ctx hp l) p) ls rows s)) = rng s"
proof (induction ls arbitrary: rows s)
  case (Cons l ls)
  obtain r s' where s: "rowsA (layer_step pl ctx hp l) p rows s = (r, s')" by (rule prod.exhaust)
  have "executor_ok pl hp s'" "rng s' = rng s"
    using layer.good_rows [OF Cons.prems, of ctx l p rows] rng_rows [OF Cons.prems, of ctx l p rows] by (simp_all add: s)
  with Cons.IH [of s'] show ?case
    by (cases r) (auto simp: bindA_apply s split: prod.splits sum.splits)
qed simp

section \<open>Properties\<close>

text \<open>C34. Greedy decoding is deterministic argmax: with sampling disabled or a non-positive
  temperature, the token is the first position of the largest logit, and the random engine is
  not touched.\<close>

theorem greedy_is_first_argmax:
  assumes "logits \<noteq> []" "no_nan logits"
    and "\<not> sampling_enabled sampling \<or> f32_le (temperature sampling) f32_zero"
  shows "\<exists>t. sample_from_logits pl logits sampling s = (Inr (int t), s) \<and> t < length logits \<and>
     (\<forall>i < length logits. \<not> f32_lt (logits ! t) (logits ! i)) \<and> (\<forall>i < t. f32_lt (logits ! i) (logits ! t))"
  using greedy_token [OF assms(2,1)] assms(3)
  by (intro exI [of _ "greedy_token logits"]) (simp add: sample_from_logits_def)

theorem greedy_is_first_argmax_witness:
  "sample_from_logits (sample_platform True) [f32_zero, f32_one, f32_one] default_sampling (new_executor (0 :: nat))
     = (Inr 1, new_executor 0)"
proof -
  have "no_nan [f32_zero, f32_one, f32_one]" by (simp add: no_nan_def f32_is_nan_def f32_zero_def f32_one_def)
  from greedy_is_first_argmax [OF _ this, of default_sampling "sample_platform True" "new_executor (0 :: nat)"]
  obtain t where t: "sample_from_logits (sample_platform True) [f32_zero, f32_one, f32_one] default_sampling (new_executor (0 :: nat))
      = (Inr (int t), new_executor 0)" "t < 3" "\<not> f32_lt ([f32_zero, f32_one, f32_one] ! t) f32_one"
      "\<forall>i < t. f32_lt ([f32_zero, f32_one, f32_one] ! i) ([f32_zero, f32_one, f32_one] ! t)"
    by (auto simp: default_sampling_def)
  have lt: "f32_lt f32_zero f32_one"
    by (simp add: f32_lt_def f32_is_nan_def f32_key_def f32_zero_def f32_one_def)
  have "t \<noteq> 0" using t(3) lt by (cases t) auto
  moreover have "t \<noteq> 2" using t(4) by (auto simp: numeral_2_eq_2)
  ultimately have "t = 1" using t(2) by linarith
  with t(1) show ?thesis by simp
qed

text \<open>C35. A sampled token is a token of the vocabulary, and with top-k it is among the k best: fewer
  than k tokens have a strictly larger scaled logit, whatever \<open>std::sort\<close> does with equal ones
  and whatever the draw is.\<close>

theorem sampled_token_in_top_k:
  assumes "sorts_candidates pl" "logits \<noteq> []"
    and "\<forall>i < length logits. \<not> f32_is_nan (scaled_logit pl logits sampling i)"
    and "sampling_enabled sampling" "\<not> f32_le (temperature sampling) f32_zero"
    and "sample_from_logits pl logits sampling s = (Inr token, s')"
  shows "0 \<le> token \<and> token < int (length logits) \<and>
     (top_k sampling > 0 \<longrightarrow>
       card {i. i < length logits \<and> f32_lt (scaled_logit pl logits sampling (nat token)) (scaled_logit pl logits sampling i)}
         < nat (top_k sampling)) \<and>
     layer_cache s' = layer_cache s"
proof -
  let ?cs = "top_k_candidates pl logits sampling"
  obtain cutoff probs where n: "nucleus (fp pl) (top_p sampling) (softmax_probs (fp pl) ?cs) = (cutoff, probs)"
    by (rule prod.exhaust)
  obtain draw g where d: "uniform_draw pl (rng s) = (draw, g)" by (rule prod.exhaust)
  have ne: "?cs \<noteq> []" using assms(1,3,2) by (rule top_k_nonempty)
  have "token = (case draw_candidate (fp pl) draw f64_zero (take cutoff ?cs) (take cutoff probs) of
      Some token \<Rightarrow> token | None \<Rightarrow> fst (hd ?cs))" and s': "s' = s\<lparr>rng := g\<rparr>"
    using assms(4-6) by (auto simp: sample_from_logits_def n d Let_def)
  then have "token \<in> fst ` set ?cs"
    using ne draw_candidate_member [of "fp pl" draw f64_zero "take cutoff ?cs" "take cutoff probs"]
    by (auto split: option.splits dest: in_set_takeD)
  with top_k_better [OF assms(1,3)] s' show ?thesis by auto
qed

definition sample_sampling :: sampling_params where
  "sample_sampling = \<lparr>sampling_enabled = True, temperature = f32_one, top_k = 2, top_p = f32_one,
     has_seed = True, seed = 42\<rparr>"

lemma sample_sorts: "sorts_candidates (sample_platform g)"
  unfolding sorts_candidates_def
proof (intro allI impI conjI)
  fix cs :: "(int \<times> f32) list"
  show "mset (sort_candidates (sample_platform g) cs) = mset cs" by (simp add: sample_platform_def)
  have "sorted_wrt (\<lambda>a b. f32_key (snd a) \<le> f32_key (snd b)) (sort_key (\<lambda>c. f32_key (snd c)) cs)"
    using sorted_sort_key [of "\<lambda>c. f32_key (snd c)" cs] by (simp add: sorted_wrt_map)
  then have "sorted_wrt (\<lambda>a b. f32_key (snd b) \<le> f32_key (snd a)) (rev (sort_key (\<lambda>c. f32_key (snd c)) cs))"
    by (simp add: sorted_wrt_rev)
  then have "sorted_wrt (\<lambda>a b. \<not> f32_lt (snd a) (snd b)) (rev (sort_key (\<lambda>c. f32_key (snd c)) cs))"
    by (rule sorted_wrt_mono_rel [rotated]) (auto simp: f32_lt_def)
  then show "sorted_wrt (\<lambda>a b. \<not> f32_lt (snd a) (snd b)) (sort_candidates (sample_platform g) cs)"
    by (simp add: sample_platform_def)
qed

lemma sample_from_logits_total: "\<exists>token s'. sample_from_logits pl logits sampling s = (Inr token, s')"
  by (simp add: sample_from_logits_def Let_def case_prod_unfold)

theorem sampled_token_in_top_k_witness:
  "\<exists>token s'. sample_from_logits (sample_platform True) [1, 2, 3] sample_sampling (new_executor 0) = (Inr token, s') \<and>
     0 \<le> token \<and> token < 3"
proof -
  obtain token s' where r: "sample_from_logits (sample_platform True) [1, 2, 3] sample_sampling (new_executor 0) = (Inr token, s')"
    using sample_from_logits_total by blast
  have t: "\<not> f32_le (temperature sample_sampling) f32_zero"
    by (simp add: sample_sampling_def f32_le_def f32_key_def f32_one_def f32_zero_def)
  have n: "\<forall>i < length [1, 2, 3 :: f32]. \<not> f32_is_nan (scaled_logit (sample_platform True) [1, 2, 3] sample_sampling i)"
    by (auto simp: scaled_logit_def sample_sampling_def sample_platform_def sample_fpu_def f32_one_def
        f32_is_nan_def less_Suc_eq)
  from sampled_token_in_top_k [OF sample_sorts _ n _ t r] r show ?thesis by (simp add: sample_sampling_def)
qed

text \<open>C36. The nucleus is the smallest prefix of the sorted candidates whose cumulative probability
  reaches the bound: no shorter prefix reaches it, and the chosen one does unless no prefix does.\<close>

theorem nucleus_is_smallest_prefix:
  assumes "f32_lt p f32_one" "f32_lt f32_zero p"
  shows "\<exists>n \<le> length probs. fst (nucleus F p probs) = n \<and>
     (\<forall>m. 0 < m \<and> m < n \<longrightarrow> \<not> f64_le (f64_of_f32 F p) (cumulative F f64_zero (take m probs))) \<and>
     (n = length probs \<or> f64_le (f64_of_f32 F p) (cumulative F f64_zero (take n probs)))"
  using assms nucleus_scan [of probs F "f64_of_f32 F p" f64_zero 0] by (auto simp: nucleus_def Let_def)

definition half :: f32 where "half = 0x3F000000"

theorem nucleus_is_smallest_prefix_witness:
  "fst (nucleus sample_fpu half [0x3F000000, 0x3F000000]) \<le> 2"
proof -
  have "f32_lt half f32_one" "f32_lt f32_zero half"
    by (simp_all add: half_def f32_lt_def f32_is_nan_def f32_key_def f32_zero_def f32_one_def)
  from nucleus_is_smallest_prefix [OF this, of "[0x3F000000, 0x3F000000]" sample_fpu] show ?thesis by auto
qed

end
