(* ===== verification/Partition_Plan.thy ===== *)
theory Partition_Plan
  imports Prelude
begin

text \<open>
  Which tensors of a GGUF model belong to a partition: \<open>partition_plan.cpp\<close>,
  \<open>partition_tensor_assignment.cpp\<close> and the name queries of \<open>gguf_inspector.cpp\<close>. Reading the
  GGUF file is the business of the gguf library; an inspection is the list of tensors it found.
\<close>

record partition_components =
  embedding :: bool
  layers :: "int list"
  norm :: bool
  lm_head :: bool

record tensor_name_plan =
  plan_partition_id :: string
  required_tensor_prefixes :: "string list"
  required_tensor_names :: "string list"

record gguf_tensor_info =
  tensor_name :: string
  type_name :: string
  byte_size :: nat
  tensor_offset :: nat

record gguf_inspection =
  inspection_path :: string
  inspected_tensors :: "gguf_tensor_info list"

record partition_tensor_assignment =
  assigned_partition_id :: string
  tensor_names :: "string list"
  missing_required_names :: "string list"
  missing_required_prefixes :: "string list"

section \<open>Plans\<close>

definition layer_tensor_prefix :: "int \<Rightarrow> string" where
  "layer_tensor_prefix layer_id = ''blk.'' @ show_int layer_id @ ''.''"

definition add_layer_tensor_prefixes :: "int \<Rightarrow> tensor_name_plan \<Rightarrow> tensor_name_plan" where
  "add_layer_tensor_prefixes layer_id plan =
     plan\<lparr>required_tensor_prefixes := required_tensor_prefixes plan @ [layer_tensor_prefix layer_id]\<rparr>"

definition add_required_name :: "bool \<Rightarrow> string \<Rightarrow> tensor_name_plan \<Rightarrow> tensor_name_plan" where
  "add_required_name cond name plan =
     (if cond then plan\<lparr>required_tensor_names := required_tensor_names plan @ [name]\<rparr> else plan)"

definition build_llama_tensor_name_plan :: "string \<Rightarrow> partition_components \<Rightarrow> tensor_name_plan" where
  "build_llama_tensor_name_plan partition_id components =
     add_required_name (lm_head components) ''output.weight''
       (add_required_name (norm components) ''output_norm.weight''
         (fold add_layer_tensor_prefixes (layers components)
           (add_required_name (embedding components) ''token_embd.weight''
             \<lparr>plan_partition_id = partition_id, required_tensor_prefixes = [], required_tensor_names = []\<rparr>)))"

definition tensor_matches_plan :: "string \<Rightarrow> tensor_name_plan \<Rightarrow> bool" where
  "tensor_matches_plan name plan \<longleftrightarrow>
     list_ex (\<lambda>required_name. name = required_name) (required_tensor_names plan) \<or>
     list_ex (\<lambda>required_prefix. starts_with name required_prefix) (required_tensor_prefixes plan)"

section \<open>Assignment\<close>

definition gguf_contains_tensor :: "gguf_inspection \<Rightarrow> string \<Rightarrow> bool" where
  "gguf_contains_tensor inspection name = list_ex (\<lambda>t. tensor_name t = name) (inspected_tensors inspection)"

definition gguf_contains_tensor_with_prefix :: "gguf_inspection \<Rightarrow> string \<Rightarrow> bool" where
  "gguf_contains_tensor_with_prefix inspection prefix =
     list_ex (\<lambda>t. starts_with (tensor_name t) prefix) (inspected_tensors inspection)"

text \<open>\<open>std::sort\<close> on strings orders them lexicographically.\<close>

definition assign_tensors_to_partition :: "gguf_inspection \<Rightarrow> tensor_name_plan \<Rightarrow> partition_tensor_assignment" where
  "assign_tensors_to_partition inspection plan =
     \<lparr>assigned_partition_id = plan_partition_id plan,
      tensor_names = sort (filter (\<lambda>name. tensor_matches_plan name plan) (map tensor_name (inspected_tensors inspection))),
      missing_required_names =
        sort (filter (\<lambda>name. \<not> gguf_contains_tensor inspection name) (required_tensor_names plan)),
      missing_required_prefixes =
        sort (filter (\<lambda>prefix. \<not> gguf_contains_tensor_with_prefix inspection prefix) (required_tensor_prefixes plan))\<rparr>"

definition assign_tensors_to_partitions ::
    "gguf_inspection \<Rightarrow> tensor_name_plan list \<Rightarrow> partition_tensor_assignment list" where
  "assign_tensors_to_partitions inspection plans = map (assign_tensors_to_partition inspection) plans"

section \<open>Names and layers\<close>

text \<open>Layer prefixes never overlap: the dot ends the decimal number.\<close>

lemma dot_not_in_show_int: "CHR ''.'' \<notin> set (show_int i)"
  using show_int_chars [of "CHR ''.''" i] by (auto simp: is_digit_def)

lemma split_at_dot:
  assumes "CHR ''.'' \<notin> set xs" "CHR ''.'' \<notin> set ys" "xs @ CHR ''.'' # s = ys @ CHR ''.'' # t"
  shows "xs = ys \<and> s = t"
proof -
  have "takeWhile (\<lambda>c. c \<noteq> CHR ''.'') (zs @ CHR ''.'' # u) = zs" if "CHR ''.'' \<notin> set zs" for zs u :: string
    using that by (induction zs) auto
  then have "xs = ys" using assms by metis
  with assms(3) show ?thesis by simp
qed

lemma layer_tensor_prefix_inj:
  assumes "layer_tensor_prefix l @ s = layer_tensor_prefix m @ t"
  shows "l = m \<and> s = t"
  using assms split_at_dot [OF dot_not_in_show_int [of l] dot_not_in_show_int [of m], of s t]
  by (auto simp: layer_tensor_prefix_def)

lemma layer_name_starts [simp]:
  "starts_with (layer_tensor_prefix l @ suffix) (layer_tensor_prefix m) \<longleftrightarrow> l = m"
  by (auto simp: starts_with_def is_prefix_iff dest: layer_tensor_prefix_inj [of l suffix m])

lemma global_name_not_layer:
  assumes "name \<in> {''token_embd.weight'', ''output_norm.weight'', ''output.weight''}"
  shows "\<not> starts_with name (layer_tensor_prefix l)"
  using assms by (auto simp: starts_with_def is_prefix_iff layer_tensor_prefix_def)

lemma fold_layer_prefixes:
  "fold add_layer_tensor_prefixes ls plan =
     plan\<lparr>required_tensor_prefixes := required_tensor_prefixes plan @ map layer_tensor_prefix ls\<rparr>"
  by (induction ls arbitrary: plan) (simp_all add: add_layer_tensor_prefixes_def)

lemma plan_fields:
  "required_tensor_prefixes (build_llama_tensor_name_plan pid c) = map layer_tensor_prefix (layers c)"
  "set (required_tensor_names (build_llama_tensor_name_plan pid c)) =
     (if embedding c then {''token_embd.weight''} else {}) \<union>
     (if norm c then {''output_norm.weight''} else {}) \<union> (if lm_head c then {''output.weight''} else {})"
  "plan_partition_id (build_llama_tensor_name_plan pid c) = pid"
  by (auto simp: build_llama_tensor_name_plan_def add_required_name_def fold_layer_prefixes)

lemma matches_plan_layer:
  "tensor_matches_plan (layer_tensor_prefix l @ suffix) (build_llama_tensor_name_plan pid c) \<longleftrightarrow> l \<in> set (layers c)"
proof -
  have "layer_tensor_prefix l @ suffix \<notin> {''token_embd.weight'', ''output_norm.weight'', ''output.weight''}"
    by (auto simp: layer_tensor_prefix_def)
  then have "layer_tensor_prefix l @ suffix \<notin> set (required_tensor_names (build_llama_tensor_name_plan pid c))"
    by (auto simp: plan_fields(2) split: if_splits)
  then show ?thesis
    by (auto simp: tensor_matches_plan_def list_ex_iff plan_fields(1))
qed

lemma matches_plan_global:
  "tensor_matches_plan ''token_embd.weight'' (build_llama_tensor_name_plan pid c) \<longleftrightarrow> embedding c"
  "tensor_matches_plan ''output_norm.weight'' (build_llama_tensor_name_plan pid c) \<longleftrightarrow> norm c"
  "tensor_matches_plan ''output.weight'' (build_llama_tensor_name_plan pid c) \<longleftrightarrow> lm_head c"
  by (auto simp: tensor_matches_plan_def list_ex_iff plan_fields global_name_not_layer split: if_splits)

end
