(* ===== verification/Partition_Graph.thy ===== *)
theory Partition_Graph
  imports Partition_Plan "HOL-Library.Multiset"
begin

text \<open>
  The partition graph of the gateway's configuration (\<open>config.hpp\<close>) and its validator
  \<open>validate_partition_graph\<close>. What the validator accepts is a partition of the model: every layer
  belongs to exactly one stage, and exactly one stage embeds, exactly one samples, exactly one has
  no successor.
\<close>

record partition_node =
  stage_id :: int
  partition_id :: string
  service_name :: string
  physical_node :: string
  partition_file :: string
  native_partition_file :: string
  backend :: string
  next_stage_url :: string
  components :: partition_components

record partition_graph_validation =
  valid :: bool
  validation_error :: string
  assigned_layer_count :: int
  embedding_owner_count :: int
  lm_head_owner_count :: int
  terminal_partition_id :: string

definition empty_components :: partition_components where
  "empty_components = \<lparr>embedding = False, layers = [], norm = False, lm_head = False\<rparr>"

definition empty_partition_node :: partition_node where
  "empty_partition_node = \<lparr>stage_id = 0, partition_id = [], service_name = [], physical_node = [],
     partition_file = [], native_partition_file = [], backend = [], next_stage_url = [],
     components = empty_components\<rparr>"

definition empty_validation :: partition_graph_validation where
  "empty_validation = \<lparr>valid = False, validation_error = [], assigned_layer_count = 0,
     embedding_owner_count = 0, lm_head_owner_count = 0, terminal_partition_id = []\<rparr>"

definition make_invalid_validation :: "string \<Rightarrow> partition_graph_validation" where
  "make_invalid_validation error = empty_validation\<lparr>valid := False, validation_error := error\<rparr>"

fun join_ints :: "int list \<Rightarrow> string" where
  "join_ints [] = []"
| "join_ints [v] = show_int v"
| "join_ints (v # w # vs) = show_int v @ '','' @ join_ints (w # vs)"

section \<open>The validator\<close>

text \<open>The loop over the partitions: counters, the last terminal partition and the layers seen.\<close>

record graph_scan =
  scan_layers :: "int list"
  scan_embedding :: int
  scan_lm_head :: int
  scan_terminals :: int
  scan_terminal_id :: string

definition scan_layer :: "int \<Rightarrow> string \<Rightarrow> int \<Rightarrow> int list \<Rightarrow> int list result" where
  "scan_layer num_layers pid layer assigned =
     (if layer < 0 then Inl (''partition '' @ pid @ '' contains negative layer id'')
      else if num_layers > 0 \<and> layer \<ge> num_layers
      then Inl (''partition '' @ pid @ '' contains layer id outside num_layers: '' @ show_int layer)
      else Inr (assigned @ [layer]))"

definition scan_partition :: "int \<Rightarrow> partition_node \<Rightarrow> graph_scan \<Rightarrow> graph_scan result" where
  "scan_partition num_layers p sc =
     (if partition_id p = [] then Inl ''partition with empty partition_id found''
      else if service_name p = [] then Inl (''partition '' @ partition_id p @ '' has empty service_name'')
      else let sc = (if embedding (components p) then sc\<lparr>scan_embedding := scan_embedding sc + 1\<rparr> else sc);
               sc = (if lm_head (components p) then sc\<lparr>scan_lm_head := scan_lm_head sc + 1\<rparr> else sc);
               terminal = (next_stage_url p = []);
               sc = (if terminal then sc\<lparr>scan_terminals := scan_terminals sc + 1,
                                        scan_terminal_id := partition_id p\<rparr> else sc)
           in if terminal \<and> \<not> lm_head (components p)
              then Inl (''terminal partition '' @ partition_id p @ '' does not own lm_head'')
              else bindR (foldR (scan_layer num_layers (partition_id p)) (layers (components p)) (scan_layers sc))
                     (\<lambda>assigned. Inr (sc\<lparr>scan_layers := assigned\<rparr>)))"

text \<open>Adjacent equal values of the sorted layers, each once.\<close>

definition find_duplicates :: "int list \<Rightarrow> int list" where
  "find_duplicates xs =
     fold (\<lambda>i duplicates.
         if xs ! i = xs ! (i - 1) then
           if duplicates = [] \<or> last duplicates \<noteq> xs ! i then duplicates @ [xs ! i] else duplicates
         else duplicates)
       [1..<length xs] []"

text \<open>The cursor loop over \<open>0 .. num_layers - 1\<close>.\<close>

definition find_missing :: "int \<Rightarrow> int list \<Rightarrow> int list" where
  "find_missing num_layers xs =
     fst (fold (\<lambda>layer (missing, cursor).
         if cursor < length xs \<and> xs ! cursor = int layer then (missing, cursor + 1)
         else (missing @ [int layer], cursor))
       [0..<nat num_layers] ([], 0 :: nat))"

definition validate_partition_graph :: "partition_node list \<Rightarrow> int \<Rightarrow> partition_graph_validation" where
  "validate_partition_graph partitions num_layers =
     (if partitions = [] then make_invalid_validation ''partition graph is empty''
      else case foldR (scan_partition num_layers) partitions
             \<lparr>scan_layers = [], scan_embedding = 0, scan_lm_head = 0, scan_terminals = 0, scan_terminal_id = []\<rparr> of
        Inl error \<Rightarrow> make_invalid_validation error
      | Inr sc \<Rightarrow>
          if scan_embedding sc \<noteq> 1
          then make_invalid_validation (''expected exactly one embedding owner, got '' @ show_int (scan_embedding sc))
          else if scan_lm_head sc \<noteq> 1
          then make_invalid_validation (''expected exactly one lm_head owner, got '' @ show_int (scan_lm_head sc))
          else if scan_terminals sc \<noteq> 1
          then make_invalid_validation (''expected exactly one terminal partition, got '' @ show_int (scan_terminals sc))
          else let assigned = sort (scan_layers sc);
                   duplicates = find_duplicates assigned;
                   missing = (if num_layers > 0 then find_missing num_layers assigned else [])
               in if duplicates \<noteq> []
                  then make_invalid_validation (''duplicate layer assignments: '' @ join_ints duplicates)
                  else if missing \<noteq> []
                  then make_invalid_validation (''missing layer assignments: '' @ join_ints missing)
                  else \<lparr>valid = True, validation_error = [], assigned_layer_count = int (length assigned),
                        embedding_owner_count = scan_embedding sc, lm_head_owner_count = scan_lm_head sc,
                        terminal_partition_id = scan_terminal_id sc\<rparr>)"

section \<open>What the scan collects\<close>

definition layer_allowed :: "int \<Rightarrow> int \<Rightarrow> bool" where
  "layer_allowed num_layers layer \<longleftrightarrow> 0 \<le> layer \<and> (num_layers > 0 \<longrightarrow> layer < num_layers)"

definition node_allowed :: "int \<Rightarrow> partition_node \<Rightarrow> bool" where
  "node_allowed num_layers p \<longleftrightarrow> partition_id p \<noteq> [] \<and> service_name p \<noteq> [] \<and>
     (next_stage_url p = [] \<longrightarrow> lm_head (components p)) \<and>
     (\<forall>l \<in> set (layers (components p)). layer_allowed num_layers l)"

definition all_layers :: "partition_node list \<Rightarrow> int list" where
  "all_layers ps = concat (map (\<lambda>p. layers (components p)) ps)"

definition owners :: "(partition_node \<Rightarrow> bool) \<Rightarrow> partition_node list \<Rightarrow> partition_node list" where
  "owners P ps = filter P ps"

lemma scan_layers_loop:
  "foldR (scan_layer n pid) ls acc =
     (if \<forall>l \<in> set ls. layer_allowed n l then Inr (acc @ ls) else foldR (scan_layer n pid) ls acc)"
  by (induction ls arbitrary: acc) (auto simp: scan_layer_def layer_allowed_def)

lemma scan_layers_Inr:
  "foldR (scan_layer n pid) ls acc = Inr r \<longleftrightarrow> (\<forall>l \<in> set ls. layer_allowed n l) \<and> r = acc @ ls"
  by (induction ls arbitrary: acc) (auto simp: scan_layer_def layer_allowed_def)

lemma scan_partition_Inr:
  "scan_partition n p sc = Inr sc' \<longleftrightarrow> node_allowed n p \<and>
     sc' = sc\<lparr>scan_layers := scan_layers sc @ layers (components p),
       scan_embedding := scan_embedding sc + (if embedding (components p) then 1 else 0),
       scan_lm_head := scan_lm_head sc + (if lm_head (components p) then 1 else 0),
       scan_terminals := scan_terminals sc + (if next_stage_url p = [] then 1 else 0),
       scan_terminal_id := (if next_stage_url p = [] then partition_id p else scan_terminal_id sc)\<rparr>"
  by (auto simp: scan_partition_def node_allowed_def Let_def result_simps scan_layers_Inr)

lemma scan_partitions_Inr:
  "foldR (scan_partition n) ps sc = Inr sc' \<longleftrightarrow> (\<forall>p \<in> set ps. node_allowed n p) \<and>
     sc' = sc\<lparr>scan_layers := scan_layers sc @ all_layers ps,
       scan_embedding := scan_embedding sc + int (length (owners (\<lambda>p. embedding (components p)) ps)),
       scan_lm_head := scan_lm_head sc + int (length (owners (\<lambda>p. lm_head (components p)) ps)),
       scan_terminals := scan_terminals sc + int (length (owners (\<lambda>p. next_stage_url p = []) ps)),
       scan_terminal_id := last (scan_terminal_id sc # map partition_id (owners (\<lambda>p. next_stage_url p = []) ps))\<rparr>"
  by (induction ps arbitrary: sc) (auto simp: result_simps scan_partition_Inr owners_def all_layers_def)

section \<open>Duplicates and gaps\<close>

lemma find_duplicates_empty: "find_duplicates xs = [] \<longleftrightarrow> (\<forall>i. 0 < i \<and> i < length xs \<longrightarrow> xs ! i \<noteq> xs ! (i - 1))"
proof -
  let ?f = "\<lambda>i duplicates. if xs ! i = xs ! (i - 1) then
      if duplicates = [] \<or> last duplicates \<noteq> xs ! i then duplicates @ [xs ! i] else duplicates else duplicates"
  have keep: "fold ?f is d \<noteq> []" if "d \<noteq> []" for "is" d using that by (induction "is" arbitrary: d) auto
  have "fold ?f is [] = [] \<longleftrightarrow> (\<forall>i \<in> set is. xs ! i \<noteq> xs ! (i - 1))" for "is"
  proof (induction "is")
    case (Cons a "is")
    show ?case using Cons keep [of "[xs ! a]" "is"] by (cases "xs ! a = xs ! (a - 1)") simp_all
  qed simp
  from this [of "[1..<length xs]"] show ?thesis by (auto simp: find_duplicates_def Suc_le_eq)
qed

lemma no_duplicates: "sorted xs \<Longrightarrow> find_duplicates xs = [] \<longleftrightarrow> distinct xs"
proof
  assume s: "sorted xs" and "find_duplicates xs = []"
  then have adj: "xs ! i \<noteq> xs ! (i - 1)" if "0 < i" "i < length xs" for i
    using that by (simp add: find_duplicates_empty)
  have "xs ! i < xs ! j" if "i < j" "j < length xs" for i j
  proof -
    have "xs ! i \<le> xs ! (j - 1)" "xs ! (j - 1) \<le> xs ! j" using s that by (auto intro: sorted_nth_mono)
    moreover have "xs ! (j - 1) \<noteq> xs ! j" using adj [of j] that by auto
    ultimately show ?thesis by simp
  qed
  then show "distinct xs" by (metis distinct_conv_nth less_irrefl linorder_neqE_nat)
next
  assume "distinct xs"
  then show "find_duplicates xs = []"
    by (auto simp: find_duplicates_empty nth_eq_iff_index_eq)
qed

lemma missing_prefix:
  "fold (\<lambda>layer (missing, cursor).
         if cursor < length xs \<and> xs ! cursor = int layer then (missing, cursor + 1)
         else (missing @ [int layer], cursor)) [0..<n] ([], 0) = ([], c) \<Longrightarrow>
     c = n \<and> n \<le> length xs \<and> (\<forall>i < n. xs ! i = int i)"
proof (induction n arbitrary: c)
  case (Suc n)
  let ?f = "\<lambda>layer (missing, cursor).
         if cursor < length xs \<and> xs ! cursor = int layer then (missing, cursor + 1)
         else (missing @ [int layer], cursor)"
  obtain m d where md: "fold ?f [0..<n] ([], 0) = (m, d)" by (rule prod.exhaust)
  with Suc.prems have "m = []" "d < length xs" "xs ! d = int n" "c = d + 1" by (auto split: if_splits)
  with Suc.IH [of d] md show ?case by (auto simp: less_Suc_eq)
qed simp

lemma missing_complete:
  "n \<le> length xs \<Longrightarrow> \<forall>i < n. xs ! i = int i \<Longrightarrow>
     fold (\<lambda>layer (missing, cursor).
         if cursor < length xs \<and> xs ! cursor = int layer then (missing, cursor + 1)
         else (missing @ [int layer], cursor)) [0..<n] ([], 0) = ([], n)"
  by (induction n) simp_all

lemma find_missing_empty:
  "find_missing n xs = [] \<longleftrightarrow> nat n \<le> length xs \<and> (\<forall>i < nat n. xs ! i = int i)"
proof -
  obtain m c where mc: "fold (\<lambda>layer (missing, cursor).
         if cursor < length xs \<and> xs ! cursor = int layer then (missing, cursor + 1)
         else (missing @ [int layer], cursor)) [0..<nat n] ([], 0) = (m, c)" by (rule prod.exhaust)
  then have f: "find_missing n xs = m" by (simp add: find_missing_def)
  show ?thesis
  proof
    assume "find_missing n xs = []"
    with missing_prefix [of xs "nat n" c] mc f show "nat n \<le> length xs \<and> (\<forall>i < nat n. xs ! i = int i)" by simp
  next
    assume "nat n \<le> length xs \<and> (\<forall>i < nat n. xs ! i = int i)"
    with missing_complete [of "nat n" xs] mc f show "find_missing n xs = []" by simp
  qed
qed

text \<open>Sorted, distinct, within range and without gaps: exactly the layers of the model.\<close>

lemma exact_layers:
  assumes "\<forall>l \<in> set xs. layer_allowed n l" "n > 0"
  shows "find_duplicates (sort xs) = [] \<and> find_missing n (sort xs) = [] \<longleftrightarrow> mset xs = mset (map int [0..<nat n])"
proof
  assume l: "find_duplicates (sort xs) = [] \<and> find_missing n (sort xs) = []"
  then have d: "distinct (sort xs)" and m: "nat n \<le> length (sort xs)" "\<forall>i < nat n. sort xs ! i = int i"
    by (simp_all add: no_duplicates find_missing_empty)
  have "length (sort xs) \<le> nat n"
  proof (rule ccontr)
    assume "\<not> length (sort xs) \<le> nat n"
    then have k: "nat n < length (sort xs)" by simp
    then have "sort xs ! nat n \<in> set xs" by (metis nth_mem set_sort)
    then have "0 \<le> sort xs ! nat n" "sort xs ! nat n < n" using assms by (auto simp: layer_allowed_def)
    then have "sort xs ! nat n = sort xs ! nat (sort xs ! nat n)" "nat (sort xs ! nat n) < nat n"
      using m(2) by auto
    with d k show False by (metis less_irrefl less_trans nth_eq_iff_index_eq)
  qed
  then have "sort xs = map int [0..<nat n]" using m by (intro nth_equalityI) auto
  then show "mset xs = mset (map int [0..<nat n])" by (metis mset_sort)
next
  assume "mset xs = mset (map int [0..<nat n])"
  then have "sort xs = sort (map int [0..<nat n])" by (metis properties_for_sort mset_sort sorted_sort)
  also have "\<dots> = map int [0..<nat n]"
    by (intro sorted_sort_id) (simp add: sorted_iff_nth_mono)
  finally show "find_duplicates (sort xs) = [] \<and> find_missing n (sort xs) = []"
    by (simp add: no_duplicates [of "map int [0..<nat n]"] find_missing_empty sorted_iff_nth_mono distinct_map)
qed


section \<open>Ownership\<close>

lemma validate_valid_iff:
  "valid (validate_partition_graph ps n) \<longleftrightarrow>
     ps \<noteq> [] \<and> (\<forall>p \<in> set ps. node_allowed n p) \<and>
     length (owners (\<lambda>p. embedding (components p)) ps) = 1 \<and>
     length (owners (\<lambda>p. lm_head (components p)) ps) = 1 \<and>
     length (owners (\<lambda>p. next_stage_url p = []) ps) = 1 \<and>
     find_duplicates (sort (all_layers ps)) = [] \<and>
     (n > 0 \<longrightarrow> find_missing n (sort (all_layers ps)) = [])"
proof -
  let ?start = "\<lparr>scan_layers = [], scan_embedding = 0, scan_lm_head = 0, scan_terminals = 0, scan_terminal_id = []\<rparr>"
  have inv: "\<not> valid (make_invalid_validation e)" for e by (simp add: make_invalid_validation_def)
  show ?thesis
  proof (cases "foldR (scan_partition n) ps ?start")
    case (Inl e)
    then have "\<not> (\<forall>p \<in> set ps. node_allowed n p)" using scan_partitions_Inr [of n ps ?start] by fastforce
    with Inl inv show ?thesis by (auto simp: validate_partition_graph_def)
  next
    case (Inr sc)
    from Inr [unfolded scan_partitions_Inr] show ?thesis
      using inv by (auto simp: validate_partition_graph_def Inr Let_def)
  qed
qed

lemma all_layers_allowed:
  "\<forall>p \<in> set ps. node_allowed n p \<Longrightarrow> \<forall>l \<in> set (all_layers ps). layer_allowed n l"
  by (auto simp: all_layers_def node_allowed_def)

lemma owner_unique:
  assumes "length (filter P ps) = 1"
  shows "\<exists>!i. i < length ps \<and> P (ps ! i)"
proof -
  have "card {i. i < length ps \<and> P (ps ! i)} = 1" using assms by (simp add: length_filter_conv_card)
  then obtain i where "{i. i < length ps \<and> P (ps ! i)} = {i}" by (auto simp: card_1_singleton_iff)
  then show ?thesis by (intro ex1I [of _ i]) auto
qed

lemma layer_owner_unique:
  assumes "mset (all_layers ps) = mset (map int [0..<nat n])" "0 \<le> l" "l < n"
  shows "\<exists>!i. i < length ps \<and> l \<in> set (layers (components (ps ! i)))"
proof -
  have c: "count (mset (all_layers ps)) l = 1"
  proof -
    have "l \<in> set (map int [0..<nat n])" using assms(2,3) by (auto simp: image_iff intro!: bexI [of _ "nat l"])
    moreover have "distinct (map int [0..<nat n])" by (simp add: distinct_map)
    ultimately show ?thesis unfolding assms(1) by (metis distinct_count_atmost_1)
  qed
  have sum: "count (mset (all_layers ps)) l = sum_list (map (\<lambda>p. count (mset (layers (components p))) l) ps)"
    by (induction ps) (simp_all add: all_layers_def)
  have ex: "\<exists>i < length ps. l \<in> set (layers (components (ps ! i)))"
  proof (rule ccontr)
    assume "\<not> ?thesis"
    then have "\<forall>p \<in> set ps. l \<notin> set (layers (components p))"
      by (metis in_set_conv_nth)
    then have "\<forall>p \<in> set ps. count (mset (layers (components p))) l = 0"
      by (simp add: count_eq_zero_iff)
    then have "sum_list (map (\<lambda>p. count (mset (layers (components p))) l) ps) = 0" by simp
    with c sum show False by simp
  qed
  have uni: "i = j" if ij: "i < length ps" "j < length ps" "l \<in> set (layers (components (ps ! i)))" "l \<in> set (layers (components (ps ! j)))" for i j
  proof (rule ccontr)
    assume "i \<noteq> j"
    let ?c = "map (\<lambda>p. count (mset (layers (components p))) l) ps"
    have "?c ! i + ?c ! j = (\<Sum>k \<in> {i, j}. ?c ! k)" using \<open>i \<noteq> j\<close> by simp
    also have "\<dots> \<le> (\<Sum>k < length ps. ?c ! k)" using ij by (intro sum_mono2) auto
    also have "\<dots> = sum_list ?c" by (simp add: sum_list_sum_nth atLeast0LessThan)
    finally have "?c ! i + ?c ! j \<le> 1" using c sum by simp
    moreover have "1 \<le> ?c ! i" "1 \<le> ?c ! j" using ij by (simp_all add: Suc_le_eq)
    ultimately show False by linarith
  qed
  from ex uni show ?thesis by blast
qed

section \<open>Properties\<close>

text \<open>C37. The graph validator accepts exactly the partitions of the model: for a declared number of
  layers the graph is valid iff it is non-empty, every entry is well formed, exactly one stage owns
  the embedding, one the lm_head, one has no successor, and the layers of all stages together are
  a rearrangement of \<open>0 .. num_layers - 1\<close>.\<close>

theorem validate_partition_graph_exact:
  assumes "num_layers > 0"
  shows "valid (validate_partition_graph ps num_layers) \<longleftrightarrow>
     ps \<noteq> [] \<and> (\<forall>p \<in> set ps. node_allowed num_layers p) \<and>
     length (owners (\<lambda>p. embedding (components p)) ps) = 1 \<and>
     length (owners (\<lambda>p. lm_head (components p)) ps) = 1 \<and>
     length (owners (\<lambda>p. next_stage_url p = []) ps) = 1 \<and>
     mset (all_layers ps) = mset (map int [0..<nat num_layers])"
  using exact_layers [OF all_layers_allowed assms, of ps] assms unfolding validate_valid_iff by blast

definition sample_node :: "string \<Rightarrow> int list \<Rightarrow> bool \<Rightarrow> bool \<Rightarrow> string \<Rightarrow> partition_node" where
  "sample_node pid ls is_first is_last url = empty_partition_node\<lparr>partition_id := pid, service_name := ''stage'',
     next_stage_url := url, components := \<lparr>embedding = is_first, layers = ls, norm = is_last, lm_head = is_last\<rparr>\<rparr>"

definition sample_graph :: "partition_node list" where
  "sample_graph = [sample_node ''p1'' [0, 2] True False ''http://p2:9001'', sample_node ''p2'' [1] False True []]"

lemma sample_graph_nodes: "\<forall>p \<in> set sample_graph. node_allowed 3 p"
  by (simp add: sample_graph_def sample_node_def empty_partition_node_def node_allowed_def layer_allowed_def)

theorem validate_partition_graph_exact_witness:
  "valid (validate_partition_graph sample_graph 3)"
proof -
  have "mset (all_layers sample_graph) = mset (map int [0..<nat 3])"
    by (simp add: sample_graph_def sample_node_def all_layers_def numeral_3_eq_3)
  then show ?thesis
    using validate_partition_graph_exact [of 3 sample_graph] sample_graph_nodes
    by (simp add: sample_graph_def sample_node_def owners_def empty_partition_node_def)
qed

text \<open>C38. A valid graph gives every layer tensor of the model to exactly one shard, whatever its name
  after the layer prefix (layer 1 does not capture the tensors of layer 11), and the embedding and
  output matrices to exactly one shard each.\<close>

theorem valid_graph_assigns_each_tensor_once:
  assumes "num_layers > 0" "valid (validate_partition_graph ps num_layers)"
  shows "(0 \<le> l \<and> l < num_layers \<longrightarrow> (\<exists>!i. i < length ps \<and>
       tensor_matches_plan (layer_tensor_prefix l @ suffix)
         (build_llama_tensor_name_plan (partition_id (ps ! i)) (components (ps ! i))))) \<and>
     (\<exists>!i. i < length ps \<and> tensor_matches_plan ''token_embd.weight''
         (build_llama_tensor_name_plan (partition_id (ps ! i)) (components (ps ! i)))) \<and>
     (\<exists>!i. i < length ps \<and> tensor_matches_plan ''output.weight''
         (build_llama_tensor_name_plan (partition_id (ps ! i)) (components (ps ! i))))"
proof -
  from assms(2) [unfolded validate_valid_iff]
  have v: "\<forall>p \<in> set ps. node_allowed num_layers p" "length (filter (\<lambda>p. embedding (components p)) ps) = 1"
    "length (filter (\<lambda>p. lm_head (components p)) ps) = 1"
    and m: "find_duplicates (sort (all_layers ps)) = []" "find_missing num_layers (sort (all_layers ps)) = []"
    using assms(1) by (auto simp: owners_def)
  have "mset (all_layers ps) = mset (map int [0..<nat num_layers])"
    using exact_layers [OF all_layers_allowed [OF v(1)] assms(1)] m by blast
  then show ?thesis
    using layer_owner_unique owner_unique [OF v(2)] owner_unique [OF v(3)]
    by (simp add: matches_plan_layer matches_plan_global)
qed

theorem valid_graph_assigns_each_tensor_once_witness:
  "\<exists>!i. i < 2 \<and> tensor_matches_plan (layer_tensor_prefix 1 @ ''attn_q.weight'')
     (build_llama_tensor_name_plan (partition_id (sample_graph ! i)) (components (sample_graph ! i)))"
proof -
  have "mset (all_layers sample_graph) = mset (map int [0..<nat 3])"
    by (simp add: sample_graph_def sample_node_def all_layers_def numeral_3_eq_3)
  then have "valid (validate_partition_graph sample_graph 3)"
    using exact_layers [OF all_layers_allowed [OF sample_graph_nodes]] sample_graph_nodes unfolding validate_valid_iff
    by (simp add: sample_graph_def sample_node_def owners_def empty_partition_node_def)
  from valid_graph_assigns_each_tensor_once [OF _ this, of 1 "''attn_q.weight''"] show ?thesis
    by (simp add: sample_graph_def numeral_2_eq_2)
qed

text \<open>The validator does not ask who owns the output norm: a graph in which no stage holds
  \<open>output_norm.weight\<close> is accepted, although the terminal stage refuses to run without it.\<close>

theorem graph_without_norm_accepted:
  "valid (validate_partition_graph
     [(sample_node ''p1'' [0] True True [])\<lparr>components := \<lparr>embedding = True, layers = [0], norm = False, lm_head = True\<rparr>\<rparr>] 1) \<and>
   \<not> tensor_matches_plan ''output_norm.weight''
       (build_llama_tensor_name_plan ''p1'' \<lparr>embedding = True, layers = [0], norm = False, lm_head = True\<rparr>)"
  by (simp add: matches_plan_global validate_valid_iff node_allowed_def layer_allowed_def sample_node_def
      empty_partition_node_def owners_def all_layers_def find_duplicates_def find_missing_def)

end
