(* ===== verification/Pipeline.thy ===== *)
theory Pipeline
  imports Sampling Partition_Graph
begin

text \<open>
  The executors of a chain of stages, connected by float32 tensors as the gateway or the stages
  connect them, against one executor that holds the whole model. The stages run the three entry
  points of the executor; what travels between them is the serialised tensor.
\<close>

section \<open>One executor with all layers\<close>

definition monolithic_token ::
    "('w, 'g) platform \<Rightarrow> 'w tensor_context \<Rightarrow> hyperparams \<Rightarrow> 32 word \<Rightarrow> sampling_params \<Rightarrow> int list \<Rightarrow> nat \<Rightarrow>
     int list \<Rightarrow> ('g executor, int) action" where
  "monolithic_token pl ctx hp entropy sampling model_layers kv_seq_before tokens =
     bindA (modifyA (reseed pl entropy sampling kv_seq_before)) (\<lambda>_.
     bindA (liftA (embed_tokens pl ctx hp tokens)) (\<lambda>hidden.
     bindA (run_layers pl ctx hp model_layers hidden (length tokens) kv_seq_before) (\<lambda>hidden.
     terminal_head pl ctx hp hidden (length tokens) True True sampling)))"

section \<open>A chain of stages\<close>

record 'w stage_shard =
  shard_ctx :: "'w tensor_context"
  shard_layers :: "int list"

fun intermediate_stages ::
    "('w, 'g) platform \<Rightarrow> hyperparams \<Rightarrow> string \<Rightarrow> nat \<Rightarrow> 'w stage_shard list \<Rightarrow> tensor_buffer \<Rightarrow> 'g executor list \<Rightarrow>
     tensor_buffer result \<times> 'g executor list" where
  "intermediate_stages pl hp precision kv_seq_before (sh # shs) tensor (s # ss) =
     (case execute_intermediate pl (shard_ctx sh) hp tensor (shard_layers sh) kv_seq_before precision s of
        (Inl e, s') \<Rightarrow> (Inl e, s' # ss)
      | (Inr tensor', s') \<Rightarrow> (case intermediate_stages pl hp precision kv_seq_before shs tensor' ss of
          (r, ss') \<Rightarrow> (r, s' # ss')))"
| "intermediate_stages pl hp precision kv_seq_before _ tensor ss = (Inr tensor, ss)"

definition token_tensor :: "int list \<Rightarrow> tensor_buffer" where
  "token_tensor tokens = \<lparr>metadata = \<lparr>dtype = ''int64'', shape = [1, int (length tokens)], byte_order = ''little''\<rparr>,
     bytes = int64_tokens_to_bytes tokens\<rparr>"

text \<open>First shard, the shards in the middle, last shard, with the executor of each.\<close>

definition distributed_token ::
    "('w, 'g) platform \<Rightarrow> hyperparams \<Rightarrow> string \<Rightarrow> 32 word \<Rightarrow> sampling_params \<Rightarrow>
     'w stage_shard \<Rightarrow> 'w stage_shard list \<Rightarrow> 'w stage_shard \<Rightarrow> nat \<Rightarrow> int list \<Rightarrow>
     'g executor \<Rightarrow> 'g executor list \<Rightarrow> 'g executor \<Rightarrow> int result \<times> 'g executor \<times> 'g executor list \<times> 'g executor" where
  "distributed_token pl hp precision entropy sampling first middle final kv_seq_before tokens s ss t =
     (case execute_source pl (shard_ctx first) hp (token_tensor tokens) (shard_layers first) kv_seq_before precision s of
        (Inl e, s') \<Rightarrow> (Inl e, s', ss, t)
      | (Inr tensor, s') \<Rightarrow>
          (case intermediate_stages pl hp precision kv_seq_before middle tensor ss of
             (Inl e, ss') \<Rightarrow> (Inl e, s', ss', t)
           | (Inr tensor', ss') \<Rightarrow>
               (case execute_terminal pl (shard_ctx final) hp entropy tensor' (shard_layers final) kv_seq_before
                       True True sampling t of
                  (r, t') \<Rightarrow> (r, s', ss', t'))))"

section \<open>Tensors between stages carry the rows\<close>

definition rows_tensor :: "hyperparams \<Rightarrow> f32 list list \<Rightarrow> tensor_buffer" where
  "rows_tensor hp rows = \<lparr>metadata = \<lparr>dtype = dtype_hidden_f32, shape = [1, int (length rows), hidden_size hp],
      byte_order = byte_order_little\<rparr>, bytes = concat (map f32_block (concat rows))\<rparr>"

definition rows_fit :: "hyperparams \<Rightarrow> f32 list list \<Rightarrow> bool" where
  "rows_fit hp rows \<longleftrightarrow> rows \<noteq> [] \<and> is_rows hp rows \<and> int (length rows) < 2 ^ 31 \<and>
     int (length rows) * hidden_size hp < 2 ^ 61"

lemma hidden_size_nat: "check_hyperparams hp = Inr () \<Longrightarrow> hidden_size hp = int (hp_hidden hp) \<and> 0 < hidden_size hp"
  by (auto simp: check_hyperparams_def hp_hidden_def split: if_splits)

lemma write_rows:
  assumes "prec \<noteq> ''fp16''" "prec \<noteq> ''float16''"
  shows "float_hidden_to_tensor (hidden_size hp) (concat rows) 1 (int (length rows)) prec = Inr (rows_tensor hp rows)"
  using assms by (simp add: hidden_to_tensor_f32 rows_tensor_def)

lemma read_rows:
  assumes "check_hyperparams hp = Inr ()" "rows_fit hp rows"
  shows "tensor_to_hidden_f32 (hidden_size hp) (rows_tensor hp rows) = Inr (concat rows)"
proof -
  have h: "hidden_size hp = int (hp_hidden hp)" "0 < hidden_size hp" using hidden_size_nat [OF assms(1)] by auto
  have "int (length (concat rows)) = int (length rows) * hidden_size hp"
  proof -
    have "is_rows hp rows" using assms(2) by (simp add: rows_fit_def)
    from length_concat_rows [OF this] h show ?thesis by simp
  qed
  from hidden_f32_codec [OF _ h(2) _ this, of "''fp32''"] assms(2) show ?thesis
    using write_rows [of "''fp32''" hp rows] by (simp add: rows_fit_def)
qed

lemma rows_tensor_seq: "rows_fit hp rows \<Longrightarrow> i32_wrap (shape (metadata (rows_tensor hp rows)) ! 1) = int (length rows)"
  by (simp add: rows_tensor_def rows_fit_def i32_wrap_id)

text \<open>An intermediate stage is the layer loop on the rows its tensor carries.\<close>

abbreviation layer_rows where
  "layer_rows pl ctx hp before \<equiv> (\<lambda>l. rowsA (layer_step pl ctx hp l) before)"

lemma run_layers_on_rows:
  assumes "rows_fit hp rows"
  shows "run_layers pl ctx hp ls (concat rows) (length rows) before s =
     bindA (foldA (layer_rows pl ctx hp before) ls rows) (\<lambda>rs. retA (concat rs)) s"
  using assms by (intro run_layers_rows) (auto simp: rows_fit_def)

lemma fold_rows_fit:
  assumes "rows_fit hp rows" "foldA (layer_rows pl ctx hp before) ls rows s = (Inr rs, s')"
  shows "rows_fit hp rs \<and> length rs = length rows"
  using run_layers_rows_ok [OF _ assms(2)] assms(1) by (auto simp: rows_fit_def)

lemma layers_then_tensor:
  assumes "rows_fit hp rows" "prec \<noteq> ''fp16''" "prec \<noteq> ''float16''"
  shows "bindA (run_layers pl ctx hp ls (concat rows) (length rows) before) (\<lambda>hidden.
       liftA (float_hidden_to_tensor (hidden_size hp) hidden 1 (int (length rows)) prec)) s =
     (case foldA (layer_rows pl ctx hp before) ls rows s of
        (Inl e, s') \<Rightarrow> (Inl e, s') | (Inr rs, s') \<Rightarrow> (Inr (rows_tensor hp rs), s'))"
proof -
  obtain r s' where f: "foldA (layer_rows pl ctx hp before) ls rows s = (r, s')" by (rule prod.exhaust)
  show ?thesis
  proof (cases r)
    case (Inl e)
    then show ?thesis by (simp add: bindA_apply run_layers_on_rows [OF assms(1)] f)
  next
    case (Inr rs)
    from fold_rows_fit [OF assms(1)] f Inr have "length rs = length rows" by blast
    with write_rows [OF assms(2,3), of hp rs] Inr show ?thesis
      by (simp add: bindA_apply run_layers_on_rows [OF assms(1)] f)
  qed
qed

lemma intermediate_rows:
  assumes "check_hyperparams hp = Inr ()" "rows_fit hp rows" "prec \<noteq> ''fp16''" "prec \<noteq> ''float16''"
  shows "execute_intermediate pl ctx hp (rows_tensor hp rows) ls before prec s =
     (case foldA (layer_rows pl ctx hp before) ls rows s of
        (Inl e, s') \<Rightarrow> (Inl e, s') | (Inr rs, s') \<Rightarrow> (Inr (rows_tensor hp rs), s'))"
  using layers_then_tensor [OF assms(2-4)]
  by (simp add: execute_intermediate_def read_rows [OF assms(1,2)] rows_tensor_seq [OF assms(2), simplified] Let_def)

lemma source_rows:
  assumes "prec \<noteq> ''fp16''" "prec \<noteq> ''float16''" "tokens \<noteq> []" "int (length tokens) < 2 ^ 31"
    and "int (length tokens) * hidden_size hp < 2 ^ 61" "\<forall>t \<in> set tokens. - (2 ^ 63) \<le> t \<and> t < 2 ^ 63"
    and "embed_tokens pl ctx hp tokens = Inr hidden"
  shows "execute_source pl ctx hp (token_tensor tokens) ls before prec s =
     (case foldA (layer_rows pl ctx hp before) ls (rows_of (hp_hidden hp) (length tokens) hidden) s of
        (Inl e, s') \<Rightarrow> (Inl e, s') | (Inr rs, s') \<Rightarrow> (Inr (rows_tensor hp rs), s'))"
    and "rows_fit hp (rows_of (hp_hidden hp) (length tokens) hidden)"
proof -
  have len: "length hidden = length tokens * hp_hidden hp" using embed_tokens_length [OF assms(7)] by simp
  note r = rows_of [OF len]
  show fit: "rows_fit hp (rows_of (hp_hidden hp) (length tokens) hidden)"
    using r assms(3-5) by (auto simp: rows_fit_def)
  have "tensor_to_token_ids (token_tensor tokens) = Inr tokens"
    using token_ids_codec [of tokens] assms(3,4,6) by (simp add: token_tensor_def)
  with layers_then_tensor [OF fit assms(1,2), of pl ctx ls before s] r assms(7)
  show "execute_source pl ctx hp (token_tensor tokens) ls before prec s =
     (case foldA (layer_rows pl ctx hp before) ls (rows_of (hp_hidden hp) (length tokens) hidden) s of
        (Inl e, s') \<Rightarrow> (Inl e, s') | (Inr rs, s') \<Rightarrow> (Inr (rows_tensor hp rs), s'))"
    by (simp add: execute_source_def)
qed


section \<open>Stages as a chain of layer loops\<close>

lemma stagesA_append:
  "length Ls = length ss \<Longrightarrow> stagesA run (Ls @ Ls') x (ss @ ss') =
     (case stagesA run Ls x ss of
        (Inl e, ts) \<Rightarrow> (Inl e, ts @ ss')
      | (Inr y, ts) \<Rightarrow> (case stagesA run Ls' y ss' of (r, ts') \<Rightarrow> (r, ts @ ts')))"
proof (induction Ls arbitrary: ss x)
  case (Cons L Ls)
  then obtain s ts where ss: "ss = s # ts" by (cases ss) auto
  obtain r s' where r: "foldA run L x s = (r, s')" by (rule prod.exhaust)
  show ?case
  proof (cases r)
    case (Inr y)
    with Cons.IH [of ts y] Cons.prems show ?thesis
      by (simp add: ss r split: prod.splits sum.splits)
  qed (simp add: ss r)
qed (simp split: prod.splits)

lemma foldA_cong: "(\<And>l. l \<in> set ls \<Longrightarrow> f l = g l) \<Longrightarrow> foldA f ls x s = foldA g ls x s"
proof (induction ls arbitrary: x s)
  case (Cons l ls)
  obtain r s' where r: "g l x s = (r, s')" by (rule prod.exhaust)
  have "f l = g l" using Cons.prems by simp
  with r Cons show ?case by (cases r) (simp_all add: bindA_apply)
qed simp

definition shard_holds_layers :: "'w tensor_context \<Rightarrow> 'w stage_shard \<Rightarrow> bool" where
  "shard_holds_layers full sh \<longleftrightarrow>
     (\<forall>l \<in> set (shard_layers sh). \<forall>name \<in> layer_tensors l. shard_ctx sh name = full name)"

lemma shard_fold:
  "shard_holds_layers full sh \<Longrightarrow>
     foldA (layer_rows pl (shard_ctx sh) hp before) (shard_layers sh) rows s =
     foldA (layer_rows pl full hp before) (shard_layers sh) rows s"
  using layer_step_cong [of _ "shard_ctx sh" full pl hp]
  by (intro foldA_cong) (simp add: shard_holds_layers_def)

definition tensor_result :: "hyperparams \<Rightarrow> f32 list list result \<Rightarrow> tensor_buffer result" where
  "tensor_result hp r = bindR r (\<lambda>rows. Inr (rows_tensor hp rows))"

lemma stagesA_fit:
  assumes "rows_fit hp rows" "stagesA (layer_rows pl ctx hp before) Ls rows ss = (Inr rs, ss')"
  shows "rows_fit hp rs \<and> length rs = length rows"
  using assms
proof (induction Ls arbitrary: rows ss ss')
  case (Cons L Ls)
  show ?case
  proof (cases ss)
    case (Cons s ts)
    obtain r s' where r: "foldA (layer_rows pl ctx hp before) L rows s = (r, s')" by (rule prod.exhaust)
    with Cons.prems(2) Cons obtain us ts' where u: "r = Inr us"
      "stagesA (layer_rows pl ctx hp before) Ls us ts = (Inr rs, ts')"
      by (auto split: sum.splits prod.splits)
    have f: "rows_fit hp us \<and> length us = length rows" using fold_rows_fit [OF Cons.prems(1)] r u(1) by blast
    from Cons.IH [OF _ u(2)] f show ?thesis by simp
  qed (use Cons.prems in simp)
qed simp

lemma intermediate_chain:
  assumes "check_hyperparams hp = Inr ()" "prec \<noteq> ''fp16''" "prec \<noteq> ''float16''"
    and "\<forall>sh \<in> set shs. shard_holds_layers full sh" "rows_fit hp rows" "length shs = length ss"
  shows "intermediate_stages pl hp prec before shs (rows_tensor hp rows) ss =
     (case stagesA (layer_rows pl full hp before) (map shard_layers shs) rows ss of
        (r, ss') \<Rightarrow> (tensor_result hp r, ss'))"
  using assms(4-6)
proof (induction shs arbitrary: rows ss)
  case (Cons sh shs)
  then obtain s ts where ss: "ss = s # ts" by (cases ss) auto
  have sh: "shard_holds_layers full sh" using Cons.prems(1) by simp
  obtain r s' where r: "foldA (layer_rows pl full hp before) (shard_layers sh) rows s = (r, s')" by (rule prod.exhaust)
  show ?case
  proof (cases r)
    case (Inl e)
    then show ?thesis
      by (simp add: ss intermediate_rows [OF assms(1) Cons.prems(2) assms(2,3)] shard_fold [OF sh] r tensor_result_def)
  next
    case (Inr us)
    from fold_rows_fit [OF Cons.prems(2)] r Inr have "rows_fit hp us" by blast
    with Cons.IH [of us ts] Cons.prems show ?thesis
      by (simp add: ss intermediate_rows [OF assms(1) Cons.prems(2) assms(2,3)] shard_fold [OF sh] r Inr
          split: prod.splits)
  qed
qed (simp add: tensor_result_def)

lemma terminal_rows:
  assumes "check_hyperparams hp = Inr ()" "rows_fit hp rows"
  shows "execute_terminal pl ctx hp entropy (rows_tensor hp rows) ls before True True sampling t =
     (case foldA (layer_rows pl ctx hp before) ls rows (reseed pl entropy sampling before t) of
        (Inl e, t') \<Rightarrow> (Inl e, t')
      | (Inr rs, t') \<Rightarrow> terminal_head pl ctx hp (concat rs) (length rows) True True sampling t')"
proof -
  obtain r t' where r: "foldA (layer_rows pl ctx hp before) ls rows (reseed pl entropy sampling before t) = (r, t')"
    by (rule prod.exhaust)
  have n: "nat (i32_wrap (shape (metadata (rows_tensor hp rows)) ! Suc 0)) = length rows"
    using rows_tensor_seq [OF assms(2)] by simp
  show ?thesis
  proof (cases r)
    case (Inl e)
    then show ?thesis
      by (simp add: execute_terminal_def read_rows [OF assms] n Let_def)
        (simp add: bindA_apply run_layers_on_rows [OF assms(2)] r)
  next
    case (Inr rs)
    from fold_rows_fit [OF assms(2)] r Inr have "length rs = length rows" by blast
    with Inr show ?thesis
      by (simp add: execute_terminal_def read_rows [OF assms] n Let_def)
        (simp add: bindA_apply run_layers_on_rows [OF assms(2)] r)
  qed
qed

text \<open>The head reads the shard's norm and output matrix, and of the state only the random engine.\<close>

lemma terminal_head_cong:
  assumes "ctx ''output_norm.weight'' = ctx' ''output_norm.weight''" "ctx ''output.weight'' = ctx' ''output.weight''"
    and "rng s = rng t"
  shows "fst (terminal_head pl ctx hp hidden n True True sampling s) = fst (terminal_head pl ctx' hp hidden n True True sampling t) \<and>
     rng (snd (terminal_head pl ctx hp hidden n True True sampling s)) = rng (snd (terminal_head pl ctx' hp hidden n True True sampling t)) \<and>
     layer_cache (snd (terminal_head pl ctx hp hidden n True True sampling s)) = layer_cache s \<and>
     rope_inv_freq (snd (terminal_head pl ctx hp hidden n True True sampling s)) = rope_inv_freq s"
proof -
  have v: "tensor_vector_to_float pl ctx ''output_norm.weight'' k = tensor_vector_to_float pl ctx' ''output_norm.weight'' k" for k
    using assms(1) by (rule tensor_vector_to_float_cong)
  have m: "matvec pl ctx ''output.weight'' x = matvec pl ctx' ''output.weight'' x" for x
    using assms(2) by (rule matvec_cong)
  show ?thesis
    using assms(3)
    by (simp add: terminal_head_def sample_lm_head_def sample_from_logits_def Let_def v m split: sum.splits prod.splits)
qed


section \<open>The chain against the whole model\<close>

text \<open>The states agree when every stage holds, for its own layers, the cache the single executor has.\<close>

definition chain_matches ::
    "('w, 'g) platform \<Rightarrow> hyperparams \<Rightarrow> 'w stage_shard \<Rightarrow> 'w stage_shard list \<Rightarrow> 'w stage_shard \<Rightarrow>
     'g executor \<Rightarrow> 'g executor list \<Rightarrow> 'g executor \<Rightarrow> 'g executor \<Rightarrow> bool" where
  "chain_matches pl hp first middle final s ss t m \<longleftrightarrow>
     executor_ok pl hp m \<and> length ss = length middle \<and>
     (\<forall>i < length (s # ss @ [t]). executor_ok pl hp ((s # ss @ [t]) ! i) \<and>
        (\<forall>l \<in> set (shard_layers ((first # middle @ [final]) ! i)). kv_of ((s # ss @ [t]) ! i) l = kv_of m l))"

text \<open>The shards are cut from the full model: each has the tensors of its layers, the first the
  embedding, the last the output norm and the output matrix, and no layer is in two shards.\<close>

definition shards_of_model :: "'w tensor_context \<Rightarrow> 'w stage_shard \<Rightarrow> 'w stage_shard list \<Rightarrow> 'w stage_shard \<Rightarrow> bool" where
  "shards_of_model full first middle final \<longleftrightarrow>
     (\<forall>sh \<in> set (first # middle @ [final]). shard_holds_layers full sh) \<and>
     distinct (concat (map shard_layers (first # middle @ [final]))) \<and>
     shard_ctx first ''token_embd.weight'' = full ''token_embd.weight'' \<and>
     shard_ctx final ''output_norm.weight'' = full ''output_norm.weight'' \<and>
     shard_ctx final ''output.weight'' = full ''output.weight''"

lemma reseed_frame [simp]:
  "kv_of (reseed pl entropy sampling before s) = kv_of s"
  "executor_ok pl hp (reseed pl entropy sampling before s) = executor_ok pl hp s"
  by (auto simp: reseed_def kv_of_def executor_ok_def fun_eq_iff)

lemma reseed_rng: "rng s = rng t \<Longrightarrow> rng (reseed pl entropy sampling before s) = rng (reseed pl entropy sampling before t)"
  by (simp add: reseed_def)

lemma embed_tokens_cong:
  "ctx ''token_embd.weight'' = ctx' ''token_embd.weight'' \<Longrightarrow> embed_tokens pl ctx hp tokens = embed_tokens pl ctx' hp tokens"
  by (simp add: embed_tokens_def require_tensor_def)

lemma executor_same_caches:
  assumes "layer_cache s = layer_cache t" "rope_inv_freq s = rope_inv_freq t"
  shows "kv_of s = kv_of t" "executor_ok pl hp s = executor_ok pl hp t"
  using assms by (auto simp: kv_of_def executor_ok_def fun_eq_iff)

text \<open>The distributed run is the chain of layer loops followed by the head.\<close>

lemma distributed_chain:
  assumes hp: "check_hyperparams hp = Inr ()" and prec: "prec \<noteq> ''fp16''" "prec \<noteq> ''float16''"
    and shards: "shards_of_model full first middle final" and len: "length ss = length middle"
    and tokens: "tokens \<noteq> []" "int (length tokens) < 2 ^ 31" "int (length tokens) * hidden_size hp < 2 ^ 61"
      "\<forall>t \<in> set tokens. - (2 ^ 63) \<le> t \<and> t < 2 ^ 63"
    and emb: "embed_tokens pl full hp tokens = Inr hidden"
    and chain: "stagesA (layer_rows pl full hp before) (map shard_layers (first # middle @ [final]))
        (rows_of (hp_hidden hp) (length tokens) hidden) (s # ss @ [reseed pl entropy sampling before t]) = (r, sts)"
  shows "\<exists>s' ss' t'. sts = s' # ss' @ [t'] \<and> length ss' = length middle \<and>
     (case r of
        Inl e \<Rightarrow> \<exists>u. distributed_token pl hp prec entropy sampling first middle final before tokens s ss t
                    = (Inl e, s', ss', u) \<and> (u = t' \<or> u = t \<and> t' = reseed pl entropy sampling before t)
      | Inr rs \<Rightarrow> \<exists>tok u. terminal_head pl (shard_ctx final) hp (concat rs) (length tokens) True True sampling t' = (tok, u) \<and>
                    distributed_token pl hp prec entropy sampling first middle final before tokens s ss t = (tok, s', ss', u))"
proof -
  let ?run = "layer_rows pl full hp before" and ?rows = "rows_of (hp_hidden hp) (length tokens) hidden"
  let ?t = "reseed pl entropy sampling before t"
  have holds: "shard_holds_layers full first" "\<forall>sh \<in> set middle. shard_holds_layers full sh" "shard_holds_layers full final"
    and e: "embed_tokens pl (shard_ctx first) hp tokens = Inr hidden"
    using shards emb embed_tokens_cong [of "shard_ctx first" full pl hp tokens] by (auto simp: shards_of_model_def)
  note src1 = source_rows(1) [OF prec tokens(1-4) e, of "shard_layers first" before s]
    and src2 = source_rows(2) [OF prec tokens(1-4) e]
  have n: "length ?rows = length tokens"
    using rows_of(3) [of hidden "length tokens" hp] embed_tokens_length [OF e] by simp
  obtain r1 s' where f1: "foldA ?run (shard_layers first) ?rows s = (r1, s')" by (rule prod.exhaust)
  show ?thesis
  proof (cases r1)
    case (Inl x)
    with chain f1 have "r = Inl x" "sts = s' # ss @ [?t]" by auto
    then show ?thesis
      using len by (simp add: distributed_token_def src1 shard_fold [OF holds(1)] f1 Inl)
  next
    case (Inr rows1)
    have fit1: "rows_fit hp rows1 \<and> length rows1 = length tokens"
      using fold_rows_fit [OF src2] f1 Inr n by simp
    obtain r2 ss' where f2: "stagesA ?run (map shard_layers middle) rows1 ss = (r2, ss')" by (rule prod.exhaust)
    have mid: "intermediate_stages pl hp prec before middle (rows_tensor hp rows1) ss = (tensor_result hp r2, ss')"
      using intermediate_chain [OF hp prec holds(2) _ len [symmetric], of rows1] fit1 f2 by simp
    have len': "length ss' = length middle"
      using f2 len
    proof (induction middle arbitrary: rows1 ss r2 ss')
      case (Cons sh shs)
      then show ?case by (cases ss) (auto split: prod.splits sum.splits)
    qed simp
    have app: "stagesA ?run (map shard_layers middle @ [shard_layers final]) rows1 (ss @ [?t]) =
        (case r2 of Inl e \<Rightarrow> (Inl e, ss' @ [?t])
         | Inr y \<Rightarrow> (case stagesA ?run [shard_layers final] y [?t] of (r, ts') \<Rightarrow> (r, ss' @ ts')))"
      using stagesA_append [of "map shard_layers middle" ss ?run "[shard_layers final]" rows1 "[?t]"] len f2 by simp
    show ?thesis
    proof (cases r2)
      case Inl2: (Inl x)
      with chain f1 Inr app have "r = Inl x" "sts = s' # ss' @ [?t]" by auto
      then show ?thesis
        using len' by (simp add: distributed_token_def src1 shard_fold [OF holds(1)] f1 Inr mid Inl2 tensor_result_def)
    next
      case Inr2: (Inr rows2)
      have fit2: "rows_fit hp rows2 \<and> length rows2 = length tokens"
        using stagesA_fit [of hp rows1 pl full before] fit1 f2 Inr2 by auto
      obtain r3 t' where f3: "foldA ?run (shard_layers final) rows2 ?t = (r3, t')" by (rule prod.exhaust)
      have rs: "r = r3" "sts = s' # ss' @ [t']"
        using chain f1 Inr app Inr2 f3 by (auto split: sum.splits)
      have exec: "execute_terminal pl (shard_ctx final) hp entropy (rows_tensor hp rows2) (shard_layers final) before True True sampling t
          = (case r3 of Inl e \<Rightarrow> (Inl e, t') | Inr rs \<Rightarrow> terminal_head pl (shard_ctx final) hp (concat rs) (length tokens) True True sampling t')"
        using terminal_rows [OF hp, of rows2 pl "shard_ctx final" entropy "shard_layers final" before sampling t] fit2 f3
        by (cases r3) (simp_all add: shard_fold [OF holds(3)])
      obtain tok u where head: "\<And>y. r3 = Inr y \<Longrightarrow> terminal_head pl (shard_ctx final) hp (concat y) (length tokens) True True sampling t' = (tok, u)"
        by (cases r3) (simp_all, metis prod.exhaust)
      show ?thesis
        using rs len' exec head
        by (cases r3) (simp_all add: distributed_token_def src1 shard_fold [OF holds(1)] f1 Inr mid Inr2 tensor_result_def)
    qed
  qed
qed


lemma monolithic_rows:
  assumes "embed_tokens pl full hp tokens = Inr hidden" "rows_fit hp (rows_of (hp_hidden hp) (length tokens) hidden)"
  shows "monolithic_token pl full hp entropy sampling ls before tokens m =
     (case foldA (layer_rows pl full hp before) ls (rows_of (hp_hidden hp) (length tokens) hidden)
             (reseed pl entropy sampling before m) of
        (Inl e, m') \<Rightarrow> (Inl e, m')
      | (Inr rs, m') \<Rightarrow> terminal_head pl full hp (concat rs) (length tokens) True True sampling m')"
proof -
  have len: "length hidden = length tokens * hp_hidden hp" using embed_tokens_length [OF assms(1)] by simp
  note r = rows_of [OF len]
  obtain q m' where f: "foldA (layer_rows pl full hp before) ls (rows_of (hp_hidden hp) (length tokens) hidden)
      (reseed pl entropy sampling before m) = (q, m')" by (rule prod.exhaust)
  have "run_layers pl full hp ls hidden (length tokens) before (reseed pl entropy sampling before m) =
      bindA (foldA (layer_rows pl full hp before) ls (rows_of (hp_hidden hp) (length tokens) hidden))
        (\<lambda>rs. retA (concat rs)) (reseed pl entropy sampling before m)"
    using run_layers_on_rows [OF assms(2), of pl full ls before] r by simp
  then show ?thesis
    by (cases q) (simp_all add: monolithic_token_def assms(1) bindA_apply f)
qed

lemma rng_fold_layers:
  "executor_ok pl hp s \<Longrightarrow> rng (snd (foldA (layer_rows pl ctx hp before) ls rows s)) = rng s"
  by (rule rng_layers)

lemma rng_stages_last:
  assumes "length Ls = Suc (length ss)" "executor_ok pl hp t"
    and "stagesA (layer_rows pl ctx hp before) Ls rows (ss @ [t]) = (Inr rs, sts)"
  shows "rng (last sts) = rng t"
  using assms(1,3)
proof (induction ss arbitrary: Ls rows sts)
  case Nil
  then obtain L where "Ls = [L]" by (cases Ls) auto
  with Nil rng_fold_layers [OF assms(2), of ctx before L rows] show ?case
    by (auto split: prod.splits sum.splits)
next
  case (Cons s ss)
  then obtain L Ls' where Ls: "Ls = L # Ls'" "length Ls' = Suc (length ss)" by (cases Ls) auto
  with Cons.prems(2) obtain y s' sts' where "foldA (layer_rows pl ctx hp before) L rows s = (Inr y, s')"
    "stagesA (layer_rows pl ctx hp before) Ls' y (ss @ [t]) = (Inr rs, sts')" "sts = s' # sts'"
    by (auto split: prod.splits sum.splits)
  moreover have "sts' \<noteq> []"
    using \<open>stagesA _ Ls' y (ss @ [t]) = (Inr rs, sts')\<close> Ls(2) by (cases ss; cases Ls') (auto split: prod.splits sum.splits)
  ultimately show ?case using Cons.IH [OF Ls(2)] by simp
qed

section \<open>Properties\<close>

definition states_match ::
    "('w, 'g) platform \<Rightarrow> hyperparams \<Rightarrow> int list list \<Rightarrow> 'g executor list \<Rightarrow> 'g executor \<Rightarrow> bool" where
  "states_match pl hp Ls sts m \<longleftrightarrow> executor_ok pl hp m \<and> length sts = length Ls \<and>
     (\<forall>i < length Ls. executor_ok pl hp (sts ! i) \<and> (\<forall>l \<in> set (Ls ! i). kv_of (sts ! i) l = kv_of m l))"

lemma chain_matches_states:
  "chain_matches pl hp first middle final s ss t m \<longleftrightarrow> length ss = length middle \<and>
     states_match pl hp (map shard_layers (first # middle @ [final])) (s # ss @ [t]) m"
proof -
  have "map shard_layers (first # middle @ [final]) ! i = shard_layers ((first # middle @ [final]) ! i)"
    if "i < length (first # middle @ [final])" for i using that by (rule nth_map)
  then show ?thesis by (auto simp: chain_matches_def states_match_def simp del: list.map map_append)
qed

text \<open>Only the caches of the last executor and of the reference matter.\<close>

lemma states_match_same_caches:
  assumes "states_match pl hp Ls (sts @ [t]) m" "layer_cache u = layer_cache t" "rope_inv_freq u = rope_inv_freq t"
    and "layer_cache m' = layer_cache m" "rope_inv_freq m' = rope_inv_freq m"
  shows "states_match pl hp Ls (sts @ [u]) m'"
proof -
  note u = executor_same_caches [OF assms(2,3)] and m' = executor_same_caches [OF assms(4,5)]
  have "kv_of ((sts @ [u]) ! i) = kv_of ((sts @ [t]) ! i) \<and> executor_ok pl hp ((sts @ [u]) ! i) = executor_ok pl hp ((sts @ [t]) ! i)"
    if "i < length Ls" for i
    using that assms(1) u by (cases "i = length sts") (auto simp: states_match_def nth_append)
  then show ?thesis using assms(1) m'(1) m'(2) [of pl hp] by (simp add: states_match_def)
qed

lemma layers_distributed:
  assumes "distinct (concat Ls)" "states_match pl hp Ls sts m"
    and "stagesA (layer_rows pl ctx hp before) Ls rows sts = (r, sts')"
    and "foldA (layer_rows pl ctx hp before) (concat Ls) rows m = (q, m')"
  shows "r = q \<and> states_match pl hp Ls sts' m'"
proof -
  let ?run = "layer_rows pl ctx hp before"
  have ok: "executor_ok pl hp m" "length sts = length Ls" "\<forall>i < length Ls. executor_ok pl hp (sts ! i)"
    "\<forall>i < length Ls. \<forall>l \<in> set (Ls ! i). kv_of (sts ! i) l = kv_of m l"
    using assms(2) by (simp_all add: states_match_def)
  have "executor_ok pl hp m'"
    using layer.rows.good_fold [of pl hp m ctx before "concat Ls" rows] ok(1) unfolding assms(4) by simp
  moreover have "fst (stagesA ?run Ls rows sts) = fst (foldA ?run (concat Ls) rows m) \<and>
      length (snd (stagesA ?run Ls rows sts)) = length Ls \<and>
      (\<forall>i < length Ls. executor_ok pl hp (snd (stagesA ?run Ls rows sts) ! i)) \<and>
      (\<forall>i < length Ls. \<forall>l \<in> set (Ls ! i).
         kv_of (snd (stagesA ?run Ls rows sts) ! i) l = kv_of (snd (foldA ?run (concat Ls) rows m)) l)"
    using ok assms(1) by (intro layer.rows.distribute) simp_all
  ultimately show ?thesis by (simp add: states_match_def assms(3,4))
qed

text \<open>The head of the last stage on what the layers returned.\<close>

lemma same_head:
  assumes "shard_ctx final ''output_norm.weight'' = full ''output_norm.weight''"
    "shard_ctx final ''output.weight'' = full ''output.weight''" "rng w = rng m0"
    and "terminal_head pl (shard_ctx final) hp hidden n True True sampling w = (tok, u)"
    and "terminal_head pl full hp hidden n True True sampling m0 = (q, m')"
  shows "tok = q \<and> rng u = rng m' \<and> layer_cache u = layer_cache w \<and> rope_inv_freq u = rope_inv_freq w \<and>
    layer_cache m' = layer_cache m0 \<and> rope_inv_freq m' = rope_inv_freq m0"
  using terminal_head_cong [of "shard_ctx final" full w m0 pl hp hidden n sampling, OF assms(1-3)]
    terminal_head_cong [of full full m0 m0 pl hp hidden n sampling] unfolding assms(4,5) by simp

text \<open>A token out of range stops both runs before any layer.\<close>

lemma distributed_embedding_fails:
  assumes "shard_ctx first ''token_embd.weight'' = full ''token_embd.weight''" "embed_tokens pl full hp tokens = Inl e"
    and "\<forall>t \<in> set tokens. - (2 ^ 63) \<le> t \<and> t < 2 ^ 63" "tokens \<noteq> []" "int (length tokens) < 2 ^ 31"
    "int (length tokens) * hidden_size hp < 2 ^ 61"
  shows "distributed_token pl hp prec entropy sampling first middle final before tokens s ss t = (Inl e, s, ss, t)"
    and "monolithic_token pl full hp entropy sampling ls before tokens m = (Inl e, reseed pl entropy sampling before m)"
proof -
  have "embed_tokens pl (shard_ctx first) hp tokens = Inl e"
    using embed_tokens_cong [of "shard_ctx first" full pl hp tokens, OF assms(1)] assms(2) by simp
  moreover have "tensor_to_token_ids (token_tensor tokens) = Inr tokens"
    using token_ids_codec [of tokens] assms by (simp add: token_tensor_def)
  ultimately show "distributed_token pl hp prec entropy sampling first middle final before tokens s ss t = (Inl e, s, ss, t)"
    by (simp add: distributed_token_def execute_source_def)
  show "monolithic_token pl full hp entropy sampling ls before tokens m = (Inl e, reseed pl entropy sampling before m)"
    using assms(2) by (simp add: monolithic_token_def)
qed

lemma reseed_caches [simp]:
  "layer_cache (reseed pl entropy sampling before t) = layer_cache t"
  "rope_inv_freq (reseed pl entropy sampling before t) = rope_inv_freq t"
  by (simp_all add: reseed_def)

lemma states_match_reseed:
  "states_match pl hp Ls (sts @ [t]) m \<Longrightarrow>
   states_match pl hp Ls (sts @ [reseed pl entropy sampling before t]) (reseed pl entropy sampling before m)"
  by (erule states_match_same_caches) simp_all

lemma shards_hold:
  assumes "shards_of_model full first middle final"
  shows "shard_ctx first ''token_embd.weight'' = full ''token_embd.weight''"
    "distinct (concat (map shard_layers (first # middle @ [final])))"
    "shard_ctx final ''output_norm.weight'' = full ''output_norm.weight''" "shard_ctx final ''output.weight'' = full ''output.weight''"
  using assms by (auto simp: shards_of_model_def)

lemma rng_at_head:
  assumes "stagesA (layer_rows pl full hp before) Ls rows (ss @ [t]) = (Inr rs, vs @ [w])"
      "foldA (layer_rows pl full hp before) (concat Ls) rows m = (Inr rs', m0)"
    and "rng t = rng m" "length Ls = Suc (length ss)"
    and "states_match pl hp Ls (ss @ [t]) m"
  shows "rng w = rng m0"
  using rng_stages_last [of Ls ss pl hp t full before rows rs "vs @ [w]"] rng_fold_layers [of pl hp m full before "concat Ls" rows]
    assms by (force simp: states_match_def nth_append)

text \<open>Once the prompt is embedded: the layers and the head.\<close>

lemma distributed_after_embedding:
  assumes hp: "check_hyperparams hp = Inr ()" and prec: "prec \<noteq> ''fp16''" "prec \<noteq> ''float16''"
    and shards: "shards_of_model full first middle final"
    and len: "length ss = length middle" and rng: "rng t = rng m"
    and sm: "states_match pl hp (map shard_layers (first # middle @ [final])) (s # ss @ [reseed pl entropy sampling before t])
        (reseed pl entropy sampling before m)"
    and tokens: "tokens \<noteq> []" "int (length tokens) < 2 ^ 31" "int (length tokens) * hidden_size hp < 2 ^ 61"
      "\<forall>t \<in> set tokens. - (2 ^ 63) \<le> t \<and> t < 2 ^ 63"
    and embedded: "embed_tokens pl full hp tokens = Inr hidden"
    and d: "distributed_token pl hp prec entropy sampling first middle final before tokens s ss t = (r, s', ss', t')"
    and mono: "monolithic_token pl full hp entropy sampling (concat (map shard_layers (first # middle @ [final])))
        before tokens m = (q, m')"
  shows "r = q \<and> chain_matches pl hp first middle final s' ss' t' m' \<and> (\<forall>token. r = Inr token \<longrightarrow> rng t' = rng m')"
proof -
  let ?run = "layer_rows pl full hp before" and ?Ls = "map shard_layers (first # middle @ [final])"
  let ?t = "reseed pl entropy sampling before t" and ?m = "reseed pl entropy sampling before m"
  let ?rows = "rows_of (hp_hidden hp) (length tokens) hidden"
  note holds = shards_hold [OF shards]
  have "embed_tokens pl (shard_ctx first) hp tokens = Inr hidden"
    using embedded embed_tokens_cong [of "shard_ctx first" full pl hp tokens, OF holds(1)] by simp
  note fit = source_rows(2) [OF prec tokens this]
  obtain r0 sts where chain: "stagesA ?run ?Ls ?rows (s # ss @ [?t]) = (r0, sts)" by (rule prod.exhaust)
  obtain q0 m0 where fold: "foldA ?run (concat ?Ls) ?rows ?m = (q0, m0)" by (rule prod.exhaust)
  from layers_distributed [OF holds(2) sm chain fold] have r0: "r0 = q0" and after: "states_match pl hp ?Ls sts m0" by simp_all
  from distributed_chain [OF hp prec shards len tokens embedded chain] obtain v vs w where
    sts: "sts = v # vs @ [w]" "length vs = length middle"
    and run: "case r0 of
      Inl e \<Rightarrow> \<exists>u. distributed_token pl hp prec entropy sampling first middle final before tokens s ss t
                  = (Inl e, v, vs, u) \<and> (u = w \<or> u = t \<and> w = ?t)
    | Inr rs \<Rightarrow> \<exists>tok u. terminal_head pl (shard_ctx final) hp (concat rs) (length tokens) True True sampling w = (tok, u) \<and>
                  distributed_token pl hp prec entropy sampling first middle final before tokens s ss t = (tok, v, vs, u)"
    by blast
  have matches: "chain_matches pl hp first middle final v vs u m2"
    if "layer_cache u = layer_cache w" "rope_inv_freq u = rope_inv_freq w" "layer_cache m2 = layer_cache m0" "rope_inv_freq m2 = rope_inv_freq m0" for u m2
    using states_match_same_caches [of pl hp ?Ls "v # vs" w m0 u m2] after that sts unfolding chain_matches_states by simp
  note mono = mono [unfolded monolithic_rows [OF embedded fit] fold r0 [symmetric]]
  show ?thesis
  proof (cases r0)
    case Inl0: (Inl x)
    from run obtain u where u: "(r, s', ss', t') = (Inl x, v, vs, u)" "u = w \<or> u = t \<and> w = ?t"
      using d by (auto simp: Inl0)
    moreover have "(q, m') = (Inl x, m0)" using mono by (simp add: Inl0)
    moreover have "layer_cache u = layer_cache w" "rope_inv_freq u = rope_inv_freq w" using u(2) by auto
    ultimately show ?thesis using matches [of u m0] by simp
  next
    case Inr0: (Inr rs)
    from run obtain tok u where head: "terminal_head pl (shard_ctx final) hp (concat rs) (length tokens) True True sampling w = (tok, u)"
      and dd: "(r, s', ss', t') = (tok, v, vs, u)" using d by (auto simp: Inr0)
    have "stagesA ?run ?Ls ?rows ((s # ss) @ [?t]) = (Inr rs, (v # vs) @ [w])" using chain by (simp only: sts(1) Inr0 append_Cons)
    moreover have "foldA ?run (concat ?Ls) ?rows ?m = (Inr rs, m0)" using fold by (simp only: r0 [symmetric] Inr0)
    ultimately have "rng w = rng m0"
      by (rule rng_at_head [OF _ _ reseed_rng [OF rng]]) (use len sm in simp_all)
    from same_head [OF holds(3,4) this head] mono
    have "tok = q \<and> rng u = rng m' \<and> layer_cache u = layer_cache w \<and> rope_inv_freq u = rope_inv_freq w \<and>
      layer_cache m' = layer_cache m0 \<and> rope_inv_freq m' = rope_inv_freq m0" by (simp add: Inr0)
    then show ?thesis using dd matches [of u m'] by simp
  qed
qed

lemma distributed_same:
  assumes hp: "check_hyperparams hp = Inr ()" and prec: "prec \<noteq> ''fp16''" "prec \<noteq> ''float16''"
    and shards: "shards_of_model full first middle final"
    and states: "chain_matches pl hp first middle final s ss t m" "rng t = rng m"
    and tokens: "tokens \<noteq> []" "int (length tokens) < 2 ^ 31" "int (length tokens) * hidden_size hp < 2 ^ 61"
      "\<forall>t \<in> set tokens. - (2 ^ 63) \<le> t \<and> t < 2 ^ 63"
    and d: "distributed_token pl hp prec entropy sampling first middle final before tokens s ss t = (r, s', ss', t')"
    and mono: "monolithic_token pl full hp entropy sampling (concat (map shard_layers (first # middle @ [final])))
        before tokens m = (q, m')"
  shows "r = q \<and> chain_matches pl hp first middle final s' ss' t' m' \<and> (\<forall>token. r = Inr token \<longrightarrow> rng t' = rng m')"
proof -
  let ?Ls = "map shard_layers (first # middle @ [final])"
  let ?t = "reseed pl entropy sampling before t" and ?m = "reseed pl entropy sampling before m"
  have len: "length ss = length middle" and sm: "states_match pl hp ?Ls ((s # ss) @ [t]) m"
    using states(1) unfolding chain_matches_states by simp_all
  have reseeded: "states_match pl hp ?Ls (s # ss @ [?t]) ?m" using states_match_reseed [OF sm] by simp
  show ?thesis
  proof (cases "embed_tokens pl full hp tokens")
    case (Inl e)
    note fails = distributed_embedding_fails [OF shards_hold(1) [OF shards] Inl tokens(4,1-3)]
    have "chain_matches pl hp first middle final s ss t ?m"
      using states_match_same_caches [OF sm, of t ?m] len unfolding chain_matches_states by simp
    then show ?thesis using d mono unfolding fails by auto
  next
    case (Inr hidden)
    show ?thesis
      by (rule distributed_after_embedding [OF hp prec shards len states(2) reseeded tokens Inr d mono])
  qed
qed

text \<open>C2. Distribution is exact: with float32 activations, the chain of stages returns the token the
  whole model returns on one machine, bit for bit and for every arithmetic, or the same error;
  and afterwards every stage holds the caches the single machine holds for its layers, so the
  agreement carries over to the next step.\<close>

theorem distributed_equals_monolithic:
  assumes hp: "check_hyperparams hp = Inr ()" and prec: "prec \<noteq> ''fp16''" "prec \<noteq> ''float16''"
    and shards: "shards_of_model full first middle final"
    and states: "chain_matches pl hp first middle final s ss t m" "rng t = rng m"
    and tokens: "tokens \<noteq> []" "int (length tokens) < 2 ^ 31" "int (length tokens) * hidden_size hp < 2 ^ 61"
      "\<forall>t \<in> set tokens. - (2 ^ 63) \<le> t \<and> t < 2 ^ 63"
    and d: "distributed_token pl hp prec entropy sampling first middle final before tokens s ss t = (r, s', ss', t')"
    and mono: "monolithic_token pl full hp entropy sampling (concat (map shard_layers (first # middle @ [final])))
        before tokens m = (q, m')"
  shows "r = q \<and> chain_matches pl hp first middle final s' ss' t' m' \<and> (\<forall>token. r = Inr token \<longrightarrow> rng t' = rng m')"
  by (rule distributed_same [OF assms])

text \<open>A node's shard holds what the tensor plan of its components selects.\<close>

definition shard_of :: "'w tensor_context \<Rightarrow> partition_node \<Rightarrow> 'w stage_shard" where
  "shard_of full p = \<lparr>shard_ctx = (\<lambda>name. if tensor_matches_plan name
       (build_llama_tensor_name_plan (partition_id p) (components p)) then full name else None),
     shard_layers = layers (components p)\<rparr>"

lemma layer_prefix_eq: "layer_prefix l = layer_tensor_prefix l"
  by (simp add: layer_prefix_def layer_tensor_prefix_def)

lemma shard_of_holds: "shard_holds_layers full (shard_of full p)"
  by (auto simp: shard_holds_layers_def shard_of_def layer_tensors_def layer_prefix_eq matches_plan_layer)

lemma valid_graph_distinct:
  "valid (validate_partition_graph ps n) \<Longrightarrow> distinct (concat (map (\<lambda>p. layers (components p)) ps))"
  by (simp add: validate_valid_iff no_duplicates all_layers_def)

lemma shards_of_valid_graph:
  assumes "valid (validate_partition_graph (p # ps @ [q]) n)"
    and "embedding (components p)" "norm (components q)" "lm_head (components q)"
  shows "shards_of_model full (shard_of full p) (map (shard_of full) ps) (shard_of full q)"
  using valid_graph_distinct [OF assms(1)] assms(2-4) shard_of_holds [of full]
  by (auto simp: shards_of_model_def shard_of_def matches_plan_global comp_def)


definition chain_graph :: "partition_node list" where
  "chain_graph = [sample_node ''p1'' [0] True False ''http://p2:9001'',
     sample_node ''p2'' [1] False False ''http://p3:9001'', sample_node ''p3'' [2] False True []]"

lemma chain_graph_valid: "valid (validate_partition_graph chain_graph 3)"
proof -
  have nodes: "\<forall>p \<in> set chain_graph. node_allowed 3 p"
    by (simp add: chain_graph_def sample_node_def empty_partition_node_def node_allowed_def layer_allowed_def)
  have "mset (Partition_Graph.all_layers chain_graph) = mset (map int [0..<nat 3])"
    by (simp add: chain_graph_def sample_node_def all_layers_def numeral_3_eq_3)
  then show ?thesis
    using exact_layers [OF all_layers_allowed [OF nodes]] nodes unfolding validate_valid_iff
    by (simp add: chain_graph_def sample_node_def owners_def empty_partition_node_def)
qed

definition sample_shard :: "nat \<Rightarrow> f32 list list stage_shard" where
  "sample_shard i = shard_of (sample_tensors [0, 1, 2]) (chain_graph ! i)"


lemma sample_shards: "shards_of_model (sample_tensors [0, 1, 2]) (sample_shard 0) [sample_shard 1] (sample_shard 2)"
proof -
  have "valid (validate_partition_graph (chain_graph ! 0 # [chain_graph ! 1] @ [chain_graph ! 2]) 3)"
    using chain_graph_valid by (simp add: chain_graph_def numeral_2_eq_2)
  from shards_of_valid_graph [OF this] show ?thesis
    by (simp add: sample_shard_def chain_graph_def sample_node_def numeral_2_eq_2)
qed

theorem distributed_equals_monolithic_witness:
  "fst (distributed_token (sample_platform True) sample_hp ''fp32'' 7 default_sampling (sample_shard 0) [sample_shard 1]
       (sample_shard 2) 0 [2, 0] (new_executor 0) [new_executor 1] (new_executor 0)) =
   fst (monolithic_token (sample_platform True) (sample_tensors [0, 1, 2]) sample_hp 7 default_sampling
       (concat (map shard_layers [sample_shard 0, sample_shard 1, sample_shard 2])) 0 [2, 0] (new_executor 0))"
proof -
  obtain r s' ss' t' where d: "distributed_token (sample_platform True) sample_hp ''fp32'' 7 default_sampling (sample_shard 0)
      [sample_shard 1] (sample_shard 2) 0 [2, 0] (new_executor 0) [new_executor 1] (new_executor 0) = (r, s', ss', t')"
    by (metis prod_cases4)
  obtain q m' where m: "monolithic_token (sample_platform True) (sample_tensors [0, 1, 2]) sample_hp 7 default_sampling
      (concat (map shard_layers (sample_shard 0 # [sample_shard 1] @ [sample_shard 2]))) 0 [2, 0] (new_executor 0) = (q, m')"
    by (rule prod.exhaust)
  have c: "chain_matches (sample_platform True) sample_hp (sample_shard 0) [sample_shard 1] (sample_shard 2)
      (new_executor 0) [new_executor 1] (new_executor (0 :: nat)) (new_executor 0)"
    by (auto simp: chain_matches_def less_Suc_eq nth_Cons')
  have hs: "int (length [2, 0 :: int]) * hidden_size sample_hp < 2 ^ 61" by (simp add: sample_hp_def)
  from distributed_equals_monolithic [OF _ _ _ sample_shards c _ _ _ hs _ d m] d m show ?thesis by simp
qed

end
