(* ===== verification/Json_Text.thy ===== *)
theory Json_Text
  imports Prelude
begin

text \<open>
  JSON text as the program writes and reads it. Writing is \<open>json_escape.cpp\<close> and stream
  output. Reading (\<open>metadata.cpp\<close>, \<open>metrics.cpp\<close>) is not a parser: every field is looked up with a
  regular expression \<open>"key"\s*:\s*(value)\<close> searched anywhere in the text. The expressions are
  deterministic, so each is a matcher that consumes a prefix, and \<open>regex_search\<close> tries it at every
  position from the left.
\<close>

named_theorems json_simps \<open>how a field search moves over written JSON text\<close>

section \<open>Characters\<close>

abbreviation quote :: char where "quote \<equiv> CHR 0x22"
abbreviation backslash :: char where "backslash \<equiv> CHR 0x5C"

definition is_space :: "char \<Rightarrow> bool" where
  "is_space c \<longleftrightarrow> c = CHR '' '' \<or> (9 \<le> (of_char c :: nat) \<and> (of_char c :: nat) \<le> 13)"

definition skip_ws :: "string \<Rightarrow> string" where
  "skip_ws s = dropWhile is_space s"

section \<open>Escaping\<close>

definition hex_digit :: "nat \<Rightarrow> char" where
  "hex_digit d = ''0123456789abcdef'' ! d"

definition escape_char :: "char \<Rightarrow> string" where
  "escape_char c =
     (if c = quote then [backslash, quote]
      else if c = backslash then [backslash, backslash]
      else if c = CHR 0x08 then [backslash, CHR ''b'']
      else if c = CHR 0x0C then [backslash, CHR ''f'']
      else if c = CHR 0x0A then [backslash, CHR ''n'']
      else if c = CHR 0x0D then [backslash, CHR ''r'']
      else if c = CHR 0x09 then [backslash, CHR ''t'']
      else if (of_char c :: nat) < 32
      then [backslash, CHR ''u'', CHR ''0'', CHR ''0'', hex_digit (of_char c div 16), hex_digit (of_char c mod 16)]
      else [c])"

definition json_escape :: "string \<Rightarrow> string" where
  "json_escape s = concat (map escape_char s)"

definition unescape_letter :: "char \<Rightarrow> string" where
  "unescape_letter c =
     (if c = quote then [quote]
      else if c = backslash then [backslash]
      else if c = CHR ''/'' then [CHR ''/'']
      else if c = CHR ''b'' then [CHR 0x08]
      else if c = CHR ''f'' then [CHR 0x0C]
      else if c = CHR ''n'' then [CHR 0x0A]
      else if c = CHR ''r'' then [CHR 0x0D]
      else if c = CHR ''t'' then [CHR 0x09]
      else [backslash, c])"

fun unescape_json_string :: "string \<Rightarrow> string" where
  "unescape_json_string [] = []"
| "unescape_json_string [c] = [c]"
| "unescape_json_string (c # d # s) =
     (if c \<noteq> backslash then c # unescape_json_string (d # s)
      else unescape_letter d @ unescape_json_string s)"

text \<open>The characters \<open>json_escape\<close> writes as \<open>\u00xy\<close>, which no reader of the program decodes.\<close>

definition unicode_escaped :: "char \<Rightarrow> bool" where
  "unicode_escaped c \<longleftrightarrow> (of_char c :: nat) < 32 \<and> c \<notin> {CHR 0x08, CHR 0x0C, CHR 0x0A, CHR 0x0D, CHR 0x09}"

definition escape_safe :: "string \<Rightarrow> bool" where
  "escape_safe s = list_all (\<lambda>c. \<not> unicode_escaped c) s"

lemma json_escape_simps [simp]:
  "json_escape [] = []" "json_escape (c # s) = escape_char c @ json_escape s"
  by (simp_all add: json_escape_def)

lemma unescape_cons: "c \<noteq> backslash \<Longrightarrow> unescape_json_string (c # s) = c # unescape_json_string s"
  by (cases s) simp_all

lemma hex_digit_plain:
  assumes "d < 16"
  shows "hex_digit d \<noteq> backslash" "hex_digit d \<noteq> quote" "\<not> is_space (hex_digit d)"
proof -
  have "hex_digit d \<in> set ''0123456789abcdef''"
    unfolding hex_digit_def using assms by (intro nth_mem) simp
  moreover have "\<forall>x \<in> set ''0123456789abcdef''. x \<noteq> backslash \<and> x \<noteq> quote \<and> \<not> is_space x"
    by (simp add: is_space_def)
  ultimately show "hex_digit d \<noteq> backslash" "hex_digit d \<noteq> quote" "\<not> is_space (hex_digit d)"
    by blast+
qed

lemma escape_char_unicode:
  assumes "unicode_escaped c"
  shows "escape_char c =
      [backslash, CHR ''u'', CHR ''0'', CHR ''0'', hex_digit (of_char c div 16), hex_digit (of_char c mod 16)]"
proof -
  from assms have lt: "(of_char c :: nat) < 32"
    and ne: "c \<noteq> CHR 0x08" "c \<noteq> CHR 0x0C" "c \<noteq> CHR 0x0A" "c \<noteq> CHR 0x0D" "c \<noteq> CHR 0x09"
    by (simp_all add: unicode_escaped_def)
  have "c \<noteq> quote" using lt by (rule contrapos_pn) simp
  moreover have "c \<noteq> backslash" using lt by (rule contrapos_pn) simp
  ultimately show ?thesis using lt ne by (simp only: escape_char_def if_False if_True)
qed

lemma unescape_escape_char:
  "unescape_json_string (escape_char c @ s) =
     (if unicode_escaped c then escape_char c else [c]) @ unescape_json_string s"
proof (cases "unicode_escaped c")
  case True
  then have ec: "escape_char c =
      [backslash, CHR ''u'', CHR ''0'', CHR ''0'', hex_digit (of_char c div 16), hex_digit (of_char c mod 16)]"
    by (rule escape_char_unicode)
  have lt: "(of_char c :: nat) div 16 < 16" "(of_char c :: nat) mod 16 < 16"
    using True by (auto simp: unicode_escaped_def)
  show ?thesis
    unfolding ec using True by (simp add: unescape_cons unescape_letter_def hex_digit_plain [OF lt(1)] hex_digit_plain [OF lt(2)])
next
  case False
  show ?thesis
  proof (cases "c \<in> {quote, backslash, CHR 0x08, CHR 0x0C, CHR 0x0A, CHR 0x0D, CHR 0x09}")
    case True
    with False show ?thesis
      by (elim insertE emptyE) (simp_all add: escape_char_def unescape_letter_def)
  next
    case special: False
    with False have "\<not> (of_char c :: nat) < 32" by (simp add: unicode_escaped_def)
    with special have "escape_char c = [c]" "c \<noteq> backslash" by (simp_all add: escape_char_def)
    with False show ?thesis by (simp add: unescape_cons)
  qed
qed

lemma escape_safe_simps [simp]:
  "escape_safe []" "escape_safe (c # s) \<longleftrightarrow> \<not> unicode_escaped c \<and> escape_safe s"
  by (simp_all add: escape_safe_def)

lemma length_unescape_escape:
  "length (unescape_json_string (json_escape s)) = length s + 5 * length (filter unicode_escaped s)"
proof (induction s)
  case (Cons c s)
  have "length (escape_char c) = 6" if "unicode_escaped c"
    using that by (simp add: escape_char_unicode)
  with Cons show ?case by (simp add: unescape_escape_char)
qed simp

text \<open>Escaping a string with \<open>json_escape\<close> and reading it back with the reader's unescaping
  returns the string exactly when it has no character that is written as a \<open>\u00xy\<close> escape.\<close>

theorem unescape_escape_iff: "unescape_json_string (json_escape s) = s \<longleftrightarrow> escape_safe s"
proof
  assume "unescape_json_string (json_escape s) = s"
  then have "filter unicode_escaped s = []"
    using length_unescape_escape [of s] by simp
  then show "escape_safe s" by (simp add: escape_safe_def filter_empty_conv list_all_iff)
next
  show "escape_safe s \<Longrightarrow> unescape_json_string (json_escape s) = s"
    by (induction s) (simp_all add: unescape_escape_char)
qed

lemma unescape_escape [simp]: "escape_safe s \<Longrightarrow> unescape_json_string (json_escape s) = s"
  by (induction s) (simp_all add: unescape_escape_char)

section \<open>Matchers\<close>

text \<open>A matcher consumes a prefix of the text: the captured group and the rest.\<close>

type_synonym matcher = "string \<Rightarrow> (string \<times> string) option"

fun regex_search :: "matcher \<Rightarrow> string \<Rightarrow> (string \<times> string) option" where
  "regex_search m [] = m []"
| "regex_search m (c # s) = (case m (c # s) of Some r \<Rightarrow> Some r | None \<Rightarrow> regex_search m s)"

definition match_literal :: "string \<Rightarrow> matcher" where
  "match_literal pat s = (if is_prefix pat s then Some (pat, drop (length pat) s) else None)"

text \<open>\<open>"key"\s*:\s*\<close> before a value.\<close>

definition match_field :: "string \<Rightarrow> matcher \<Rightarrow> matcher" where
  "match_field key val s =
     (case match_literal (quote # key @ [quote]) s of
        None \<Rightarrow> None
      | Some (_, r) \<Rightarrow>
          (case skip_ws r of
             [] \<Rightarrow> None
           | c # r' \<Rightarrow> if c = CHR '':'' then val (skip_ws r') else None))"

text \<open>\<open>"((?:\\.|[^"\\])*)"\<close>. A dot matches no line terminator.\<close>

fun string_body :: matcher where
  "string_body [] = None"
| "string_body [c] = (if c = quote then Some ([], []) else None)"
| "string_body (c # d # s) =
     (if c = quote then Some ([], d # s)
      else if c = backslash
      then if d = CHR 0x0A \<or> d = CHR 0x0D then None
           else map_option (\<lambda>(b, r). (c # d # b, r)) (string_body s)
      else map_option (\<lambda>(b, r). (c # b, r)) (string_body (d # s)))"

definition match_string :: matcher where
  "match_string s = (case s of [] \<Rightarrow> None | c # r \<Rightarrow> if c = quote then string_body r else None)"

text \<open>\<open>-?\d+\<close>.\<close>

definition split_minus :: "string \<Rightarrow> string \<times> string" where
  "split_minus s = (case s of [] \<Rightarrow> ([], s) | c # r \<Rightarrow> if c = CHR ''-'' then ([c], r) else ([], s))"

definition match_int :: matcher where
  "match_int s =
     (case split_minus s of (sign, r) \<Rightarrow>
        let ds = takeWhile is_digit r
        in if ds = [] then None else Some (sign @ ds, dropWhile is_digit r))"

text \<open>\<open>-?(?:\d+\.?\d*|\.\d+)(?:[eE][+-]?\d+)?\<close>.\<close>

definition match_exponent :: "string \<Rightarrow> string \<times> string" where
  "match_exponent s =
     (case s of
        [] \<Rightarrow> ([], s)
      | e # r \<Rightarrow>
          if e = CHR ''e'' \<or> e = CHR ''E''
          then let sg = (case r of [] \<Rightarrow> [] | c # _ \<Rightarrow> if c = CHR ''+'' \<or> c = CHR ''-'' then [c] else []);
                   ds = takeWhile is_digit (drop (length sg) r)
               in if ds = [] then ([], s) else (e # sg @ ds, dropWhile is_digit (drop (length sg) r))
          else ([], s))"

definition match_mantissa :: matcher where
  "match_mantissa s =
     (let ds = takeWhile is_digit s; r = dropWhile is_digit s
      in case r of
           [] \<Rightarrow> if ds = [] then None else Some (ds, r)
         | c # r' \<Rightarrow>
             if c = CHR ''.''
             then if ds = [] \<and> takeWhile is_digit r' = [] then None
                  else Some (ds @ c # takeWhile is_digit r', dropWhile is_digit r')
             else if ds = [] then None else Some (ds, r))"

definition match_number :: matcher where
  "match_number s =
     (case split_minus s of (sign, r) \<Rightarrow>
        case match_mantissa r of
          None \<Rightarrow> None
        | Some (m, r') \<Rightarrow> (case match_exponent r' of (e, r'') \<Rightarrow> Some (sign @ m @ e, r'')))"

text \<open>\<open>(true|false)\<close>.\<close>

definition match_bool :: matcher where
  "match_bool s = (if is_prefix ''true'' s then Some (''true'', drop 4 s)
                   else if is_prefix ''false'' s then Some (''false'', drop 5 s) else None)"

text \<open>\<open>\[([^\]]*)\]\<close>.\<close>

definition match_brackets :: matcher where
  "match_brackets s =
     (case s of
        [] \<Rightarrow> None
      | c # r \<Rightarrow>
          if c = CHR ''['' \<and> CHR '']'' \<in> set r
          then Some (takeWhile (\<lambda>d. d \<noteq> CHR '']'') r, tl (dropWhile (\<lambda>d. d \<noteq> CHR '']'') r)) else None)"

section \<open>The numbers in a match\<close>

definition read_int :: "string \<Rightarrow> int" where
  "read_int t = (case t of [] \<Rightarrow> 0 | c # r \<Rightarrow> if c = CHR ''-'' then - int (read_nat r) else int (read_nat t))"

text \<open>\<open>std::stoi\<close> and \<open>std::stoll\<close> on a text of the form \<open>-?\d+\<close> throw only when out of range.\<close>

definition stoi :: "string \<Rightarrow> int option" where
  "stoi t = (let i = read_int t in if - (2 ^ 31) \<le> i \<and> i < 2 ^ 31 then Some i else None)"

definition stoll :: "string \<Rightarrow> int option" where
  "stoll t = (let i = read_int t in if - (2 ^ 63) \<le> i \<and> i < 2 ^ 63 then Some i else None)"

lemma split_minus_cases: "split_minus s = (sign, r) \<Longrightarrow> s = sign @ r"
  by (auto simp: split_minus_def split: list.splits if_splits)

lemma match_int_length: "match_int s = Some (t, r) \<Longrightarrow> length r < length s"
proof -
  assume m: "match_int s = Some (t, r)"
  obtain sign q where sm: "split_minus s = (sign, q)" by (cases "split_minus s")
  with m have ds: "takeWhile is_digit q \<noteq> []" and r: "r = dropWhile is_digit q"
    by (auto simp: match_int_def Let_def split: if_splits)
  have "length (takeWhile is_digit q) + length r = length q"
    using r by (metis length_append takeWhile_dropWhile_id)
  moreover have "length q \<le> length s" using split_minus_cases [OF sm] by simp
  ultimately show ?thesis using ds by (cases "takeWhile is_digit q") auto
qed

text \<open>\<open>std::sregex_iterator\<close> over \<open>-?\d+\<close>: the matches from left to right, not overlapping.\<close>

function all_ints :: "string \<Rightarrow> string list" where
  "all_ints s =
     (case match_int s of
        Some (t, r) \<Rightarrow> t # all_ints r
      | None \<Rightarrow> (case s of [] \<Rightarrow> [] | _ # s' \<Rightarrow> all_ints s'))"
  by auto
termination
  by (relation "measure length") (auto dest: match_int_length)

declare all_ints.simps [simp del]

section \<open>Written JSON\<close>

text \<open>\<open>"key":\<close>, \<open>"escaped"\<close>, and the bool and vector texts of the stream output.\<close>

definition json_key :: "string \<Rightarrow> string" where
  "json_key k = quote # k @ [quote, CHR '':'']"

definition json_str :: "string \<Rightarrow> string" where
  "json_str s = quote # json_escape s @ [quote]"

definition json_bool :: "bool \<Rightarrow> string" where
  "json_bool b = (if b then ''true'' else ''false'')"

fun comma_ints :: "int list \<Rightarrow> string" where
  "comma_ints [] = []"
| "comma_ints [x] = show_int x"
| "comma_ints (x # y # xs) = show_int x @ '','' @ comma_ints (y # xs)"

definition int_vector_json :: "int list \<Rightarrow> string" where
  "int_vector_json xs = ''['' @ comma_ints xs @ '']''"

definition shape_json :: "int list \<Rightarrow> string" where
  "shape_json xs = ''['' @ comma_ints xs @ '']''"

section \<open>Searching written JSON\<close>

definition is_key_char :: "char \<Rightarrow> bool" where
  "is_key_char c \<longleftrightarrow> c = CHR ''_'' \<or> (97 \<le> (of_char c :: nat) \<and> (of_char c :: nat) \<le> 122)"

definition plain_key :: "string \<Rightarrow> bool" where
  "plain_key k \<longleftrightarrow> k \<noteq> [] \<and> list_all is_key_char k"

text \<open>What may follow a value: a search cannot take the value for a key.\<close>

definition value_end :: "string \<Rightarrow> bool" where
  "value_end s \<longleftrightarrow> (case s of [] \<Rightarrow> False | c # _ \<Rightarrow> c = CHR '','' \<or> c = CHR ''}'')"

lemma value_end_simps [simp]:
  "value_end (CHR '','' # s)" "value_end (CHR ''}'' # s)"
  by (simp_all add: value_end_def)

lemma key_char_not [simp]:
  "\<not> is_key_char quote" "\<not> is_key_char backslash" "\<not> is_key_char CHR '':''" "\<not> is_key_char CHR '',''"
  "\<not> is_key_char CHR ''}''"
  by (simp_all add: is_key_char_def)

abbreviation search_field :: "string \<Rightarrow> matcher \<Rightarrow> string \<Rightarrow> (string \<times> string) option" where
  "search_field key val \<equiv> regex_search (match_field key val)"

lemma match_field_no_quote: "c \<noteq> quote \<Longrightarrow> match_field key val (c # s) = None"
  by (simp add: match_field_def match_literal_def)

lemma search_skip_char [json_simps]: "c \<noteq> quote \<Longrightarrow> search_field key val (c # s) = search_field key val s"
  by (simp add: match_field_no_quote)

lemma search_skip_plain: "quote \<notin> set pre \<Longrightarrow> search_field key val (pre @ s) = search_field key val s"
  by (induction pre) (auto simp: match_field_no_quote)

lemma search_empty [json_simps]: "search_field key val [] = None"
  by (simp add: match_field_def match_literal_def)

lemma is_prefix_quoted:
  "\<lbrakk>quote \<notin> set k; quote \<notin> set key\<rbrakk> \<Longrightarrow> is_prefix (key @ [quote]) (k @ quote # s) \<longleftrightarrow> k = key"
proof (induction key arbitrary: k)
  case Nil
  then show ?case by (cases k) auto
next
  case (Cons c key)
  then show ?case by (cases k) auto
qed

lemma plain_key_no_quote: "plain_key k \<Longrightarrow> quote \<notin> set k"
  by (auto simp: plain_key_def list_all_iff)

lemma match_field_key:
  assumes "plain_key k" "plain_key key"
  shows "match_field key val (json_key k @ s) = (if k = key then val (skip_ws s) else None)"
  using assms [THEN plain_key_no_quote]
  by (simp add: match_field_def match_literal_def json_key_def is_prefix_quoted skip_ws_def is_space_def)

lemma match_field_value_end:
  assumes "plain_key key" "list_all (\<lambda>c. \<not> is_key_char c) (take 1 s)"
  shows "match_field key val (quote # s) = None"
proof -
  obtain a key' where key: "key = a # key'" "is_key_char a"
    using assms(1) by (cases key) (auto simp: plain_key_def)
  have "\<not> is_prefix (key @ [quote]) s"
    using assms(2) key by (cases s) auto
  then show ?thesis by (simp add: match_field_def match_literal_def)
qed

lemma search_key [json_simps]:
  assumes "plain_key k" "plain_key key"
  shows "search_field key val (json_key k @ s) =
    (if k = key then (case val (skip_ws s) of Some r \<Rightarrow> Some r | None \<Rightarrow> search_field key val s)
     else search_field key val s)"
proof -
  have tail: "search_field key val (k @ quote # CHR '':'' # s) = search_field key val s"
    using match_field_value_end [OF assms(2), of "CHR '':'' # s" val]
    by (simp add: search_skip_plain plain_key_no_quote [OF assms(1)] match_field_no_quote)
  have head: "match_field key val (quote # k @ quote # CHR '':'' # s) = (if k = key then val (skip_ws s) else None)"
    using match_field_key [OF assms, of val s] by (simp add: json_key_def)
  show ?thesis using head tail by (auto simp: json_key_def split: option.splits)
qed

text \<open>Inside an escaped string every quote follows a backslash, so no key can be found there.\<close>

lemma escape_char_cases:
  obtains (plain) "escape_char c = [c]" "c \<noteq> quote" "c \<noteq> backslash"
  | (quoted) "c = quote" "escape_char c = [backslash, quote]"
  | (letter) d where "escape_char c = [backslash, d]" "d \<noteq> quote" "d \<noteq> CHR 0x0A" "d \<noteq> CHR 0x0D"
  | (unicode) h l where "escape_char c = [backslash, CHR ''u'', CHR ''0'', CHR ''0'', h, l]"
      "h \<noteq> quote" "l \<noteq> quote" "h \<noteq> backslash" "l \<noteq> backslash"
proof (cases "c \<in> {quote, backslash, CHR 0x08, CHR 0x0C, CHR 0x0A, CHR 0x0D, CHR 0x09}")
  case True
  then show thesis
    by (elim insertE emptyE) (use quoted letter in \<open>simp_all add: escape_char_def\<close>)
next
  case False
  show thesis
  proof (cases "(of_char c :: nat) < 32")
    case True
    with False have "unicode_escaped c" by (simp add: unicode_escaped_def)
    moreover have "(of_char c :: nat) div 16 < 16" "(of_char c :: nat) mod 16 < 16" using True by simp_all
    ultimately show thesis using unicode escape_char_unicode hex_digit_plain by metis
  next
    case nu: False
    with False have "escape_char c = [c]" by (simp add: escape_char_def)
    with False show thesis using plain by simp
  qed
qed

lemma prefix_escape:
  "\<lbrakk>list_all is_key_char key; is_prefix (key @ [quote]) (json_escape t @ quote # r)\<rbrakk> \<Longrightarrow> json_escape t = key"
proof (induction key arbitrary: t)
  case Nil
  show ?case
  proof (cases t)
    case (Cons a u)
    with Nil show ?thesis by (cases a rule: escape_char_cases) simp_all
  qed simp
next
  case (Cons k key)
  show ?case
  proof (cases t)
    case Nil
    with Cons.prems show ?thesis by auto
  next
    case (Cons a u)
    with Cons.prems Cons.IH [of u] show ?thesis by (cases a rule: escape_char_cases) auto
  qed
qed

lemma match_field_string:
  assumes "plain_key key" "value_end s"
  shows "match_field key val (quote # json_escape t @ quote # s) = None"
proof (cases "is_prefix (key @ [quote]) (json_escape t @ quote # s)")
  case True
  with assms(1) have "json_escape t = key" by (intro prefix_escape) (auto simp: plain_key_def)
  with assms(2) show ?thesis
    by (auto simp: match_field_def match_literal_def value_end_def skip_ws_def is_space_def split: list.splits)
next
  case False
  then show ?thesis by (simp add: match_field_def match_literal_def)
qed

lemma search_escaped:
  assumes "plain_key key" "value_end s"
  shows "search_field key val (json_escape t @ quote # s) = search_field key val s"
proof (induction t)
  case Nil
  have "list_all (\<lambda>c. \<not> is_key_char c) (take 1 s)"
    using assms(2) by (auto simp: value_end_def split: list.splits)
  then show ?case by (simp add: match_field_value_end [OF assms(1)])
next
  case (Cons c t)
  then show ?case
    by (cases c rule: escape_char_cases)
      (simp_all add: match_field_no_quote match_field_string [OF assms])
qed

lemma search_string [json_simps]:
  assumes "plain_key key" "value_end s"
  shows "search_field key val (json_str t @ s) = search_field key val s"
  by (simp add: json_str_def match_field_string [OF assms] search_escaped [OF assms])

lemma show_int_no_quote: "quote \<notin> set (show_int i)"
  by (auto dest!: show_int_chars simp: is_digit_def)

lemma comma_ints_chars: "c \<in> set (comma_ints xs) \<Longrightarrow> is_digit c \<or> c = CHR ''-'' \<or> c = CHR '',''"
  by (induction xs rule: comma_ints.induct) (auto dest: show_int_chars)

lemma comma_ints_no: "quote \<notin> set (comma_ints xs)" "CHR '']'' \<notin> set (comma_ints xs)"
  by (auto dest!: comma_ints_chars simp: is_digit_def)

lemma search_int [json_simps]: "search_field key val (show_int i @ s) = search_field key val s"
  by (rule search_skip_plain [OF show_int_no_quote])

lemma search_bool [json_simps]: "search_field key val (json_bool b @ s) = search_field key val s"
  by (rule search_skip_plain) (simp add: json_bool_def)

lemma search_shape [json_simps]:
  "search_field key val (shape_json xs @ s) = search_field key val s"
  "search_field key val (int_vector_json xs @ s) = search_field key val s"
  by (rule search_skip_plain, simp add: shape_json_def int_vector_json_def comma_ints_no)+

section \<open>Reading back written values\<close>

lemma skip_ws_simps [json_simps]:
  "skip_ws (quote # s) = quote # s" "skip_ws (CHR ''['' # s) = CHR ''['' # s"
  "skip_ws (CHR ''{'' # s) = CHR ''{'' # s" "skip_ws (CHR ''n'' # s) = CHR ''n'' # s"
  by (simp_all add: skip_ws_def is_space_def)

lemma skip_ws_string [json_simps]: "skip_ws (json_str t @ s) = json_str t @ s"
  by (simp add: json_str_def json_simps)

lemma skip_ws_bool [json_simps]: "skip_ws (json_bool b @ s) = json_bool b @ s"
  by (simp add: json_bool_def skip_ws_def is_space_def)

lemma skip_ws_shape [json_simps]: "skip_ws (shape_json xs @ s) = shape_json xs @ s"
  by (simp add: shape_json_def json_simps)

lemma show_int_cons:
  obtains c r where "show_int i = c # r" "is_digit c \<or> c = CHR ''-''"
  by (cases "show_int i") (use show_int_chars [of _ i] in \<open>auto simp: show_int_def split: if_splits\<close>)

lemma digit_not_space: "is_digit c \<Longrightarrow> \<not> is_space c"
  by (auto simp: is_digit_def is_space_def)

lemma skip_ws_int [json_simps]: "skip_ws (show_int i @ s) = show_int i @ s"
proof -
  obtain c r where "show_int i = c # r" "is_digit c \<or> c = CHR ''-''" by (rule show_int_cons)
  then show ?thesis by (auto simp: skip_ws_def is_space_def is_digit_def)
qed

lemma string_body_escape [simp]: "string_body (json_escape t @ quote # s) = Some (json_escape t, s)"
proof (induction t)
  case Nil
  then show ?case by (cases s) simp_all
next
  case (Cons c t)
  have long: "string_body (a # json_escape t @ quote # s) = Some (a # json_escape t, s)"
    if "a \<noteq> quote" "a \<noteq> backslash" for a
    using that Cons by (cases "json_escape t @ quote # s") simp_all
  show ?case
    by (cases c rule: escape_char_cases) (simp_all add: long Cons)
qed

lemma match_string_str [json_simps]: "match_string (json_str t @ s) = Some (json_escape t, s)"
  by (simp add: match_string_def json_str_def)

lemma match_bool_bool [json_simps]: "match_bool (json_bool b @ s) = Some (json_bool b, s)"
  by (simp add: match_bool_def json_bool_def)

lemma match_bool_other [json_simps]:
  "match_bool (quote # s) = None"
  by (simp add: match_bool_def)

lemma json_bool_true [simp]: "json_bool b = ''true'' \<longleftrightarrow> b"
  by (simp add: json_bool_def)

definition no_digit_next :: "string \<Rightarrow> bool" where
  "no_digit_next s \<longleftrightarrow> (case s of [] \<Rightarrow> True | c # _ \<Rightarrow> \<not> is_digit c)"

lemma no_digit_next_simps [simp]:
  "no_digit_next []" "no_digit_next (c # s) \<longleftrightarrow> \<not> is_digit c"
  by (simp_all add: no_digit_next_def)

lemma value_end_no_digit: "value_end s \<Longrightarrow> no_digit_next s"
  by (auto simp: value_end_def is_digit_def split: list.splits)

lemma take_drop_digits:
  assumes "\<And>c. c \<in> set ds \<Longrightarrow> is_digit c" "no_digit_next s"
  shows "takeWhile is_digit (ds @ s) = ds" "dropWhile is_digit (ds @ s) = s"
  using assms by (induction ds) (auto simp: no_digit_next_def split: list.splits)

lemma digits_show_nat:
  assumes "no_digit_next s"
  shows "takeWhile is_digit (show_nat n @ s) = show_nat n" "dropWhile is_digit (show_nat n @ s) = s"
  by (rule take_drop_digits [OF _ assms], erule show_nat_digits)+

lemma match_int_show:
  assumes "no_digit_next s"
  shows "match_int (show_int i @ s) = Some (show_int i, s)"
proof (cases "i < 0")
  case True
  then show ?thesis
    using digits_show_nat [OF assms, of "nat (- i)"]
    by (simp add: match_int_def split_minus_def show_int_def)
next
  case False
  obtain c r where cr: "show_nat (nat i) = c # r" by (cases "show_nat (nat i)") auto
  have "is_digit c" using show_nat_digits [of c "nat i"] cr by simp
  then have "c \<noteq> CHR ''-''" by auto
  with False cr show ?thesis
    using digits_show_nat [OF assms, of "nat i"]
    by (simp add: match_int_def split_minus_def show_int_def)
qed

lemma match_int_value [json_simps]: "value_end s \<Longrightarrow> match_int (show_int i @ s) = Some (show_int i, s)"
  by (simp add: match_int_show value_end_no_digit)

lemma read_show_int [simp]: "read_int (show_int i) = i"
proof (cases "i < 0")
  case False
  obtain c r where cr: "show_nat (nat i) = c # r" by (cases "show_nat (nat i)") auto
  have "is_digit c" using show_nat_digits [of c "nat i"] cr by simp
  then have "c \<noteq> CHR ''-''" by auto
  with False cr read_show_nat [of "nat i"] show ?thesis
    by (simp add: read_int_def show_int_def)
qed (simp add: read_int_def show_int_def)

lemma stoi_show_int [json_simps]:
  "\<lbrakk>- (2 ^ 31) \<le> i; i < 2 ^ 31\<rbrakk> \<Longrightarrow> stoi (show_int i) = Some i"
  by (simp add: stoi_def)

lemma stoll_show_int [json_simps]:
  "\<lbrakk>- (2 ^ 63) \<le> i; i < 2 ^ 63\<rbrakk> \<Longrightarrow> stoll (show_int i) = Some i"
  by (simp add: stoll_def)

lemma takeWhile_until: "c \<notin> set xs \<Longrightarrow> takeWhile (\<lambda>d. d \<noteq> c) (xs @ c # s) = xs \<and> dropWhile (\<lambda>d. d \<noteq> c) (xs @ c # s) = c # s"
  by (induction xs) auto

lemma match_brackets_shape [json_simps]: "match_brackets (shape_json xs @ s) = Some (comma_ints xs, s)"
  using takeWhile_until [OF comma_ints_no(2) [of xs], of s]
  by (simp add: match_brackets_def shape_json_def)

lemma all_ints_comma: "all_ints (comma_ints xs) = map show_int xs"
proof (induction xs rule: comma_ints.induct)
  case 1
  then show ?case by (simp add: all_ints.simps match_int_def split_minus_def)
next
  case (2 x)
  then show ?case
    using match_int_show [of "[]" x] by (simp add: all_ints.simps [of "show_int x"] all_ints.simps [of "[]"])
      (simp add: match_int_def split_minus_def)
next
  case (3 x y xs)
  have nd: "no_digit_next ('','' @ comma_ints (y # xs))" by (simp add: is_digit_def)
  have nm: "match_int ('','' @ comma_ints (y # xs)) = None"
    by (simp add: match_int_def split_minus_def is_digit_def)
  have "all_ints ('','' @ comma_ints (y # xs)) = map show_int (y # xs)"
    using 3 nm by (simp add: all_ints.simps [of "CHR '','' # s" for s])
  then show ?case
    using match_int_show [OF nd, of x]
    by (simp add: all_ints.simps [of "show_int x @ s" for s])
qed

text \<open>A text the number expression matches as a whole, as \<open>operator<<\<close> and \<open>std::to_string\<close> print
  finite doubles.\<close>

definition number_text :: "string \<Rightarrow> bool" where
  "number_text t \<longleftrightarrow> match_number t = Some (t, []) \<and> quote \<notin> set t \<and> \<not> is_space (hd t)"

lemma digits_append:
  assumes "no_digit_next s"
  shows "takeWhile is_digit (r @ s) = takeWhile is_digit r" "dropWhile is_digit (r @ s) = dropWhile is_digit r @ s"
  using assms by (induction r) (auto simp: no_digit_next_def split: list.splits)

lemma value_end_cons: "value_end s \<Longrightarrow> \<exists>c r. s = c # r \<and> (c = CHR '','' \<or> c = CHR ''}'')"
  by (cases s) (auto simp: value_end_def)

lemma match_mantissa_append:
  assumes "match_mantissa r = Some (m, r')" "value_end s"
  shows "match_mantissa (r @ s) = Some (m, r' @ s)"
proof -
  note nd = value_end_no_digit [OF assms(2)]
  obtain c q where s: "s = c # q" "c = CHR '','' \<or> c = CHR ''}''" using value_end_cons [OF assms(2)] by blast
  show ?thesis
  proof (cases "dropWhile is_digit r")
    case Nil
    with assms(1) s digits_append [OF nd, of r] show ?thesis
      by (auto simp: match_mantissa_def Let_def split: if_splits)
  next
    case (Cons d u)
    with assms(1) digits_append [OF nd, of r] digits_append [OF nd, of u] show ?thesis
      by (auto simp: match_mantissa_def Let_def split: if_splits)
  qed
qed

lemma match_exponent_append:
  assumes "match_exponent r = (e, r')" "value_end s"
  shows "match_exponent (r @ s) = (e, r' @ s)"
proof -
  note nd = value_end_no_digit [OF assms(2)]
  obtain c q where s: "s = c # q" "c = CHR '','' \<or> c = CHR ''}''" using value_end_cons [OF assms(2)] by blast
  have plain: "match_exponent s = ([], s)" using s by (auto simp: match_exponent_def)
  show ?thesis
  proof (cases r)
    case Nil
    with assms(1) plain show ?thesis by (simp add: match_exponent_def)
  next
    case (Cons d u)
    note r = Cons
    show ?thesis
    proof (cases u)
      case Nil
      have "takeWhile is_digit s = []" using s by (auto simp: is_digit_def)
      then show ?thesis using assms(1) r Nil s by (auto simp: match_exponent_def)
    next
      case (Cons a v)
      with assms(1) r digits_append [OF nd, of v] digits_append [OF nd, of u] show ?thesis
        by (auto simp: match_exponent_def Let_def split: if_splits)
    qed
  qed
qed

lemma number_text_cons: "number_text t \<Longrightarrow> \<exists>a u. t = a # u"
  by (cases t) (auto simp: number_text_def match_number_def split_minus_def match_mantissa_def)

lemma match_number_text [json_simps]:
  assumes "number_text t" "value_end s"
  shows "match_number (t @ s) = Some (t, s)"
proof -
  obtain a u where t: "t = a # u" using number_text_cons [OF assms(1)] by blast
  obtain sign r where sm: "split_minus t = (sign, r)" by (cases "split_minus t")
  have sm': "split_minus (t @ s) = (sign, r @ s)"
    using sm by (auto simp: t split_minus_def split: if_splits)
  obtain m r' where m: "match_mantissa r = Some (m, r')"
    using assms(1) sm by (auto simp: number_text_def match_number_def split: option.splits)
  obtain e r'' where e: "match_exponent r' = (e, r'')" by (cases "match_exponent r'")
  have "sign @ m @ e = t" "r'' = []"
    using assms(1) by (simp_all add: number_text_def match_number_def sm m e)
  then show ?thesis
    by (simp add: match_number_def sm' match_mantissa_append [OF m assms(2)] match_exponent_append [OF e assms(2)])
qed

lemma search_number [json_simps]: "number_text t \<Longrightarrow> search_field key val (t @ s) = search_field key val s"
  by (rule search_skip_plain) (simp add: number_text_def)

lemma skip_ws_number [json_simps]: "number_text t \<Longrightarrow> skip_ws (t @ s) = t @ s"
  using number_text_cons [of t] by (auto simp: number_text_def skip_ws_def)

lemma number_text_show_int [json_simps]: "number_text (show_int i)"
proof -
  obtain c r where cr: "show_int i = c # r" "is_digit c \<or> c = CHR ''-''" by (rule show_int_cons)
  have mi: "match_int (show_int i) = Some (show_int i, [])" using match_int_show [of "[]" i] by simp
  obtain sign q where sm: "split_minus (show_int i) = (sign, q)" by (cases "split_minus (show_int i)")
  with mi have q: "takeWhile is_digit q \<noteq> []" "dropWhile is_digit q = []" "sign @ takeWhile is_digit q = show_int i"
    by (auto simp: match_int_def Let_def split: if_splits)
  have "match_number (show_int i) = Some (show_int i, [])"
  proof -
    have "match_mantissa q = Some (takeWhile is_digit q, [])"
      unfolding match_mantissa_def Let_def using q(1,2) by (simp del: dropWhile_eq_Nil_conv)
    then show ?thesis using q(3) by (simp add: match_number_def sm match_exponent_def)
  qed
  then show ?thesis
    using cr show_int_no_quote [of i] by (auto simp: number_text_def is_space_def is_digit_def)
qed

declare json_escape_simps [simp del] regex_search.simps [simp del]

lemma unescape_literals [json_simps]:
  "unescape_json_string (json_escape ''little'') = ''little''"
  "unescape_json_string (json_escape ''binary_octet_stream'') = ''binary_octet_stream''"
  by (rule unescape_escape, simp add: unicode_escaped_def)+

end
