(* ===== verification/Request_Metadata.thy ===== *)
theory Request_Metadata
  imports Dli2_Protocol Tensor_Abi Float_Bits Partition_Graph Json_Text
begin

text \<open>
  The request metadata that travels with every frame: the gateway writes it as JSON
  (\<open>request_metadata_json\<close>, compact or verbose), every stage reads it back field by field
  (\<open>metadata.cpp\<close>) into a runtime request (\<open>server.cpp\<close>, \<open>runtime.hpp\<close>).

  Reading and printing doubles is the C++ library's: \<open>number_io\<close> collects \<open>std::stod\<close> (\<open>None\<close>
  when it throws), \<open>operator<<\<close>, \<open>std::to_string\<close> and the casts to 64-bit integers.
\<close>

record number_io =
  stod :: "string \<Rightarrow> f64 option"
  stream_f64 :: "f64 \<Rightarrow> string"
  to_string_f64 :: "f64 \<Rightarrow> string"
  i64_of_f64 :: "f64 \<Rightarrow> int"
  u64_of_f64 :: "f64 \<Rightarrow> int"

text \<open>\<open>if (value) field = *value;\<close> on a field with a default.\<close>

definition or_default :: "'a \<Rightarrow> 'a option \<Rightarrow> 'a" where
  "or_default d v = (case v of None \<Rightarrow> d | Some x \<Rightarrow> x)"

lemma or_default_simps [simp]: "or_default d None = d" "or_default d (Some x) = x"
  by (simp_all add: or_default_def)

section \<open>Field readers\<close>

definition extract_string_field :: "string \<Rightarrow> string \<Rightarrow> string option" where
  "extract_string_field json key =
     (case regex_search (match_field key match_string) json of
        None \<Rightarrow> None
      | Some (t, _) \<Rightarrow> Some (unescape_json_string t))"

definition extract_int_field :: "string \<Rightarrow> string \<Rightarrow> int option result" where
  "extract_int_field json key =
     (case regex_search (match_field key match_int) json of
        None \<Rightarrow> Inr None
      | Some (t, _) \<Rightarrow>
          (case stoi t of
             None \<Rightarrow> Inl (''invalid integer metadata field: '' @ key)
           | Some i \<Rightarrow> Inr (Some i)))"

definition extract_double_field :: "number_io \<Rightarrow> string \<Rightarrow> string \<Rightarrow> f64 option result" where
  "extract_double_field io json key =
     (case regex_search (match_field key match_number) json of
        None \<Rightarrow> Inr None
      | Some (t, _) \<Rightarrow>
          (case stod io t of
             None \<Rightarrow> Inl (''invalid floating-point metadata field: '' @ key)
           | Some d \<Rightarrow> Inr (Some d)))"

definition extract_bool_field :: "string \<Rightarrow> string \<Rightarrow> bool option" where
  "extract_bool_field json key =
     (case regex_search (match_field key match_bool) json of
        None \<Rightarrow> None
      | Some (t, _) \<Rightarrow> Some (t = ''true''))"

definition match_shape :: matcher where
  "match_shape s =
     (case match_field ''shape'' match_brackets s of
        Some r \<Rightarrow> Some r
      | None \<Rightarrow> match_field ''sh'' match_brackets s)"

definition extract_shape :: "string \<Rightarrow> int list result" where
  "extract_shape json =
     (case regex_search match_shape json of
        None \<Rightarrow> Inr []
      | Some (shape_body, _) \<Rightarrow>
          mapR (\<lambda>t. case stoll t of
                      None \<Rightarrow> Inl ''invalid tensor shape dimension''
                    | Some i \<Rightarrow> Inr i) (all_ints shape_body))"

definition extract_string_alias :: "string \<Rightarrow> string \<Rightarrow> string \<Rightarrow> string option" where
  "extract_string_alias json long_key short_key =
     (case extract_string_field json long_key of
        Some v \<Rightarrow> Some v
      | None \<Rightarrow> extract_string_field json short_key)"

definition extract_int_alias :: "string \<Rightarrow> string \<Rightarrow> string \<Rightarrow> int option result" where
  "extract_int_alias json long_key short_key =
     bindR (extract_int_field json long_key) (\<lambda>v.
       case v of Some i \<Rightarrow> Inr (Some i) | None \<Rightarrow> extract_int_field json short_key)"

definition extract_bool_alias :: "string \<Rightarrow> string \<Rightarrow> string \<Rightarrow> bool option" where
  "extract_bool_alias json long_key short_key =
     (case extract_bool_field json long_key of
        Some v \<Rightarrow> Some v
      | None \<Rightarrow> extract_bool_field json short_key)"

section \<open>The parsed metadata\<close>

text \<open>A pair of a \<open>has_x\<close> flag and \<open>x\<close> is kept as the two fields it is in the code.\<close>

record parsed_metadata =
  pm_request_id :: string
  pm_token_index :: int
  pm_generation_mode :: string
  pm_tensor :: tensor_metadata
  pm_kv_cache_enabled :: bool
  pm_activation_precision :: string
  pm_transport_mode :: string
  pm_rebalance_profile :: string
  pm_persistent_sessions_enabled :: bool
  pm_topology_aware_routing :: bool
  pm_metadata_level :: string
  pm_native_stage_chaining_enabled :: bool
  pm_has_temperature :: bool
  pm_temperature :: f64
  pm_has_top_k :: bool
  pm_top_k :: int
  pm_has_top_p :: bool
  pm_top_p :: f64
  pm_has_seed :: bool
  pm_seed :: int
  pm_has_next_token_id :: bool
  pm_next_token_id :: int
  pm_stage_input_token_count :: int

definition parse_request_metadata :: "number_io \<Rightarrow> string \<Rightarrow> parsed_metadata result" where
  "parse_request_metadata io json =
     bindR (extract_int_alias json ''token_index'' ''ti'') (\<lambda>ti.
     bindR (extract_int_alias json ''next_token_id'' ''nt'') (\<lambda>nt.
     bindR (extract_shape json) (\<lambda>sh.
     bindR (extract_double_field io json ''temperature'') (\<lambda>temp.
     bindR (extract_int_field json ''top_k'') (\<lambda>tk.
     bindR (extract_double_field io json ''top_p'') (\<lambda>tp.
     bindR (extract_double_field io json ''seed'') (\<lambda>sd.
     Inr \<lparr>pm_request_id = or_default [] (extract_string_alias json ''request_id'' ''rid''),
          pm_token_index = or_default 0 ti,
          pm_generation_mode = or_default ''unknown'' (extract_string_alias json ''generation_mode'' ''gm''),
          pm_tensor =
            \<lparr>dtype = or_default [] (extract_string_alias json ''dtype'' ''dt''),
             shape = sh,
             byte_order = or_default ''little'' (extract_string_alias json ''byte_order'' ''bo'')\<rparr>,
          pm_kv_cache_enabled = or_default False (extract_bool_alias json ''kv_cache_enabled'' ''kv''),
          pm_activation_precision = or_default ''fp32'' (extract_string_alias json ''activation_precision'' ''ap''),
          pm_transport_mode = or_default ''binary_octet_stream'' (extract_string_alias json ''transport_mode'' ''tm''),
          pm_rebalance_profile = or_default ''baseline'' (extract_string_field json ''rebalance_profile''),
          pm_persistent_sessions_enabled =
            or_default False (extract_bool_alias json ''persistent_sessions_enabled'' ''ps''),
          pm_topology_aware_routing = or_default False (extract_bool_field json ''topology_aware_routing''),
          pm_metadata_level = or_default ''debug'' (extract_string_alias json ''metadata_level'' ''ml''),
          pm_native_stage_chaining_enabled =
            or_default False (extract_bool_alias json ''native_stage_chaining_enabled'' ''nsc''),
          pm_has_temperature = (temp \<noteq> None), pm_temperature = or_default f64_zero temp,
          pm_has_top_k = (tk \<noteq> None), pm_top_k = or_default 0 tk,
          pm_has_top_p = (tp \<noteq> None), pm_top_p = or_default f64_zero tp,
          pm_has_seed = (sd \<noteq> None), pm_seed = (case sd of None \<Rightarrow> 0 | Some d \<Rightarrow> i64_of_f64 io d),
          pm_has_next_token_id = (nt \<noteq> None), pm_next_token_id = or_default (- 1) nt,
          pm_stage_input_token_count = infer_sequence_length_from_shape sh\<rparr>)))))))"

section \<open>The runtime request\<close>

record runtime_request =
  rq_request_id :: string
  rq_token_index :: int
  rq_stage_id :: int
  rq_generation_mode :: string
  rq_input_metadata_json :: string
  rq_input_tensor :: tensor_buffer
  rq_kv_cache_enabled :: bool
  rq_activation_precision :: string
  rq_transport_mode :: string
  rq_rebalance_profile :: string
  rq_persistent_sessions_enabled :: bool
  rq_topology_aware_routing :: bool
  rq_metadata_level :: string
  rq_native_stage_chaining_enabled :: bool
  rq_has_temperature :: bool
  rq_temperature :: f64
  rq_has_top_k :: bool
  rq_top_k :: int
  rq_has_top_p :: bool
  rq_top_p :: f64
  rq_has_seed :: bool
  rq_seed :: int
  rq_has_next_token_id :: bool
  rq_next_token_id :: int
  rq_stage_input_token_count :: int

definition make_runtime_request :: "number_io \<Rightarrow> dli_frame \<Rightarrow> int \<Rightarrow> runtime_request result" where
  "make_runtime_request io input sid =
     bindR (parse_request_metadata io (metadata_json input)) (\<lambda>parsed.
     Inr \<lparr>rq_request_id = pm_request_id parsed,
          rq_token_index = pm_token_index parsed,
          rq_stage_id = sid,
          rq_generation_mode = pm_generation_mode parsed,
          rq_input_metadata_json = metadata_json input,
          rq_input_tensor = \<lparr>metadata = pm_tensor parsed, bytes = tensor_bytes input\<rparr>,
          rq_kv_cache_enabled = pm_kv_cache_enabled parsed,
          rq_activation_precision = pm_activation_precision parsed,
          rq_transport_mode = pm_transport_mode parsed,
          rq_rebalance_profile = pm_rebalance_profile parsed,
          rq_persistent_sessions_enabled = pm_persistent_sessions_enabled parsed,
          rq_topology_aware_routing = pm_topology_aware_routing parsed,
          rq_metadata_level = pm_metadata_level parsed,
          rq_native_stage_chaining_enabled = pm_native_stage_chaining_enabled parsed,
          rq_has_temperature = pm_has_temperature parsed, rq_temperature = pm_temperature parsed,
          rq_has_top_k = pm_has_top_k parsed, rq_top_k = pm_top_k parsed,
          rq_has_top_p = pm_has_top_p parsed, rq_top_p = pm_top_p parsed,
          rq_has_seed = pm_has_seed parsed, rq_seed = pm_seed parsed,
          rq_has_next_token_id = pm_has_next_token_id parsed, rq_next_token_id = pm_next_token_id parsed,
          rq_stage_input_token_count = pm_stage_input_token_count parsed\<rparr>)"

section \<open>The gateway's writer\<close>

record generation_loop_config =
  first_stage_url :: string
  model_path :: string
  max_new_tokens :: int
  min_new_tokens :: int
  apply_chat_template :: bool
  gl_temperature :: f64
  gl_top_k :: int
  gl_has_top_p :: bool
  gl_top_p :: f64
  gl_has_seed :: bool
  gl_seed :: int
  partitions :: "partition_node list"
  persistent_sessions_enabled :: bool
  native_stage_chaining_enabled :: bool
  activation_precision :: string
  metadata_level :: string

definition metadata_level_is_compact :: "string \<Rightarrow> bool" where
  "metadata_level_is_compact level \<longleftrightarrow> level = ''compact'' \<or> level = ''minimal''"

text \<open>Both call sites pass the fields of the loop configuration one by one; the model passes the
  configuration.\<close>

definition request_metadata_json ::
    "number_io \<Rightarrow> generation_loop_config \<Rightarrow> string \<Rightarrow> int \<Rightarrow> string \<Rightarrow> string \<Rightarrow> int list \<Rightarrow> string" where
  "request_metadata_json io cfg request_id token_index generation_mode dt sh =
     (let sequence_length = (if length sh \<ge> 2 then sh ! 1 else 0);
          top_p_json = (if gl_has_top_p cfg then to_string_f64 io (gl_top_p cfg) else ''null'');
          seed_json = (if gl_has_seed cfg then json_key ''seed'' @ show_int (gl_seed cfg) @ '','' else [])
      in if metadata_level_is_compact (metadata_level cfg)
         then ''{'' @ json_key ''rid'' @ json_str request_id @ '',''
            @ json_key ''ti'' @ show_int token_index @ '',''
            @ json_key ''gm'' @ json_str generation_mode @ '',''
            @ json_key ''dt'' @ json_str dt @ '',''
            @ json_key ''sh'' @ shape_json sh @ '',''
            @ json_key ''bo'' @ json_str ''little'' @ '',''
            @ json_key ''ap'' @ json_str (activation_precision cfg) @ '',''
            @ json_key ''kv'' @ json_bool True @ '',''
            @ json_key ''ps'' @ json_bool (persistent_sessions_enabled cfg) @ '',''
            @ json_key ''nsc'' @ json_bool (native_stage_chaining_enabled cfg) @ '',''
            @ json_key ''temperature'' @ stream_f64 io (gl_temperature cfg) @ '',''
            @ json_key ''top_k'' @ show_int (gl_top_k cfg) @ '',''
            @ json_key ''top_p'' @ top_p_json @ '',''
            @ seed_json
            @ json_key ''m'' @ show_int (min_new_tokens cfg) @ ''}''
         else ''{'' @ json_key ''request_id'' @ json_str request_id @ '',''
            @ json_key ''token_index'' @ show_int token_index @ '',''
            @ json_key ''generation_mode'' @ json_str generation_mode @ '',''
            @ json_key ''sequence_length'' @ show_int sequence_length @ '',''
            @ json_key ''tensor'' @ ''{''
            @ json_key ''dtype'' @ json_str dt @ '',''
            @ json_key ''shape'' @ shape_json sh @ '',''
            @ json_key ''byte_order'' @ json_str ''little'' @ ''},''
            @ json_key ''feature_flags'' @ ''{''
            @ json_key ''kv_cache_enabled'' @ json_bool True @ '',''
            @ json_key ''transport_mode'' @ json_str ''binary_octet_stream'' @ '',''
            @ json_key ''activation_precision'' @ json_str (activation_precision cfg) @ '',''
            @ json_key ''persistent_sessions_enabled'' @ json_bool (persistent_sessions_enabled cfg) @ '',''
            @ json_key ''native_stage_chaining_enabled'' @ json_bool (native_stage_chaining_enabled cfg) @ '',''
            @ json_key ''metadata_level'' @ json_str (metadata_level cfg) @ '',''
            @ json_key ''apply_chat_template'' @ json_bool (apply_chat_template cfg) @ ''},''
            @ json_key ''sampling'' @ ''{''
            @ json_key ''temperature'' @ stream_f64 io (gl_temperature cfg) @ '',''
            @ json_key ''top_k'' @ show_int (gl_top_k cfg) @ '',''
            @ json_key ''top_p'' @ top_p_json @ '',''
            @ seed_json
            @ json_key ''min_new_tokens'' @ show_int (min_new_tokens cfg) @ ''}}'')"

section \<open>Reading the fields of a written text\<close>

named_theorems read_simps \<open>the field readers on written metadata\<close>

lemma plain_keys [read_simps]:
  "plain_key ''request_id''" "plain_key ''rid''" "plain_key ''token_index''" "plain_key ''ti''"
  "plain_key ''next_token_id''" "plain_key ''nt''" "plain_key ''generation_mode''" "plain_key ''gm''"
  "plain_key ''activation_precision''" "plain_key ''ap''" "plain_key ''transport_mode''" "plain_key ''tm''"
  "plain_key ''rebalance_profile''" "plain_key ''persistent_sessions_enabled''" "plain_key ''ps''"
  "plain_key ''topology_aware_routing''" "plain_key ''metadata_level''" "plain_key ''ml''"
  "plain_key ''native_stage_chaining_enabled''" "plain_key ''nsc''" "plain_key ''dtype''" "plain_key ''dt''"
  "plain_key ''byte_order''" "plain_key ''bo''" "plain_key ''shape''" "plain_key ''sh''"
  "plain_key ''kv_cache_enabled''" "plain_key ''kv''" "plain_key ''temperature''" "plain_key ''top_k''"
  "plain_key ''top_p''" "plain_key ''seed''" "plain_key ''m''" "plain_key ''sequence_length''"
  "plain_key ''tensor''" "plain_key ''feature_flags''" "plain_key ''apply_chat_template''"
  "plain_key ''sampling''" "plain_key ''min_new_tokens''"
  by (simp_all add: plain_key_def is_key_char_def)

lemma match_number_null [read_simps]: "match_number (CHR ''n'' # s) = None"
  by (simp add: match_number_def split_minus_def match_mantissa_def is_digit_def)

text \<open>A search for either of two keys is a search for one of them when the other is absent.\<close>

lemma regex_search_orelse:
  assumes "regex_search m s = None"
  shows "regex_search (\<lambda>s. case m s of Some r \<Rightarrow> Some r | None \<Rightarrow> m' s) s = regex_search m' s"
  using assms by (induction s) (auto simp: regex_search.simps split: option.splits)

lemma regex_search_orelse2:
  assumes "regex_search m' s = None"
  shows "regex_search (\<lambda>s. case m s of Some r \<Rightarrow> Some r | None \<Rightarrow> m' s) s = regex_search m s"
  using assms by (induction s) (auto simp: regex_search.simps split: option.splits)

lemma match_shape_fun:
  "match_shape = (\<lambda>s. case match_field ''shape'' match_brackets s of Some r \<Rightarrow> Some r
                      | None \<Rightarrow> match_field ''sh'' match_brackets s)"
  by (rule ext) (simp add: match_shape_def)

lemma search_shape_long:
  "search_field ''sh'' match_brackets s = None \<Longrightarrow>
   regex_search match_shape s = search_field ''shape'' match_brackets s"
  unfolding match_shape_fun by (rule regex_search_orelse2)

lemma search_shape_short:
  "search_field ''shape'' match_brackets s = None \<Longrightarrow>
   regex_search match_shape s = search_field ''sh'' match_brackets s"
  unfolding match_shape_fun by (rule regex_search_orelse)

definition int64_range :: "int \<Rightarrow> bool" where
  "int64_range i \<longleftrightarrow> - (2 ^ 63) \<le> i \<and> i < 2 ^ 63"

definition int32_range :: "int \<Rightarrow> bool" where
  "int32_range i \<longleftrightarrow> - (2 ^ 31) \<le> i \<and> i < 2 ^ 31"

lemma read_shape_body:
  "list_all int64_range sh \<Longrightarrow>
   mapR (\<lambda>t. case stoll t of None \<Rightarrow> Inl e | Some i \<Rightarrow> Inr i) (all_ints (comma_ints sh)) = Inr sh"
  unfolding all_ints_comma by (induction sh) (simp_all add: int64_range_def stoll_def)

lemma stoi_range [read_simps]: "int32_range i \<Longrightarrow> stoi (show_int i) = Some i"
  by (simp add: stoi_def int32_range_def)

lemmas search_simps = json_simps read_simps

section \<open>What a stage reads is what the gateway wrote\<close>

text \<open>What the gateway may write: texts without control characters that \<open>json_escape\<close> writes in the
  unicode form, numbers that fit their types, doubles that print as numbers.\<close>

definition sendable :: "number_io \<Rightarrow> generation_loop_config \<Rightarrow> string \<Rightarrow> int \<Rightarrow> string \<Rightarrow> string \<Rightarrow> int list \<Rightarrow> bool" where
  "sendable io cfg request_id token_index generation_mode dt sh \<longleftrightarrow>
     list_all escape_safe [request_id, generation_mode, dt, activation_precision cfg, metadata_level cfg] \<and>
     int32_range token_index \<and> int32_range (gl_top_k cfg) \<and> list_all int64_range sh \<and>
     number_text (stream_f64 io (gl_temperature cfg)) \<and> number_text (to_string_f64 io (gl_top_p cfg))"

lemmas reader_defs = extract_string_alias_def extract_string_field_def extract_int_alias_def extract_int_field_def
  extract_bool_alias_def extract_bool_field_def extract_double_field_def extract_shape_def

text \<open>The metadata a stage sees. The compact form does not carry the metadata level.\<close>

definition sent_metadata ::
    "number_io \<Rightarrow> generation_loop_config \<Rightarrow> string \<Rightarrow> int \<Rightarrow> string \<Rightarrow> string \<Rightarrow> int list \<Rightarrow> parsed_metadata" where
  "sent_metadata io cfg request_id token_index generation_mode dt sh =
     \<lparr>pm_request_id = request_id, pm_token_index = token_index, pm_generation_mode = generation_mode,
      pm_tensor = \<lparr>dtype = dt, shape = sh, byte_order = ''little''\<rparr>,
      pm_kv_cache_enabled = True, pm_activation_precision = activation_precision cfg,
      pm_transport_mode = ''binary_octet_stream'', pm_rebalance_profile = ''baseline'',
      pm_persistent_sessions_enabled = persistent_sessions_enabled cfg, pm_topology_aware_routing = False,
      pm_metadata_level = (if metadata_level_is_compact (metadata_level cfg) then ''debug'' else metadata_level cfg),
      pm_native_stage_chaining_enabled = native_stage_chaining_enabled cfg,
      pm_has_temperature = True, pm_temperature = the (stod io (stream_f64 io (gl_temperature cfg))),
      pm_has_top_k = True, pm_top_k = gl_top_k cfg,
      pm_has_top_p = gl_has_top_p cfg,
      pm_top_p = (if gl_has_top_p cfg then the (stod io (to_string_f64 io (gl_top_p cfg))) else f64_zero),
      pm_has_seed = gl_has_seed cfg,
      pm_seed = (if gl_has_seed cfg then i64_of_f64 io (the (stod io (show_int (gl_seed cfg)))) else 0),
      pm_has_next_token_id = False, pm_next_token_id = - 1,
      pm_stage_input_token_count = infer_sequence_length_from_shape sh\<rparr>"

text \<open>\<open>std::stod\<close> accepts the printed numbers.\<close>

definition readable :: "number_io \<Rightarrow> generation_loop_config \<Rightarrow> bool" where
  "readable io cfg \<longleftrightarrow> stod io (stream_f64 io (gl_temperature cfg)) \<noteq> None \<and>
     stod io (to_string_f64 io (gl_top_p cfg)) \<noteq> None \<and> stod io (show_int (gl_seed cfg)) \<noteq> None"


lemma compact_shape:
  assumes "sendable io cfg rid ti gm dt sh" "metadata_level_is_compact (metadata_level cfg)"
  shows "extract_shape (request_metadata_json io cfg rid ti gm dt sh) = Inr sh"
proof -
  have long: "search_field ''shape'' match_brackets (request_metadata_json io cfg rid ti gm dt sh) = None"
    using assms by (simp add: request_metadata_json_def sendable_def search_simps)
  have "\<exists>r. search_field ''sh'' match_brackets (request_metadata_json io cfg rid ti gm dt sh) = Some (comma_ints sh, r)"
    using assms by (simp add: request_metadata_json_def sendable_def search_simps)
  then show ?thesis using assms(1) read_shape_body [of sh]
    by (auto simp: extract_shape_def search_shape_short [OF long] sendable_def)
qed

lemma verbose_shape:
  assumes "sendable io cfg rid ti gm dt sh" "\<not> metadata_level_is_compact (metadata_level cfg)"
  shows "extract_shape (request_metadata_json io cfg rid ti gm dt sh) = Inr sh"
proof -
  have short: "search_field ''sh'' match_brackets (request_metadata_json io cfg rid ti gm dt sh) = None"
    using assms by (simp add: request_metadata_json_def sendable_def search_simps)
  have "\<exists>r. search_field ''shape'' match_brackets (request_metadata_json io cfg rid ti gm dt sh) = Some (comma_ints sh, r)"
    using assms by (simp add: request_metadata_json_def sendable_def search_simps)
  then show ?thesis using assms(1) read_shape_body [of sh]
    by (auto simp: extract_shape_def search_shape_long [OF short] sendable_def)
qed

lemma compact_roundtrip:
  assumes "sendable io cfg rid ti gm dt sh" "metadata_level_is_compact (metadata_level cfg)" "readable io cfg"
  shows "parse_request_metadata io (request_metadata_json io cfg rid ti gm dt sh) =
    Inr (sent_metadata io cfg rid ti gm dt sh)"
  unfolding parse_request_metadata_def compact_shape [OF assms(1,2)]
  using assms
  by (auto simp: reader_defs request_metadata_json_def sendable_def search_simps sent_metadata_def readable_def)

lemma verbose_roundtrip:
  assumes "sendable io cfg rid ti gm dt sh" "\<not> metadata_level_is_compact (metadata_level cfg)" "readable io cfg"
  shows "parse_request_metadata io (request_metadata_json io cfg rid ti gm dt sh) =
    Inr (sent_metadata io cfg rid ti gm dt sh)"
  unfolding parse_request_metadata_def verbose_shape [OF assms(1,2)]
  using assms
  by (auto simp: reader_defs request_metadata_json_def sendable_def search_simps sent_metadata_def readable_def)

lemma gateway_metadata_read:
  assumes "sendable io cfg rid ti gm dt sh" "readable io cfg"
  shows "parse_request_metadata io (request_metadata_json io cfg rid ti gm dt sh) =
    Inr (sent_metadata io cfg rid ti gm dt sh)"
  using compact_roundtrip [OF assms(1) _ assms(2)] verbose_roundtrip [OF assms(1) _ assms(2)] by blast


section \<open>A sample\<close>

definition sample_io :: number_io where
  "sample_io = \<lparr>stod = (\<lambda>t. Some (if t = ''0.8'' then 0x3FE999999999999A else 0x3FECCCCCCCCCCCCD)),
     stream_f64 = (\<lambda>_. ''0.8''), to_string_f64 = (\<lambda>_. ''0.900000''),
     i64_of_f64 = (\<lambda>_. 0), u64_of_f64 = (\<lambda>_. 0)\<rparr>"

definition sample_config :: generation_loop_config where
  "sample_config = \<lparr>first_stage_url = ''http://a:1'', model_path = [], max_new_tokens = 2, min_new_tokens = 0,
     apply_chat_template = False, gl_temperature = 0x3FE999999999999A, gl_top_k = 40, gl_has_top_p = True,
     gl_top_p = 0x3FECCCCCCCCCCCCD, gl_has_seed = False, gl_seed = 0, partitions = [],
     persistent_sessions_enabled = True, native_stage_chaining_enabled = False,
     activation_precision = ''fp16'', metadata_level = ''compact''\<rparr>"

lemma sample_sendable:
  "sendable sample_io sample_config ''r\"1'' 0 ''prefill'' ''int64'' [1, 3]" "readable sample_io sample_config"
  by (simp_all add: sendable_def readable_def sample_io_def sample_config_def unicode_escaped_def int32_range_def
    int64_range_def number_text_def match_number_def split_minus_def match_mantissa_def is_digit_def
    match_exponent_def is_space_def)


end
