(* ===== verification/Yaml_Lines.thy ===== *)
theory Yaml_Lines
  imports Json_Text Partition_Graph
begin

text \<open>
  The line-based reading of \<open>stage_map.yaml\<close> that the gateway and the stage server share by copy
  (\<open>dli_stage_cpp/src/config.cpp\<close>, \<open>dli_gateway_cpp/src/config.cpp\<close>): trimming, the value after the
  colon, the indentation, list items. The file itself is the text \<open>std::getline\<close> splits.
\<close>

definition is_blank :: "char \<Rightarrow> bool" where
  "is_blank c \<longleftrightarrow> c = CHR '' '' \<or> c = CHR 0x09"

definition is_trailing_blank :: "char \<Rightarrow> bool" where
  "is_trailing_blank c \<longleftrightarrow> is_blank c \<or> c = CHR 0x0D"

definition drop_trailing :: "(char \<Rightarrow> bool) \<Rightarrow> string \<Rightarrow> string" where
  "drop_trailing p s = rev (dropWhile p (rev s))"

definition trim_copy :: "string \<Rightarrow> string" where
  "trim_copy value = drop_trailing is_trailing_blank (dropWhile is_blank value)"

definition indent_width :: "string \<Rightarrow> nat" where
  "indent_width line = length (takeWhile (\<lambda>c. c = CHR '' '') line)"

text \<open>\<open>value = value.substr(1, value.size() - 2)\<close> when both ends are the given mark.\<close>

definition strip_marks :: "char \<Rightarrow> string \<Rightarrow> string" where
  "strip_marks mark value =
     (if length value \<ge> 2 \<and> hd value = mark \<and> last value = mark then butlast (tl value) else value)"

definition value_after_colon :: "string \<Rightarrow> string" where
  "value_after_colon line =
     (if CHR '':'' \<notin> set line then []
      else let value = trim_copy (tl (dropWhile (\<lambda>c. c \<noteq> CHR '':'') line))
           in if value = ''null'' then []
              else strip_marks (CHR 0x27) (strip_marks quote value))"

definition parse_bool_value :: "string \<Rightarrow> bool" where
  "parse_bool_value value \<longleftrightarrow> value = ''true'' \<or> value = ''True'' \<or> value = ''yes'' \<or> value = ''1''"

definition is_stage_list_item :: "string \<Rightarrow> bool" where
  "is_stage_list_item trimmed = starts_with trimmed ''- stage_id:''"

text \<open>\<open>std::stoi\<close> on an arbitrary text: white space, a sign, digits; the rest is ignored. Both of its
  exceptions carry the text \<open>stoi\<close>.\<close>

definition std_stoi :: "string \<Rightarrow> int result" where
  "std_stoi s =
     (let r = skip_ws s;
          neg = (r \<noteq> [] \<and> hd r = CHR ''-'');
          r = (if r \<noteq> [] \<and> (hd r = CHR ''-'' \<or> hd r = CHR ''+'') then tl r else r);
          ds = takeWhile is_digit r;
          i = (if neg then - int (read_nat ds) else int (read_nat ds))
      in if ds = [] then Inl ''stoi''
         else if - (2 ^ 31) \<le> i \<and> i < 2 ^ 31 then Inr i else Inl ''stoi'')"

definition parse_stage_id_from_list_item :: "string \<Rightarrow> int result" where
  "parse_stage_id_from_list_item trimmed =
     (let value = value_after_colon trimmed
      in if value = [] then Inl ''stage list item missing stage_id value'' else std_stoi value)"

text \<open>\<open>while (std::getline(input, line))\<close>: a last line without a line feed counts when it is not
  empty.\<close>

function getlines :: "string \<Rightarrow> string list" where
  "getlines s =
     (if s = [] then []
      else takeWhile (\<lambda>c. c \<noteq> CHR 0x0A) s # getlines (tl (dropWhile (\<lambda>c. c \<noteq> CHR 0x0A) s)))"
  by auto
termination
  by (relation "measure length")
    (auto simp: less_le_trans [OF diff_less [OF zero_less_one] length_dropWhile_le] neq_Nil_conv
      le_imp_less_Suc [OF length_dropWhile_le] diff_le_self less_Suc_eq_le
      intro: order_trans [OF diff_le_self length_dropWhile_le] le_imp_less_Suc)

declare getlines.simps [simp del]

end
