(* ===== verification/Stage_Map.thy ===== *)
theory Stage_Map
  imports Yaml_Lines
begin

text \<open>
  The two readers of \<open>stage_map.yaml\<close>: the stage server picks its own entry
  (\<open>load_stage_config_from_file\<close>), the gateway reads all of them and validates the graph
  (\<open>load_gateway_config_from_file\<close>). Each is a scan over the lines with the flags of the code.
  The file is the text it contains (\<open>None\<close> when it cannot be opened).
\<close>

section \<open>The stage server's configuration\<close>

record stage_config =
  sc_stage_id :: int
  sc_port :: int
  sc_config_path :: string
  sc_service_name :: string
  sc_physical_node :: string
  sc_partition_file :: string
  sc_native_partition_file :: string
  sc_backend :: string
  sc_next_stage_url :: string
  sc_components :: partition_components

definition default_stage_config :: stage_config where
  "default_stage_config = \<lparr>sc_stage_id = 0, sc_port = 8000, sc_config_path = ''/app/configs/stage_map.yaml'',
     sc_service_name = ''dli-stage-cpp'', sc_physical_node = [], sc_partition_file = [],
     sc_native_partition_file = [], sc_backend = [], sc_next_stage_url = [],
     sc_components = empty_components\<rparr>"

record stage_scan =
  ss_config :: stage_config
  ss_inside_inference_stages :: bool
  ss_inside_target_stage :: bool
  ss_inside_components :: bool
  ss_inside_layers :: bool
  ss_stopped :: bool

text \<open>A field of the entry, outside its components.\<close>

definition stage_field_line :: "string \<Rightarrow> stage_config \<Rightarrow> stage_config" where
  "stage_field_line trimmed config =
     (if starts_with trimmed ''service_name:''
      then config\<lparr>sc_service_name := value_after_colon trimmed\<rparr>
      else if starts_with trimmed ''physical_node:''
      then config\<lparr>sc_physical_node := value_after_colon trimmed\<rparr>
      else if starts_with trimmed ''partition_file:''
      then config\<lparr>sc_partition_file := value_after_colon trimmed\<rparr>
      else if starts_with trimmed ''native_partition_file:''
      then config\<lparr>sc_native_partition_file := value_after_colon trimmed\<rparr>
      else if starts_with trimmed ''backend:''
      then config\<lparr>sc_backend := value_after_colon trimmed\<rparr>
      else if starts_with trimmed ''next_stage_url:''
      then config\<lparr>sc_next_stage_url := value_after_colon trimmed\<rparr>
      else config)"

text \<open>A line inside \<open>components:\<close>: the flag \<open>inside_layers\<close> and the components.\<close>

definition stage_component_line ::
    "string \<Rightarrow> bool \<times> partition_components \<Rightarrow> (bool \<times> partition_components) result" where
  "stage_component_line trimmed = (\<lambda>(in_layers, c).
     if starts_with trimmed ''embedding:''
     then Inr (in_layers, c\<lparr>embedding := parse_bool_value (value_after_colon trimmed)\<rparr>)
     else if starts_with trimmed ''norm:''
     then Inr (in_layers, c\<lparr>norm := parse_bool_value (value_after_colon trimmed)\<rparr>)
     else if starts_with trimmed ''lm_head:''
     then Inr (in_layers, c\<lparr>lm_head := parse_bool_value (value_after_colon trimmed)\<rparr>)
     else if starts_with trimmed ''layers:'' then Inr (True, c)
     else if in_layers \<and> starts_with trimmed ''-''
     then let item = trim_copy (tl trimmed)
          in if item = [] then Inr (in_layers, c)
             else bindR (std_stoi item) (\<lambda>i. Inr (in_layers, c\<lparr>layers := layers c @ [i]\<rparr>))
     else Inr (in_layers, c))"

definition stage_entry_line :: "nat \<Rightarrow> string \<Rightarrow> stage_scan \<Rightarrow> stage_scan result" where
  "stage_entry_line indent trimmed st =
     (if starts_with trimmed ''components:''
      then Inr (st\<lparr>ss_inside_components := True, ss_inside_layers := False\<rparr>)
      else if \<not> ss_inside_components st \<or> indent \<le> 2
      then Inr (st\<lparr>ss_inside_components := False,
                   ss_inside_layers := ss_inside_layers st \<and> \<not> ss_inside_components st,
                   ss_config := stage_field_line trimmed (ss_config st)\<rparr>)
      else bindR (stage_component_line trimmed (ss_inside_layers st, sc_components (ss_config st))) (\<lambda>(l, c).
           Inr (st\<lparr>ss_inside_layers := l, ss_config := (ss_config st)\<lparr>sc_components := c\<rparr>\<rparr>)))"

definition stage_scan_line :: "int \<Rightarrow> string \<Rightarrow> stage_scan \<Rightarrow> stage_scan result" where
  "stage_scan_line wanted line st =
     (let trimmed = trim_copy line; indent = indent_width line
      in if ss_stopped st \<or> trimmed = [] \<or> starts_with trimmed ''#'' then Inr st
         else if \<not> ss_inside_inference_stages st
         then Inr (if indent = 0 \<and> starts_with trimmed ''inference_stages:''
                   then st\<lparr>ss_inside_inference_stages := True\<rparr> else st)
         else if indent = 0 \<and> \<not> is_stage_list_item trimmed \<and> \<not> starts_with trimmed ''inference_stages:''
         then Inr (st\<lparr>ss_stopped := True\<rparr>)
         else if is_stage_list_item trimmed
         then bindR (parse_stage_id_from_list_item trimmed) (\<lambda>current_stage_id.
              let st = st\<lparr>ss_inside_target_stage := (current_stage_id = wanted),
                          ss_inside_components := False, ss_inside_layers := False\<rparr>
              in Inr (if current_stage_id = wanted
                      then st\<lparr>ss_config := (ss_config st)\<lparr>sc_stage_id := current_stage_id,
                                sc_components := (sc_components (ss_config st))\<lparr>layers := []\<rparr>\<rparr>\<rparr>
                      else st))
         else if \<not> ss_inside_target_stage st then Inr st
         else stage_entry_line indent trimmed st)"

definition initial_stage_scan :: "string \<Rightarrow> int \<Rightarrow> stage_scan" where
  "initial_stage_scan path wanted =
     \<lparr>ss_config = default_stage_config\<lparr>sc_config_path := path, sc_stage_id := wanted, sc_service_name := []\<rparr>,
      ss_inside_inference_stages = False, ss_inside_target_stage = False, ss_inside_components = False,
      ss_inside_layers = False, ss_stopped = False\<rparr>"

definition load_stage_config_from_file :: "string option \<Rightarrow> string \<Rightarrow> int \<Rightarrow> stage_config result" where
  "load_stage_config_from_file content path wanted =
     (case content of
        None \<Rightarrow> Inl (''failed to open stage config file: '' @ path)
      | Some text \<Rightarrow>
          bindR (foldR (stage_scan_line wanted) (getlines text) (initial_stage_scan path wanted)) (\<lambda>st.
          if sc_service_name (ss_config st) = []
          then Inl (''stage_id='' @ show_int wanted @ '' not found or missing service_name in '' @ path)
          else Inr (ss_config st)))"

definition override_string :: "string \<Rightarrow> string \<Rightarrow> string" where
  "override_string file override = (if override \<noteq> [] then override else file)"

definition merge_stage_config :: "stage_config \<Rightarrow> stage_config \<Rightarrow> stage_config" where
  "merge_stage_config file override =
     file\<lparr>sc_config_path := override_string (sc_config_path file) (sc_config_path override),
          sc_stage_id := (if sc_stage_id override > 0 then sc_stage_id override else sc_stage_id file),
          sc_port := (if sc_port override > 0 then sc_port override else sc_port file),
          sc_service_name := override_string (sc_service_name file) (sc_service_name override),
          sc_physical_node := override_string (sc_physical_node file) (sc_physical_node override),
          sc_partition_file := override_string (sc_partition_file file) (sc_partition_file override),
          sc_native_partition_file := override_string (sc_native_partition_file file) (sc_native_partition_file override),
          sc_backend := override_string (sc_backend file) (sc_backend override),
          sc_next_stage_url := override_string (sc_next_stage_url file) (sc_next_stage_url override)\<rparr>"

section \<open>The gateway's configuration\<close>

record gateway_config =
  gc_config_path :: string
  gc_service_name :: string
  gc_model_name :: string
  gc_model_path :: string
  gc_first_stage_url :: string
  gc_port :: int
  gc_num_layers :: int
  gc_partitions :: "partition_node list"
  gc_partition_validation :: partition_graph_validation

definition default_gateway_config :: gateway_config where
  "default_gateway_config = \<lparr>gc_config_path = ''/app/configs/stage_map.yaml'', gc_service_name = ''dli-gateway-cpp'',
     gc_model_name = [], gc_model_path = [], gc_first_stage_url = [], gc_port = 8000, gc_num_layers = 0,
     gc_partitions = [], gc_partition_validation = empty_validation\<rparr>"

record gateway_scan =
  gs_config :: gateway_config
  gs_inside_gateway :: bool
  gs_inside_inference_stages :: bool
  gs_inside_current_partition :: bool
  gs_inside_components :: bool
  gs_inside_layers :: bool
  gs_gateway_indent :: int
  gs_current_partition :: partition_node

definition default_partition_id :: "int \<Rightarrow> string" where
  "default_partition_id sid = ''partition-'' @ show_int sid"

definition finish_partition_if_valid :: "gateway_scan \<Rightarrow> gateway_scan result" where
  "finish_partition_if_valid st =
     (if \<not> gs_inside_current_partition st then Inr st
      else let current = gs_current_partition st
      in if stage_id current \<le> 0 then Inl ''partition entry has invalid stage_id''
         else let current = (if partition_id current = []
                             then current\<lparr>partition_id := default_partition_id (stage_id current)\<rparr> else current)
         in if service_name current = []
            then Inl (''partition '' @ partition_id current @ '' is missing service_name'')
            else Inr (st\<lparr>gs_config := (gs_config st)\<lparr>gc_partitions := gc_partitions (gs_config st) @ [current]\<rparr>,
                         gs_current_partition := empty_partition_node,
                         gs_inside_current_partition := False\<rparr>))"

definition partition_field_line :: "string \<Rightarrow> partition_node \<Rightarrow> partition_node" where
  "partition_field_line trimmed p =
     (if starts_with trimmed ''partition_id:'' then p\<lparr>partition_id := value_after_colon trimmed\<rparr>
      else if starts_with trimmed ''service_name:'' then p\<lparr>service_name := value_after_colon trimmed\<rparr>
      else if starts_with trimmed ''physical_node:'' then p\<lparr>physical_node := value_after_colon trimmed\<rparr>
      else if starts_with trimmed ''partition_file:'' then p\<lparr>partition_file := value_after_colon trimmed\<rparr>
      else if starts_with trimmed ''native_partition_file:''
      then p\<lparr>native_partition_file := value_after_colon trimmed\<rparr>
      else if starts_with trimmed ''backend:'' then p\<lparr>backend := value_after_colon trimmed\<rparr>
      else if starts_with trimmed ''next_stage_url:'' then p\<lparr>next_stage_url := value_after_colon trimmed\<rparr>
      else p)"

definition partition_component_line ::
    "string \<Rightarrow> bool \<times> partition_components \<Rightarrow> (bool \<times> partition_components) result" where
  "partition_component_line trimmed = (\<lambda>(in_layers, c).
     if starts_with trimmed ''embedding:''
     then Inr (in_layers, c\<lparr>embedding := parse_bool_value (value_after_colon trimmed)\<rparr>)
     else if starts_with trimmed ''norm:''
     then Inr (in_layers, c\<lparr>norm := parse_bool_value (value_after_colon trimmed)\<rparr>)
     else if starts_with trimmed ''lm_head:''
     then Inr (in_layers, c\<lparr>lm_head := parse_bool_value (value_after_colon trimmed)\<rparr>)
     else if starts_with trimmed ''layers:'' then Inr (True, c)
     else if in_layers \<and> starts_with trimmed ''-''
     then let item = trim_copy (tl trimmed)
          in if item = [] then Inr (in_layers, c)
             else bindR (std_stoi item) (\<lambda>i. Inr (in_layers, c\<lparr>layers := layers c @ [i]\<rparr>))
     else Inr (in_layers, c))"

definition gateway_entry_line :: "nat \<Rightarrow> string \<Rightarrow> gateway_scan \<Rightarrow> gateway_scan result" where
  "gateway_entry_line indent trimmed st =
     (if starts_with trimmed ''components:''
      then Inr (st\<lparr>gs_inside_components := True, gs_inside_layers := False\<rparr>)
      else if \<not> gs_inside_components st \<or> indent \<le> 2
      then Inr (st\<lparr>gs_inside_components := False,
                   gs_inside_layers := gs_inside_layers st \<and> \<not> gs_inside_components st,
                   gs_current_partition := partition_field_line trimmed (gs_current_partition st)\<rparr>)
      else bindR (partition_component_line trimmed (gs_inside_layers st, components (gs_current_partition st)))
           (\<lambda>(l, c). Inr (st\<lparr>gs_inside_layers := l,
              gs_current_partition := (gs_current_partition st)\<lparr>components := c\<rparr>\<rparr>)))"

text \<open>The lines of the gateway's own section; \<open>None\<close> when the line is none of its fields.\<close>

definition gateway_section_line :: "string \<Rightarrow> gateway_config \<Rightarrow> gateway_config result option" where
  "gateway_section_line trimmed config =
     (if starts_with trimmed ''service_name:''
      then Some (Inr (config\<lparr>gc_service_name := value_after_colon trimmed\<rparr>))
      else if starts_with trimmed ''first_stage_url:''
      then Some (Inr (config\<lparr>gc_first_stage_url := value_after_colon trimmed\<rparr>))
      else if starts_with trimmed ''port:''
      then Some (case std_stoi (value_after_colon trimmed) of
                   Inl _ \<Rightarrow> Inl (''invalid gateway port in config: '' @ value_after_colon trimmed)
                 | Inr p \<Rightarrow> Inr (config\<lparr>gc_port := p\<rparr>))
      else None)"

definition gateway_stages_line :: "nat \<Rightarrow> string \<Rightarrow> gateway_scan \<Rightarrow> gateway_scan result" where
  "gateway_stages_line indent trimmed st =
     (if \<not> gs_inside_inference_stages st then Inr st
      else if is_stage_list_item trimmed
      then bindR (finish_partition_if_valid st) (\<lambda>st.
           bindR (parse_stage_id_from_list_item trimmed) (\<lambda>sid.
           Inr (st\<lparr>gs_current_partition :=
                     empty_partition_node\<lparr>stage_id := sid, partition_id := default_partition_id sid\<rparr>,
                   gs_inside_current_partition := True, gs_inside_components := False,
                   gs_inside_layers := False\<rparr>)))
      else if \<not> gs_inside_current_partition st then Inr st
      else gateway_entry_line indent trimmed st)"

definition leave_gateway :: "nat \<Rightarrow> gateway_scan \<Rightarrow> gateway_scan" where
  "leave_gateway indent st =
     (if gs_inside_gateway st \<and> int indent \<le> gs_gateway_indent st then st\<lparr>gs_inside_gateway := False\<rparr> else st)"

definition gateway_inner_line :: "nat \<Rightarrow> string \<Rightarrow> gateway_scan \<Rightarrow> gateway_scan result" where
  "gateway_inner_line indent trimmed st =
     (case (if gs_inside_gateway st then gateway_section_line trimmed (gs_config st) else None) of
        Some r \<Rightarrow> bindR r (\<lambda>config. Inr (st\<lparr>gs_config := config\<rparr>))
      | None \<Rightarrow> gateway_stages_line indent trimmed st)"

definition gateway_scan_line :: "string \<Rightarrow> gateway_scan \<Rightarrow> gateway_scan result" where
  "gateway_scan_line line st =
     (let trimmed = trim_copy line; indent = indent_width line
      in if trimmed = [] \<or> starts_with trimmed ''#'' then Inr st
         else if indent = 0 \<and> starts_with trimmed ''model_name:''
         then Inr (st\<lparr>gs_config := (gs_config st)\<lparr>gc_model_name := value_after_colon trimmed\<rparr>\<rparr>)
         else if indent = 0 \<and> starts_with trimmed ''model_path:''
         then Inr (st\<lparr>gs_config := (gs_config st)\<lparr>gc_model_path := value_after_colon trimmed\<rparr>\<rparr>)
         else if indent = 0 \<and> starts_with trimmed ''num_layers:''
         then bindR (std_stoi (value_after_colon trimmed)) (\<lambda>n.
              Inr (st\<lparr>gs_config := (gs_config st)\<lparr>gc_num_layers := n\<rparr>\<rparr>))
         else if indent = 0 \<and> starts_with trimmed ''inference_gateway:''
         then Inr (st\<lparr>gs_inside_gateway := True, gs_inside_inference_stages := False,
                      gs_inside_current_partition := False, gs_inside_components := False,
                      gs_inside_layers := False, gs_gateway_indent := int indent\<rparr>)
         else if indent = 0 \<and> starts_with trimmed ''inference_stages:''
         then bindR (finish_partition_if_valid st) (\<lambda>st.
              Inr (st\<lparr>gs_inside_gateway := False, gs_inside_inference_stages := True,
                      gs_inside_components := False, gs_inside_layers := False\<rparr>))
         else if gs_inside_inference_stages st \<and> indent = 0 \<and> \<not> is_stage_list_item trimmed
         then bindR (finish_partition_if_valid st) (\<lambda>st.
              Inr (st\<lparr>gs_inside_inference_stages := False, gs_inside_components := False,
                      gs_inside_layers := False\<rparr>))
         else gateway_inner_line indent trimmed (leave_gateway indent st))"

definition initial_gateway_scan :: "string \<Rightarrow> gateway_scan" where
  "initial_gateway_scan path =
     \<lparr>gs_config = default_gateway_config\<lparr>gc_config_path := path\<rparr>, gs_inside_gateway = False,
      gs_inside_inference_stages = False, gs_inside_current_partition = False, gs_inside_components = False,
      gs_inside_layers = False, gs_gateway_indent = - 1, gs_current_partition = empty_partition_node\<rparr>"

definition load_gateway_config_from_file :: "string option \<Rightarrow> string \<Rightarrow> gateway_config result" where
  "load_gateway_config_from_file content path =
     (case content of
        None \<Rightarrow> Inl (''failed to open gateway config file: '' @ path)
      | Some text \<Rightarrow>
          bindR (foldR gateway_scan_line (getlines text) (initial_gateway_scan path)) (\<lambda>st.
          bindR (finish_partition_if_valid st) (\<lambda>st.
          let config = gs_config st;
              validation = validate_partition_graph (gc_partitions config) (gc_num_layers config)
          in if \<not> valid validation then Inl (''invalid partition graph: '' @ validation_error validation)
             else Inr (config\<lparr>gc_partition_validation := validation\<rparr>))))"

definition merge_gateway_config :: "gateway_config \<Rightarrow> gateway_config \<Rightarrow> gateway_config" where
  "merge_gateway_config file override =
     file\<lparr>gc_config_path := override_string (gc_config_path file) (gc_config_path override),
          gc_service_name := override_string (gc_service_name file) (gc_service_name override),
          gc_model_name := override_string (gc_model_name file) (gc_model_name override),
          gc_model_path := override_string (gc_model_path file) (gc_model_path override),
          gc_first_stage_url := override_string (gc_first_stage_url file) (gc_first_stage_url override),
          gc_port := (if gc_port override > 0 then gc_port override else gc_port file)\<rparr>"

end
