(* ===== verification/Stage_Response.thy ===== *)
theory Stage_Response
  imports Request_Metadata Stage_Map
begin

text \<open>
  What a stage sends on: the metrics of a step (\<open>metrics.hpp\<close>), the description of its model shard
  (\<open>backend_metadata_json\<close>) and the response metadata (\<open>server.cpp\<close>). The next stage reads that
  text with the same field readers as the gateway's request, so the request's controls must
  survive being rewritten by every stage of the chain.
\<close>

section \<open>Metrics\<close>

record stage_metrics =
  sm_backend :: string
  sm_status :: string
  sm_compute_time_ms :: f64
  sm_true_comm_ms :: f64
  sm_rpc_wall_time_ms :: f64
  sm_input_tensor_bytes :: nat
  sm_output_tensor_bytes :: nat
  sm_stage_input_token_count :: int
  sm_stage_output_token_count :: int
  sm_kv_cache_step_valid :: bool
  sm_kv_cache_seq_before :: int
  sm_kv_cache_seq_after :: int
  sm_kv_cache_bytes :: nat
  sm_kv_cache_valid :: bool
  sm_model_load_ms :: f64
  sm_memory_rss_mb :: nat
  sm_memory_cgroup_current_mb :: nat
  sm_memory_cgroup_limit_mb :: nat
  sm_memory_cgroup_percent :: f64
  sm_model_file_size_mb :: nat
  sm_session_count :: nat
  sm_session_kv_cache_bytes :: nat
  sm_process_cpu_percent :: f64
  sm_system_cpu_percent :: f64
  sm_process_threads :: nat
  sm_ctx_switches_voluntary :: nat
  sm_ctx_switches_involuntary :: nat
  sm_io_read_bytes_delta :: nat
  sm_io_write_bytes_delta :: nat
  sm_io_read_count_delta :: nat
  sm_io_write_count_delta :: nat
  sm_matmul_ms :: f64
  sm_attention_ms :: f64
  sm_ggml_threads :: int

definition default_stage_metrics :: stage_metrics where
  "default_stage_metrics = \<lparr>sm_backend = ''stub'', sm_status = ''ok'', sm_compute_time_ms = f64_zero,
     sm_true_comm_ms = f64_zero, sm_rpc_wall_time_ms = f64_zero, sm_input_tensor_bytes = 0,
     sm_output_tensor_bytes = 0, sm_stage_input_token_count = 0, sm_stage_output_token_count = 0,
     sm_kv_cache_step_valid = True, sm_kv_cache_seq_before = 0, sm_kv_cache_seq_after = 0,
     sm_kv_cache_bytes = 0, sm_kv_cache_valid = True, sm_model_load_ms = f64_zero, sm_memory_rss_mb = 0,
     sm_memory_cgroup_current_mb = 0, sm_memory_cgroup_limit_mb = 0, sm_memory_cgroup_percent = f64_zero,
     sm_model_file_size_mb = 0, sm_session_count = 0, sm_session_kv_cache_bytes = 0,
     sm_process_cpu_percent = f64_zero, sm_system_cpu_percent = f64_zero, sm_process_threads = 0,
     sm_ctx_switches_voluntary = 0, sm_ctx_switches_involuntary = 0, sm_io_read_bytes_delta = 0,
     sm_io_write_bytes_delta = 0, sm_io_read_count_delta = 0, sm_io_write_count_delta = 0,
     sm_matmul_ms = f64_zero, sm_attention_ms = f64_zero, sm_ggml_threads = 0\<rparr>"

abbreviation json_nat :: "nat \<Rightarrow> string" where "json_nat n \<equiv> show_int (int n)"

definition metrics_json :: "number_io \<Rightarrow> stage_metrics \<Rightarrow> string" where
  "metrics_json io m =
     ''{'' @ json_key ''backend'' @ json_str (sm_backend m) @ '',''
     @ json_key ''status'' @ json_str (sm_status m) @ '',''
     @ json_key ''compute_time_ms'' @ stream_f64 io (sm_compute_time_ms m) @ '',''
     @ json_key ''true_comm_ms'' @ stream_f64 io (sm_true_comm_ms m) @ '',''
     @ json_key ''rpc_wall_time_ms'' @ stream_f64 io (sm_rpc_wall_time_ms m) @ '',''
     @ json_key ''input_tensor_bytes'' @ json_nat (sm_input_tensor_bytes m) @ '',''
     @ json_key ''output_tensor_bytes'' @ json_nat (sm_output_tensor_bytes m) @ '',''
     @ json_key ''stage_input_token_count'' @ show_int (sm_stage_input_token_count m) @ '',''
     @ json_key ''stage_output_token_count'' @ show_int (sm_stage_output_token_count m) @ '',''
     @ json_key ''kv_cache_step_valid'' @ json_bool (sm_kv_cache_step_valid m) @ '',''
     @ json_key ''kv_cache_seq_before'' @ show_int (sm_kv_cache_seq_before m) @ '',''
     @ json_key ''kv_cache_seq_after'' @ show_int (sm_kv_cache_seq_after m) @ '',''
     @ json_key ''kv_cache_bytes'' @ json_nat (sm_kv_cache_bytes m) @ '',''
     @ json_key ''kv_cache_valid'' @ json_bool (sm_kv_cache_valid m) @ '',''
     @ json_key ''model_load_ms'' @ stream_f64 io (sm_model_load_ms m) @ '',''
     @ json_key ''memory_rss_mb'' @ json_nat (sm_memory_rss_mb m) @ '',''
     @ json_key ''memory_cgroup_current_mb'' @ json_nat (sm_memory_cgroup_current_mb m) @ '',''
     @ json_key ''memory_cgroup_limit_mb'' @ json_nat (sm_memory_cgroup_limit_mb m) @ '',''
     @ json_key ''memory_cgroup_percent'' @ stream_f64 io (sm_memory_cgroup_percent m) @ '',''
     @ json_key ''model_file_size_mb'' @ json_nat (sm_model_file_size_mb m) @ '',''
     @ json_key ''session_count'' @ json_nat (sm_session_count m) @ '',''
     @ json_key ''session_kv_cache_bytes'' @ json_nat (sm_session_kv_cache_bytes m) @ '',''
     @ json_key ''process_cpu_percent'' @ stream_f64 io (sm_process_cpu_percent m) @ '',''
     @ json_key ''system_cpu_percent'' @ stream_f64 io (sm_system_cpu_percent m) @ '',''
     @ json_key ''process_threads'' @ json_nat (sm_process_threads m) @ '',''
     @ json_key ''process_context_switches'' @ ''{''
     @ json_key ''voluntary'' @ json_nat (sm_ctx_switches_voluntary m) @ '',''
     @ json_key ''involuntary'' @ json_nat (sm_ctx_switches_involuntary m) @ ''},''
     @ json_key ''process_io_delta'' @ ''{''
     @ json_key ''read_bytes'' @ json_nat (sm_io_read_bytes_delta m) @ '',''
     @ json_key ''write_bytes'' @ json_nat (sm_io_write_bytes_delta m) @ '',''
     @ json_key ''read_count'' @ json_nat (sm_io_read_count_delta m) @ '',''
     @ json_key ''write_count'' @ json_nat (sm_io_write_count_delta m) @ ''},''
     @ json_key ''matmul_ms'' @ stream_f64 io (sm_matmul_ms m) @ '',''
     @ json_key ''attention_ms'' @ stream_f64 io (sm_attention_ms m) @ '',''
     @ json_key ''ggml_threads'' @ show_int (sm_ggml_threads m) @ ''}''"

section \<open>The description of the loaded shard\<close>

record llama_model_metadata =
  mm_model_loaded :: bool
  mm_model_path :: string
  mm_architecture :: string
  mm_name :: string
  mm_n_ctx_train :: int
  mm_n_embd :: int
  mm_n_layer :: int
  mm_n_head :: int
  mm_n_head_kv :: int
  mm_n_vocab :: int

record llama_shard_metadata =
  sh_shard_loaded :: bool
  sh_format :: string
  sh_format_version :: int
  sh_partition_id :: string
  sh_stage_id :: int
  sh_layers :: "int list"
  sh_owns_embedding :: bool
  sh_owns_norm :: bool
  sh_owns_lm_head :: bool
  sh_next_partition_id :: string
  sh_next_stage_url :: string
  sh_hidden_size :: int
  sh_source_model :: string

definition backend_metadata_json :: "llama_model_metadata \<Rightarrow> llama_shard_metadata \<Rightarrow> nat \<Rightarrow> string" where
  "backend_metadata_json mm sh session_count =
     ''{'' @ json_key ''model_loaded'' @ json_bool (mm_model_loaded mm) @ '',''
     @ json_key ''model_path'' @ json_str (mm_model_path mm) @ '',''
     @ json_key ''architecture'' @ json_str (mm_architecture mm) @ '',''
     @ json_key ''name'' @ json_str (mm_name mm) @ '',''
     @ json_key ''n_ctx_train'' @ show_int (mm_n_ctx_train mm) @ '',''
     @ json_key ''n_embd'' @ show_int (mm_n_embd mm) @ '',''
     @ json_key ''n_layer'' @ show_int (mm_n_layer mm) @ '',''
     @ json_key ''n_head'' @ show_int (mm_n_head mm) @ '',''
     @ json_key ''n_head_kv'' @ show_int (mm_n_head_kv mm) @ '',''
     @ json_key ''n_vocab'' @ show_int (mm_n_vocab mm) @ '',''
     @ json_key ''shard'' @ ''{''
     @ json_key ''loaded'' @ json_bool (sh_shard_loaded sh) @ '',''
     @ json_key ''format'' @ json_str (sh_format sh) @ '',''
     @ json_key ''format_version'' @ show_int (sh_format_version sh) @ '',''
     @ json_key ''partition_id'' @ json_str (sh_partition_id sh) @ '',''
     @ json_key ''stage_id'' @ show_int (sh_stage_id sh) @ '',''
     @ json_key ''layers'' @ int_vector_json (sh_layers sh) @ '',''
     @ json_key ''owns_embedding'' @ json_bool (sh_owns_embedding sh) @ '',''
     @ json_key ''owns_norm'' @ json_bool (sh_owns_norm sh) @ '',''
     @ json_key ''owns_lm_head'' @ json_bool (sh_owns_lm_head sh) @ '',''
     @ json_key ''next_partition_id'' @ json_str (sh_next_partition_id sh) @ '',''
     @ json_key ''next_stage_url'' @ json_str (sh_next_stage_url sh) @ '',''
     @ json_key ''hidden_size'' @ show_int (sh_hidden_size sh) @ '',''
     @ json_key ''source_model'' @ json_str (sh_source_model sh) @ ''},''
     @ json_key ''sessions'' @ ''{''
     @ json_key ''count'' @ json_nat session_count @ ''}}''"

section \<open>The response\<close>

record runtime_response =
  rs_is_final_stage :: bool
  rs_next_token_id :: int
  rs_output_metadata_json :: string
  rs_output_tensor :: tensor_buffer
  rs_metrics :: stage_metrics
  rs_backend_metadata_json :: string

text \<open>The sampling controls, each only when the request has it.\<close>

definition sampling_controls_json :: "number_io \<Rightarrow> runtime_request \<Rightarrow> string" where
  "sampling_controls_json io rq =
     (if rq_has_temperature rq then json_key ''temperature'' @ stream_f64 io (rq_temperature rq) @ '','' else [])
     @ (if rq_has_top_k rq then json_key ''top_k'' @ show_int (rq_top_k rq) @ '','' else [])
     @ (if rq_has_top_p rq then json_key ''top_p'' @ stream_f64 io (rq_top_p rq) @ '','' else [])
     @ (if rq_has_seed rq then json_key ''seed'' @ show_int (rq_seed rq) @ '','' else [])"

definition response_tensor_metadata :: "runtime_response \<Rightarrow> runtime_request \<Rightarrow> tensor_metadata" where
  "response_tensor_metadata rs rq =
     (if shape (metadata (rs_output_tensor rs)) = [] then metadata (rq_input_tensor rq)
      else metadata (rs_output_tensor rs))"

definition response_head_json :: "runtime_response \<Rightarrow> stage_config \<Rightarrow> runtime_request \<Rightarrow> string" where
  "response_head_json rs cfg rq =
     (let tm = response_tensor_metadata rs rq
      in ''{'' @ json_key ''ok'' @ json_bool True @ '',''
       @ json_key ''service'' @ json_str (sc_service_name cfg) @ '',''
       @ json_key ''runtime'' @ json_str ''cpp-native-stub'' @ '',''
       @ json_key ''backend'' @ json_str (sm_backend (rs_metrics rs)) @ '',''
       @ json_key ''status'' @ json_str (sm_status (rs_metrics rs)) @ '',''
       @ json_key ''stage_id'' @ show_int (sc_stage_id cfg) @ '',''
       @ json_key ''request_id'' @ json_str (rq_request_id rq) @ '',''
       @ json_key ''token_index'' @ show_int (rq_token_index rq) @ '',''
       @ json_key ''generation_mode'' @ json_str (rq_generation_mode rq) @ '',''
       @ json_key ''input_metadata_bytes'' @ json_nat (length (rq_input_metadata_json rq)) @ '',''
       @ json_key ''input_tensor_bytes'' @ json_nat (length (bytes (rq_input_tensor rq))) @ '',''
       @ json_key ''output_tensor_bytes'' @ json_nat (length (bytes (rs_output_tensor rs))) @ '',''
       @ json_key ''is_final_stage'' @ json_bool (rs_is_final_stage rs) @ '',''
       @ json_key ''next_token_id'' @ show_int (rs_next_token_id rs) @ '',''
       @ json_key ''tensor'' @ ''{''
       @ json_key ''dtype'' @ json_str (dtype tm) @ '',''
       @ json_key ''shape'' @ shape_json (shape tm) @ '',''
       @ json_key ''byte_order'' @ json_str (byte_order tm) @ ''},''
       @ json_key ''feature_flags'' @ ''{''
       @ json_key ''kv_cache_enabled'' @ json_bool (rq_kv_cache_enabled rq) @ '',''
       @ json_key ''native_stage_chaining_enabled'' @ json_bool (rq_native_stage_chaining_enabled rq) @ '',''
       @ json_key ''transport_mode'' @ json_str (rq_transport_mode rq) @ '',''
       @ json_key ''activation_precision'' @ json_str (rq_activation_precision rq) @ '',''
       @ json_key ''persistent_sessions_enabled'' @ json_bool (rq_persistent_sessions_enabled rq) @ '',''
       @ json_key ''metadata_level'' @ json_str (rq_metadata_level rq) @ ''},'')"

definition response_tail_json :: "number_io \<Rightarrow> runtime_response \<Rightarrow> string" where
  "response_tail_json io rs =
     json_key ''metrics'' @ metrics_json io (rs_metrics rs) @ '',''
     @ json_key ''backend_metadata''
     @ (if rs_backend_metadata_json rs = [] then ''{}'' else rs_backend_metadata_json rs) @ ''}''"

definition runtime_response_metadata_json ::
    "number_io \<Rightarrow> runtime_response \<Rightarrow> stage_config \<Rightarrow> runtime_request \<Rightarrow> string" where
  "runtime_response_metadata_json io rs cfg rq =
     response_head_json rs cfg rq @ sampling_controls_json io rq @ response_tail_json io rs"

section \<open>Searching through a response\<close>

definition metrics_keys :: "string list" where
  "metrics_keys = [''backend'', ''status'', ''compute_time_ms'', ''true_comm_ms'', ''rpc_wall_time_ms'',
     ''input_tensor_bytes'', ''output_tensor_bytes'', ''stage_input_token_count'', ''stage_output_token_count'',
     ''kv_cache_step_valid'', ''kv_cache_seq_before'', ''kv_cache_seq_after'', ''kv_cache_bytes'',
     ''kv_cache_valid'', ''model_load_ms'', ''memory_rss_mb'', ''memory_cgroup_current_mb'',
     ''memory_cgroup_limit_mb'', ''memory_cgroup_percent'', ''model_file_size_mb'', ''session_count'',
     ''session_kv_cache_bytes'', ''process_cpu_percent'', ''system_cpu_percent'', ''process_threads'',
     ''process_context_switches'', ''voluntary'', ''involuntary'', ''process_io_delta'', ''read_bytes'',
     ''write_bytes'', ''read_count'', ''write_count'', ''matmul_ms'', ''attention_ms'', ''ggml_threads'']"

definition backend_keys :: "string list" where
  "backend_keys = [''model_loaded'', ''model_path'', ''architecture'', ''name'', ''n_ctx_train'', ''n_embd'',
     ''n_layer'', ''n_head'', ''n_head_kv'', ''n_vocab'', ''shard'', ''loaded'', ''format'', ''format_version'',
     ''partition_id'', ''stage_id'', ''layers'', ''owns_embedding'', ''owns_norm'', ''owns_lm_head'',
     ''next_partition_id'', ''next_stage_url'', ''hidden_size'', ''source_model'', ''sessions'', ''count'']"

lemma plain_metrics_keys: "list_all plain_key metrics_keys"
  by (simp add: metrics_keys_def plain_key_def is_key_char_def)

lemma plain_backend_keys: "list_all plain_key backend_keys"
  by (simp add: backend_keys_def plain_key_def is_key_char_def)

text \<open>Every double of the metrics prints as a number (it is finite).\<close>

definition metrics_printable :: "number_io \<Rightarrow> stage_metrics \<Rightarrow> bool" where
  "metrics_printable io m = list_all (\<lambda>x. number_text (stream_f64 io x))
     [sm_compute_time_ms m, sm_true_comm_ms m, sm_rpc_wall_time_ms m, sm_model_load_ms m,
      sm_memory_cgroup_percent m, sm_process_cpu_percent m, sm_system_cpu_percent m, sm_matmul_ms m,
      sm_attention_ms m]"

lemma search_other_key:
  assumes "list_all plain_key ks" "plain_key key" "key \<notin> set ks" "k \<in> set ks"
  shows "search_field key val (json_key k @ s) = search_field key val s"
  using assms by (auto simp: search_key list_all_iff)

lemma search_metrics:
  assumes "plain_key key" "key \<notin> set metrics_keys" "metrics_printable io m"
  shows "search_field key val (metrics_json io m @ s) = search_field key val s"
proof -
  note skip = search_other_key [OF plain_metrics_keys assms(1,2)]
  show ?thesis
    using assms(1,3) unfolding metrics_json_def metrics_printable_def
    by (simp add: json_simps skip metrics_keys_def del: search_key)
qed

lemma search_backend:
  assumes "plain_key key" "key \<notin> set backend_keys"
  shows "search_field key val (backend_metadata_json mm sh n @ s) = search_field key val s"
proof -
  note skip = search_other_key [OF plain_backend_keys assms(1,2)]
  show ?thesis
    using assms(1) unfolding backend_metadata_json_def
    by (simp add: json_simps skip backend_keys_def del: search_key)
qed

lemma plain_response_keys [read_simps]:
  "plain_key ''ok''" "plain_key ''service''" "plain_key ''runtime''" "plain_key ''backend''" "plain_key ''status''"
  "plain_key ''stage_id''" "plain_key ''input_metadata_bytes''" "plain_key ''input_tensor_bytes''"
  "plain_key ''output_tensor_bytes''" "plain_key ''is_final_stage''" "plain_key ''metrics''"
  "plain_key ''backend_metadata''"
  by (simp_all add: plain_key_def is_key_char_def)

lemma search_tail:
  assumes "plain_key key" "key \<notin> set metrics_keys" "key \<notin> set backend_keys" "metrics_printable io (rs_metrics rs)"
    "key \<noteq> ''metrics''" "key \<noteq> ''backend_metadata''"
    "rs_backend_metadata_json rs = backend_metadata_json mm sh n"
  shows "search_field key val (response_tail_json io rs) = None"
proof -
  have "backend_metadata_json mm sh n \<noteq> []" by (simp add: backend_metadata_json_def)
  with assms show ?thesis
    by (simp add: response_tail_json_def search_key search_metrics search_backend read_simps json_simps)
qed

definition controls_ok :: "number_io \<Rightarrow> runtime_request \<Rightarrow> bool" where
  "controls_ok io rq \<longleftrightarrow> number_text (stream_f64 io (rq_temperature rq)) \<and> number_text (stream_f64 io (rq_top_p rq)) \<and>
     int32_range (rq_top_k rq) \<and> stod io (stream_f64 io (rq_temperature rq)) \<noteq> None \<and>
     stod io (stream_f64 io (rq_top_p rq)) \<noteq> None \<and> stod io (show_int (rq_seed rq)) \<noteq> None"

lemma search_controls:
  assumes "plain_key key" "key \<notin> {''temperature'', ''top_k'', ''top_p'', ''seed''}" "controls_ok io rq"
  shows "search_field key val (sampling_controls_json io rq @ s) = search_field key val s"
proof -
  have "list_all plain_key [''temperature'', ''top_k'', ''top_p'', ''seed'']" by (simp add: read_simps)
  note skip = search_other_key [OF this assms(1)]
  show ?thesis
    using assms by (simp add: sampling_controls_json_def controls_ok_def json_simps skip del: search_key)
qed

text \<open>The four controls as the next reader finds them.\<close>

lemma read_controls:
  assumes "controls_ok io rq"
    "\<And>key val. key \<in> {''temperature'', ''top_k'', ''top_p'', ''seed''} \<Longrightarrow> search_field key val s = None"
  shows
    "extract_double_field io (sampling_controls_json io rq @ s) ''temperature'' =
       Inr (if rq_has_temperature rq then stod io (stream_f64 io (rq_temperature rq)) else None)"
    "extract_int_field (sampling_controls_json io rq @ s) ''top_k'' =
       Inr (if rq_has_top_k rq then Some (rq_top_k rq) else None)"
    "extract_double_field io (sampling_controls_json io rq @ s) ''top_p'' =
       Inr (if rq_has_top_p rq then stod io (stream_f64 io (rq_top_p rq)) else None)"
    "extract_double_field io (sampling_controls_json io rq @ s) ''seed'' =
       Inr (if rq_has_seed rq then stod io (show_int (rq_seed rq)) else None)"
  using assms
  by (auto simp: sampling_controls_json_def controls_ok_def json_simps read_simps extract_double_field_def extract_int_field_def)

text \<open>A response starts with fields no control is among.\<close>

lemma search_head_controls:
  assumes "key \<in> {''temperature'', ''top_k'', ''top_p'', ''seed''}"
  shows "search_field key val (response_head_json rs cfg rq @ s) = search_field key val s"
proof -
  have "plain_key key" using assms by (auto simp: read_simps)
  with assms show ?thesis
    unfolding response_head_json_def Let_def
    by (elim insertE emptyE) (simp_all add: json_simps read_simps)
qed

lemma extract_double_skip:
  "(\<And>val. search_field key val (pre @ s) = search_field key val s) \<Longrightarrow>
   extract_double_field io (pre @ s) key = extract_double_field io s key"
  by (simp add: extract_double_field_def)

lemma extract_int_skip:
  "(\<And>val. search_field key val (pre @ s) = search_field key val s) \<Longrightarrow>
   extract_int_field (pre @ s) key = extract_int_field s key"
  by (simp add: extract_int_field_def)

section \<open>What the next reader of a response sees\<close>

definition response_sendable ::
    "number_io \<Rightarrow> runtime_response \<Rightarrow> runtime_request \<Rightarrow> bool" where
  "response_sendable io rs rq \<longleftrightarrow>
     list_all escape_safe [rq_request_id rq, rq_generation_mode rq, rq_transport_mode rq, rq_activation_precision rq,
       rq_metadata_level rq, dtype (response_tensor_metadata rs rq), byte_order (response_tensor_metadata rs rq)] \<and>
     int32_range (rq_token_index rq) \<and> int32_range (rs_next_token_id rs) \<and>
     list_all int64_range (shape (response_tensor_metadata rs rq)) \<and>
     controls_ok io rq \<and> metrics_printable io (rs_metrics rs)"

text \<open>The request as the next stage, or the gateway, parses it from the response. The rebalance profile
  and the routing flag are not passed on and fall back to their defaults.\<close>

definition forwarded_metadata :: "number_io \<Rightarrow> runtime_response \<Rightarrow> runtime_request \<Rightarrow> parsed_metadata" where
  "forwarded_metadata io rs rq =
     \<lparr>pm_request_id = rq_request_id rq, pm_token_index = rq_token_index rq,
      pm_generation_mode = rq_generation_mode rq, pm_tensor = response_tensor_metadata rs rq,
      pm_kv_cache_enabled = rq_kv_cache_enabled rq, pm_activation_precision = rq_activation_precision rq,
      pm_transport_mode = rq_transport_mode rq, pm_rebalance_profile = ''baseline'',
      pm_persistent_sessions_enabled = rq_persistent_sessions_enabled rq, pm_topology_aware_routing = False,
      pm_metadata_level = rq_metadata_level rq,
      pm_native_stage_chaining_enabled = rq_native_stage_chaining_enabled rq,
      pm_has_temperature = rq_has_temperature rq,
      pm_temperature = (if rq_has_temperature rq then the (stod io (stream_f64 io (rq_temperature rq))) else f64_zero),
      pm_has_top_k = rq_has_top_k rq, pm_top_k = (if rq_has_top_k rq then rq_top_k rq else 0),
      pm_has_top_p = rq_has_top_p rq,
      pm_top_p = (if rq_has_top_p rq then the (stod io (stream_f64 io (rq_top_p rq))) else f64_zero),
      pm_has_seed = rq_has_seed rq,
      pm_seed = (if rq_has_seed rq then i64_of_f64 io (the (stod io (show_int (rq_seed rq)))) else 0),
      pm_has_next_token_id = True, pm_next_token_id = rs_next_token_id rs,
      pm_stage_input_token_count = infer_sequence_length_from_shape (shape (response_tensor_metadata rs rq))\<rparr>"

lemma response_controls:
  assumes "response_sendable io rs rq" "rs_backend_metadata_json rs = backend_metadata_json mm sh n"
  shows
    "extract_double_field io (runtime_response_metadata_json io rs cfg rq) ''temperature'' =
       Inr (if rq_has_temperature rq then stod io (stream_f64 io (rq_temperature rq)) else None)"
    "extract_int_field (runtime_response_metadata_json io rs cfg rq) ''top_k'' =
       Inr (if rq_has_top_k rq then Some (rq_top_k rq) else None)"
    "extract_double_field io (runtime_response_metadata_json io rs cfg rq) ''top_p'' =
       Inr (if rq_has_top_p rq then stod io (stream_f64 io (rq_top_p rq)) else None)"
    "extract_double_field io (runtime_response_metadata_json io rs cfg rq) ''seed'' =
       Inr (if rq_has_seed rq then stod io (show_int (rq_seed rq)) else None)"
proof -
  have ok: "controls_ok io rq" "metrics_printable io (rs_metrics rs)"
    using assms(1) by (simp_all add: response_sendable_def)
  have tail: "search_field key val (response_tail_json io rs) = None"
    if "key \<in> {''temperature'', ''top_k'', ''top_p'', ''seed''}" for key val
    using that
    by (elim insertE emptyE)
      (simp_all add: search_tail [OF _ _ _ ok(2) _ _ assms(2)] read_simps metrics_keys_def backend_keys_def)
  note read = read_controls [OF ok(1) tail]
  note skip = extract_double_skip [OF search_head_controls] extract_int_skip [OF search_head_controls]
  show "extract_double_field io (runtime_response_metadata_json io rs cfg rq) ''temperature'' =
       Inr (if rq_has_temperature rq then stod io (stream_f64 io (rq_temperature rq)) else None)"
    unfolding runtime_response_metadata_json_def by (subst skip(1), simp, rule read(1))
  show "extract_int_field (runtime_response_metadata_json io rs cfg rq) ''top_k'' =
       Inr (if rq_has_top_k rq then Some (rq_top_k rq) else None)"
    unfolding runtime_response_metadata_json_def by (subst skip(2), simp, rule read(2))
  show "extract_double_field io (runtime_response_metadata_json io rs cfg rq) ''top_p'' =
       Inr (if rq_has_top_p rq then stod io (stream_f64 io (rq_top_p rq)) else None)"
    unfolding runtime_response_metadata_json_def by (subst skip(1), simp, rule read(3))
  show "extract_double_field io (runtime_response_metadata_json io rs cfg rq) ''seed'' =
       Inr (if rq_has_seed rq then stod io (show_int (rq_seed rq)) else None)"
    unfolding runtime_response_metadata_json_def by (subst skip(1), simp, rule read(4))
qed

lemma response_shape:
  assumes "response_sendable io rs rq" "rs_backend_metadata_json rs = backend_metadata_json mm sh n"
  shows "extract_shape (runtime_response_metadata_json io rs cfg rq) = Inr (shape (response_tensor_metadata rs rq))"
proof -
  note ok = assms(1) [unfolded response_sendable_def]
  have tail: "search_field ''sh'' val (response_tail_json io rs) = None" for val
    using ok by (simp add: search_tail [OF _ _ _ _ _ _ assms(2)] read_simps metrics_keys_def backend_keys_def)
  have short: "search_field ''sh'' match_brackets (runtime_response_metadata_json io rs cfg rq) = None"
    using ok
    by (simp add: runtime_response_metadata_json_def response_head_json_def Let_def json_simps read_simps
        search_controls tail)
  have "\<exists>r. search_field ''shape'' match_brackets (runtime_response_metadata_json io rs cfg rq) =
      Some (comma_ints (shape (response_tensor_metadata rs rq)), r)"
    by (simp add: runtime_response_metadata_json_def response_head_json_def Let_def json_simps read_simps)
  then show ?thesis using ok read_shape_body [of "shape (response_tensor_metadata rs rq)"]
    by (auto simp: extract_shape_def search_shape_long [OF short])
qed

lemma response_metadata_read:
  assumes "response_sendable io rs rq" "rs_backend_metadata_json rs = backend_metadata_json mm sh n"
  shows "parse_request_metadata io (runtime_response_metadata_json io rs cfg rq) = Inr (forwarded_metadata io rs rq)"
proof -
  note ok = assms(1) [unfolded response_sendable_def]
  have tail: "search_field key val (response_tail_json io rs) = None"
    if "plain_key key" "key \<notin> set metrics_keys" "key \<notin> set backend_keys"
      "key \<noteq> ''metrics''" "key \<noteq> ''backend_metadata''" for key val
    using ok that by (intro search_tail [OF _ _ _ _ _ _ assms(2)]) simp_all
  show ?thesis
    unfolding parse_request_metadata_def response_controls [OF assms] response_shape [OF assms]
    using ok
    by (simp add: reader_defs runtime_response_metadata_json_def response_head_json_def Let_def json_simps read_simps
        search_controls tail metrics_keys_def backend_keys_def forwarded_metadata_def controls_ok_def
        split: option.splits) auto
qed


definition sample_model :: llama_model_metadata where
  "sample_model = \<lparr>mm_model_loaded = True, mm_model_path = ''/m\"seed\":7.gguf'', mm_architecture = ''llama'', mm_name = ''t'',
     mm_n_ctx_train = 2048, mm_n_embd = 2, mm_n_layer = 1, mm_n_head = 1, mm_n_head_kv = 1, mm_n_vocab = 3\<rparr>"

definition sample_shard :: llama_shard_metadata where
  "sample_shard = \<lparr>sh_shard_loaded = True, sh_format = ''dli.gguf.stage_shard'', sh_format_version = 1,
     sh_partition_id = ''partition-1'', sh_stage_id = 1, sh_layers = [0], sh_owns_embedding = True,
     sh_owns_norm = False, sh_owns_lm_head = False, sh_next_partition_id = [], sh_next_stage_url = ''http://b:1'',
     sh_hidden_size = 2, sh_source_model = ''t''\<rparr>"

definition sample_request :: runtime_request where
  "sample_request = \<lparr>rq_request_id = ''r1'', rq_token_index = 0, rq_stage_id = 1, rq_generation_mode = ''prefill'',
     rq_input_metadata_json = [], rq_input_tensor = empty_tensor, rq_kv_cache_enabled = True,
     rq_activation_precision = ''fp32'', rq_transport_mode = ''t'', rq_rebalance_profile = [],
     rq_persistent_sessions_enabled = True, rq_topology_aware_routing = False, rq_metadata_level = ''debug'',
     rq_native_stage_chaining_enabled = False, rq_has_temperature = True, rq_temperature = 0x3FE999999999999A,
     rq_has_top_k = True, rq_top_k = 40, rq_has_top_p = False, rq_top_p = 0, rq_has_seed = False, rq_seed = 0,
     rq_has_next_token_id = False, rq_next_token_id = - 1, rq_stage_input_token_count = 0\<rparr>"

definition sample_response :: runtime_response where
  "sample_response = \<lparr>rs_is_final_stage = False, rs_next_token_id = - 1, rs_output_metadata_json = [],
     rs_output_tensor = \<lparr>metadata = \<lparr>dtype = ''float32'', shape = [1, 1, 2], byte_order = ''little''\<rparr>, bytes = []\<rparr>,
     rs_metrics = default_stage_metrics, rs_backend_metadata_json = backend_metadata_json sample_model sample_shard 1\<rparr>"

lemma sample_response_sendable:
  "response_sendable sample_io sample_response sample_request"
  by (simp add: response_sendable_def sample_request_def sample_response_def response_tensor_metadata_def
    unicode_escaped_def int32_range_def int64_range_def controls_ok_def metrics_printable_def sample_io_def
    number_text_def match_number_def split_minus_def match_mantissa_def is_digit_def match_exponent_def is_space_def)


end
