(* ===== verification/Shard_Metadata.thy ===== *)
theory Shard_Metadata
  imports Stage_Response Sampling
begin

text \<open>
  Loading a stage shard (\<open>llama_partial_runtime.cpp\<close>): the required keys of the GGUF file, the check
  against \<open>stage_map.yaml\<close>, the model parameters and the construction of the runtime.

  The gguf and llama libraries are not part of the repository: a GGUF context is the function from
  keys to values it stores, a loaded model its metadata texts, its vocabulary size and its tensor
  context; what the file system answers is part of the record \<open>model_file\<close>. The getters of gguf
  abort on a value of another type, which is an error here.
\<close>

datatype gguf_value = GString string | GInt int | GUInt nat | GBool bool | GIntArray "int list" | GOther

type_synonym gguf_context = "string \<Rightarrow> gguf_value option"

definition require_gguf_key :: "gguf_context \<Rightarrow> string \<Rightarrow> gguf_value result" where
  "require_gguf_key ctx key =
     (case ctx key of None \<Rightarrow> Inl (''missing required shard metadata key: '' @ key) | Some v \<Rightarrow> Inr v)"

definition gguf_type_abort :: string where "gguf_type_abort = ''gguf: wrong value type''"

definition gguf_string_required :: "gguf_context \<Rightarrow> string \<Rightarrow> string result" where
  "gguf_string_required ctx key =
     bindR (require_gguf_key ctx key) (\<lambda>v. case v of GString s \<Rightarrow> Inr s | _ \<Rightarrow> Inl gguf_type_abort)"

definition gguf_i32_required :: "gguf_context \<Rightarrow> string \<Rightarrow> int result" where
  "gguf_i32_required ctx key =
     bindR (require_gguf_key ctx key) (\<lambda>v. case v of GInt i \<Rightarrow> Inr i | _ \<Rightarrow> Inl gguf_type_abort)"

definition gguf_bool_required :: "gguf_context \<Rightarrow> string \<Rightarrow> bool result" where
  "gguf_bool_required ctx key =
     bindR (require_gguf_key ctx key) (\<lambda>v. case v of GBool b \<Rightarrow> Inr b | _ \<Rightarrow> Inl gguf_type_abort)"

definition gguf_i32_array_required :: "gguf_context \<Rightarrow> string \<Rightarrow> int list result" where
  "gguf_i32_array_required ctx key =
     bindR (require_gguf_key ctx key) (\<lambda>v.
       case v of GIntArray is \<Rightarrow> Inr is
       | _ \<Rightarrow> Inl (''shard metadata key is not array<int32>: '' @ key))"

definition empty_shard_metadata :: llama_shard_metadata where
  "empty_shard_metadata = \<lparr>sh_shard_loaded = False, sh_format = [], sh_format_version = 0, sh_partition_id = [],
     sh_stage_id = 0, sh_layers = [], sh_owns_embedding = False, sh_owns_norm = False, sh_owns_lm_head = False,
     sh_next_partition_id = [], sh_next_stage_url = [], sh_hidden_size = - 1, sh_source_model = []\<rparr>"

definition load_shard_metadata_from_gguf :: "string \<Rightarrow> gguf_context option \<Rightarrow> llama_shard_metadata result" where
  "load_shard_metadata_from_gguf path file =
     (case file of
        None \<Rightarrow> Inl (''failed to open GGUF shard for metadata: '' @ path)
      | Some ctx \<Rightarrow>
          bindR (gguf_string_required ctx ''dli.format'') (\<lambda>format.
          bindR (gguf_i32_required ctx ''dli.format_version'') (\<lambda>version.
          bindR (gguf_string_required ctx ''dli.partition_id'') (\<lambda>pid.
          bindR (gguf_i32_required ctx ''dli.stage_id'') (\<lambda>sid.
          bindR (gguf_i32_array_required ctx ''dli.layers'') (\<lambda>ls.
          bindR (gguf_bool_required ctx ''dli.owns_embedding'') (\<lambda>emb.
          bindR (gguf_bool_required ctx ''dli.owns_norm'') (\<lambda>nrm.
          bindR (gguf_bool_required ctx ''dli.owns_lm_head'') (\<lambda>lmh.
          bindR (gguf_string_required ctx ''dli.next_partition_id'') (\<lambda>npid.
          bindR (gguf_string_required ctx ''dli.next_stage_url'') (\<lambda>url.
          bindR (gguf_i32_required ctx ''dli.hidden_size'') (\<lambda>hidden.
          bindR (gguf_string_required ctx ''dli.source_model'') (\<lambda>src.
          if format \<noteq> ''dli.gguf.stage_shard'' then Inl (''invalid dli.format in shard: '' @ format)
          else if version \<noteq> 1 then Inl (''unsupported dli.format_version: '' @ show_int version)
          else Inr \<lparr>sh_shard_loaded = True, sh_format = format, sh_format_version = version,
                 sh_partition_id = pid, sh_stage_id = sid, sh_layers = ls, sh_owns_embedding = emb,
                 sh_owns_norm = nrm, sh_owns_lm_head = lmh, sh_next_partition_id = npid,
                 sh_next_stage_url = url, sh_hidden_size = hidden, sh_source_model = src\<rparr>)))))))))))))"

record partial_runtime_config =
  pc_model_path :: string
  pc_stage_id :: int
  pc_expected_layers :: "int list"
  pc_expected_owns_embedding :: bool
  pc_expected_owns_norm :: bool
  pc_expected_owns_lm_head :: bool
  pc_expected_next_stage_url :: string

definition validate_shard_against_stage_config ::
    "llama_shard_metadata \<Rightarrow> partial_runtime_config \<Rightarrow> unit result" where
  "validate_shard_against_stage_config shard config =
     (if \<not> sh_shard_loaded shard then Inl ''cannot validate unloaded DLI GGUF shard metadata''
      else if sh_stage_id shard \<noteq> pc_stage_id config
      then Inl (''DLI shard stage_id mismatch: CLI/env stage_id='' @ show_int (pc_stage_id config) @
                '', shard stage_id='' @ show_int (sh_stage_id shard))
      else if sh_layers shard \<noteq> pc_expected_layers config
      then Inl (''DLI shard layer allocation mismatch: expected '' @ int_vector_json (pc_expected_layers config) @
                '', got '' @ int_vector_json (sh_layers shard))
      else if sh_owns_embedding shard \<noteq> pc_expected_owns_embedding config
      then Inl ''DLI shard owns_embedding does not match stage_map.yaml''
      else if sh_owns_norm shard \<noteq> pc_expected_owns_norm config
      then Inl ''DLI shard owns_norm does not match stage_map.yaml''
      else if sh_owns_lm_head shard \<noteq> pc_expected_owns_lm_head config
      then Inl ''DLI shard owns_lm_head does not match stage_map.yaml''
      else if sh_next_stage_url shard \<noteq> pc_expected_next_stage_url config
      then Inl (''DLI shard next_stage_url mismatch: expected '' @ [CHR 0x27] @ pc_expected_next_stage_url config @
                [CHR 0x27] @ '', got '' @ [CHR 0x27] @ sh_next_stage_url shard @ [CHR 0x27])
      else Inr ())"

definition validate_runtime_request_matches_partition ::
    "runtime_request \<Rightarrow> llama_shard_metadata \<Rightarrow> unit result" where
  "validate_runtime_request_matches_partition rq shard =
     bindR (infer_dli2_payload_kind (rq_input_tensor rq)) (\<lambda>kind.
     if sh_owns_embedding shard
     then if kind \<noteq> TokenIds then Inl ''source partition owns embedding and expects DLI2 token ids input''
          else validate_token_ids_tensor (rq_input_tensor rq)
     else if kind \<noteq> HiddenStates then Inl ''non-source partition expects DLI2 hidden states input''
     else validate_hidden_states_tensor (rq_input_tensor rq) (sh_hidden_size shard) True)"

section \<open>Model parameters and construction\<close>

definition model_meta_string :: "(string \<Rightarrow> string option) \<Rightarrow> string \<Rightarrow> string" where
  "model_meta_string model key = or_default [] (model key)"

definition model_meta_int :: "(string \<Rightarrow> string option) \<Rightarrow> string \<Rightarrow> int" where
  "model_meta_int model key =
     (let value = model_meta_string model key
      in if value = [] then 0 else (case std_stoi value of Inl _ \<Rightarrow> 0 | Inr i \<Rightarrow> i))"

definition model_meta_float :: "(string \<Rightarrow> f32 option) \<Rightarrow> (string \<Rightarrow> string option) \<Rightarrow> string \<Rightarrow> f32 \<Rightarrow> f32" where
  "model_meta_float stof model key default_value =
     (let value = model_meta_string model key
      in if value = [] then default_value else or_default default_value (stof value))"

definition bytes_to_rounded_mb :: "nat \<Rightarrow> nat" where
  "bytes_to_rounded_mb n = (if n = 0 then 0 else (n + 1048576 - 1) mod 2 ^ 64 div 1048576)"

record 'w model_file =
  mf_exists :: bool
  mf_regular :: bool
  mf_size :: "nat option"
  mf_gguf :: "gguf_context option"
  mf_meta :: "(string \<Rightarrow> string option) option"
  mf_vocab :: "int option"
  mf_tensors :: "'w tensor_context option option"

record 'w loaded_runtime =
  lr_config :: partial_runtime_config
  lr_model_metadata :: llama_model_metadata
  lr_shard_metadata :: llama_shard_metadata
  lr_hparams :: hyperparams
  lr_tensor_ctx :: "'w tensor_context option"
  lr_model_file_size_mb :: nat

definition validate_model_path_if_present :: "string \<Rightarrow> 'w model_file \<Rightarrow> unit result" where
  "validate_model_path_if_present path file =
     (if path = [] then Inr ()
      else if \<not> mf_exists file then Inl (''LlamaPartialRuntime model path does not exist: '' @ path)
      else if \<not> mf_regular file then Inl (''LlamaPartialRuntime model path is not a regular file: '' @ path)
      else Inr ())"

definition load_raw_tensor_context :: "string \<Rightarrow> 'w model_file \<Rightarrow> 'w tensor_context result" where
  "load_raw_tensor_context path file =
     (if path = [] then Inl ''cannot load raw tensors without model_path''
      else case mf_tensors file of
        None \<Rightarrow> Inl (''failed to load GGUF shard tensor data: '' @ path)
      | Some None \<Rightarrow> Inl (''GGUF shard did not produce a GGML tensor context: '' @ path)
      | Some (Some ctx) \<Rightarrow> Inr ctx)"

definition empty_model_metadata :: "string \<Rightarrow> llama_model_metadata" where
  "empty_model_metadata path = \<lparr>mm_model_loaded = False, mm_model_path = path, mm_architecture = [], mm_name = [],
     mm_n_ctx_train = 0, mm_n_embd = 0, mm_n_layer = 0, mm_n_head = 0, mm_n_head_kv = 0, mm_n_vocab = 0\<rparr>"

definition loaded_model_metadata :: "string \<Rightarrow> (string \<Rightarrow> string option) \<Rightarrow> int \<Rightarrow> llama_model_metadata" where
  "loaded_model_metadata path meta n_vocab =
     \<lparr>mm_model_loaded = True, mm_model_path = path,
      mm_architecture = model_meta_string meta ''general.architecture'',
      mm_name = model_meta_string meta ''general.name'',
      mm_n_ctx_train = model_meta_int meta ''llama.context_length'',
      mm_n_embd = model_meta_int meta ''llama.embedding_length'',
      mm_n_layer = model_meta_int meta ''llama.block_count'',
      mm_n_head = model_meta_int meta ''llama.attention.head_count'',
      mm_n_head_kv = model_meta_int meta ''llama.attention.head_count_kv'',
      mm_n_vocab = n_vocab\<rparr>"

definition f32_1em5 :: f32 where "f32_1em5 = 0x3727C5AC"
definition f32_10000 :: f32 where "f32_10000 = 0x461C4000"

definition executor_hparams ::
    "(string \<Rightarrow> f32 option) \<Rightarrow> (string \<Rightarrow> string option) \<Rightarrow> llama_model_metadata \<Rightarrow> hyperparams" where
  "executor_hparams stof meta mm =
     \<lparr>architecture = mm_architecture mm, hidden_size = mm_n_embd mm,
      ffn_size = model_meta_int meta ''llama.feed_forward_length'', n_head = mm_n_head mm,
      n_head_kv = mm_n_head_kv mm, head_dim = model_meta_int meta ''llama.rope.dimension_count'',
      vocab_size = mm_n_vocab mm,
      rms_eps = model_meta_float stof meta ''llama.attention.layer_norm_rms_epsilon'' f32_1em5,
      rope_theta = model_meta_float stof meta ''llama.rope.freq_base'' f32_10000\<rparr>"

text \<open>The default member initialisers of \<open>LlamaExecutorHyperparams\<close>.\<close>

definition default_hparams :: hyperparams where
  "default_hparams = \<lparr>architecture = ''llama'', hidden_size = 0, ffn_size = 0, n_head = 0, n_head_kv = 0, head_dim = 0,
     vocab_size = 0, rms_eps = f32_1em5, rope_theta = f32_10000\<rparr>"

definition construct_partial_runtime ::
    "(string \<Rightarrow> f32 option) \<Rightarrow> partial_runtime_config \<Rightarrow> 'w model_file \<Rightarrow> 'w loaded_runtime result" where
  "construct_partial_runtime stof config file =
     (let path = pc_model_path config
      in bindR (validate_model_path_if_present path file) (\<lambda>_.
         if path = []
         then Inr \<lparr>lr_config = config, lr_model_metadata = empty_model_metadata path,
                   lr_shard_metadata = empty_shard_metadata, lr_hparams = default_hparams,
                   lr_tensor_ctx = None, lr_model_file_size_mb = 0\<rparr>
         else
           bindR (load_shard_metadata_from_gguf path (mf_gguf file)) (\<lambda>shard.
           bindR (validate_shard_against_stage_config shard config) (\<lambda>_.
           case mf_meta file of
             None \<Rightarrow> Inl (''failed to load GGUF metadata/vocab for LlamaPartialRuntime: '' @ path)
           | Some meta \<Rightarrow>
               (case mf_vocab file of
                  None \<Rightarrow> Inl (''failed to get vocab from LlamaPartialRuntime model: '' @ path)
                | Some n_vocab \<Rightarrow>
                    let mm = loaded_model_metadata path meta n_vocab
                    in if sh_hidden_size shard > 0 \<and> mm_n_embd mm > 0 \<and> sh_hidden_size shard \<noteq> mm_n_embd mm
                       then Inl ''DLI shard hidden_size does not match llama.embedding_length''
                       else bindR (load_raw_tensor_context path file) (\<lambda>ctx.
                            Inr \<lparr>lr_config = config, lr_model_metadata = mm, lr_shard_metadata = shard,
                                 lr_hparams = executor_hparams stof meta mm, lr_tensor_ctx = Some ctx,
                                 lr_model_file_size_mb =
                                   (case mf_size file of None \<Rightarrow> 0 | Some n \<Rightarrow> bytes_to_rounded_mb n)\<rparr>))))))"

end
