(* ===== verification/Action_Logic.thy ===== *)
theory Action_Logic
  imports Prelude
begin

text \<open>
  Reasoning about actions, the member functions that change their object and may throw: predicates
  an action keeps on either exit (\<open>keepsA\<close>), and triples with a postcondition for each exit
  (\<open>validA\<close>); for results, what every value they hold satisfies (\<open>okR\<close>).
\<close>

section \<open>Actions that keep a predicate\<close>

definition keepsA :: "('s \<Rightarrow> bool) \<Rightarrow> ('s, 'a) action \<Rightarrow> bool" where
  "keepsA P m \<longleftrightarrow> (\<forall>s. P s \<longrightarrow> P (snd (m s)))"

named_theorems keeps_intros \<open>actions built from keeping actions\<close>

lemma keepsA_lift [keeps_intros]: "keepsA P (liftA r)"
  by (simp add: keepsA_def)

lemma keepsA_ret [keeps_intros]: "keepsA P (retA x)"
  by (simp add: keepsA_def)

lemma keepsA_throw [keeps_intros]: "keepsA P (throwA e)"
  by (simp add: keepsA_def)

lemma keepsA_get [keeps_intros]: "keepsA P getA"
  by (simp add: keepsA_def)

lemma keepsA_check [keeps_intros]: "keepsA P (checkA ok msg)"
  by (simp add: keepsA_def)

lemma keepsA_modify: "(\<And>s. P s \<Longrightarrow> P (g s)) \<Longrightarrow> keepsA P (modifyA g)"
  by (simp add: keepsA_def)

lemma keepsA_bind [keeps_intros]:
  "\<lbrakk>keepsA P m; \<And>x. keepsA P (f x)\<rbrakk> \<Longrightarrow> keepsA P (bindA m f)"
  by (fastforce simp: keepsA_def bindA_apply split: prod.splits sum.splits)

lemma keepsA_fold [keeps_intros]:
  "(\<And>x b. keepsA P (f x b)) \<Longrightarrow> keepsA P (foldA f xs b)"
  by (induction xs arbitrary: b) (auto intro: keeps_intros)

lemma keepsA_if [keeps_intros]:
  "\<lbrakk>c \<Longrightarrow> keepsA P m; \<not> c \<Longrightarrow> keepsA P m'\<rbrakk> \<Longrightarrow> keepsA P (if c then m else m')"
  by simp

section \<open>Triples\<close>

text \<open>Hoare triples on actions, with a postcondition for either exit; \<open>keepsA\<close> is the special case
  in which both are the precondition.\<close>

definition validA :: "('s \<Rightarrow> bool) \<Rightarrow> ('s, 'a) action \<Rightarrow> ('a \<Rightarrow> 's \<Rightarrow> bool) \<Rightarrow> ('s \<Rightarrow> bool) \<Rightarrow> bool" where
  "validA P m Q E \<longleftrightarrow> (\<forall>s. P s \<longrightarrow> (case m s of (Inl e, s') \<Rightarrow> E s' | (Inr x, s') \<Rightarrow> Q x s'))"

named_theorems valid_intros \<open>triples of the action combinators\<close>

lemma validA_bind [valid_intros]:
  "\<lbrakk>validA P m Q E; \<And>x. validA (Q x) (f x) R E\<rbrakk> \<Longrightarrow> validA P (bindA m f) R E"
  by (fastforce simp: validA_def bindA_apply split: prod.splits sum.splits)

lemma validA_lift: "\<lbrakk>\<And>s x. \<lbrakk>P s; r = Inr x\<rbrakk> \<Longrightarrow> Q x s; \<And>s. P s \<Longrightarrow> E s\<rbrakk> \<Longrightarrow> validA P (liftA r) Q E"
  by (auto simp: validA_def split: sum.splits)

lemma validA_modify: "(\<And>s. P s \<Longrightarrow> Q () (g s)) \<Longrightarrow> validA P (modifyA g) Q E"
  by (simp add: validA_def)

lemma validA_ret: "(\<And>s. P s \<Longrightarrow> Q x s) \<Longrightarrow> validA P (retA x) Q E"
  by (simp add: validA_def)

lemma validA_get: "(\<And>s. P s \<Longrightarrow> Q s s) \<Longrightarrow> validA P getA Q E"
  by (simp add: validA_def)

lemma validA_keeps: "\<lbrakk>keepsA P m; \<And>s. P s \<Longrightarrow> E s\<rbrakk> \<Longrightarrow> validA P m (\<lambda>_. P) E"
  by (auto simp: validA_def keepsA_def split: prod.splits sum.splits)

lemma validA_pre: "\<lbrakk>validA P' m Q E; \<And>s. P s \<Longrightarrow> P' s\<rbrakk> \<Longrightarrow> validA P m Q E"
  by (auto simp: validA_def)

lemma validA_post:
  "\<lbrakk>validA P m Q E; \<And>x s. Q x s \<Longrightarrow> Q' x s; \<And>s. E s \<Longrightarrow> E' s\<rbrakk> \<Longrightarrow> validA P m Q' E'"
  by (fastforce simp: validA_def split: prod.splits sum.splits)

lemma validA_run:
  "\<lbrakk>validA P m Q E; P s; m s = (r, s')\<rbrakk> \<Longrightarrow> case r of Inl e \<Rightarrow> E s' | Inr x \<Rightarrow> Q x s'"
  by (cases r) (force simp: validA_def)+

section \<open>Results that satisfy a predicate\<close>

definition okR :: "('a \<Rightarrow> bool) \<Rightarrow> 'a result \<Rightarrow> bool" where
  "okR P r \<longleftrightarrow> (\<forall>x. r = Inr x \<longrightarrow> P x)"

named_theorems okR_intros \<open>results built from results that satisfy a predicate\<close>

lemma okR_Inl [okR_intros]: "okR P (Inl e)"
  by (simp add: okR_def)

lemma okR_if [okR_intros]: "\<lbrakk>c \<Longrightarrow> okR P r; \<not> c \<Longrightarrow> okR P r'\<rbrakk> \<Longrightarrow> okR P (if c then r else r')"
  by simp

lemma okR_bind: "\<lbrakk>okR Q r; \<And>x. Q x \<Longrightarrow> okR P (f x)\<rbrakk> \<Longrightarrow> okR P (bindR r f)"
  by (auto simp: okR_def result_simps)

lemma okR_fold: "\<lbrakk>P b; \<And>x b. P b \<Longrightarrow> okR P (f x b)\<rbrakk> \<Longrightarrow> okR P (foldR f xs b)"
proof (induction xs arbitrary: b)
  case (Cons x xs)
  show ?case unfolding foldR.simps
    by (rule okR_bind [OF Cons.prems(2) [OF Cons.prems(1)]]) (rule Cons.IH [OF _ Cons.prems(2)])
qed (simp add: okR_def)

end
