(* ===== verification/Partial_Runtime.thy ===== *)
theory Partial_Runtime
  imports Shard_Metadata Action_Logic
begin

text \<open>
  The runtime of a stage (\<open>llama_partial_runtime.cpp\<close>): a table of request sessions, each with its
  KV bookkeeping and its executor, and \<open>forward\<close>, which validates a request, finds its session,
  accounts for the step and runs the partition's executor.

  \<open>sessions_\<close> is an \<open>std::unordered_map\<close>, whose iteration order the standard leaves open and which
  an insertion may change: the table is the list of its entries in iteration order, and the order
  after an insertion is a parameter that permutes the entries. Time stamps, \<open>/proc\<close> and cgroup
  files are measurements, the fields of \<open>measurement\<close>.
\<close>

section \<open>State\<close>

record kv_cache_state =
  kc_seq_len :: int
  kc_valid :: bool

record kv_cache_step =
  ks_seq_before :: int
  ks_seq_after :: int
  ks_bytes :: nat
  ks_valid :: bool

record 'g request_session =
  rs_kv_cache :: kv_cache_state
  rs_executor :: "'g executor"

type_synonym 'g session_table = "(string \<times> 'g request_session) list"

record ('w, 'g) runtime_env =
  re_platform :: "('w, 'g) platform"
  re_max_sessions :: "string option"
  re_rehash :: "'g session_table \<Rightarrow> 'g session_table"

section \<open>Resource measurements\<close>

record resource_snapshot =
  rsn_valid :: bool
  rsn_proc_cpu_jiffies :: nat
  rsn_sys_cpu_total_jiffies :: nat
  rsn_sys_cpu_idle_jiffies :: nat
  rsn_ctx_voluntary :: nat
  rsn_ctx_involuntary :: nat
  rsn_io_read_bytes :: nat
  rsn_io_write_bytes :: nat
  rsn_io_read_count :: nat
  rsn_io_write_count :: nat

record measurement =
  me_compute_ms :: f64
  me_wall_ms :: f64
  me_matmul_ms :: f64
  me_attention_ms :: f64
  me_model_load_ms :: f64
  me_ggml_threads :: int
  me_rss_mb :: nat
  me_cgroup_current_v2 :: "string option"
  me_cgroup_current_v1 :: "string option"
  me_cgroup_max_v2 :: "string option"
  me_cgroup_limit_v1 :: "string option"
  me_start :: resource_snapshot
  me_end :: resource_snapshot
  me_threads :: nat
  me_hz :: nat

text \<open>\<open>std::stoull\<close>: a minus sign negates modulo \<open>2^64\<close>.\<close>

definition std_stoull :: "string \<Rightarrow> nat option" where
  "std_stoull s =
     (let r = skip_ws s;
          neg = (r \<noteq> [] \<and> hd r = CHR ''-'');
          r = (if r \<noteq> [] \<and> (hd r = CHR ''-'' \<or> hd r = CHR ''+'') then tl r else r);
          ds = takeWhile is_digit r; n = read_nat ds
      in if ds = [] \<or> n \<ge> 2 ^ 64 then None
         else Some (if neg then (2 ^ 64 - n) mod 2 ^ 64 else n))"

text \<open>The first word of a file, \<open>None\<close> when the file cannot be opened.\<close>

definition read_u64_text_file :: "string option \<Rightarrow> nat" where
  "read_u64_text_file word =
     (case word of
        None \<Rightarrow> 0
      | Some value \<Rightarrow> if value = [] \<or> value = ''max'' then 0 else or_default 0 (std_stoull value))"

definition cgroup_memory_current_mb :: "measurement \<Rightarrow> nat" where
  "cgroup_memory_current_mb me =
     (let v2 = read_u64_text_file (me_cgroup_current_v2 me)
      in if v2 > 0 then bytes_to_rounded_mb v2
         else bytes_to_rounded_mb (read_u64_text_file (me_cgroup_current_v1 me)))"

definition cgroup_memory_limit_mb :: "measurement \<Rightarrow> nat" where
  "cgroup_memory_limit_mb me =
     (let v2 = read_u64_text_file (me_cgroup_max_v2 me)
      in if v2 > 0 \<and> v2 < 2 ^ 63 - 1 then bytes_to_rounded_mb v2
         else let v1 = read_u64_text_file (me_cgroup_limit_v1 me)
              in if v1 > 0 \<and> v1 < 2 ^ 63 - 1 then bytes_to_rounded_mb v1 else 0)"

definition env_u64_or_default :: "string option \<Rightarrow> nat \<Rightarrow> nat" where
  "env_u64_or_default raw fallback =
     (case raw of
        None \<Rightarrow> fallback
      | Some value \<Rightarrow> if value = [] then fallback else or_default fallback (std_stoull value))"

definition f64_100 :: f64 where "f64_100 = 0x4059000000000000"
definition f64_1000 :: f64 where "f64_1000 = 0x408F400000000000"

definition total_session_kv_cache_bytes :: "'g session_table \<Rightarrow> nat" where
  "total_session_kv_cache_bytes sessions = sum_list (map (\<lambda>(_, s). kv_cache_bytes (rs_executor s)) sessions)"

text \<open>A counter delta never goes below zero (truncated subtraction).\<close>

definition populate_resource_metrics ::
    "fpu \<Rightarrow> 'w loaded_runtime \<Rightarrow> 'g session_table \<Rightarrow> measurement \<Rightarrow> stage_metrics \<Rightarrow> stage_metrics" where
  "populate_resource_metrics F rt sessions me m =
     (let current = cgroup_memory_current_mb me; limit = cgroup_memory_limit_mb me;
          m = m\<lparr>sm_memory_rss_mb := me_rss_mb me, sm_memory_cgroup_current_mb := current,
                sm_memory_cgroup_limit_mb := limit,
                sm_memory_cgroup_percent :=
                  (if current > 0 \<and> limit > 0
                   then ddiv F (dmul F f64_100 (f64_of_int F (int current))) (f64_of_int F (int limit))
                   else sm_memory_cgroup_percent m),
                sm_model_file_size_mb := lr_model_file_size_mb rt, sm_session_count := length sessions,
                sm_session_kv_cache_bytes := total_session_kv_cache_bytes sessions\<rparr>;
          st = me_start me; en = me_end me
      in if \<not> rsn_valid st \<or> \<not> rsn_valid en then m
         else let wall_seconds = (if f64_lt f64_zero (me_wall_ms me) then ddiv F (me_wall_ms me) f64_1000 else f64_zero);
                  total_delta = rsn_sys_cpu_total_jiffies en - rsn_sys_cpu_total_jiffies st;
                  idle_delta = rsn_sys_cpu_idle_jiffies en - rsn_sys_cpu_idle_jiffies st
         in m\<lparr>sm_process_threads := me_threads me,
              sm_process_cpu_percent :=
                (if f64_lt f64_zero wall_seconds \<and> rsn_proc_cpu_jiffies en \<ge> rsn_proc_cpu_jiffies st
                 then ddiv F (dmul F f64_100
                        (ddiv F (f64_of_int F (int (rsn_proc_cpu_jiffies en - rsn_proc_cpu_jiffies st)))
                                (f64_of_int F (int (me_hz me))))) wall_seconds
                 else sm_process_cpu_percent m),
              sm_system_cpu_percent :=
                (if total_delta > 0 \<and> total_delta \<ge> idle_delta
                 then ddiv F (dmul F f64_100 (f64_of_int F (int (total_delta - idle_delta))))
                             (f64_of_int F (int total_delta))
                 else sm_system_cpu_percent m),
              sm_ctx_switches_voluntary := rsn_ctx_voluntary en - rsn_ctx_voluntary st,
              sm_ctx_switches_involuntary := rsn_ctx_involuntary en - rsn_ctx_involuntary st,
              sm_io_read_bytes_delta := rsn_io_read_bytes en - rsn_io_read_bytes st,
              sm_io_write_bytes_delta := rsn_io_write_bytes en - rsn_io_write_bytes st,
              sm_io_read_count_delta := rsn_io_read_count en - rsn_io_read_count st,
              sm_io_write_count_delta := rsn_io_write_count en - rsn_io_write_count st\<rparr>)"

section \<open>The session table\<close>

definition session_key :: "runtime_request \<Rightarrow> string" where
  "session_key rq = (if rq_request_id rq = [] then ''__default__'' else rq_request_id rq)"

definition erase_session :: "string \<Rightarrow> 'g session_table \<Rightarrow> 'g session_table" where
  "erase_session key sessions = filter (\<lambda>(k, _). k \<noteq> key) sessions"

definition put_session :: "string \<Rightarrow> 'g request_session \<Rightarrow> 'g session_table \<Rightarrow> 'g session_table" where
  "put_session key s sessions = map (\<lambda>(k, v). (k, if k = key then s else v)) sessions"

definition max_sessions :: "string option \<Rightarrow> nat" where
  "max_sessions raw = max 1 (env_u64_or_default raw 8)"

text \<open>The loop of \<open>prune_sessions_except\<close>: while there are too many, drop the first entry, or the second
  when the first is the one to keep.\<close>

function prune_sessions :: "nat \<Rightarrow> string \<Rightarrow> 'g session_table \<Rightarrow> 'g session_table" where
  "prune_sessions bound keep sessions =
     (if length sessions \<le> bound then sessions
      else case sessions of
             [] \<Rightarrow> sessions
           | x # rest \<Rightarrow>
               if keep \<noteq> [] \<and> fst x = keep
               then (case rest of [] \<Rightarrow> sessions | _ # rest' \<Rightarrow> prune_sessions bound keep (x # rest'))
               else prune_sessions bound keep rest)"
  by auto
termination
  by (relation "measure (\<lambda>(_, _, sessions). length sessions)") auto

declare prune_sessions.simps [simp del]

definition prune_sessions_except :: "('w, 'g) runtime_env \<Rightarrow> string \<Rightarrow> 'g session_table \<Rightarrow> 'g session_table" where
  "prune_sessions_except env keep sessions = prune_sessions (max_sessions (re_max_sessions env)) keep sessions"

definition fresh_session :: "'g executor \<Rightarrow> 'g request_session" where
  "fresh_session ex = \<lparr>rs_kv_cache = \<lparr>kc_seq_len = 0, kc_valid = True\<rparr>, rs_executor = ex\<rparr>"

text \<open>Returns the key of the session it created or found.\<close>

definition session_for_request ::
    "('w, 'g) runtime_env \<Rightarrow> 'w loaded_runtime \<Rightarrow> 'g \<Rightarrow> runtime_request \<Rightarrow> ('g session_table, string) action" where
  "session_for_request env rt fresh rq =
     (let key = session_key rq
      in bindA (modifyA (\<lambda>sessions.
           if rq_generation_mode rq = ''prefill'' \<and> rq_token_index rq = 0
           then erase_session key sessions else sessions)) (\<lambda>_.
         bindA getA (\<lambda>sessions.
         bindA (if map_of sessions key = None
                then bindA (liftA (construct_executor (lr_hparams rt) (lr_tensor_ctx rt) fresh)) (\<lambda>ex.
                     modifyA (\<lambda>sessions. re_rehash env (sessions @ [(key, fresh_session ex)])))
                else retA ()) (\<lambda>_.
         bindA (modifyA (prune_sessions_except env key)) (\<lambda>_.
         retA key))))) "

section \<open>KV accounting\<close>

definition estimate_kv_cache_bytes :: "'w loaded_runtime \<Rightarrow> int \<Rightarrow> nat" where
  "estimate_kv_cache_bytes rt seq_len =
     (let shard = lr_shard_metadata rt;
          hidden = (if sh_hidden_size shard > 0 then sh_hidden_size shard else mm_n_embd (lr_model_metadata rt))
      in if seq_len \<le> 0 \<or> sh_layers shard = [] then 0
         else if hidden \<le> 0 then 0
         else (nat seq_len * length (sh_layers shard) * nat hidden * 2 * 4) mod 2 ^ 64)"

text \<open>Whether a step fits its mode, and how far it advances the sequence.\<close>

definition kv_advance :: "runtime_request \<Rightarrow> int option" where
  "kv_advance rq =
     (let input_seq = i32_wrap (dli2_sequence_length (rq_input_tensor rq))
      in if rq_generation_mode rq = ''prefill'' then (if input_seq \<le> 0 then None else Some input_seq)
         else if rq_generation_mode rq = ''decode'' then (if input_seq \<noteq> 1 then None else Some 1)
         else None)"

definition update_kv_cache_for_request ::
    "'w loaded_runtime \<Rightarrow> runtime_request \<Rightarrow> kv_cache_state \<Rightarrow> kv_cache_step \<times> kv_cache_state" where
  "update_kv_cache_for_request rt rq kv =
     (let before = kc_seq_len kv
      in if \<not> rq_kv_cache_enabled rq
         then (\<lparr>ks_seq_before = before, ks_seq_after = before, ks_bytes = estimate_kv_cache_bytes rt before,
                ks_valid = True\<rparr>, kv)
         else let after = (case kv_advance rq of None \<Rightarrow> before | Some n \<Rightarrow> i32_wrap (before + n));
                  ok = (kc_valid kv \<and> kv_advance rq \<noteq> None)
         in (\<lparr>ks_seq_before = before, ks_seq_after = after, ks_bytes = estimate_kv_cache_bytes rt after,
              ks_valid = ok\<rparr>, \<lparr>kc_seq_len = after, kc_valid = ok\<rparr>))"

section \<open>The forward pass\<close>

text \<open>An operation of the request's session (the reference \<open>session\<close> of the code; the session exists,
  \<open>session_for_request\<close> has just returned it).\<close>

definition in_session :: "string \<Rightarrow> ('g request_session, 'a) action \<Rightarrow> ('g session_table, 'a) action" where
  "in_session key m = (\<lambda>sessions.
     case map_of sessions key of
       None \<Rightarrow> (Inl ''session is not in the table'', sessions)
     | Some s \<Rightarrow> (case m s of (r, s') \<Rightarrow> (r, put_session key s' sessions)))"

definition account_step :: "'w loaded_runtime \<Rightarrow> runtime_request \<Rightarrow> ('g request_session, kv_cache_step) action" where
  "account_step rt rq = (\<lambda>s.
     case update_kv_cache_for_request rt rq (rs_kv_cache s) of (step, kv) \<Rightarrow> (Inr step, s\<lparr>rs_kv_cache := kv\<rparr>))"

definition with_executor :: "('g executor, 'a) action \<Rightarrow> ('g request_session, 'a) action" where
  "with_executor m = (\<lambda>s. case m (rs_executor s) of (r, ex) \<Rightarrow> (r, s\<lparr>rs_executor := ex\<rparr>))"

text \<open>The metrics every branch fills in the same way after the execution.\<close>

definition step_metrics ::
    "string \<Rightarrow> runtime_request \<Rightarrow> tensor_buffer \<Rightarrow> kv_cache_step \<Rightarrow> nat \<Rightarrow> measurement \<Rightarrow> stage_metrics" where
  "step_metrics status rq out step cache_bytes me =
     default_stage_metrics\<lparr>sm_backend := ''llama.cpp-partial-dli-gguf'', sm_status := status,
       sm_compute_time_ms := me_compute_ms me,
       sm_input_tensor_bytes := length (bytes (rq_input_tensor rq)),
       sm_output_tensor_bytes := length (bytes out),
       sm_stage_input_token_count := i32_wrap (dli2_sequence_length (rq_input_tensor rq)),
       sm_stage_output_token_count := i32_wrap (dli2_sequence_length out),
       sm_kv_cache_step_valid := ks_valid step, sm_kv_cache_seq_before := ks_seq_before step,
       sm_kv_cache_seq_after := ks_seq_after step, sm_kv_cache_bytes := cache_bytes,
       sm_matmul_ms := me_matmul_ms me, sm_attention_ms := me_attention_ms me,
       sm_ggml_threads := me_ggml_threads me, sm_kv_cache_valid := ks_valid step,
       sm_model_load_ms := me_model_load_ms me\<rparr>"

definition finish_response ::
    "('w, 'g) runtime_env \<Rightarrow> 'w loaded_runtime \<Rightarrow> measurement \<Rightarrow> string \<Rightarrow> runtime_request \<Rightarrow> string \<Rightarrow>
     bool \<Rightarrow> int \<Rightarrow> tensor_buffer \<Rightarrow> kv_cache_step \<Rightarrow> 'g session_table \<Rightarrow> runtime_response" where
  "finish_response env rt me status rq key is_final token out step sessions =
     \<lparr>rs_is_final_stage = is_final, rs_next_token_id = token,
      rs_output_metadata_json = rq_input_metadata_json rq, rs_output_tensor = out,
      rs_metrics = populate_resource_metrics (fp (re_platform env)) rt sessions me
        (step_metrics status rq out step
          (case map_of sessions key of None \<Rightarrow> 0 | Some s \<Rightarrow> kv_cache_bytes (rs_executor s)) me),
      rs_backend_metadata_json =
        backend_metadata_json (lr_model_metadata rt) (lr_shard_metadata rt) (length sessions)\<rparr>"

text \<open>The executor is only reached with a tensor context: without one \<open>session_for_request\<close> has thrown.\<close>

definition runtime_ctx :: "'w loaded_runtime \<Rightarrow> 'w tensor_context" where
  "runtime_ctx rt = (case lr_tensor_ctx rt of None \<Rightarrow> Map.empty | Some ctx \<Rightarrow> ctx)"

definition forward_source_partition ::
    "('w, 'g) runtime_env \<Rightarrow> 'w loaded_runtime \<Rightarrow> 'g \<Rightarrow> measurement \<Rightarrow> runtime_request \<Rightarrow>
     ('g session_table, runtime_response) action" where
  "forward_source_partition env rt fresh me rq =
     bindA (session_for_request env rt fresh rq) (\<lambda>key.
     bindA (in_session key (account_step rt rq)) (\<lambda>step.
     bindA (in_session key (with_executor
        (execute_source (re_platform env) (runtime_ctx rt) (lr_hparams rt) (rq_input_tensor rq)
           (sh_layers (lr_shard_metadata rt)) (nat (ks_seq_before step)) (rq_activation_precision rq)))) (\<lambda>out.
     bindA getA (\<lambda>sessions.
     retA (finish_response env rt me ''source_partition_executed_embedding_and_layers'' rq key
             False (- 1) out step sessions)))))"

definition forward_intermediate_partition ::
    "('w, 'g) runtime_env \<Rightarrow> 'w loaded_runtime \<Rightarrow> 'g \<Rightarrow> measurement \<Rightarrow> runtime_request \<Rightarrow>
     ('g session_table, runtime_response) action" where
  "forward_intermediate_partition env rt fresh me rq =
     bindA (session_for_request env rt fresh rq) (\<lambda>key.
     bindA (in_session key (account_step rt rq)) (\<lambda>step.
     bindA (in_session key (with_executor
        (execute_intermediate (re_platform env) (runtime_ctx rt) (lr_hparams rt) (rq_input_tensor rq)
           (sh_layers (lr_shard_metadata rt)) (nat (ks_seq_before step)) (rq_activation_precision rq)))) (\<lambda>out.
     bindA getA (\<lambda>sessions.
     retA (finish_response env rt me ''intermediate_partition_executed_layers'' rq key
             False (- 1) out step sessions)))))"

definition request_sampling :: "fpu \<Rightarrow> runtime_request \<Rightarrow> sampling_params" where
  "request_sampling F rq =
     \<lparr>sampling_enabled = (rq_has_temperature rq \<and> f64_lt f64_zero (rq_temperature rq)),
      temperature = (if rq_has_temperature rq then f32_of_f64 F (rq_temperature rq) else temperature default_sampling),
      top_k = (if rq_has_top_k rq then rq_top_k rq else top_k default_sampling),
      top_p = (if rq_has_top_p rq then f32_of_f64 F (rq_top_p rq) else top_p default_sampling),
      has_seed = rq_has_seed rq, seed = rq_seed rq\<rparr>"

definition forward_terminal_partition ::
    "('w, 'g) runtime_env \<Rightarrow> 'w loaded_runtime \<Rightarrow> 'g \<Rightarrow> 32 word \<Rightarrow> measurement \<Rightarrow> runtime_request \<Rightarrow>
     ('g session_table, runtime_response) action" where
  "forward_terminal_partition env rt fresh entropy me rq =
     bindA (session_for_request env rt fresh rq) (\<lambda>key.
     bindA (in_session key (account_step rt rq)) (\<lambda>step.
     bindA (in_session key (with_executor
        (execute_terminal (re_platform env) (runtime_ctx rt) (lr_hparams rt) entropy (rq_input_tensor rq)
           (sh_layers (lr_shard_metadata rt)) (nat (ks_seq_before step))
           (sh_owns_norm (lr_shard_metadata rt)) (sh_owns_lm_head (lr_shard_metadata rt))
           (request_sampling (fp (re_platform env)) rq)))) (\<lambda>token.
     bindA getA (\<lambda>sessions.
     retA (finish_response env rt me ''terminal_partition_executed_layers_norm_lm_head'' rq key
             True token empty_tensor step sessions)))))"

definition forward ::
    "('w, 'g) runtime_env \<Rightarrow> 'w loaded_runtime \<Rightarrow> 'g \<Rightarrow> 32 word \<Rightarrow> measurement \<Rightarrow> runtime_request \<Rightarrow>
     ('g session_table, runtime_response) action" where
  "forward env rt fresh entropy me rq =
     (let shard = lr_shard_metadata rt
      in bindA (checkA (sh_shard_loaded shard) ''LlamaPartialRuntime has no loaded DLI GGUF shard'') (\<lambda>_.
         bindA (liftA (validate_runtime_request_matches_partition rq shard)) (\<lambda>_.
         if sh_owns_embedding shard then forward_source_partition env rt fresh me rq
         else if sh_owns_lm_head shard \<or> sh_next_stage_url shard = []
         then forward_terminal_partition env rt fresh entropy me rq
         else forward_intermediate_partition env rt fresh me rq)))"

section \<open>Every execution keeps the executor's invariant\<close>

lemma keepsA_layer_row:
  "keepsA (executor_ok pl hp) (layer_row pl ctx hp l anw fnw p x)"
proof -
  have "executor_ok pl hp (snd (layer_row pl ctx hp l anw fnw p x s))" if s: "executor_ok pl hp s" for s
  proof -
    have rs: "rope_ok (fp pl) hp (rope_inv_freq s)" using s by (simp add: executor_ok_def)
    have wf: "kv_wf (attention_backend_is_ggml pl) hp (snd (attended pl hp q k v p (kv_of s l)))" for q k v
      unfolding attended_def using s by (intro attention_step_wf) (simp add: executor_ok_def)
    have "executor_ok pl hp (s\<lparr>rope_inv_freq := rope_table (fp pl) hp, layer_cache := (layer_cache s)(l \<mapsto> kv)\<rparr>)"
      if "attended pl hp q k v p (kv_of s l) = (r, kv)" for q k v r kv
      using s wf [of q k v] that by (auto simp: executor_ok_def rope_ok_def)
    with s show ?thesis
      by (auto simp: layer_row_closed [OF rs] split: sum.splits prod.splits)
  qed
  then show ?thesis by (simp add: keepsA_def)
qed

lemma keepsA_run_layers: "keepsA (executor_ok pl hp) (run_layers pl ctx hp ls h n before)"
  unfolding run_layers_def run_layer_def by (intro keeps_intros keepsA_layer_row)

lemma keepsA_source:
  "keepsA (executor_ok pl hp) (execute_source pl ctx hp toks ls before prec)"
  unfolding execute_source_def by (intro keeps_intros keepsA_run_layers)

lemma keepsA_intermediate:
  "keepsA (executor_ok pl hp) (execute_intermediate pl ctx hp hidden ls before prec)"
  unfolding execute_intermediate_def Let_def by (intro keeps_intros keepsA_run_layers)

lemma executor_ok_rng [simp]: "executor_ok pl hp (s\<lparr>rng := g\<rparr>) = executor_ok pl hp s"
  by (simp add: executor_ok_def kv_of_def)

lemma keepsA_sample: "keepsA (executor_ok pl hp) (sample_from_logits pl logits sampling)"
  by (auto simp: keepsA_def sample_from_logits_def Let_def split: prod.splits)

lemma keepsA_terminal:
  "keepsA (executor_ok pl hp) (execute_terminal pl ctx hp entropy hidden ls before on ol sampling)"
proof -
  have reseed: "keepsA (executor_ok pl hp) (modifyA (reseed pl entropy sampling before))"
    by (rule keepsA_modify) (simp add: reseed_def)
  show ?thesis
    unfolding execute_terminal_def terminal_head_def sample_lm_head_def Let_def
    by (intro keeps_intros keepsA_run_layers keepsA_sample reseed)
qed

section \<open>Pruning\<close>

lemma prune_short: "length xs \<le> bound \<Longrightarrow> prune_sessions bound keep xs = xs"
  by (simp add: prune_sessions.simps [of bound keep xs])

lemma prune_drop:
  "\<lbrakk>bound < length (x # rest); keep = [] \<or> fst x \<noteq> keep\<rbrakk> \<Longrightarrow>
   prune_sessions bound keep (x # rest) = prune_sessions bound keep rest"
  by (subst prune_sessions.simps) auto

lemma prune_second:
  "\<lbrakk>bound < length (x # y # rest); keep \<noteq> []; fst x = keep\<rbrakk> \<Longrightarrow>
   prune_sessions bound keep (x # y # rest) = prune_sessions bound keep (x # rest)"
  by (subst prune_sessions.simps) auto

lemma prune_induct [case_names short drop second]:
  assumes bound: "1 \<le> bound"
    and short: "\<And>xs. length xs \<le> bound \<Longrightarrow> P xs xs"
    and drop: "\<And>x rest ys. \<lbrakk>bound < length (x # rest); keep = [] \<or> fst x \<noteq> keep; P rest ys\<rbrakk> \<Longrightarrow> P (x # rest) ys"
    and second: "\<And>x y rest ys. \<lbrakk>bound < length (x # y # rest); keep \<noteq> []; fst x = keep; P (x # rest) ys\<rbrakk> \<Longrightarrow>
      P (x # y # rest) ys"
  shows "P xs (prune_sessions bound keep xs)"
proof (induction "length xs" arbitrary: xs rule: less_induct)
  case less
  show ?case
  proof (cases "length xs \<le> bound")
    case True
    then show ?thesis by (simp add: prune_short short)
  next
    case False
    then obtain x rest where xs: "xs = x # rest" "bound < length (x # rest)" by (cases xs) auto
    show ?thesis
    proof (cases "keep = [] \<or> fst x \<noteq> keep")
      case True
      with xs less [of rest] show ?thesis by (auto simp: prune_drop intro: drop)
    next
      case kept: False
      from xs(2) bound obtain y rest' where "rest = y # rest'" by (cases rest) auto
      with xs kept less [of "x # rest'"] show ?thesis by (auto simp: prune_second intro: second)
    qed
  qed
qed

lemma prune_sessions_spec:
  assumes "1 \<le> bound" "distinct (map fst xs)"
  shows "set (prune_sessions bound keep xs) \<subseteq> set xs" "distinct (map fst (prune_sessions bound keep xs))"
    "length (prune_sessions bound keep xs) \<le> bound"
    "\<lbrakk>keep \<noteq> []; x \<in> set xs; fst x = keep\<rbrakk> \<Longrightarrow> x \<in> set (prune_sessions bound keep xs)"
proof -
  have "set ys \<subseteq> set xs \<and> (distinct (map fst xs) \<longrightarrow> distinct (map fst ys)) \<and> length ys \<le> bound \<and>
      (\<forall>x \<in> set xs. keep \<noteq> [] \<and> fst x = keep \<longrightarrow> (distinct (map fst xs) \<longrightarrow> x \<in> set ys))"
    if "ys = prune_sessions bound keep xs" for ys
    unfolding that by (induction rule: prune_induct [OF assms(1)]) auto
  with assms(2) show "set (prune_sessions bound keep xs) \<subseteq> set xs" "distinct (map fst (prune_sessions bound keep xs))"
    "length (prune_sessions bound keep xs) \<le> bound"
    "\<lbrakk>keep \<noteq> []; x \<in> set xs; fst x = keep\<rbrakk> \<Longrightarrow> x \<in> set (prune_sessions bound keep xs)"
    by blast+
qed

section \<open>The session table is kept in order\<close>

definition iteration_ok :: "('w, 'g) runtime_env \<Rightarrow> bool" where
  "iteration_ok env \<longleftrightarrow> (\<forall>xs. mset (re_rehash env xs) = mset xs)"

definition sessions_ok :: "('w, 'g) runtime_env \<Rightarrow> 'w loaded_runtime \<Rightarrow> 'g session_table \<Rightarrow> bool" where
  "sessions_ok env rt ss \<longleftrightarrow> distinct (map fst ss) \<and> length ss \<le> max_sessions (re_max_sessions env) \<and>
     (\<forall>x \<in> set ss. executor_ok (re_platform env) (lr_hparams rt) (rs_executor (snd x)))"

text \<open>Nothing but the entry of the given key is new in a table.\<close>

definition only_session :: "string \<Rightarrow> 'g session_table \<Rightarrow> 'g session_table \<Rightarrow> bool" where
  "only_session key before after \<longleftrightarrow> (\<forall>x \<in> set after. fst x \<noteq> key \<longrightarrow> x \<in> set before)"

lemma rehash_perm:
  assumes "iteration_ok env"
  shows "set (re_rehash env xs) = set xs" "length (re_rehash env xs) = length xs"
    "distinct (map fst (re_rehash env xs)) = distinct (map fst xs)"
proof -
  have m: "mset (re_rehash env xs) = mset xs" using assms by (simp add: iteration_ok_def)
  then show "set (re_rehash env xs) = set xs" by (rule mset_eq_setD)
  from m show "length (re_rehash env xs) = length xs" by (rule mset_eq_length)
  from m have "mset (map fst (re_rehash env xs)) = mset (map fst xs)" by simp
  then show "distinct (map fst (re_rehash env xs)) = distinct (map fst xs)"
    by (rule mset_eq_imp_distinct_iff)
qed

lemma session_key_nonempty [simp]: "session_key rq \<noteq> []"
  by (simp add: session_key_def)

lemma max_sessions_pos: "1 \<le> max_sessions raw"
  by (simp add: max_sessions_def)

lemma erase_keys:
  "set (erase_session key ss) \<subseteq> set ss" "key \<notin> fst ` set (erase_session key ss)"
  "distinct (map fst ss) \<Longrightarrow> distinct (map fst (erase_session key ss))"
  "length (erase_session key ss) \<le> length ss"
  by (auto simp: erase_session_def distinct_map inj_on_def)

definition opened_table :: "runtime_request \<Rightarrow> 'g session_table \<Rightarrow> 'g session_table" where
  "opened_table rq ss = (if rq_generation_mode rq = ''prefill'' \<and> rq_token_index rq = 0
     then erase_session (session_key rq) ss else ss)"

lemma session_for_request_eq:
  "session_for_request env rt fresh rq ss =
     (let key = session_key rq; opened = opened_table rq ss
      in if map_of opened key = None
         then (case construct_executor (lr_hparams rt) (lr_tensor_ctx rt) fresh of
                 Inl e \<Rightarrow> (Inl e, opened)
               | Inr ex \<Rightarrow> (Inr key, prune_sessions_except env key
                                 (re_rehash env (opened @ [(key, fresh_session ex)]))))
         else (Inr key, prune_sessions_except env key opened))"
  by (auto simp: session_for_request_def Let_def opened_table_def bindA_apply split: sum.splits)

lemma construct_executor_Inr:
  "construct_executor hp tensors fresh = Inr ex \<Longrightarrow> ex = new_executor fresh \<and> check_hyperparams hp = Inr ()"
  by (auto simp: construct_executor_def result_simps split: option.splits)

lemma opened_ok: "sessions_ok env rt ss \<Longrightarrow> sessions_ok env rt (opened_table rq ss)"
  using erase_keys [where key = "session_key rq" and ss = ss] by (auto simp: sessions_ok_def opened_table_def)

lemma opened_subset: "set (opened_table rq ss) \<subseteq> set ss"
  by (simp add: opened_table_def erase_keys)

lemma prune_except_ok:
  assumes "distinct (map fst ss)" "\<forall>x \<in> set ss. executor_ok (re_platform env) (lr_hparams rt) (rs_executor (snd x))"
  shows "sessions_ok env rt (prune_sessions_except env key ss)"
  using prune_sessions_spec(1-3) [OF max_sessions_pos assms(1), of "re_max_sessions env" key] assms(2)
  by (auto simp: sessions_ok_def prune_sessions_except_def)

lemma prune_except_in:
  "\<lbrakk>distinct (map fst ss); key \<noteq> []; (key, s) \<in> set ss\<rbrakk> \<Longrightarrow> (key, s) \<in> set (prune_sessions_except env key ss)"
  unfolding prune_sessions_except_def by (rule prune_sessions_spec(4) [OF max_sessions_pos]) simp_all

lemma prune_except_subset:
  "distinct (map fst ss) \<Longrightarrow> set (prune_sessions_except env key ss) \<subseteq> set ss"
  unfolding prune_sessions_except_def by (rule prune_sessions_spec(1) [OF max_sessions_pos])

lemma session_for_request_spec:
  assumes "iteration_ok env" "sessions_ok env rt ss" "session_for_request env rt fresh rq ss = (r, ss')"
  shows "sessions_ok env rt ss'" "only_session (session_key rq) ss ss'"
    "r = Inr key \<Longrightarrow> key = session_key rq"
    "r = Inr key \<Longrightarrow> \<exists>s. (key, s) \<in> set ss' \<and> ((key, s) \<in> set (opened_table rq ss) \<or> s = fresh_session (new_executor fresh))"
proof -
  let ?key = "session_key rq" and ?opened = "opened_table rq ss"
  note ok = opened_ok [OF assms(2), of rq]
  have dist: "distinct (map fst ?opened)" using ok by (simp add: sessions_ok_def)
  have "sessions_ok env rt ss' \<and> only_session ?key ss ss' \<and>
      (\<forall>key. r = Inr key \<longrightarrow> key = ?key \<and> (\<exists>s. (key, s) \<in> set ss' \<and> ((key, s) \<in> set ?opened \<or> s = fresh_session (new_executor fresh))))"
  proof (cases "map_of ?opened ?key")
    case None
    then have new: "?key \<notin> fst ` set ?opened" by (simp add: map_of_eq_None_iff)
    show ?thesis
    proof (cases "construct_executor (lr_hparams rt) (lr_tensor_ctx rt) fresh")
      case (Inl e)
      with None assms(3) have "r = Inl e" "ss' = ?opened" by (simp_all add: session_for_request_eq Let_def)
      with ok opened_subset [of rq ss] show ?thesis by (auto simp: only_session_def)
    next
      case (Inr ex)
      let ?added = "re_rehash env (?opened @ [(?key, fresh_session ex)])"
      from None Inr assms(3) have r: "r = Inr ?key" "ss' = prune_sessions_except env ?key ?added"
        by (simp_all add: session_for_request_eq Let_def)
      from construct_executor_Inr [OF Inr] have ex: "ex = new_executor fresh" "check_hyperparams (lr_hparams rt) = Inr ()"
        by simp_all
      note perm = rehash_perm [OF assms(1), of "?opened @ [(?key, fresh_session ex)]"]
      have d: "distinct (map fst ?added)" using dist new by (auto simp: perm)
      have "\<forall>x \<in> set ?added. executor_ok (re_platform env) (lr_hparams rt) (rs_executor (snd x))"
        unfolding perm(1) using ok ex by (auto simp: sessions_ok_def fresh_session_def)
      with d have "sessions_ok env rt ss'" unfolding r by (intro prune_except_ok)
      moreover have "(?key, fresh_session ex) \<in> set ss'"
        unfolding r using d by (intro prune_except_in) (simp_all add: perm)
      moreover have "only_session ?key ss ss'"
        using prune_except_subset [OF d, of env ?key] opened_subset [of rq ss]
        by (auto simp: only_session_def r perm)
      ultimately show ?thesis using r(1) ex(1) by auto
    qed
  next
    case (Some s)
    then have r: "r = Inr ?key" "ss' = prune_sessions_except env ?key ?opened"
      using assms(3) by (simp_all add: session_for_request_eq Let_def)
    have s: "(?key, s) \<in> set ?opened" using Some by (rule map_of_SomeD)
    have "sessions_ok env rt ss'" unfolding r using ok by (intro prune_except_ok) (simp_all add: sessions_ok_def)
    moreover have "(?key, s) \<in> set ss'" unfolding r using dist s by (intro prune_except_in) simp_all
    moreover have "only_session ?key ss ss'"
      using prune_except_subset [OF dist, of env ?key] opened_subset [of rq ss] by (auto simp: only_session_def r)
    ultimately show ?thesis using r(1) s by auto
  qed
  then show "sessions_ok env rt ss'" "only_session (session_key rq) ss ss'"
    "r = Inr key \<Longrightarrow> key = session_key rq"
    "r = Inr key \<Longrightarrow> \<exists>s. (key, s) \<in> set ss' \<and> ((key, s) \<in> set (opened_table rq ss) \<or> s = fresh_session (new_executor fresh))"
    by blast+
qed

text \<open>The shape of the three branches of \<open>forward\<close>.\<close>

definition session_branch ::
    "('w, 'g) runtime_env \<Rightarrow> 'w loaded_runtime \<Rightarrow> 'g \<Rightarrow> runtime_request \<Rightarrow>
     (kv_cache_step \<Rightarrow> ('g executor, 'a) action) \<Rightarrow>
     (string \<Rightarrow> 'a \<Rightarrow> kv_cache_step \<Rightarrow> 'g session_table \<Rightarrow> runtime_response) \<Rightarrow>
     ('g session_table, runtime_response) action" where
  "session_branch env rt fresh rq run respond =
     bindA (session_for_request env rt fresh rq) (\<lambda>key.
     bindA (in_session key (account_step rt rq)) (\<lambda>step.
     bindA (in_session key (with_executor (run step))) (\<lambda>out.
     bindA getA (\<lambda>sessions. retA (respond key out step sessions)))))"

lemma put_session_keys [simp]: "map fst (put_session key s ss) = map fst ss"
  by (auto simp: put_session_def)

lemma put_session_set:
  "x \<in> set (put_session key s ss) \<Longrightarrow> (fst x = key \<and> snd x = s) \<or> (fst x \<noteq> key \<and> x \<in> set ss)"
  by (auto simp: put_session_def split: if_splits)

lemma keepsA_in_session:
  assumes "keepsA (\<lambda>s. executor_ok (re_platform env) (lr_hparams rt) (rs_executor s)) m"
  shows "keepsA (\<lambda>ss. sessions_ok env rt ss \<and> only_session key before ss) (in_session key m)"
proof -
  have "sessions_ok env rt (put_session key s' ss) \<and> only_session key before (put_session key s' ss)"
    if ok: "sessions_ok env rt ss \<and> only_session key before ss" and s: "map_of ss key = Some s"
      and m: "m s = (r, s')" for ss s r s'
  proof -
    have "(key, s) \<in> set ss" using s by (rule map_of_SomeD)
    with ok have "executor_ok (re_platform env) (lr_hparams rt) (rs_executor s)" by (auto simp: sessions_ok_def)
    with assms m have s': "executor_ok (re_platform env) (lr_hparams rt) (rs_executor s')"
      by (auto simp: keepsA_def dest!: spec [of _ s])
    have "length (put_session key s' ss) = length ss" by (simp add: put_session_def)
    with ok s' show ?thesis
      by (auto simp: sessions_ok_def only_session_def simp del: split_paired_All split_paired_Ex
          dest!: put_session_set)
  qed
  then show ?thesis by (auto simp: keepsA_def in_session_def split: option.splits prod.splits)
qed

lemma keepsA_account_step: "keepsA (\<lambda>s. P (rs_executor s)) (account_step rt rq)"
  by (auto simp: keepsA_def account_step_def split: prod.splits)

lemma keepsA_with_executor: "keepsA P m \<Longrightarrow> keepsA (\<lambda>s. P (rs_executor s)) (with_executor m)"
  by (auto simp: keepsA_def with_executor_def split: prod.splits)

lemma session_branch_ok:
  assumes "iteration_ok env" "sessions_ok env rt ss"
    "\<And>step. keepsA (executor_ok (re_platform env) (lr_hparams rt)) (run step)"
  shows "sessions_ok env rt (snd (session_branch env rt fresh rq run respond ss)) \<and>
    only_session (session_key rq) ss (snd (session_branch env rt fresh rq run respond ss))"
proof -
  obtain r ss1 where open1: "session_for_request env rt fresh rq ss = (r, ss1)" by (rule prod.exhaust)
  note spec = session_for_request_spec [OF assms(1,2) open1]
  let ?P = "\<lambda>ss'. sessions_ok env rt ss' \<and> only_session (session_key rq) ss ss'"
  show ?thesis
  proof (cases r)
    case (Inl e)
    then show ?thesis using spec(1,2) by (simp add: session_branch_def bindA_apply open1)
  next
    case (Inr key)
    then have key: "key = session_key rq" using spec(3) by simp
    have "keepsA ?P (bindA (in_session key (account_step rt rq)) (\<lambda>step.
        bindA (in_session key (with_executor (run step))) (\<lambda>out.
        bindA getA (\<lambda>sessions. retA (respond key out step sessions)))))"
      unfolding key
      by (intro keeps_intros keepsA_in_session keepsA_account_step keepsA_with_executor assms(3))
    then show ?thesis
      using spec(1,2) Inr by (simp add: session_branch_def bindA_apply [of "session_for_request env rt fresh rq"] open1 keepsA_def)
  qed
qed

lemma forward_branches:
  "forward_source_partition env rt fresh me rq = session_branch env rt fresh rq
     (\<lambda>step. execute_source (re_platform env) (runtime_ctx rt) (lr_hparams rt) (rq_input_tensor rq)
        (sh_layers (lr_shard_metadata rt)) (nat (ks_seq_before step)) (rq_activation_precision rq))
     (\<lambda>key out step. finish_response env rt me ''source_partition_executed_embedding_and_layers'' rq key False (- 1) out step)"
  "forward_intermediate_partition env rt fresh me rq = session_branch env rt fresh rq
     (\<lambda>step. execute_intermediate (re_platform env) (runtime_ctx rt) (lr_hparams rt) (rq_input_tensor rq)
        (sh_layers (lr_shard_metadata rt)) (nat (ks_seq_before step)) (rq_activation_precision rq))
     (\<lambda>key out step. finish_response env rt me ''intermediate_partition_executed_layers'' rq key False (- 1) out step)"
  "forward_terminal_partition env rt fresh entropy me rq = session_branch env rt fresh rq
     (\<lambda>step. execute_terminal (re_platform env) (runtime_ctx rt) (lr_hparams rt) entropy (rq_input_tensor rq)
        (sh_layers (lr_shard_metadata rt)) (nat (ks_seq_before step))
        (sh_owns_norm (lr_shard_metadata rt)) (sh_owns_lm_head (lr_shard_metadata rt))
        (request_sampling (fp (re_platform env)) rq))
     (\<lambda>key token step. finish_response env rt me ''terminal_partition_executed_layers_norm_lm_head'' rq key True token
        empty_tensor step)"
  by (simp_all add: forward_source_partition_def forward_intermediate_partition_def forward_terminal_partition_def
      session_branch_def)

lemma only_session_refl [simp]: "only_session key ss ss"
  by (simp add: only_session_def)

section \<open>A step of an intermediate stage\<close>

text \<open>The session the request runs in.\<close>

definition request_session :: "'g \<Rightarrow> runtime_request \<Rightarrow> 'g session_table \<Rightarrow> 'g request_session" where
  "request_session fresh rq ss =
     (case map_of (opened_table rq ss) (session_key rq) of
        None \<Rightarrow> fresh_session (new_executor fresh)
      | Some s \<Rightarrow> s)"

text \<open>The bookkeeping of a session counts the positions its executor has cached.\<close>

definition session_synced :: "int list \<Rightarrow> nat \<Rightarrow> 'g request_session \<Rightarrow> bool" where
  "session_synced ls n s \<longleftrightarrow> kc_seq_len (rs_kv_cache s) = int n \<and> (\<forall>l \<in> set ls. kv_seq_len (kv_of (rs_executor s) l) = n)"

lemma session_for_request_opens:
  assumes "iteration_ok env" "sessions_ok env rt ss" "check_hyperparams (lr_hparams rt) = Inr ()"
    "lr_tensor_ctx rt = Some ctx"
  shows "\<exists>ss'. session_for_request env rt fresh rq ss = (Inr (session_key rq), ss') \<and>
    sessions_ok env rt ss' \<and> map_of ss' (session_key rq) = Some (request_session fresh rq ss)"
proof -
  obtain r ss' where run: "session_for_request env rt fresh rq ss = (r, ss')" by (rule prod.exhaust)
  note spec = session_for_request_spec [OF assms(1,2) run]
  have "construct_executor (lr_hparams rt) (lr_tensor_ctx rt) fresh = Inr (new_executor fresh)"
    using assms(3,4) by (simp add: construct_executor_def)
  with run have r: "r = Inr (session_key rq)"
    by (auto simp: session_for_request_eq Let_def split: if_splits)
  have d: "distinct (map fst ss')" "distinct (map fst (opened_table rq ss))"
    using spec(1) opened_ok [OF assms(2)] by (simp_all add: sessions_ok_def)
  have "map_of ss' (session_key rq) = Some (request_session fresh rq ss)"
  proof (cases "map_of (opened_table rq ss) (session_key rq)")
    case None
    then have "(session_key rq, s) \<notin> set (opened_table rq ss)" for s by (auto simp: map_of_eq_None_iff image_iff)
    with spec(4) [OF r] None d(1) show ?thesis by (auto simp: request_session_def)
  next
    case (Some s)
    then have "ss' = prune_sessions_except env (session_key rq) (opened_table rq ss)"
      using run by (simp add: session_for_request_eq Let_def)
    with prune_except_in [OF d(2) _ map_of_SomeD [OF Some], of env] d(1) Some show ?thesis
      by (simp add: request_session_def)
  qed
  with run r spec(1) show ?thesis by auto
qed

lemma map_of_put [simp]: "map_of ss key = Some s \<Longrightarrow> map_of (put_session key s' ss) key = Some s'"
  by (induction ss) (auto simp: put_session_def split: if_splits)

lemma in_session_run:
  "\<lbrakk>map_of ss key = Some s; m s = (r, s')\<rbrakk> \<Longrightarrow> in_session key m ss = (r, put_session key s' ss)"
  by (simp add: in_session_def)

lemma request_session_ok:
  assumes "sessions_ok env rt ss" "check_hyperparams (lr_hparams rt) = Inr ()"
  shows "executor_ok (re_platform env) (lr_hparams rt) (rs_executor (request_session fresh rq ss))"
proof (cases "map_of (opened_table rq ss) (session_key rq)")
  case None
  then show ?thesis using assms(2) by (simp add: request_session_def fresh_session_def)
next
  case (Some s)
  with opened_ok [OF assms(1), of rq] map_of_SomeD [OF Some] show ?thesis
    by (auto simp: request_session_def sessions_ok_def)
qed

lemma session_branch_result:
  assumes "iteration_ok env" "sessions_ok env rt ss" "check_hyperparams (lr_hparams rt) = Inr ()"
    "lr_tensor_ctx rt = Some ctx"
    "update_kv_cache_for_request rt rq (rs_kv_cache s) = (step, kv)" "s = request_session fresh rq ss"
    "run step (rs_executor s) = (r, ex)"
  shows "\<exists>ss'. session_branch env rt fresh rq run respond ss =
      (case r of Inl e \<Rightarrow> Inl e | Inr out \<Rightarrow> Inr (respond (session_key rq) out step ss'), ss') \<and>
    map_of ss' (session_key rq) = Some (s\<lparr>rs_kv_cache := kv, rs_executor := ex\<rparr>)"
proof -
  obtain ss1 where ss1: "session_for_request env rt fresh rq ss = (Inr (session_key rq), ss1)"
    "map_of ss1 (session_key rq) = Some s"
    using session_for_request_opens [OF assms(1-4)] assms(6) by metis
  let ?ss2 = "put_session (session_key rq) (s\<lparr>rs_kv_cache := kv\<rparr>) ss1"
  let ?ss3 = "put_session (session_key rq) (s\<lparr>rs_kv_cache := kv, rs_executor := ex\<rparr>) ?ss2"
  have acc: "in_session (session_key rq) (account_step rt rq) ss1 = (Inr step, ?ss2)"
    by (rule in_session_run [OF ss1(2)]) (simp add: account_step_def assms(5))
  have run: "in_session (session_key rq) (with_executor (run step)) ?ss2 = (r, ?ss3)"
    by (rule in_session_run [OF map_of_put [OF ss1(2)]]) (simp add: with_executor_def assms(7))
  have "session_branch env rt fresh rq run respond ss =
      (case r of Inl e \<Rightarrow> Inl e | Inr out \<Rightarrow> Inr (respond (session_key rq) out step ?ss3), ?ss3)"
    by (simp add: session_branch_def bindA_apply ss1(1) acc run split: sum.split)
  moreover have "map_of ?ss3 (session_key rq) = Some (s\<lparr>rs_kv_cache := kv, rs_executor := ex\<rparr>)"
    by (rule map_of_put [OF map_of_put [OF ss1(2)]])
  ultimately show ?thesis by blast
qed

lemma session_branch_runs:
  assumes "iteration_ok env" "sessions_ok env rt ss" "check_hyperparams (lr_hparams rt) = Inr ()"
    "lr_tensor_ctx rt = Some ctx"
    "update_kv_cache_for_request rt rq (rs_kv_cache s) = (step, kv)" "s = request_session fresh rq ss"
    "run step (rs_executor s) = (Inr out, ex)"
  shows "\<exists>resp ss'. session_branch env rt fresh rq run respond ss = (Inr (respond (session_key rq) out step ss'), ss') \<and>
    map_of ss' (session_key rq) = Some (s\<lparr>rs_kv_cache := kv, rs_executor := ex\<rparr>)"
  using session_branch_result [where run = run, OF assms] by auto

lemma forward_sessions_kept:
  assumes "iteration_ok env" "sessions_ok env rt ss"
  shows "sessions_ok env rt (snd (forward env rt fresh entropy me rq ss)) \<and>
    only_session (session_key rq) ss (snd (forward env rt fresh entropy me rq ss))"
proof -
  note run = session_branch_ok [OF assms keepsA_source] session_branch_ok [OF assms keepsA_intermediate]
    session_branch_ok [OF assms keepsA_terminal]
  show ?thesis
    using assms(2) run
    by (simp add: forward_def Let_def forward_branches split: sum.splits)
qed

text \<open>C6. Whatever a request does, also when it fails half-way, the session table stays well formed: the
  keys are distinct, there are never more sessions than the configured bound, every session's
  executor satisfies its cache invariant, and no session but the request's own is touched (others
  can only be evicted).\<close>

theorem forward_keeps_sessions:
  assumes "iteration_ok env" "sessions_ok env rt ss"
  shows "sessions_ok env rt (snd (forward env rt fresh entropy me rq ss)) \<and>
    only_session (session_key rq) ss (snd (forward env rt fresh entropy me rq ss))"
  by (rule forward_sessions_kept [OF assms])


text \<open>C26. A shard that owns the embedding is always treated as a source: a deployment with a single stage,
  which owns the embedding and the lm_head, never produces a token.\<close>

theorem embedding_owner_never_samples:
  assumes "sh_owns_embedding (lr_shard_metadata rt)" "forward env rt fresh entropy me rq ss = (Inr resp, ss')"
  shows "\<not> rs_is_final_stage resp \<and> rs_next_token_id resp = - 1"
proof -
  have "bindA (liftA (validate_runtime_request_matches_partition rq (lr_shard_metadata rt)))
      (\<lambda>_. forward_source_partition env rt fresh me rq) ss = (Inr resp, ss')"
    using assms by (auto simp: forward_def Let_def split: if_splits)
  then have "forward_source_partition env rt fresh me rq ss = (Inr resp, ss')"
    by (auto split: sum.splits)
  then show ?thesis
    by (auto simp: forward_source_partition_def bindA_apply finish_response_def split: prod.splits sum.splits)
qed

section \<open>A sample stage\<close>

definition sample_env :: "(f32 list list, nat) runtime_env" where
  "sample_env = \<lparr>re_platform = sample_platform True, re_max_sessions = Some ''2'', re_rehash = rev\<rparr>"

definition sample_stage :: "bool \<Rightarrow> f32 list list loaded_runtime" where
  "sample_stage source =
     \<lparr>lr_config = \<lparr>pc_model_path = ''/m'', pc_stage_id = 2, pc_expected_layers = [0, 1],
        pc_expected_owns_embedding = source, pc_expected_owns_norm = source, pc_expected_owns_lm_head = source,
        pc_expected_next_stage_url = ''http://c:1''\<rparr>,
      lr_model_metadata = empty_model_metadata ''/m'',
      lr_shard_metadata = empty_shard_metadata\<lparr>sh_shard_loaded := True, sh_layers := (if source then [] else [0, 1]),
        sh_owns_embedding := source, sh_owns_lm_head := source, sh_next_stage_url := ''http://c:1'',
        sh_hidden_size := 4\<rparr>,
      lr_hparams = sample_hp, lr_tensor_ctx = Some (sample_tensors [0, 1]), lr_model_file_size_mb = 1\<rparr>"

definition sample_me :: measurement where
  "sample_me = (let s = \<lparr>rsn_valid = True, rsn_proc_cpu_jiffies = 0, rsn_sys_cpu_total_jiffies = 0,
        rsn_sys_cpu_idle_jiffies = 0, rsn_ctx_voluntary = 0, rsn_ctx_involuntary = 0, rsn_io_read_bytes = 0,
        rsn_io_write_bytes = 0, rsn_io_read_count = 0, rsn_io_write_count = 0\<rparr>
     in \<lparr>me_compute_ms = 0, me_wall_ms = 0, me_matmul_ms = 0, me_attention_ms = 0, me_model_load_ms = 0,
        me_ggml_threads = 1, me_rss_mb = 1, me_cgroup_current_v2 = None, me_cgroup_current_v1 = None,
        me_cgroup_max_v2 = None, me_cgroup_limit_v1 = None, me_start = s, me_end = s, me_threads = 1, me_hz = 100\<rparr>)"

definition sample_step :: runtime_request where
  "sample_step = sample_request\<lparr>rq_input_tensor :=
     \<lparr>metadata = \<lparr>dtype = ''float32'', shape = [1, 1, 4], byte_order = ''little''\<rparr>, bytes = replicate 16 0\<rparr>\<rparr>"

lemma sample_iteration_ok: "iteration_ok sample_env"
  by (simp add: iteration_ok_def sample_env_def)

lemma sample_sessions_ok: "sessions_ok sample_env rt []"
  by (simp add: sessions_ok_def)

theorem forward_keeps_sessions_witness:
  "length (snd (forward sample_env (sample_stage False) 0 0 sample_me sample_step [])) \<le> 2"
proof -
  have "max_sessions (Some ''2'') = 2"
    by (simp add: max_sessions_def env_u64_or_default_def std_stoull_def skip_ws_def is_space_def is_digit_def
        read_nat_def digit_value_def)
  with forward_keeps_sessions [OF sample_iteration_ok sample_sessions_ok, of "sample_stage False" 0 0 sample_me sample_step]
  show ?thesis by (simp add: sessions_ok_def sample_env_def)
qed

lemma sample_step_hidden: "tensor_to_hidden_f32 4 (rq_input_tensor sample_step) = Inr [0, 0, 0, 0]"
  by code_simp

lemma sample_step_valid:
  "validate_runtime_request_matches_partition sample_step (lr_shard_metadata (sample_stage False)) = Inr ()"
  by code_simp


definition sample_prompt :: runtime_request where
  "sample_prompt = sample_request\<lparr>rq_input_tensor :=
     \<lparr>metadata = \<lparr>dtype = ''int64'', shape = [1, 1], byte_order = ''little''\<rparr>, bytes = replicate 8 0\<rparr>\<rparr>"

lemma sample_prompt_embeds:
  "\<not> isl (fst (execute_source (sample_platform True) (sample_tensors [0, 1]) sample_hp (rq_input_tensor sample_prompt)
     [] 0 ''fp32'' (new_executor 0)))"
  by code_simp

lemma sample_prompt_valid:
  "validate_runtime_request_matches_partition sample_prompt (lr_shard_metadata (sample_stage True)) = Inr ()"
  by code_simp

theorem embedding_owner_never_samples_witness:
  "\<exists>resp. fst (forward sample_env (sample_stage True) 0 0 sample_me sample_prompt []) = Inr resp \<and>
     \<not> rs_is_final_stage resp \<and> rs_next_token_id resp = - 1"
proof -
  let ?rt = "sample_stage True"
  let ?run = "\<lambda>step. execute_source (re_platform sample_env) (runtime_ctx ?rt) (lr_hparams ?rt)
    (rq_input_tensor sample_prompt) (sh_layers (lr_shard_metadata ?rt)) (nat (ks_seq_before step))
    (rq_activation_precision sample_prompt)"
  have ses: "request_session (0 :: nat) sample_prompt [] = fresh_session (new_executor 0)"
    by (simp add: request_session_def opened_table_def erase_session_def)
  obtain out ex where "execute_source (sample_platform True) (sample_tensors [0, 1]) sample_hp
      (rq_input_tensor sample_prompt) [] 0 ''fp32'' (new_executor 0) = (Inr out, ex)"
    using sample_prompt_embeds by (metis isl_def obj_sumE prod.collapse)
  then have run: "?run step (rs_executor (request_session (0 :: nat) sample_prompt [])) = (Inr out, ex)"
    if "ks_seq_before step = 0" for step :: kv_cache_step
    using that unfolding ses
    by (simp add: sample_env_def sample_stage_def runtime_ctx_def fresh_session_def sample_prompt_def sample_request_def)
  obtain step kv where upd: "update_kv_cache_for_request ?rt sample_prompt
      (rs_kv_cache (request_session (0 :: nat) sample_prompt [])) = (step, kv)" by (rule prod.exhaust)
  then have "ks_seq_before step = 0"
    unfolding ses by (auto simp: update_kv_cache_for_request_def fresh_session_def Let_def split: if_splits)
  note step = run [OF this]
  have rt: "check_hyperparams (lr_hparams ?rt) = Inr ()" "lr_tensor_ctx ?rt = Some (sample_tensors [0, 1])"
    by (simp_all add: sample_stage_def)
  have branch: "\<exists>resp ss'. session_branch sample_env ?rt 0 sample_prompt ?run respond [] =
      (Inr (respond (session_key sample_prompt) out step ss'), ss') \<and>
    map_of ss' (session_key sample_prompt) =
      Some ((request_session (0 :: nat) sample_prompt [])\<lparr>rs_kv_cache := kv, rs_executor := ex\<rparr>)" for respond
    by (rule session_branch_runs)
      (rule sample_iteration_ok sample_sessions_ok rt upd refl step)+
  have "\<exists>resp ss'. forward_source_partition sample_env ?rt 0 sample_me sample_prompt [] = (Inr resp, ss')"
    unfolding forward_branches
    by (rule exE [OF branch], elim exE conjE, intro exI, assumption)
  then obtain resp ss' where "forward_source_partition sample_env ?rt 0 sample_me sample_prompt [] = (Inr resp, ss')"
    by blast
  then have f: "forward sample_env ?rt 0 0 sample_me sample_prompt [] = (Inr resp, ss')"
    using sample_prompt_valid by (simp add: forward_def Let_def) (simp add: sample_stage_def)
  moreover have "sh_owns_embedding (lr_shard_metadata ?rt)" by (simp add: sample_stage_def)
  ultimately show ?thesis
    using embedding_owner_never_samples [of ?rt sample_env 0 0 sample_me sample_prompt "[]" resp ss'] by simp
qed

end
