(* ===== verification/Chain_Metrics.thy ===== *)
theory Chain_Metrics
  imports Stage_Response
begin

text \<open>
  The metrics of a chain of stages (\<open>metrics.cpp\<close>): reading numbers out of metadata, merging a
  stage's metrics with those of the rest of the chain, and rewriting them into the metadata with
  \<open>std::regex_replace\<close>. The arithmetic is on doubles, whose operations are those of \<open>fpu\<close>.
\<close>

record chain_metrics =
  cm_compute_ms :: f64
  cm_rpc_wall_ms :: f64
  cm_true_comm_ms :: f64
  cm_transport_payload_bytes :: nat
  cm_stage_count :: nat

definition empty_chain_metrics :: chain_metrics where
  "empty_chain_metrics = \<lparr>cm_compute_ms = f64_zero, cm_rpc_wall_ms = f64_zero, cm_true_comm_ms = f64_zero,
     cm_transport_payload_bytes = 0, cm_stage_count = 0\<rparr>"

text \<open>IEEE subtraction is the addition of the negated operand; \<open>std::max(0.0, x)\<close>; \<open>uint64_t\<close> sums.\<close>

definition dsub :: "fpu \<Rightarrow> f64 \<Rightarrow> f64 \<Rightarrow> f64" where
  "dsub F x y = dadd F x (y XOR 0x8000000000000000)"

definition dmax0 :: "f64 \<Rightarrow> f64" where
  "dmax0 x = (if f64_lt f64_zero x then x else f64_zero)"

definition u64_add :: "nat \<Rightarrow> nat \<Rightarrow> nat" where
  "u64_add a b = (a + b) mod 2 ^ 64"

section \<open>Reading numbers\<close>

definition extract_number_field :: "number_io \<Rightarrow> string \<Rightarrow> string \<Rightarrow> f64 option" where
  "extract_number_field io json key =
     (case regex_search (match_field key match_number) json of
        None \<Rightarrow> None
      | Some (t, _) \<Rightarrow> stod io t)"

definition extract_u64_field :: "number_io \<Rightarrow> string \<Rightarrow> string \<Rightarrow> nat option" where
  "extract_u64_field io json key =
     (case extract_number_field io json key of
        None \<Rightarrow> None
      | Some v \<Rightarrow> if f64_lt v f64_zero then None else Some (nat (u64_of_f64 io v)))"

fun extract_number_aliases :: "number_io \<Rightarrow> string \<Rightarrow> string list \<Rightarrow> f64 option" where
  "extract_number_aliases io json [] = None"
| "extract_number_aliases io json (key # keys) =
     (case extract_number_field io json key of
        Some v \<Rightarrow> Some v
      | None \<Rightarrow> extract_number_aliases io json keys)"

fun extract_u64_aliases :: "number_io \<Rightarrow> string \<Rightarrow> string list \<Rightarrow> nat option" where
  "extract_u64_aliases io json [] = None"
| "extract_u64_aliases io json (key # keys) =
     (case extract_u64_field io json key of
        Some v \<Rightarrow> Some v
      | None \<Rightarrow> extract_u64_aliases io json keys)"

section \<open>Removing fields\<close>

text \<open>\<open>std::regex_replace(json, pattern, "")\<close>: every match from the left is dropped. The patterns match
  at least one character; the guard only serves termination.\<close>

function regex_remove :: "matcher \<Rightarrow> string \<Rightarrow> string" where
  "regex_remove m s =
     (case s of
        [] \<Rightarrow> []
      | c # s' \<Rightarrow>
          (case m s of
             Some (_, r) \<Rightarrow> if length r < length s then regex_remove m r else c # regex_remove m s'
           | None \<Rightarrow> c # regex_remove m s'))"
  by auto
termination
  by (relation "measure (\<lambda>(_, s). length s)") auto

declare regex_remove.simps [simp del]

text \<open>\<open>\{[^{}]*\}\<close>.\<close>

definition match_object :: matcher where
  "match_object s =
     (case s of
        [] \<Rightarrow> None
      | c # r \<Rightarrow>
          if c = CHR ''{''
          then (case dropWhile (\<lambda>d. d \<noteq> CHR ''{'' \<and> d \<noteq> CHR ''}'') r of
                  [] \<Rightarrow> None
                | d # r' \<Rightarrow> if d = CHR ''}'' then Some ([], r') else None)
          else None)"

text \<open>\<open>,\s*\<close> before and \<open>\s*,\<close> behind a field.\<close>

definition after_comma :: "matcher \<Rightarrow> matcher" where
  "after_comma m s =
     (case s of [] \<Rightarrow> None | c # r \<Rightarrow> if c = CHR '','' then m (skip_ws r) else None)"

definition before_comma :: "matcher \<Rightarrow> matcher" where
  "before_comma m s =
     (case m s of
        None \<Rightarrow> None
      | Some (t, r) \<Rightarrow>
          (case skip_ws r of [] \<Rightarrow> None | c # r' \<Rightarrow> if c = CHR '','' then Some (t, r') else None))"

definition remove_object_field :: "string \<Rightarrow> string \<Rightarrow> string" where
  "remove_object_field json key =
     (let field = match_field key match_object;
          json = regex_remove (after_comma field) json;
          json = regex_remove (before_comma field) json
      in regex_remove field json)"

definition remove_number_field :: "string \<Rightarrow> string \<Rightarrow> string" where
  "remove_number_field json key =
     (let field = match_field key match_number;
          json = regex_remove (after_comma field) json;
          json = regex_remove (before_comma field) json
      in regex_remove field json)"

definition chain_number_keys :: "string list" where
  "chain_number_keys = [''chain_compute_time_ms'', ''chain_rpc_wall_time_ms'', ''chain_true_comm_ms'',
     ''chain_transport_payload_bytes'', ''chain_stage_count'', ''chain_hops'', ''ccm'', ''crw'', ''ctc'', ''cpb'', ''csc'']"

definition remove_chain_metric_fields :: "string \<Rightarrow> string" where
  "remove_chain_metric_fields json =
     foldl remove_number_field (remove_object_field json ''chain_metrics'') chain_number_keys"

section \<open>Writing, merging and reading chain metrics\<close>

definition chain_metrics_json :: "number_io \<Rightarrow> chain_metrics \<Rightarrow> string" where
  "chain_metrics_json io m =
     json_key ''chain_metrics'' @ ''{''
     @ json_key ''compute_ms'' @ stream_f64 io (cm_compute_ms m) @ '',''
     @ json_key ''rpc_wall_ms'' @ stream_f64 io (cm_rpc_wall_ms m) @ '',''
     @ json_key ''true_comm_ms'' @ stream_f64 io (cm_true_comm_ms m) @ '',''
     @ json_key ''transport_payload_bytes'' @ json_nat (cm_transport_payload_bytes m) @ '',''
     @ json_key ''stage_count'' @ json_nat (cm_stage_count m) @ ''},''
     @ json_key ''chain_compute_time_ms'' @ stream_f64 io (cm_compute_ms m) @ '',''
     @ json_key ''chain_rpc_wall_time_ms'' @ stream_f64 io (cm_rpc_wall_ms m) @ '',''
     @ json_key ''chain_true_comm_ms'' @ stream_f64 io (cm_true_comm_ms m) @ '',''
     @ json_key ''chain_transport_payload_bytes'' @ json_nat (cm_transport_payload_bytes m) @ '',''
     @ json_key ''chain_stage_count'' @ json_nat (cm_stage_count m) @ '',''
     @ json_key ''chain_hops'' @ json_nat (cm_stage_count m)"

definition local_chain_metrics_from_stage :: "fpu \<Rightarrow> stage_metrics \<Rightarrow> chain_metrics" where
  "local_chain_metrics_from_stage F m =
     (let rpc = (if f64_lt f64_zero (sm_rpc_wall_time_ms m) then sm_rpc_wall_time_ms m else sm_compute_time_ms m)
      in \<lparr>cm_compute_ms = sm_compute_time_ms m, cm_rpc_wall_ms = rpc,
          cm_true_comm_ms = dmax0 (dsub F rpc (sm_compute_time_ms m)),
          cm_transport_payload_bytes = u64_add (sm_input_tensor_bytes m) (sm_output_tensor_bytes m),
          cm_stage_count = 1\<rparr>)"

definition contains :: "string \<Rightarrow> string \<Rightarrow> bool" where
  "contains text pat \<longleftrightarrow> find_sub pat text \<noteq> None"

definition metadata_has_chain_metrics :: "string \<Rightarrow> bool" where
  "metadata_has_chain_metrics json \<longleftrightarrow>
     contains json (quote # ''chain_metrics'' @ [quote]) \<or>
     contains json (quote # ''chain_compute_time_ms'' @ [quote]) \<or>
     contains json (quote # ''ccm'' @ [quote])"

definition extract_chain_metrics_from_metadata :: "fpu \<Rightarrow> number_io \<Rightarrow> string \<Rightarrow> chain_metrics" where
  "extract_chain_metrics_from_metadata F io json =
     (let out = \<lparr>cm_compute_ms = or_default f64_zero
                   (extract_number_aliases io json [''compute_ms'', ''chain_compute_time_ms'', ''ccm'']),
                 cm_rpc_wall_ms = or_default f64_zero
                   (extract_number_aliases io json [''rpc_wall_ms'', ''chain_rpc_wall_time_ms'', ''crw'']),
                 cm_true_comm_ms = or_default f64_zero
                   (extract_number_aliases io json [''true_comm_ms'', ''chain_true_comm_ms'', ''ctc'']),
                 cm_transport_payload_bytes = or_default 0
                   (extract_u64_aliases io json [''transport_payload_bytes'', ''chain_transport_payload_bytes'', ''cpb'']),
                 cm_stage_count = or_default 0
                   (extract_u64_aliases io json [''stage_count'', ''chain_stage_count'', ''chain_hops'', ''csc''])\<rparr>;
          out = (if metadata_has_chain_metrics json then out
                 else \<lparr>cm_compute_ms = or_default (cm_compute_ms out) (extract_number_field io json ''compute_time_ms''),
                       cm_rpc_wall_ms = or_default (cm_rpc_wall_ms out) (extract_number_field io json ''rpc_wall_time_ms''),
                       cm_true_comm_ms = or_default (cm_true_comm_ms out) (extract_number_field io json ''true_comm_ms''),
                       cm_transport_payload_bytes =
                         u64_add (u64_add (cm_transport_payload_bytes out)
                           (or_default 0 (extract_u64_field io json ''input_tensor_bytes'')))
                           (or_default 0 (extract_u64_field io json ''output_tensor_bytes'')),
                       cm_stage_count = 1\<rparr>);
          out = (if f64_le (cm_rpc_wall_ms out) f64_zero \<and> f64_lt f64_zero (cm_compute_ms out)
                 then out\<lparr>cm_rpc_wall_ms := cm_compute_ms out\<rparr> else out);
          out = (if f64_le (cm_true_comm_ms out) f64_zero
                 then out\<lparr>cm_true_comm_ms := dmax0 (dsub F (cm_rpc_wall_ms out) (cm_compute_ms out))\<rparr> else out)
      in if cm_stage_count out = 0 then out\<lparr>cm_stage_count := 1\<rparr> else out)"

text \<open>\<open>metadata_json.rfind('}')\<close>.\<close>

definition rfind_brace :: "string \<Rightarrow> nat option" where
  "rfind_brace s =
     (let r = dropWhile (\<lambda>c. c \<noteq> CHR ''}'') (rev s) in if r = [] then None else Some (length r - 1))"

definition put_chain_metrics_in_metadata :: "number_io \<Rightarrow> string \<Rightarrow> chain_metrics \<Rightarrow> string" where
  "put_chain_metrics_in_metadata io json metrics =
     (let json = remove_chain_metric_fields json
      in case rfind_brace json of
           None \<Rightarrow> json
         | Some pos \<Rightarrow>
             take pos json
             @ (if pos > 0 \<and> json ! (pos - 1) \<noteq> CHR ''{'' then '','' else [])
             @ chain_metrics_json io metrics @ drop pos json)"

definition merge_chain_metrics_values ::
    "fpu \<Rightarrow> stage_metrics \<Rightarrow> chain_metrics \<Rightarrow> f64 \<Rightarrow> nat \<Rightarrow> nat \<Rightarrow> chain_metrics" where
  "merge_chain_metrics_values F local_metrics downstream downstream_rpc_wall_ms request_bytes response_bytes =
     (let lcl = local_chain_metrics_from_stage F local_metrics;
          compute = dadd F (cm_compute_ms lcl) (cm_compute_ms downstream);
          rpc = dadd F (cm_compute_ms lcl) (dmax0 downstream_rpc_wall_ms)
      in \<lparr>cm_compute_ms = compute, cm_rpc_wall_ms = rpc,
          cm_true_comm_ms = dmax0 (dsub F rpc compute),
          cm_transport_payload_bytes =
            u64_add (u64_add (cm_transport_payload_bytes downstream) request_bytes) response_bytes,
          cm_stage_count = u64_add (max 1 (cm_stage_count downstream)) 1\<rparr>)"

definition merge_chain_metrics ::
    "fpu \<Rightarrow> number_io \<Rightarrow> string \<Rightarrow> stage_metrics \<Rightarrow> f64 \<Rightarrow> nat \<Rightarrow> nat \<Rightarrow> string" where
  "merge_chain_metrics F io downstream local_metrics downstream_rpc_wall_ms request_bytes response_bytes =
     put_chain_metrics_in_metadata io downstream
       (merge_chain_metrics_values F local_metrics (extract_chain_metrics_from_metadata F io downstream)
          downstream_rpc_wall_ms request_bytes response_bytes)"

end
