(* ===== verification/Generation_Loop.thy ===== *)
theory Generation_Loop
  imports Chain_Metrics Action_Logic Tensor_Codec
begin

text \<open>
  The gateway's generation loop (\<open>generation_loop.cpp\<close>): format the prompt, send it through the
  chain of stages, read the token the terminal stage sampled, send it as the next decode step,
  stop at a control marker or at the bound.

  The tokenizer and the stage client are the two interfaces the loop is given: \<open>tokenizer\<close>
  collects its three operations, and sending a frame to a URL is an action on the network, a type
  of its own, that may throw. Clock readings are parameters.
\<close>

section \<open>Prompt and text\<close>

definition trim_space :: "string \<Rightarrow> string" where
  "trim_space value = rev (dropWhile is_space (rev (dropWhile is_space value)))"

definition contains_generation_control_marker :: "string \<Rightarrow> bool" where
  "contains_generation_control_marker text \<longleftrightarrow>
     contains text ''</s>'' \<or> contains text ''<s>'' \<or> contains text ''<|user|>'' \<or>
     contains text ''<|assistant|>'' \<or> contains text ''<|system|>''"

definition line_feed :: char where "line_feed = CHR 0x0A"

definition format_prompt_for_generation :: "string \<Rightarrow> bool \<Rightarrow> string" where
  "format_prompt_for_generation prompt apply_template =
     (if \<not> apply_template then prompt
      else if contains prompt ''<|user|>'' \<or> contains prompt ''<|assistant|>'' then prompt
      else ''<|user|>'' @ [line_feed] @ prompt @ ''</s>'' @ [line_feed] @ ''<|assistant|>'' @ [line_feed])"

definition cut_at :: "string \<Rightarrow> string \<Rightarrow> string" where
  "cut_at marker text = (case find_sub marker text of None \<Rightarrow> text | Some pos \<Rightarrow> take pos text)"

text \<open>\<open>while ((pos = text.find(marker, pos)) != npos) text.erase(pos, marker.size());\<close>: the search goes
  on at the position of the erased match, so it never looks back.\<close>

function erase_from :: "string \<Rightarrow> nat \<Rightarrow> string \<Rightarrow> string" where
  "erase_from marker pos text =
     (if marker = [] then text
      else case find_sub marker (drop pos text) of
             None \<Rightarrow> text
           | Some i \<Rightarrow> erase_from marker (pos + i) (take (pos + i) text @ drop (pos + i + length marker) text))"
  by auto
termination
proof (relation "measure (\<lambda>(_, _, s). length s)")
  fix marker s :: string and pos i
  assume a: "marker \<noteq> []" "find_sub marker (drop pos s) = Some i"
  from find_sub_Some [OF a(2)] obtain rest where rest: "drop pos s = take i (drop pos s) @ marker @ rest"
    and i: "i \<le> length (drop pos s)" by blast
  have "length (drop pos s) = i + length marker + length rest"
    using arg_cong [OF rest, of length] i by simp
  then have "pos + i + length marker \<le> length s" using a(1) by (cases "pos \<le> length s") auto
  then show "((marker, pos + i, take (pos + i) s @ drop (pos + i + length marker) s), marker, pos, s)
      \<in> measure (\<lambda>(_, _, s). length s)"
    using a(1) by (cases marker) auto
qed simp

declare erase_from.simps [simp del]

definition cleanup_generated_text :: "string \<Rightarrow> string" where
  "cleanup_generated_text text =
     trim_space (erase_from ''<s>'' 0 (erase_from ''</s>'' 0
       (cut_at ''<|assistant|>'' (cut_at ''<|system|>'' (cut_at ''<|user|>'' text)))))"

definition token_text_is_stop_marker :: "string \<Rightarrow> bool" where
  "token_text_is_stop_marker text = contains_generation_control_marker text"

section \<open>Results\<close>

record stage_client_result =
  http_status :: int
  http_reason :: string
  elapsed_ms :: f64
  response_frame :: dli_frame
  request_body_bytes :: nat
  response_body_bytes :: nat
  transport_payload_bytes :: nat
  error_body :: string

record generation_step_trace =
  tr_token_index :: int
  tr_generation_mode :: string
  tr_partition_id :: string
  tr_stage_id :: int
  tr_stage_url :: string
  tr_stage_http_status :: int
  tr_stage_http_reason :: string
  tr_stage_http_elapsed_ms :: f64
  tr_stage_metadata_json :: string
  tr_stage_tensor_bytes :: nat
  tr_request_body_bytes :: nat
  tr_response_body_bytes :: nat
  tr_transport_payload_bytes :: nat
  tr_estimated_true_comm_ms :: f64
  tr_error_body :: string

record gateway_metrics =
  gm_compute_ms :: f64
  gm_rpc_wall_ms :: f64
  gm_true_comm_ms :: f64
  gm_tensor_bytes_in :: nat
  gm_tensor_bytes_out :: nat
  gm_transport_payload_bytes :: nat
  gm_model_load_ms :: f64
  gm_kv_cache_bytes :: nat
  gm_memory_rss_mb :: nat
  gm_memory_cgroup_current_mb :: nat
  gm_memory_cgroup_limit_mb :: nat
  gm_memory_cgroup_percent :: f64
  gm_model_file_size_mb :: nat
  gm_session_count :: nat
  gm_session_kv_cache_bytes :: nat

definition empty_gateway_metrics :: gateway_metrics where
  "empty_gateway_metrics = \<lparr>gm_compute_ms = f64_zero, gm_rpc_wall_ms = f64_zero, gm_true_comm_ms = f64_zero,
     gm_tensor_bytes_in = 0, gm_tensor_bytes_out = 0, gm_transport_payload_bytes = 0, gm_model_load_ms = f64_zero,
     gm_kv_cache_bytes = 0, gm_memory_rss_mb = 0, gm_memory_cgroup_current_mb = 0, gm_memory_cgroup_limit_mb = 0,
     gm_memory_cgroup_percent = f64_zero, gm_model_file_size_mb = 0, gm_session_count = 0,
     gm_session_kv_cache_bytes = 0\<rparr>"

record generation_loop_result =
  gr_request_id :: string
  gr_prompt :: string
  gr_tokenizer_backend :: string
  gr_prompt_token_ids :: "int list"
  gr_generated_token_ids :: "int list"
  gr_generated_text :: string
  gr_steps :: "generation_step_trace list"
  gr_aggregate_metrics :: gateway_metrics
  gr_total_latency_ms :: f64
  gr_tokens_per_second :: f64
  gr_generated_token_count :: int
  gr_ok :: bool
  gr_error :: string
  gr_termination_reason :: string

definition initial_result :: "string \<Rightarrow> string \<Rightarrow> string \<Rightarrow> generation_loop_result" where
  "initial_result request_id prompt backend_name =
     \<lparr>gr_request_id = request_id, gr_prompt = prompt, gr_tokenizer_backend = backend_name,
      gr_prompt_token_ids = [], gr_generated_token_ids = [], gr_generated_text = [], gr_steps = [],
      gr_aggregate_metrics = empty_gateway_metrics, gr_total_latency_ms = f64_zero,
      gr_tokens_per_second = f64_zero, gr_generated_token_count = 0, gr_ok = True, gr_error = [],
      gr_termination_reason = ''unknown''\<rparr>"

section \<open>Aggregation\<close>

text \<open>\<open>std::max(a, b)\<close> on doubles; a field that is absent leaves the aggregate alone.\<close>

definition dmax :: "f64 \<Rightarrow> f64 \<Rightarrow> f64" where
  "dmax a b = (if f64_lt a b then b else a)"

definition max_field :: "nat \<Rightarrow> nat option \<Rightarrow> nat" where
  "max_field a v = (case v of None \<Rightarrow> a | Some u \<Rightarrow> max a u)"

definition aggregate_resource_metrics :: "fpu \<Rightarrow> number_io \<Rightarrow> string \<Rightarrow> gateway_metrics \<Rightarrow> gateway_metrics" where
  "aggregate_resource_metrics F io json m =
     m\<lparr>gm_tensor_bytes_in := u64_add (gm_tensor_bytes_in m) (or_default 0 (extract_u64_field io json ''input_tensor_bytes'')),
       gm_tensor_bytes_out := u64_add (gm_tensor_bytes_out m) (or_default 0 (extract_u64_field io json ''output_tensor_bytes'')),
       gm_model_load_ms := (case extract_number_field io json ''model_load_ms'' of
           None \<Rightarrow> gm_model_load_ms m | Some d \<Rightarrow> dadd F (gm_model_load_ms m) d),
       gm_kv_cache_bytes := max_field (gm_kv_cache_bytes m) (extract_u64_field io json ''kv_cache_bytes''),
       gm_memory_rss_mb := max_field (gm_memory_rss_mb m) (extract_u64_field io json ''memory_rss_mb''),
       gm_memory_cgroup_current_mb :=
         max_field (gm_memory_cgroup_current_mb m) (extract_u64_field io json ''memory_cgroup_current_mb''),
       gm_memory_cgroup_limit_mb :=
         max_field (gm_memory_cgroup_limit_mb m) (extract_u64_field io json ''memory_cgroup_limit_mb''),
       gm_memory_cgroup_percent := (case extract_number_field io json ''memory_cgroup_percent'' of
           None \<Rightarrow> gm_memory_cgroup_percent m | Some d \<Rightarrow> dmax (gm_memory_cgroup_percent m) d),
       gm_model_file_size_mb := max_field (gm_model_file_size_mb m) (extract_u64_field io json ''model_file_size_mb''),
       gm_session_count := max_field (gm_session_count m) (extract_u64_field io json ''session_count''),
       gm_session_kv_cache_bytes :=
         max_field (gm_session_kv_cache_bytes m) (extract_u64_field io json ''session_kv_cache_bytes'')\<rparr>"

definition aggregate_gateway_orchestrated_stage_result ::
    "fpu \<Rightarrow> number_io \<Rightarrow> stage_client_result \<Rightarrow> string \<Rightarrow> gateway_metrics \<Rightarrow> gateway_metrics" where
  "aggregate_gateway_orchestrated_stage_result F io res json m =
     (let compute = extract_number_field io json ''compute_time_ms''
      in aggregate_resource_metrics F io json
           (m\<lparr>gm_compute_ms := (case compute of None \<Rightarrow> gm_compute_ms m | Some d \<Rightarrow> dadd F (gm_compute_ms m) d),
              gm_rpc_wall_ms := dadd F (gm_rpc_wall_ms m) (elapsed_ms res),
              gm_transport_payload_bytes := u64_add (gm_transport_payload_bytes m) (transport_payload_bytes res),
              gm_true_comm_ms := dadd F (gm_true_comm_ms m)
                (dmax0 (dsub F (elapsed_ms res) (or_default f64_zero compute)))\<rparr>))"

definition aggregate_chained_stage_result ::
    "fpu \<Rightarrow> number_io \<Rightarrow> stage_client_result \<Rightarrow> gateway_metrics \<Rightarrow> gateway_metrics" where
  "aggregate_chained_stage_result F io res m =
     (let json = metadata_json (response_frame res);
          chain = extract_chain_metrics_from_metadata F io json
      in aggregate_resource_metrics F io json
           (m\<lparr>gm_compute_ms := dadd F (gm_compute_ms m) (cm_compute_ms chain),
              gm_rpc_wall_ms := dadd F (gm_rpc_wall_ms m) (elapsed_ms res),
              gm_true_comm_ms := dadd F (gm_true_comm_ms m) (dmax0 (dsub F (elapsed_ms res) (cm_compute_ms chain))),
              gm_transport_payload_bytes := u64_add (gm_transport_payload_bytes m)
                (u64_add (transport_payload_bytes res) (cm_transport_payload_bytes chain))\<rparr>))"

section \<open>One step through the partition graph\<close>

definition is_terminal_partition :: "partition_node \<Rightarrow> bool" where
  "is_terminal_partition p \<longleftrightarrow> next_stage_url p = [] \<or> lm_head (components p)"

definition stage_url_for_partition :: "generation_loop_config \<Rightarrow> nat \<Rightarrow> string result" where
  "stage_url_for_partition cfg index =
     (if index = 0 then Inr (first_stage_url cfg)
      else if index \<ge> length (partitions cfg) then Inl ''partition index out of range''
      else let previous_next_url = next_stage_url (partitions cfg ! (index - 1))
           in if previous_next_url = []
              then Inl (''cannot route to partition '' @ partition_id (partitions cfg ! index) @
                        '' because previous partition has empty next_stage_url'')
              else Inr previous_next_url)"

definition make_step_trace ::
    "fpu \<Rightarrow> number_io \<Rightarrow> int \<Rightarrow> string \<Rightarrow> partition_node \<Rightarrow> string \<Rightarrow> stage_client_result \<Rightarrow> generation_step_trace" where
  "make_step_trace F io ti mode p url res =
     \<lparr>tr_token_index = ti, tr_generation_mode = mode, tr_partition_id = partition_id p, tr_stage_id = stage_id p,
      tr_stage_url = url, tr_stage_http_status = http_status res, tr_stage_http_reason = http_reason res,
      tr_stage_http_elapsed_ms = elapsed_ms res, tr_stage_metadata_json = metadata_json (response_frame res),
      tr_stage_tensor_bytes = length (tensor_bytes (response_frame res)),
      tr_request_body_bytes = request_body_bytes res, tr_response_body_bytes = response_body_bytes res,
      tr_transport_payload_bytes = transport_payload_bytes res,
      tr_estimated_true_comm_ms =
        (case extract_number_field io (metadata_json (response_frame res)) ''compute_time_ms'' of
           None \<Rightarrow> f64_zero
         | Some compute_ms \<Rightarrow> dmax0 (dsub F (elapsed_ms res) compute_ms)),
      tr_error_body = error_body res\<rparr>"

definition next_token_id_from_terminal_response :: "number_io \<Rightarrow> stage_client_result \<Rightarrow> int result" where
  "next_token_id_from_terminal_response io res =
     (if metadata_json (response_frame res) = [] then Inl ''terminal partition returned empty metadata''
      else bindR (parse_request_metadata io (metadata_json (response_frame res))) (\<lambda>parsed.
           if \<not> pm_has_next_token_id parsed \<or> pm_next_token_id parsed < 0
           then Inl ''terminal partition did not return a valid next_token_id''
           else Inr (pm_next_token_id parsed)))"

text \<open>The state of a run: the result under construction and the network.\<close>

type_synonym 'n loop_state = "generation_loop_result \<times> 'n"
type_synonym 'n sender = "string \<Rightarrow> dli_frame \<Rightarrow> ('n, stage_client_result) action"

definition on_network :: "('n, 'a) action \<Rightarrow> ('n loop_state, 'a) action" where
  "on_network m = (\<lambda>(result, n). case m n of (r, n') \<Rightarrow> (r, (result, n')))"

definition on_result :: "(generation_loop_result \<Rightarrow> generation_loop_result) \<Rightarrow> ('n loop_state, unit) action" where
  "on_result f = modifyA (\<lambda>(result, n). (f result, n))"

definition push_step :: "generation_step_trace \<Rightarrow> generation_loop_result \<Rightarrow> generation_loop_result" where
  "push_step trace result = result\<lparr>gr_steps := gr_steps result @ [trace]\<rparr>"

definition add_metrics :: "(gateway_metrics \<Rightarrow> gateway_metrics) \<Rightarrow> generation_loop_result \<Rightarrow> generation_loop_result" where
  "add_metrics f result = result\<lparr>gr_aggregate_metrics := f (gr_aggregate_metrics result)\<rparr>"

definition http_ok :: "stage_client_result \<Rightarrow> bool" where
  "http_ok res \<longleftrightarrow> 200 \<le> http_status res \<and> http_status res < 300"

fun walk_partitions ::
    "fpu \<Rightarrow> number_io \<Rightarrow> generation_loop_config \<Rightarrow> 'n sender \<Rightarrow> int \<Rightarrow> string \<Rightarrow> nat list \<Rightarrow> dli_frame \<Rightarrow>
     ('n loop_state, stage_client_result) action" where
  "walk_partitions F io cfg send ti mode [] frame = throwA ''partition graph has no terminal partition''"
| "walk_partitions F io cfg send ti mode (i # is) frame =
     (let p = partitions cfg ! i
      in bindA (liftA (stage_url_for_partition cfg i)) (\<lambda>url.
         bindA (on_network (send url frame)) (\<lambda>res.
         bindA (on_result (push_step (make_step_trace F io ti mode p url res))) (\<lambda>_.
         bindA (checkA (http_ok res) (''partition '' @ partition_id p @ '' returned HTTP '' @
                  show_int (http_status res) @ '': '' @ error_body res)) (\<lambda>_.
         bindA (on_result (add_metrics (aggregate_gateway_orchestrated_stage_result F io res
                  (metadata_json (response_frame res))))) (\<lambda>_.
         if is_terminal_partition p then retA res
         else walk_partitions F io cfg send ti mode is (response_frame res)))))))"

definition forward_through_partition_graph ::
    "fpu \<Rightarrow> number_io \<Rightarrow> generation_loop_config \<Rightarrow> 'n sender \<Rightarrow> dli_frame \<Rightarrow> int \<Rightarrow> string \<Rightarrow>
     ('n loop_state, stage_client_result) action" where
  "forward_through_partition_graph F io cfg send frame ti mode =
     (if partitions cfg = [] then throwA ''gateway partition graph is empty''
      else if native_stage_chaining_enabled cfg
      then let url = first_stage_url cfg
           in bindA (on_network (send url frame)) (\<lambda>res.
              bindA (on_result (push_step (make_step_trace F io ti mode (hd (partitions cfg)) url res))) (\<lambda>_.
              bindA (checkA (http_ok res) (''native chained stage call failed with HTTP '' @
                       show_int (http_status res) @ '': '' @ error_body res)) (\<lambda>_.
              bindA (on_result (add_metrics (aggregate_chained_stage_result F io res))) (\<lambda>_.
              retA res))))
      else walk_partitions F io cfg send ti mode [0..<length (partitions cfg)] frame)"

section \<open>The loop\<close>

record tokenizer =
  tk_tokenize :: "string \<Rightarrow> int list result"
  tk_detokenize :: "int list \<Rightarrow> string result"
  tk_backend_name :: string

definition push_token :: "int \<Rightarrow> generation_loop_result \<Rightarrow> generation_loop_result" where
  "push_token t result = result\<lparr>gr_generated_token_ids := gr_generated_token_ids result @ [t]\<rparr>"

definition set_reason :: "string \<Rightarrow> generation_loop_result \<Rightarrow> generation_loop_result" where
  "set_reason reason result = result\<lparr>gr_termination_reason := reason\<rparr>"

definition should_stop_after ::
    "generation_loop_config \<Rightarrow> tokenizer \<Rightarrow> int \<Rightarrow> ('n loop_state, bool) action" where
  "should_stop_after cfg tk t = (\<lambda>(result, n).
     if int (length (gr_generated_token_ids result)) < min_new_tokens cfg then (Inr False, (result, n))
     else (bindR (tk_detokenize tk [t]) (\<lambda>text. Inr (token_text_is_stop_marker text)), (result, n)))"

text \<open>Send a frame and take the sampled token: what the prefill and every decode step do.\<close>

definition step_frame ::
    "number_io \<Rightarrow> generation_loop_config \<Rightarrow> string \<Rightarrow> int \<Rightarrow> string \<Rightarrow> int list \<Rightarrow> int list \<Rightarrow> dli_frame" where
  "step_frame io cfg request_id ti mode sh toks =
     \<lparr>metadata_json = request_metadata_json io cfg request_id ti mode ''int64'' sh,
      tensor_bytes = int64_tokens_to_bytes toks\<rparr>"

text \<open>The decode loop \<open>for (int i = decode_start; i < decode_steps; ++i)\<close>.\<close>

fun decode_loop ::
    "fpu \<Rightarrow> number_io \<Rightarrow> generation_loop_config \<Rightarrow> tokenizer \<Rightarrow> 'n sender \<Rightarrow> string \<Rightarrow> nat list \<Rightarrow> int \<Rightarrow>
     ('n loop_state, unit) action" where
  "decode_loop F io cfg tk send rid [] last_token = retA ()"
| "decode_loop F io cfg tk send rid (i # is) last_token =
     bindA (forward_through_partition_graph F io cfg send
              (step_frame io cfg rid (int i) ''decode'' [1, 1] [last_token]) (int i) ''decode'') (\<lambda>res.
     bindA (liftA (next_token_id_from_terminal_response io res)) (\<lambda>t.
     bindA (on_result (push_token t)) (\<lambda>_.
     bindA (should_stop_after cfg tk t) (\<lambda>stop.
     if stop then on_result (set_reason ''stop_marker'')
     else decode_loop F io cfg tk send rid is t))))"

definition generate ::
    "fpu \<Rightarrow> number_io \<Rightarrow> generation_loop_config \<Rightarrow> tokenizer \<Rightarrow> 'n sender \<Rightarrow> string \<Rightarrow> string \<Rightarrow> int \<Rightarrow>
     ('n loop_state, unit) action" where
  "generate F io cfg tk send rid prompt max_tokens =
     bindA (liftA (tk_tokenize tk (format_prompt_for_generation prompt (apply_chat_template cfg)))) (\<lambda>toks.
     bindA (on_result (\<lambda>r. r\<lparr>gr_prompt_token_ids := toks\<rparr>)) (\<lambda>_.
     let steps = nat (max 0 max_tokens)
     in bindA (forward_through_partition_graph F io cfg send
                 (step_frame io cfg rid 0 ''prefill'' [1, int (length toks)] toks) 0 ''prefill'') (\<lambda>res.
        bindA (on_result (set_reason ''max_new_tokens'')) (\<lambda>_.
        bindA (if steps = 0 then retA ()
               else bindA (liftA (next_token_id_from_terminal_response io res)) (\<lambda>t.
                    bindA (on_result (push_token t)) (\<lambda>_.
                    bindA (should_stop_after cfg tk t) (\<lambda>stop.
                    if stop then on_result (set_reason ''stop_marker'')
                    else decode_loop F io cfg tk send rid [1..<steps] t)))) (\<lambda>_.
        bindA getA (\<lambda>(result, n).
        bindA (liftA (tk_detokenize tk (gr_generated_token_ids result))) (\<lambda>text.
        on_result (\<lambda>r. r\<lparr>gr_generated_text := cleanup_generated_text text,
                         gr_generated_token_count := int (length (gr_generated_token_ids r))\<rparr>))))))))"

definition run_stub_generation ::
    "fpu \<Rightarrow> number_io \<Rightarrow> generation_loop_config \<Rightarrow> tokenizer \<Rightarrow> 'n sender \<Rightarrow> string \<Rightarrow> f64 \<Rightarrow> string \<Rightarrow> int \<Rightarrow> 'n \<Rightarrow>
     generation_loop_result \<times> 'n" where
  "run_stub_generation F io cfg tk send rid total_latency prompt max_tokens n =
     (case generate F io cfg tk send rid prompt max_tokens (initial_result rid prompt (tk_backend_name tk), n) of
        (r, (result, n')) \<Rightarrow>
          let result = (case r of
                          Inr _ \<Rightarrow> result
                        | Inl e \<Rightarrow> result\<lparr>gr_ok := False, gr_error := e, gr_termination_reason := ''error''\<rparr>);
              result = result\<lparr>gr_total_latency_ms := total_latency\<rparr>
          in (if f64_lt f64_zero total_latency
              then result\<lparr>gr_tokens_per_second := ddiv F (f64_of_int F (gr_generated_token_count result))
                     (ddiv F total_latency 0x408F400000000000)\<rparr>
              else result, n'))"

section \<open>The reply\<close>

definition step_json :: "number_io \<Rightarrow> generation_step_trace \<Rightarrow> string" where
  "step_json io t =
     ''{'' @ json_key ''token_index'' @ show_int (tr_token_index t) @ '',''
     @ json_key ''generation_mode'' @ json_str (tr_generation_mode t) @ '',''
     @ json_key ''partition_id'' @ json_str (tr_partition_id t) @ '',''
     @ json_key ''stage_id'' @ show_int (tr_stage_id t) @ '',''
     @ json_key ''stage_url'' @ json_str (tr_stage_url t) @ '',''
     @ json_key ''stage_http_status'' @ show_int (tr_stage_http_status t) @ '',''
     @ json_key ''stage_http_reason'' @ json_str (tr_stage_http_reason t) @ '',''
     @ json_key ''stage_http_elapsed_ms'' @ stream_f64 io (tr_stage_http_elapsed_ms t) @ '',''
     @ json_key ''stage_metadata'' @ json_str (tr_stage_metadata_json t) @ '',''
     @ json_key ''stage_tensor_bytes'' @ json_nat (tr_stage_tensor_bytes t) @ '',''
     @ json_key ''request_body_bytes'' @ json_nat (tr_request_body_bytes t) @ '',''
     @ json_key ''response_body_bytes'' @ json_nat (tr_response_body_bytes t) @ '',''
     @ json_key ''transport_payload_bytes'' @ json_nat (tr_transport_payload_bytes t) @ '',''
     @ json_key ''estimated_true_comm_ms'' @ stream_f64 io (tr_estimated_true_comm_ms t) @ '',''
     @ json_key ''error_body'' @ json_str (tr_error_body t) @ ''}''"

fun comma_texts :: "string list \<Rightarrow> string" where
  "comma_texts [] = []"
| "comma_texts [x] = x"
| "comma_texts (x # y # xs) = x @ '','' @ comma_texts (y # xs)"

definition generation_loop_result_json :: "fpu \<Rightarrow> number_io \<Rightarrow> generation_loop_result \<Rightarrow> nat \<Rightarrow> string" where
  "generation_loop_result_json F io r body_bytes =
     (let m = gr_aggregate_metrics r
      in ''{'' @ json_key ''ok'' @ json_bool (gr_ok r) @ '',''
       @ json_key ''service'' @ json_str ''dli-gateway-cpp'' @ '',''
       @ json_key ''runtime'' @ json_str ''cpp-native-routing'' @ '',''
       @ json_key ''status'' @ json_str (if gr_ok r then ''partition_graph_complete'' else ''partition_graph_error'') @ '',''
       @ json_key ''request_id'' @ json_str (gr_request_id r) @ '',''
       @ json_key ''prompt'' @ json_str (gr_prompt r) @ '',''
       @ json_key ''tokenizer_backend'' @ json_str (gr_tokenizer_backend r) @ '',''
       @ json_key ''prompt_token_count'' @ json_nat (length (gr_prompt_token_ids r)) @ '',''
       @ json_key ''prompt_token_ids'' @ int_vector_json (gr_prompt_token_ids r) @ '',''
       @ json_key ''generated_text'' @ json_str (gr_generated_text r) @ '',''
       @ json_key ''assistant_message'' @ json_str (gr_generated_text r) @ '',''
       @ json_key ''generated_token_ids'' @ int_vector_json (gr_generated_token_ids r) @ '',''
       @ json_key ''generated_token_count'' @ show_int (gr_generated_token_count r) @ '',''
       @ json_key ''total_latency_ms'' @ stream_f64 io (gr_total_latency_ms r) @ '',''
       @ json_key ''tokens_per_second'' @ stream_f64 io (gr_tokens_per_second r) @ '',''
       @ json_key ''aggregate_metrics'' @ ''{''
       @ json_key ''compute_ms'' @ stream_f64 io (gm_compute_ms m) @ '',''
       @ json_key ''rpc_wall_ms'' @ stream_f64 io (gm_rpc_wall_ms m) @ '',''
       @ json_key ''true_comm_ms'' @ stream_f64 io (gm_true_comm_ms m) @ '',''
       @ json_key ''tensor_bytes_in'' @ json_nat (gm_tensor_bytes_in m) @ '',''
       @ json_key ''tensor_bytes_out'' @ json_nat (gm_tensor_bytes_out m) @ '',''
       @ json_key ''transport_payload_bytes'' @ json_nat (gm_transport_payload_bytes m) @ '',''
       @ json_key ''transport_payload_mebibytes''
       @ stream_f64 io (ddiv F (f64_of_int F (int (gm_transport_payload_bytes m))) 0x4130000000000000) @ '',''
       @ json_key ''model_load_ms'' @ stream_f64 io (gm_model_load_ms m) @ '',''
       @ json_key ''kv_cache_bytes'' @ json_nat (gm_kv_cache_bytes m) @ '',''
       @ json_key ''memory_rss_mb'' @ json_nat (gm_memory_rss_mb m) @ '',''
       @ json_key ''memory_cgroup_current_mb'' @ json_nat (gm_memory_cgroup_current_mb m) @ '',''
       @ json_key ''memory_cgroup_limit_mb'' @ json_nat (gm_memory_cgroup_limit_mb m) @ '',''
       @ json_key ''memory_cgroup_percent'' @ stream_f64 io (gm_memory_cgroup_percent m) @ '',''
       @ json_key ''model_file_size_mb'' @ json_nat (gm_model_file_size_mb m) @ '',''
       @ json_key ''session_count'' @ json_nat (gm_session_count m) @ '',''
       @ json_key ''session_kv_cache_bytes'' @ json_nat (gm_session_kv_cache_bytes m) @ ''},''
       @ json_key ''termination_reason'' @ json_str (gr_termination_reason r) @ '',''
       @ json_key ''error'' @ json_str (gr_error r) @ '',''
       @ json_key ''request_body_bytes'' @ json_nat body_bytes @ '',''
       @ json_key ''step_count'' @ json_nat (length (gr_steps r)) @ '',''
       @ json_key ''steps'' @ ''['' @ comma_texts (map (step_json io) (gr_steps r)) @ '']}'')"

section \<open>How a run ends\<close>

text \<open>The part of the result the loop decides on; a pass through the stages only adds traces and
  metrics to the rest.\<close>

definition run_core :: "generation_loop_result \<Rightarrow> int list \<times> bool \<times> int \<times> string" where
  "run_core r = (gr_generated_token_ids r, gr_ok r, gr_generated_token_count r, gr_termination_reason r)"

lemma run_core_updates [simp]:
  "run_core (push_step trace r) = run_core r" "run_core (add_metrics f r) = run_core r"
  by (simp_all add: run_core_def push_step_def add_metrics_def)

lemma keepsA_network: "keepsA (\<lambda>s. K (fst s)) (on_network m)"
  by (auto simp: keepsA_def on_network_def split: prod.splits)

lemma keepsA_result: "(\<And>r. K r \<Longrightarrow> K (f r)) \<Longrightarrow> keepsA (\<lambda>s. K (fst s)) (on_result f)"
  by (auto simp: keepsA_def on_result_def)

lemma keepsA_walk: "keepsA (\<lambda>s. K (run_core (fst s))) (walk_partitions F io cfg send ti mode is frame)"
proof (induction "is" arbitrary: frame)
  case (Cons i "is")
  show ?case
    unfolding walk_partitions.simps Let_def
    by (intro keeps_intros Cons.IH keepsA_network [where K = "\<lambda>r. K (run_core r)"]
        keepsA_result [where K = "\<lambda>r. K (run_core r)"]) simp_all
qed (auto intro: keeps_intros)

lemma keepsA_forward:
  "keepsA (\<lambda>s. K (run_core (fst s))) (forward_through_partition_graph F io cfg send frame ti mode)"
  unfolding forward_through_partition_graph_def Let_def
  by (intro keeps_intros keepsA_walk keepsA_network [where K = "\<lambda>r. K (run_core r)"]
      keepsA_result [where K = "\<lambda>r. K (run_core r)"]) simp_all

text \<open>The specification. The token at position \<open>k\<close> stops the run when the minimum is reached with
  it and its text holds a control marker.\<close>

definition stops_run :: "generation_loop_config \<Rightarrow> tokenizer \<Rightarrow> int list \<Rightarrow> nat \<Rightarrow> bool" where
  "stops_run cfg tk ids k \<longleftrightarrow> min_new_tokens cfg \<le> int k + 1 \<and>
     (case tk_detokenize tk [ids ! k] of Inr text \<Rightarrow> token_text_is_stop_marker text | Inl _ \<Rightarrow> False)"

definition unstopped :: "generation_loop_config \<Rightarrow> tokenizer \<Rightarrow> int list \<Rightarrow> nat \<Rightarrow> bool" where
  "unstopped cfg tk ids m \<longleftrightarrow> list_all (\<lambda>k. \<not> stops_run cfg tk ids k) [0..<m]"

definition run_bounded :: "generation_loop_config \<Rightarrow> tokenizer \<Rightarrow> nat \<Rightarrow> generation_loop_result \<Rightarrow> bool" where
  "run_bounded cfg tk limit r \<longleftrightarrow> (let ids = gr_generated_token_ids r
     in length ids \<le> limit \<and> list_all ((\<le>) 0) ids \<and> unstopped cfg tk ids (length ids - 1))"

definition run_complete :: "generation_loop_config \<Rightarrow> tokenizer \<Rightarrow> nat \<Rightarrow> generation_loop_result \<Rightarrow> bool" where
  "run_complete cfg tk limit r \<longleftrightarrow> (let ids = gr_generated_token_ids r
     in if gr_termination_reason r = ''stop_marker''
        then ids \<noteq> [] \<and> stops_run cfg tk ids (length ids - 1)
        else gr_termination_reason r = ''max_new_tokens'' \<and> length ids = limit \<and> unstopped cfg tk ids limit)"

text \<open>Between two passes: the tokens so far, none of which stopped the run.\<close>

definition running :: "generation_loop_config \<Rightarrow> tokenizer \<Rightarrow> nat \<Rightarrow> int list \<times> bool \<times> int \<times> string \<Rightarrow> bool" where
  "running cfg tk k = (\<lambda>(ids, ok, count, reason). ok \<and> count = 0 \<and> reason = ''max_new_tokens'' \<and>
     length ids = k \<and> list_all ((\<le>) 0) ids \<and> unstopped cfg tk ids k)"

definition ended :: "generation_loop_config \<Rightarrow> tokenizer \<Rightarrow> nat \<Rightarrow> generation_loop_result \<Rightarrow> bool" where
  "ended cfg tk limit r \<longleftrightarrow> gr_ok r \<and> gr_generated_token_count r = 0 \<and> run_bounded cfg tk limit r \<and> run_complete cfg tk limit r"

definition failed_run :: "generation_loop_config \<Rightarrow> tokenizer \<Rightarrow> nat \<Rightarrow> generation_loop_result \<Rightarrow> bool" where
  "failed_run cfg tk limit r \<longleftrightarrow> gr_generated_token_count r = 0 \<and> run_bounded cfg tk limit r"

lemmas run_specs = running_def ended_def failed_run_def run_bounded_def run_complete_def run_core_def

lemma unstopped_Suc: "unstopped cfg tk ids (Suc m) \<longleftrightarrow> unstopped cfg tk ids m \<and> \<not> stops_run cfg tk ids m"
  by (simp add: unstopped_def)

lemma unstopped_snoc: "m \<le> length ids \<Longrightarrow> unstopped cfg tk (ids @ [t]) m \<longleftrightarrow> unstopped cfg tk ids m"
  by (simp add: unstopped_def stops_run_def list_all_iff nth_append)

lemma unstopped_pred: "unstopped cfg tk ids m \<Longrightarrow> unstopped cfg tk ids (m - 1)"
  by (simp add: unstopped_def list_all_iff)

text \<open>After a token was appended and before the loop asks whether it ends the run.\<close>

definition pushed :: "generation_loop_config \<Rightarrow> tokenizer \<Rightarrow> nat \<Rightarrow> int \<Rightarrow> int list \<times> bool \<times> int \<times> string \<Rightarrow> bool" where
  "pushed cfg tk k t = (\<lambda>(ids, ok, count, reason). ok \<and> count = 0 \<and> reason = ''max_new_tokens'' \<and>
     length ids = Suc k \<and> list_all ((\<le>) 0) ids \<and> unstopped cfg tk ids k \<and> ids ! k = t)"

lemma running_failed: "\<lbrakk>running cfg tk k (run_core r); k \<le> limit\<rbrakk> \<Longrightarrow> failed_run cfg tk limit r"
  by (auto simp: run_specs intro: unstopped_pred [unfolded One_nat_def])

lemma running_ended: "running cfg tk limit (run_core r) \<Longrightarrow> ended cfg tk limit r"
  by (auto simp: run_specs Let_def intro: unstopped_pred [unfolded One_nat_def])

lemma pushed_failed: "\<lbrakk>pushed cfg tk k t (run_core r); k < limit\<rbrakk> \<Longrightarrow> failed_run cfg tk limit r"
  by (auto simp: run_specs pushed_def)

lemma valid_token:
  "k \<le> limit \<Longrightarrow> validA (\<lambda>s. running cfg tk k (run_core (fst s))) (liftA (next_token_id_from_terminal_response io res))
     (\<lambda>t s. 0 \<le> t \<and> running cfg tk k (run_core (fst s))) (\<lambda>s. failed_run cfg tk limit (fst s))"
  by (rule validA_lift)
    (auto simp: next_token_id_from_terminal_response_def result_simps intro: running_failed split: if_splits)

lemma valid_push:
  "validA (\<lambda>s. 0 \<le> t \<and> running cfg tk k (run_core (fst s))) (on_result (push_token t))
     (\<lambda>_ s. pushed cfg tk k t (run_core (fst s))) E"
  unfolding on_result_def
  by (rule validA_modify)
    (auto simp: running_def pushed_def run_core_def push_token_def unstopped_snoc nth_append split: prod.splits)

lemma valid_should_stop:
  assumes "k < limit"
  shows "validA (\<lambda>s. pushed cfg tk k t (run_core (fst s))) (should_stop_after cfg tk t)
     (\<lambda>stop s. pushed cfg tk k t (run_core (fst s)) \<and> stop = stops_run cfg tk (gr_generated_token_ids (fst s)) k)
     (\<lambda>s. failed_run cfg tk limit (fst s))"
  using pushed_failed [OF _ assms]
  by (auto simp: validA_def should_stop_after_def stops_run_def pushed_def run_core_def bindR_def split: sum.splits)

lemma valid_set_reason:
  assumes "k < limit"
  shows "validA (\<lambda>s. pushed cfg tk k t (run_core (fst s)) \<and> stops_run cfg tk (gr_generated_token_ids (fst s)) k)
     (on_result (set_reason ''stop_marker'')) (\<lambda>_ s. ended cfg tk limit (fst s)) E"
  unfolding on_result_def using assms
  by (intro validA_modify) (auto simp: run_specs pushed_def set_reason_def split: prod.splits)

lemma pushed_running:
  "\<lbrakk>pushed cfg tk k t (run_core r); \<not> stops_run cfg tk (gr_generated_token_ids r) k\<rbrakk>
    \<Longrightarrow> running cfg tk (Suc k) (run_core r)"
  by (simp add: pushed_def running_def run_core_def unstopped_Suc)

text \<open>Taking the sampled token, appending it and deciding whether to go on: what follows the prefill
  and what follows every decode step.\<close>

lemma valid_take_token:
  assumes k: "k < limit"
    and cont: "\<And>t. validA (\<lambda>s. running cfg tk (Suc k) (run_core (fst s))) (cont t)
      (\<lambda>_ s. ended cfg tk limit (fst s)) (\<lambda>s. failed_run cfg tk limit (fst s))"
  shows "validA (\<lambda>s. running cfg tk k (run_core (fst s)))
     (bindA (liftA (next_token_id_from_terminal_response io res)) (\<lambda>t.
      bindA (on_result (push_token t)) (\<lambda>_.
      bindA (should_stop_after cfg tk t) (\<lambda>stop.
      if stop then on_result (set_reason ''stop_marker'') else cont t))))
     (\<lambda>_ s. ended cfg tk limit (fst s)) (\<lambda>s. failed_run cfg tk limit (fst s))"
proof (intro validA_bind)
  show "validA (\<lambda>s. running cfg tk k (run_core (fst s))) (liftA (next_token_id_from_terminal_response io res))
     (\<lambda>t s. 0 \<le> t \<and> running cfg tk k (run_core (fst s))) (\<lambda>s. failed_run cfg tk limit (fst s))"
    using k by (intro valid_token) simp
  show "validA (\<lambda>s. 0 \<le> t \<and> running cfg tk k (run_core (fst s))) (on_result (push_token t))
     (\<lambda>_ s. pushed cfg tk k t (run_core (fst s))) (\<lambda>s. failed_run cfg tk limit (fst s))" for t
    by (rule valid_push)
  show "validA (\<lambda>s. pushed cfg tk k t (run_core (fst s))) (should_stop_after cfg tk t)
     (\<lambda>stop s. pushed cfg tk k t (run_core (fst s)) \<and> stop = stops_run cfg tk (gr_generated_token_ids (fst s)) k)
     (\<lambda>s. failed_run cfg tk limit (fst s))" for t
    by (rule valid_should_stop [OF k])
  show "validA (\<lambda>s. pushed cfg tk k t (run_core (fst s)) \<and> stop = stops_run cfg tk (gr_generated_token_ids (fst s)) k)
     (if stop then on_result (set_reason ''stop_marker'') else cont t)
     (\<lambda>_ s. ended cfg tk limit (fst s)) (\<lambda>s. failed_run cfg tk limit (fst s))" for t stop
    by (cases stop) (auto intro: validA_pre [OF cont] validA_pre [OF valid_set_reason [OF k, where t = t]] pushed_running)
qed

lemma valid_forward:
  "k \<le> limit \<Longrightarrow> validA (\<lambda>s. running cfg tk k (run_core (fst s)))
     (forward_through_partition_graph F io cfg send frame ti mode)
     (\<lambda>_ s. running cfg tk k (run_core (fst s))) (\<lambda>s. failed_run cfg tk limit (fst s))"
  by (rule validA_keeps [OF keepsA_forward]) (rule running_failed)

lemma valid_decode_loop:
  "k \<le> limit \<Longrightarrow> validA (\<lambda>s. running cfg tk k (run_core (fst s)))
     (decode_loop F io cfg tk send rid [k..<limit] t)
     (\<lambda>_ s. ended cfg tk limit (fst s)) (\<lambda>s. failed_run cfg tk limit (fst s))"
proof (induction "limit - k" arbitrary: k t)
  case 0
  then have "k = limit" by simp
  then show ?case by (simp add: validA_def running_ended)
next
  case (Suc d)
  then have k: "k < limit" "k \<le> limit" by simp_all
  have rest: "validA (\<lambda>s. running cfg tk (Suc k) (run_core (fst s)))
     (decode_loop F io cfg tk send rid [Suc k..<limit] t')
     (\<lambda>_ s. ended cfg tk limit (fst s)) (\<lambda>s. failed_run cfg tk limit (fst s))" for t'
    by (rule Suc.hyps(1)) (use Suc.hyps(2) k in simp_all)
  show ?case
    unfolding upt_conv_Cons [OF k(1)] decode_loop.simps
    by (rule validA_bind [OF valid_forward [OF k(2)] valid_take_token [OF k(1) rest]])
qed

lemma valid_generate:
  "validA (\<lambda>s. fst s = initial_result rid prompt (tk_backend_name tk))
     (generate F io cfg tk send rid prompt max_tokens)
     (\<lambda>_ s. gr_ok (fst s) \<and> gr_generated_token_count (fst s) = int (length (gr_generated_token_ids (fst s))) \<and>
        run_bounded cfg tk (nat max_tokens) (fst s) \<and> run_complete cfg tk (nat max_tokens) (fst s))
     (\<lambda>s. failed_run cfg tk (nat max_tokens) (fst s))"
proof -
  let ?limit = "nat max_tokens"
  let ?fresh = "\<lambda>c. c = ([], True, 0, ''unknown'')"
  let ?E = "\<lambda>s. failed_run cfg tk ?limit (fst s)"
  let ?first = "\<lambda>s. fst s = initial_result rid prompt (tk_backend_name tk)"
  let ?K = "\<lambda>s. ?fresh (run_core (fst s))"
  have fresh_failed: "failed_run cfg tk limit r" if "?fresh (run_core r)" for r limit
    using that by (simp add: run_specs Let_def unstopped_def)
  have nat_max: "nat (max 0 max_tokens) = ?limit" by simp
  have tokenize: "validA ?first (liftA (tk_tokenize tk q)) (\<lambda>_. ?K) ?E" for q
    by (rule validA_lift) (simp_all add: fresh_failed initial_result_def run_core_def)
  have ids: "validA ?K (on_result (\<lambda>r. r\<lparr>gr_prompt_token_ids := toks\<rparr>)) (\<lambda>_. ?K) ?E" for toks
    unfolding on_result_def by (rule validA_modify) (auto simp: run_core_def)
  have prefill: "validA ?K (forward_through_partition_graph F io cfg send frame ti mode) (\<lambda>_. ?K) ?E" for frame ti mode
    by (rule validA_keeps [OF keepsA_forward]) (rule fresh_failed)
  have reason: "validA ?K (on_result (set_reason ''max_new_tokens''))
      (\<lambda>_ s. running cfg tk 0 (run_core (fst s))) ?E"
    unfolding on_result_def
    by (rule validA_modify) (auto simp: run_core_def set_reason_def running_def unstopped_def)
  have loop: "validA (\<lambda>s. running cfg tk 0 (run_core (fst s)))
      (if ?limit = 0 then retA ()
       else bindA (liftA (next_token_id_from_terminal_response io res)) (\<lambda>t.
            bindA (on_result (push_token t)) (\<lambda>_.
            bindA (should_stop_after cfg tk t) (\<lambda>stop.
            if stop then on_result (set_reason ''stop_marker'')
            else decode_loop F io cfg tk send rid [1..<?limit] t))))
      (\<lambda>_ s. ended cfg tk ?limit (fst s)) ?E" for res
  proof (cases "?limit = 0")
    case True
    then show ?thesis by (simp add: validA_def running_ended)
  next
    case False
    have "validA (\<lambda>s. running cfg tk (Suc 0) (run_core (fst s))) (decode_loop F io cfg tk send rid [1..<?limit] t)
        (\<lambda>_ s. ended cfg tk ?limit (fst s)) ?E" for t
      unfolding One_nat_def by (rule valid_decode_loop) (use False in simp)
    then show ?thesis using False by (simp only: if_False) (rule valid_take_token, simp_all)
  qed
  have finish: "validA (\<lambda>s. ended cfg tk ?limit (fst s))
      (bindA getA (\<lambda>(result, n).
       bindA (liftA (tk_detokenize tk (gr_generated_token_ids result))) (\<lambda>text.
       on_result (\<lambda>r. r\<lparr>gr_generated_text := cleanup_generated_text text,
                        gr_generated_token_count := int (length (gr_generated_token_ids r))\<rparr>))))
      (\<lambda>_ s. gr_ok (fst s) \<and> gr_generated_token_count (fst s) = int (length (gr_generated_token_ids (fst s))) \<and>
        run_bounded cfg tk ?limit (fst s) \<and> run_complete cfg tk ?limit (fst s)) ?E"
    by (auto simp: validA_def on_result_def ended_def failed_run_def run_bounded_def run_complete_def
        split: sum.splits)
  show ?thesis
    unfolding generate_def nat_max Let_def
    by (rule validA_bind [OF tokenize] validA_bind [OF ids] validA_bind [OF prefill] validA_bind [OF reason]
        validA_bind [OF loop] finish)+
qed

lemma run_outcome:
  "(case run_stub_generation F io cfg tk send rid lat prompt max_tokens n of (r, n') \<Rightarrow>
     run_bounded cfg tk (nat max_tokens) r \<and>
     (if gr_ok r
      then run_complete cfg tk (nat max_tokens) r \<and>
           gr_generated_token_count r = int (length (gr_generated_token_ids r))
      else gr_termination_reason r = ''error'' \<and> gr_generated_token_count r = 0))"
proof -
  let ?r = "initial_result rid prompt (tk_backend_name tk)"
  obtain e result n' where g: "generate F io cfg tk send rid prompt max_tokens (?r, n) = (e, (result, n'))"
    by (metis prod.exhaust)
  note v = valid_generate [where rid = rid and prompt = prompt and tk = tk and F = F and io = io and cfg = cfg
      and send = send and max_tokens = max_tokens, unfolded validA_def, rule_format, of "(?r, n)",
      unfolded g fst_conv prod.case, OF refl]
  show ?thesis
  proof (cases e)
    case (Inl msg)
    then have "failed_run cfg tk (nat max_tokens) result" using v by simp
    then show ?thesis using Inl g
      by (simp add: run_stub_generation_def Let_def failed_run_def run_bounded_def)
  next
    case (Inr u)
    then show ?thesis using v g
      by (simp add: run_stub_generation_def Let_def run_bounded_def run_complete_def split: if_splits)
  qed
qed

text \<open>C3. Every run of the generation loop ends, and how it ends is what it reports: at most the
  requested number of tokens was produced, all of them valid ids, and no token but the last met the
  stop condition (the minimum reached and a control marker in its text). A run that reports success
  either stopped at its last token because of that condition or produced exactly the requested
  number, and its count is the number of tokens; any exception, in the tokenizer, the network, a
  stage or its metadata, ends in the reason \<open>error\<close> with a count of zero. This holds for whatever
  the tokenizer and the stages return.\<close>

theorem generation_outcome:
  "(case run_stub_generation F io cfg tk send request_id total_latency prompt max_new n of (r, n') \<Rightarrow>
     run_bounded cfg tk (nat max_new) r \<and>
     (if gr_ok r
      then run_complete cfg tk (nat max_new) r \<and>
           gr_generated_token_count r = int (length (gr_generated_token_ids r))
      else gr_termination_reason r = ''error'' \<and> gr_generated_token_count r = 0))"
  by (rule run_outcome)

section \<open>What a step says to the stage that owns the embedding\<close>

text \<open>C14. A prefill or decode frame of the gateway is read by the source stage as the request it
  stands for: same request id, token index and mode, the KV cache enabled, no token sampled yet, and
  a tensor that validates and decodes to exactly the token ids sent.\<close>

theorem step_frame_read:
  assumes "sendable io cfg request_id ti mode ''int64'' [1, int (length toks)]" "readable io cfg"
    and "toks \<noteq> []" "int (length toks) < 2 ^ 31" "\<forall>t \<in> set toks. int64_range t"
  shows "\<exists>rq. make_runtime_request io (step_frame io cfg request_id ti mode [1, int (length toks)] toks) sid = Inr rq \<and>
     rq_request_id rq = request_id \<and> rq_token_index rq = ti \<and> rq_generation_mode rq = mode \<and>
     rq_stage_id rq = sid \<and> rq_kv_cache_enabled rq \<and> \<not> rq_has_next_token_id rq \<and>
     rq_stage_input_token_count rq = int (length toks) \<and>
     tensor_to_token_ids (rq_input_tensor rq) = Inr toks"
proof -
  have "tensor_to_token_ids
     \<lparr>metadata = \<lparr>dtype = ''int64'', shape = [1, int (length toks)], byte_order = ''little''\<rparr>,
      bytes = int64_tokens_to_bytes toks\<rparr> = Inr toks"
    using assms(3-5) by (intro token_ids_codec) (auto simp: int64_range_def)
  moreover have "infer_sequence_length_from_shape [1, int (length toks)] = int (length toks)"
    using assms(3,4) by (simp add: infer_sequence_length_from_shape_def i32_wrap_id)
  ultimately show ?thesis
    by (simp add: make_runtime_request_def step_frame_def gateway_metadata_read [OF assms(1,2)] sent_metadata_def)
qed

theorem step_frame_read_witness:
  "\<exists>rq. make_runtime_request sample_io
       (step_frame sample_io sample_config ''r\"1'' 0 ''prefill'' [1, 3] [1, 128000, 7]) 0 = Inr rq \<and>
     tensor_to_token_ids (rq_input_tensor rq) = Inr [1, 128000, 7]"
proof -
  have "\<forall>t \<in> set [1, 128000, 7 :: int]. int64_range t"
    by (simp add: int64_range_def)
  from step_frame_read [where toks = "[1, 128000, 7]" and sid = 0, OF _ sample_sendable(2) _ _ this,
      of "''r\"1''" 0 "''prefill''"] sample_sendable(1)
  show ?thesis by auto
qed

section \<open>Cleaning the generated text\<close>

text \<open>The clean-up is not idempotent and does not keep its promise: removing a marker can leave
  one, because the search for \<open><s>\<close> and \<open></s>\<close> goes on at the position of the erased text and never
  looks back, and because the role markers are cut before the sentence markers are erased.\<close>

theorem cleanup_leaves_markers:
  "cleanup_generated_text ''<s<s>>'' = ''<s>'' \<and> cleanup_generated_text ''<s>'' = [] \<and>
   cleanup_generated_text ''<|us</s>er|>'' = ''<|user|>''"
  by code_simp

end
