(* ===== verification/Stage_Agreement.thy ===== *)
theory Stage_Agreement
  imports Stage_Map Action_Logic
begin

text \<open>
  The gateway and every stage read the same \<open>stage_map.yaml\<close> with two separate scanners. This theory
  compares them line by line: on a file whose stage list is one section, what a stage loads for its
  id is what the gateway loads for the partition of that id.
\<close>

section \<open>Shape of the file\<close>

text \<open>The line that opens the list, the lines that stay in it, and a line that closes it for both
  scanners. The top-level keys the gateway reads anywhere do not close the list for the gateway.\<close>

definition opens_stages :: "string \<Rightarrow> bool" where
  "opens_stages line \<longleftrightarrow> indent_width line = 0 \<and> starts_with (trim_copy line) ''inference_stages:''"

definition in_stage_list :: "string \<Rightarrow> bool" where
  "in_stage_list line \<longleftrightarrow> trim_copy line = [] \<or> starts_with (trim_copy line) ''#'' \<or> 0 < indent_width line \<or>
     is_stage_list_item (trim_copy line)"

definition closes_stages :: "string \<Rightarrow> bool" where
  "closes_stages line \<longleftrightarrow> \<not> in_stage_list line \<and>
     list_all (\<lambda>key. \<not> starts_with (trim_copy line) key)
       [''model_name:'', ''model_path:'', ''num_layers:'', ''inference_gateway:'', ''inference_stages:'']"

definition one_stage_list :: "string list \<Rightarrow> bool" where
  "one_stage_list ls =
     (let rest = dropWhile (\<lambda>line. \<not> opens_stages line) ls;
          after = dropWhile in_stage_list (tl rest)
      in rest \<noteq> [] \<and>
         (after = [] \<or> closes_stages (hd after) \<and> list_all (\<lambda>line. \<not> opens_stages line) (tl after)))"

definition same_entry :: "partition_node \<Rightarrow> stage_config \<Rightarrow> bool" where
  "same_entry p c \<longleftrightarrow> service_name p = sc_service_name c \<and> physical_node p = sc_physical_node c \<and>
     partition_file p = sc_partition_file c \<and> native_partition_file p = sc_native_partition_file c \<and>
     backend p = sc_backend c \<and> next_stage_url p = sc_next_stage_url c \<and>
     components p = sc_components c"

section \<open>Lines of an entry\<close>

lemma starts_withE: "\<lbrakk>starts_with t key; \<And>r. t = key @ r \<Longrightarrow> P\<rbrakk> \<Longrightarrow> P"
  by (auto simp: starts_with_def is_prefix_iff)

lemma starts_with_append [simp]: "starts_with (key @ r) key"
  by (simp add: starts_with_def is_prefix_iff)

lemma component_lines_equal: "partition_component_line = stage_component_line"
  by (intro ext) (simp only: partition_component_line_def stage_component_line_def)

lemma item_line_keys:
  assumes "is_stage_list_item t"
  shows "\<not> starts_with t ''#''" "\<not> starts_with t ''model_name:''" "\<not> starts_with t ''model_path:''"
    "\<not> starts_with t ''num_layers:''" "\<not> starts_with t ''inference_gateway:''"
    "\<not> starts_with t ''inference_stages:''" "t \<noteq> []"
proof -
  obtain r where "t = ''- stage_id:'' @ r"
    using assms unfolding is_stage_list_item_def by (rule starts_withE)
  then show "\<not> starts_with t ''#''" "\<not> starts_with t ''model_name:''" "\<not> starts_with t ''model_path:''"
    "\<not> starts_with t ''num_layers:''" "\<not> starts_with t ''inference_gateway:''"
    "\<not> starts_with t ''inference_stages:''" "t \<noteq> []"
    by (simp_all add: starts_with_def)
qed

lemma field_line_same:
  assumes "same_entry p c"
  shows "same_entry (partition_field_line t p) (stage_field_line t c)"
proof (cases "starts_with t ''partition_id:''")
  case True
  then obtain r where "t = ''partition_id:'' @ r" by (rule starts_withE)
  then show ?thesis using assms
    by (simp add: partition_field_line_def stage_field_line_def starts_with_def same_entry_def)
next
  case False
  then show ?thesis using assms
    by (simp add: partition_field_line_def stage_field_line_def same_entry_def)
qed

lemma field_line_id [simp]: "stage_id (partition_field_line t p) = stage_id p"
  by (simp add: partition_field_line_def)

section \<open>The two scans in step\<close>

text \<open>The partitions read so far, with the one being read.\<close>

definition entries :: "gateway_scan \<Rightarrow> partition_node list" where
  "entries gs = gc_partitions (gs_config gs) @
     (if gs_inside_current_partition gs then [gs_current_partition gs] else [])"

definition loaded_as :: "int \<Rightarrow> stage_config \<Rightarrow> partition_node list \<Rightarrow> stage_config \<Rightarrow> bool" where
  "loaded_as s c0 ps c = (case filter (\<lambda>p. stage_id p = s) ps of
     [] \<Rightarrow> c = c0 | [p] \<Rightarrow> same_entry p c | _ \<Rightarrow> True)"

definition on_target :: "int \<Rightarrow> gateway_scan \<Rightarrow> bool" where
  "on_target s gs \<longleftrightarrow> gs_inside_current_partition gs \<and> stage_id (gs_current_partition gs) = s"

definition in_step :: "int \<Rightarrow> stage_config \<Rightarrow> gateway_scan \<Rightarrow> stage_scan \<Rightarrow> bool" where
  "in_step s c0 gs ss \<longleftrightarrow>
     gs_inside_inference_stages gs \<and> \<not> gs_inside_gateway gs \<and> ss_inside_inference_stages ss \<and> \<not> ss_stopped ss \<and>
     ss_inside_target_stage ss = on_target s gs \<and>
     (on_target s gs \<longrightarrow> ss_inside_components ss = gs_inside_components gs \<and>
        ss_inside_layers ss = gs_inside_layers gs) \<and>
     loaded_as s c0 (entries gs) (ss_config ss)"

lemma loaded_as_cong:
  "list_all2 (\<lambda>p q. stage_id p = stage_id q \<and> (\<forall>c. same_entry p c = same_entry q c)) ps qs
    \<Longrightarrow> loaded_as s c0 ps c = loaded_as s c0 qs c"
proof -
  assume a: "list_all2 (\<lambda>p q. stage_id p = stage_id q \<and> (\<forall>c. same_entry p c = same_entry q c)) ps qs"
  have "list_all2 (\<lambda>p q. stage_id p = stage_id q \<and> (\<forall>c. same_entry p c = same_entry q c))
      (filter (\<lambda>p. stage_id p = s) ps) (filter (\<lambda>p. stage_id p = s) qs)"
    using a by (induction rule: list_all2_induct) auto
  then show ?thesis
    by (auto simp: loaded_as_def list_all2_Cons1 list_all2_Cons2 split: list.splits)
qed

text \<open>Finishing an entry only fills in a missing partition id.\<close>

lemma finish_entries:
  assumes "finish_partition_if_valid gs = Inr gs'"
  shows "\<not> gs_inside_current_partition gs'"
    "gc_partitions (gs_config gs') = entries gs'"
    "list_all2 (\<lambda>p q. stage_id p = stage_id q \<and> (\<forall>c. same_entry p c = same_entry q c)) (entries gs) (entries gs')"
    "gs_inside_inference_stages gs' = gs_inside_inference_stages gs"
    "gs_inside_gateway gs' = gs_inside_gateway gs"
  using assms
  by (auto simp: finish_partition_if_valid_def entries_def Let_def same_entry_def list_all2_append list.rel_refl
      list_all2_refl split: if_splits)

lemma finish_named:
  assumes "finish_partition_if_valid gs = Inr gs'" "list_all (\<lambda>p. service_name p \<noteq> []) (gc_partitions (gs_config gs))"
  shows "list_all (\<lambda>p. service_name p \<noteq> []) (gc_partitions (gs_config gs'))"
  using assms by (auto simp: finish_partition_if_valid_def Let_def split: if_splits)

text \<open>A line of the entry being read: both scanners see the same keys, the gateway one more.\<close>

lemma entry_line_in_step:
  assumes "in_step s c0 gs ss" "gs_inside_current_partition gs" "gateway_entry_line n t gs = Inr gs'"
  shows "\<exists>ss'. (if ss_inside_target_stage ss then stage_entry_line n t ss else Inr ss) = Inr ss' \<and> in_step s c0 gs' ss'"
proof -
  let ?ps = "gc_partitions (gs_config gs)" and ?cur = "gs_current_partition gs" and ?cur' = "gs_current_partition gs'"
  have g: "gs_config gs' = gs_config gs" "gs_inside_current_partition gs'" "stage_id ?cur' = stage_id ?cur"
    "gs_inside_inference_stages gs' = gs_inside_inference_stages gs" "gs_inside_gateway gs' = gs_inside_gateway gs"
    using assms(2,3) by (auto simp: gateway_entry_line_def result_simps split: if_splits)
  have target: "on_target s gs' = on_target s gs" using g assms(2) by (simp add: on_target_def)
  show ?thesis
  proof (cases "on_target s gs")
    case False
    have "loaded_as s c0 (entries gs') (ss_config ss) = loaded_as s c0 (entries gs) (ss_config ss)"
      using False g assms(2) by (simp add: loaded_as_def entries_def on_target_def)
    then show ?thesis using assms(1) False target g by (auto simp: in_step_def)
  next
    case True
    then have cur: "stage_id ?cur = s" by (simp add: on_target_def)
    have flags: "ss_inside_target_stage ss" "ss_inside_components ss = gs_inside_components gs"
        "ss_inside_layers ss = gs_inside_layers gs"
      using assms(1) True by (simp_all add: in_step_def)
    define only where "only = (filter (\<lambda>p. stage_id p = s) ?ps = [])"
    have loaded: "loaded_as s c0 (entries gs) c = (only \<longrightarrow> same_entry ?cur c)"
        "loaded_as s c0 (entries gs') c = (only \<longrightarrow> same_entry ?cur' c)" for c
      using cur g assms(2)
      by (auto simp: loaded_as_def entries_def only_def split: list.splits)
    have same: "only \<longrightarrow> same_entry ?cur (ss_config ss)"
      using assms(1) loaded by (simp add: in_step_def)
    consider "starts_with t ''components:''" | "\<not> starts_with t ''components:''" "\<not> gs_inside_components gs \<or> n \<le> 2"
      | "\<not> starts_with t ''components:''" "gs_inside_components gs" "\<not> n \<le> 2" by blast
    then show ?thesis
    proof cases
      case 1
      then have "gs' = gs\<lparr>gs_inside_components := True, gs_inside_layers := False\<rparr>"
        using assms(3) by (simp add: gateway_entry_line_def)
      then show ?thesis using 1 assms(1) flags target True same loaded
        by (simp add: stage_entry_line_def in_step_def)
    next
      case 2
      then have "gs' = gs\<lparr>gs_inside_components := False,
          gs_inside_layers := gs_inside_layers gs \<and> \<not> gs_inside_components gs,
          gs_current_partition := partition_field_line t ?cur\<rparr>"
        using assms(3) by (simp add: gateway_entry_line_def)
      then show ?thesis using 2 assms(1) flags target True same loaded field_line_same
        by (simp add: stage_entry_line_def in_step_def)
    next
      case 3
      obtain l c where line: "stage_component_line t (gs_inside_layers gs, components ?cur) = Inr (l, c)"
        and gs': "gs' = gs\<lparr>gs_inside_layers := l, gs_current_partition := ?cur\<lparr>components := c\<rparr>\<rparr>"
        using assms(3) 3 by (auto simp: gateway_entry_line_def result_simps component_lines_equal)
      obtain c2 where line2: "stage_component_line t (gs_inside_layers gs, sc_components (ss_config ss)) = Inr (l, c2)"
        and c2: "components ?cur = sc_components (ss_config ss) \<Longrightarrow> c2 = c"
        using line by (auto simp: stage_component_line_def Let_def result_simps split: if_splits)
      have "stage_entry_line n t ss =
          Inr (ss\<lparr>ss_inside_layers := l, ss_config := (ss_config ss)\<lparr>sc_components := c2\<rparr>\<rparr>)"
        using 3 flags line2 by (simp add: stage_entry_line_def)
      moreover have "only \<longrightarrow> same_entry ?cur' ((ss_config ss)\<lparr>sc_components := c2\<rparr>)"
        using same c2 gs' by (simp add: same_entry_def)
      ultimately show ?thesis using assms(1) flags target True loaded gs'
        by (simp add: in_step_def)
    qed
  qed
qed

text \<open>A list item finishes the entry before it and opens one, on both sides.\<close>

lemma item_line_in_step:
  assumes "in_step s c0 gs ss" "is_stage_list_item (trim_copy line)" "gateway_scan_line line gs = Inr gs'"
    and c0: "components empty_partition_node = sc_components c0" "sc_stage_id c0 = s"
      "same_entry empty_partition_node c0"
  shows "\<exists>ss'. stage_scan_line s line ss = Inr ss' \<and> in_step s c0 gs' ss'"
proof -
  note keys = item_line_keys [OF assms(2)]
  have flags: "gs_inside_inference_stages gs" "\<not> gs_inside_gateway gs" "ss_inside_inference_stages ss" "\<not> ss_stopped ss"
    and load: "loaded_as s c0 (entries gs) (ss_config ss)"
    using assms(1) by (simp_all add: in_step_def)
  obtain g1 sid where f: "finish_partition_if_valid gs = Inr g1"
    and sid: "parse_stage_id_from_list_item (trim_copy line) = Inr sid"
    and gs': "gs' = g1\<lparr>gs_current_partition :=
                     empty_partition_node\<lparr>stage_id := sid, partition_id := default_partition_id sid\<rparr>,
                   gs_inside_current_partition := True, gs_inside_components := False, gs_inside_layers := False\<rparr>"
    using assms(2,3) keys flags by (auto simp: gateway_scan_line_def leave_gateway_def gateway_inner_line_def gateway_stages_line_def Let_def result_simps)
  note fin = finish_entries [OF f]
  let ?ss = "ss\<lparr>ss_inside_target_stage := (sid = s), ss_inside_components := False, ss_inside_layers := False\<rparr>"
  let ?c = "(ss_config ss)\<lparr>sc_stage_id := s, sc_components := (sc_components (ss_config ss))\<lparr>layers := []\<rparr>\<rparr>"
  have step: "stage_scan_line s line ss = Inr (if sid = s then ?ss\<lparr>ss_config := ?c\<rparr> else ?ss)"
    using assms(2) keys flags sid by (simp add: stage_scan_line_def Let_def)
  have target: "on_target s gs' = (sid = s)" by (simp add: on_target_def gs')
  have ents: "entries gs' = entries g1 @ [empty_partition_node\<lparr>stage_id := sid, partition_id := default_partition_id sid\<rparr>]"
    using fin(2) by (simp add: entries_def gs')
  have load1: "loaded_as s c0 (entries g1) (ss_config ss)"
    using load loaded_as_cong [OF fin(3)] by simp
  have "loaded_as s c0 (entries gs') (ss_config (if sid = s then ?ss\<lparr>ss_config := ?c\<rparr> else ?ss))"
  proof (cases "sid = s")
    case False
    then show ?thesis using load1 by (simp add: ents loaded_as_def)
  next
    case True
    show ?thesis
    proof (cases "filter (\<lambda>p. stage_id p = s) (entries g1)")
      case Nil
      then have "ss_config ss = c0" using load1 by (simp add: loaded_as_def)
      then show ?thesis using True Nil c0(3) c0(1) [symmetric]
        by (simp add: ents loaded_as_def same_entry_def empty_partition_node_def empty_components_def)
    next
      case (Cons p ps)
      then show ?thesis using True by (simp add: ents loaded_as_def split: list.splits)
    qed
  qed
  then show ?thesis using step target flags fin gs' by (simp add: in_step_def)
qed

lemma line_in_step:
  assumes "in_step s c0 gs ss" "in_stage_list line" "gateway_scan_line line gs = Inr gs'"
    and c0: "components empty_partition_node = sc_components c0" "sc_stage_id c0 = s"
      "same_entry empty_partition_node c0"
  shows "\<exists>ss'. stage_scan_line s line ss = Inr ss' \<and> in_step s c0 gs' ss'"
proof -
  have flags: "gs_inside_inference_stages gs" "\<not> gs_inside_gateway gs" "ss_inside_inference_stages ss" "\<not> ss_stopped ss"
    using assms(1) by (simp_all add: in_step_def)
  consider "trim_copy line = [] \<or> starts_with (trim_copy line) ''#''"
    | "is_stage_list_item (trim_copy line)"
    | "trim_copy line \<noteq> []" "\<not> starts_with (trim_copy line) ''#''" "0 < indent_width line" "\<not> is_stage_list_item (trim_copy line)"
    using assms(2) by (auto simp: in_stage_list_def)
  then show ?thesis
  proof cases
    case 1
    then show ?thesis using assms(1,3) by (auto simp: gateway_scan_line_def stage_scan_line_def Let_def)
  next
    case 2
    show ?thesis by (rule item_line_in_step [OF assms(1) 2 assms(3) c0])
  next
    case 3
    let ?n = "indent_width line" and ?t = "trim_copy line"
    have g: "gs' = gs \<and> \<not> gs_inside_current_partition gs \<or>
        gs_inside_current_partition gs \<and> gateway_entry_line ?n ?t gs = Inr gs'"
      using assms(3) 3 flags by (auto simp: gateway_scan_line_def leave_gateway_def gateway_inner_line_def gateway_stages_line_def Let_def split: if_splits)
    have s: "stage_scan_line s line ss = (if ss_inside_target_stage ss then stage_entry_line ?n ?t ss else Inr ss)"
      using 3 flags by (simp add: stage_scan_line_def Let_def)
    show ?thesis
    proof (cases "gs_inside_current_partition gs")
      case True
      then show ?thesis using g s entry_line_in_step [OF assms(1)] by simp
    next
      case False
      then have "\<not> ss_inside_target_stage ss" using assms(1) by (simp add: in_step_def on_target_def)
      then show ?thesis using False g s assms(1) by simp
    qed
  qed
qed

lemma lines_in_step:
  assumes "in_step s c0 gs ss" "list_all in_stage_list ls" "foldR gateway_scan_line ls gs = Inr gs'"
    and c0: "components empty_partition_node = sc_components c0" "sc_stage_id c0 = s"
      "same_entry empty_partition_node c0"
  shows "\<exists>ss'. foldR (stage_scan_line s) ls ss = Inr ss' \<and> in_step s c0 gs' ss'"
  using assms(1-3)
proof (induction ls arbitrary: gs ss)
  case (Cons line ls)
  then obtain g1 where g1: "gateway_scan_line line gs = Inr g1" "foldR gateway_scan_line ls g1 = Inr gs'"
    by (auto simp: result_simps)
  obtain s1 where "stage_scan_line s line ss = Inr s1" "in_step s c0 g1 s1"
    using line_in_step [OF Cons.prems(1) _ g1(1) c0] Cons.prems(2) by auto
  then show ?case using Cons.IH [OF _ _ g1(2)] Cons.prems(2) by simp
qed simp

section \<open>Before and after the list\<close>

definition outside :: "gateway_scan \<Rightarrow> bool" where
  "outside gs \<longleftrightarrow> \<not> gs_inside_inference_stages gs \<and> \<not> gs_inside_current_partition gs"

lemma outside_line:
  assumes "outside gs" "\<not> opens_stages line" "gateway_scan_line line gs = Inr gs'"
  shows "outside gs' \<and> gc_partitions (gs_config gs') = gc_partitions (gs_config gs)"
  using assms
  by (auto simp: outside_def opens_stages_def gateway_scan_line_def leave_gateway_def gateway_inner_line_def gateway_stages_line_def gateway_section_line_def
      Let_def result_simps split: if_splits sum.splits)

lemma outside_lines:
  "\<lbrakk>outside gs; list_all (\<lambda>line. \<not> opens_stages line) ls; foldR gateway_scan_line ls gs = Inr gs'\<rbrakk>
    \<Longrightarrow> outside gs' \<and> gc_partitions (gs_config gs') = gc_partitions (gs_config gs)"
  by (induction ls arbitrary: gs) (auto simp: result_simps dest: outside_line)

lemma stage_before:
  assumes "\<not> ss_inside_inference_stages ss" "list_all (\<lambda>line. \<not> opens_stages line) ls"
  shows "foldR (stage_scan_line s) ls ss = Inr ss"
  using assms(2)
proof (induction ls)
  case (Cons line ls)
  then have "stage_scan_line s line ss = Inr ss"
    using assms(1) by (simp add: stage_scan_line_def Let_def opens_stages_def)
  then show ?case using Cons by simp
qed simp

lemma stage_stopped: "ss_stopped ss \<Longrightarrow> foldR (stage_scan_line s) ls ss = Inr ss"
  by (induction ls) (simp_all add: stage_scan_line_def Let_def)

lemma closing_line:
  assumes "in_step s c0 gs ss" "closes_stages line" "gateway_scan_line line gs = Inr gs'"
  shows "\<exists>ss'. stage_scan_line s line ss = Inr ss' \<and> ss_stopped ss' \<and> ss_config ss' = ss_config ss"
    "outside gs'" "loaded_as s c0 (gc_partitions (gs_config gs')) (ss_config ss)"
proof -
  have flags: "gs_inside_inference_stages gs" "ss_inside_inference_stages ss" "\<not> ss_stopped ss"
    and load: "loaded_as s c0 (entries gs) (ss_config ss)"
    using assms(1) by (simp_all add: in_step_def)
  have shape: "trim_copy line \<noteq> []" "\<not> starts_with (trim_copy line) ''#''" "indent_width line = 0"
      "\<not> is_stage_list_item (trim_copy line)" "\<not> starts_with (trim_copy line) ''inference_stages:''"
    using assms(2) by (simp_all add: closes_stages_def in_stage_list_def)
  show "\<exists>ss'. stage_scan_line s line ss = Inr ss' \<and> ss_stopped ss' \<and> ss_config ss' = ss_config ss"
    using shape flags by (simp add: stage_scan_line_def Let_def)
  obtain g1 where f: "finish_partition_if_valid gs = Inr g1"
    and gs': "gs' = g1\<lparr>gs_inside_inference_stages := False, gs_inside_components := False, gs_inside_layers := False\<rparr>"
    using assms(2,3) shape flags by (auto simp: gateway_scan_line_def Let_def closes_stages_def result_simps)
  note fin = finish_entries [OF f]
  show "outside gs'" using fin gs' by (simp add: outside_def)
  show "loaded_as s c0 (gc_partitions (gs_config gs')) (ss_config ss)"
    using load loaded_as_cong [OF fin(3)] fin(2) gs' by simp
qed

section \<open>Agreement of the loaders\<close>

lemma one_stage_list_split:
  assumes "one_stage_list ls"
  obtains before h body after where "ls = before @ h # body @ after" "list_all (\<lambda>line. \<not> opens_stages line) before"
    "opens_stages h" "list_all in_stage_list body"
    "after = [] \<or> (\<exists>c rest. after = c # rest \<and> closes_stages c \<and> list_all (\<lambda>line. \<not> opens_stages line) rest)"
proof -
  let ?rest = "dropWhile (\<lambda>line. \<not> opens_stages line) ls"
  have ne: "?rest \<noteq> []" using assms by (simp add: one_stage_list_def Let_def)
  show ?thesis
  proof (rule that)
    show "ls = takeWhile (\<lambda>line. \<not> opens_stages line) ls @ hd ?rest #
        takeWhile in_stage_list (tl ?rest) @ dropWhile in_stage_list (tl ?rest)"
      using ne by simp
    show "list_all (\<lambda>line. \<not> opens_stages line) (takeWhile (\<lambda>line. \<not> opens_stages line) ls)"
      by (auto simp: list_all_iff dest: set_takeWhileD)
    show "opens_stages (hd ?rest)" using hd_dropWhile [OF ne] by simp
    show "list_all in_stage_list (takeWhile in_stage_list (tl ?rest))"
      by (auto simp: list_all_iff dest: set_takeWhileD)
    show "dropWhile in_stage_list (tl ?rest) = [] \<or> (\<exists>c rest. dropWhile in_stage_list (tl ?rest) = c # rest \<and>
        closes_stages c \<and> list_all (\<lambda>line. \<not> opens_stages line) rest)"
    proof -
      have "dropWhile in_stage_list (tl ?rest) = [] \<or> closes_stages (hd (dropWhile in_stage_list (tl ?rest))) \<and>
          list_all (\<lambda>line. \<not> opens_stages line) (tl (dropWhile in_stage_list (tl ?rest)))"
        using assms unfolding one_stage_list_def Let_def by (rule conjunct2)
      then show ?thesis by (metis list.collapse)
    qed
  qed
qed

lemma keeps_stage_id:
  "\<lbrakk>foldR (stage_scan_line s) ls ss = Inr ss'; sc_stage_id (ss_config ss) = s\<rbrakk> \<Longrightarrow> sc_stage_id (ss_config ss') = s"
proof (induction ls arbitrary: ss)
  case (Cons line ls)
  have field: "sc_stage_id (stage_field_line t c) = sc_stage_id c" for t c
    by (simp add: stage_field_line_def)
  have line: "stage_scan_line s line ss = Inr s1 \<Longrightarrow> sc_stage_id (ss_config s1) = s" for s1
    using Cons.prems(2)
    by (auto simp: stage_scan_line_def stage_entry_line_def Let_def result_simps field split: if_splits)
  show ?case using Cons.prems Cons.IH line by (auto simp: result_simps)
qed simp

definition all_named :: "gateway_scan \<Rightarrow> bool" where
  "all_named gs \<longleftrightarrow> list_all (\<lambda>p. service_name p \<noteq> []) (gc_partitions (gs_config gs))"

lemma okR_finish: "all_named gs \<Longrightarrow> okR all_named (finish_partition_if_valid gs)"
  using finish_named by (auto simp: okR_def all_named_def)

lemma all_named_cong:
  "gc_partitions (gs_config gs') = gc_partitions (gs_config gs) \<Longrightarrow> all_named gs' \<longleftrightarrow> all_named gs"
  by (simp add: all_named_def)

lemma okR_same: "all_named gs \<Longrightarrow> gc_partitions (gs_config gs') = gc_partitions (gs_config gs) \<Longrightarrow> okR all_named (Inr gs')"
  by (simp add: okR_def all_named_def)

lemma okR_section:
  "gateway_section_line t c = Some r \<Longrightarrow> okR (\<lambda>c'. gc_partitions c' = gc_partitions c) r"
  by (auto simp: gateway_section_line_def okR_def split: if_splits sum.splits)

lemma okR_entry: "all_named gs \<Longrightarrow> okR all_named (gateway_entry_line n t gs)"
  unfolding gateway_entry_line_def
  by (intro okR_intros okR_bind [where Q = "\<lambda>_. True"] okR_same, simp_all add: okR_def split: prod.splits)
    (auto simp: all_named_def)

lemma okR_stages: "all_named gs \<Longrightarrow> okR all_named (gateway_stages_line n t gs)"
  unfolding gateway_stages_line_def
  by (intro okR_intros okR_finish okR_entry okR_bind [where Q = all_named] okR_bind [where Q = "\<lambda>_ :: int. True"])
    (auto intro: okR_same simp: okR_def all_named_def)

lemma okR_line:
  assumes "all_named gs"
  shows "okR all_named (gateway_scan_line line gs)"
proof -
  have tail: "okR all_named (gateway_inner_line n t g)" if "all_named g" for g t n
    using that okR_stages [OF that] okR_section [of t "gs_config g"]
    by (auto simp: gateway_inner_line_def okR_def result_simps all_named_def split: option.splits)
  have leave: "all_named (leave_gateway n gs)" for n
    using assms by (simp add: leave_gateway_def all_named_def)
  have fin: "okR all_named (bindR (finish_partition_if_valid gs) (\<lambda>st. Inr (f st)))"
    if "\<And>st. gc_partitions (gs_config (f st)) = gc_partitions (gs_config st)" for f
    using that by (intro okR_bind [OF okR_finish [OF assms]]) (simp add: okR_def all_named_def)
  have read: "okR all_named (bindR (std_stoi t) (\<lambda>n. Inr (f n)))"
    if "\<And>n. gc_partitions (gs_config (f n)) = gc_partitions (gs_config gs)" for f t
    using that assms by (auto simp: okR_def all_named_def result_simps)
  show ?thesis
    unfolding gateway_scan_line_def Let_def
    by (rule okR_if read fin tail [OF leave] okR_same [OF assms] | simp)+
qed

lemma filter_distinct_key: "\<lbrakk>distinct (map f xs); x \<in> set xs\<rbrakk> \<Longrightarrow> filter (\<lambda>y. f y = f x) xs = [x]"
  by (induction xs) (auto simp: filter_empty_conv image_iff)

text \<open>The two scans of a whole file, up to the partition the gateway still has open.\<close>

lemma scans_agree:
  assumes "one_stage_list ls" "foldR gateway_scan_line ls (initial_gateway_scan path) = Inr gs"
    and "finish_partition_if_valid gs = Inr gs'"
  shows "\<exists>ss. foldR (stage_scan_line s) ls (initial_stage_scan path' s) = Inr ss \<and>
    loaded_as s (ss_config (initial_stage_scan path' s)) (gc_partitions (gs_config gs')) (ss_config ss)"
proof -
  let ?g0 = "initial_gateway_scan path" and ?s0 = "initial_stage_scan path' s"
  let ?c0 = "ss_config ?s0"
  have c0: "components empty_partition_node = sc_components ?c0" "sc_stage_id ?c0 = s" "same_entry empty_partition_node ?c0"
    by (simp_all add: initial_stage_scan_def default_stage_config_def empty_partition_node_def same_entry_def)
  obtain before h body after where ls: "ls = before @ h # body @ after"
    and before: "list_all (\<lambda>line. \<not> opens_stages line) before" and h: "opens_stages h"
    and body: "list_all in_stage_list body"
    and after: "after = [] \<or> (\<exists>c rest. after = c # rest \<and> closes_stages c \<and> list_all (\<lambda>line. \<not> opens_stages line) rest)"
    using one_stage_list_split [OF assms(1)] .
  obtain g1 g2 g3 where g1: "foldR gateway_scan_line before ?g0 = Inr g1" and g2: "gateway_scan_line h g1 = Inr g2"
    and g3: "foldR gateway_scan_line body g2 = Inr g3" and g: "foldR gateway_scan_line after g3 = Inr gs"
    using assms(2) by (auto simp: ls foldR_append result_simps)
  have o1: "outside g1" "gc_partitions (gs_config g1) = []"
    using outside_lines [OF _ before g1] by (simp_all add: outside_def initial_gateway_scan_def default_gateway_config_def)
  obtain r where r: "trim_copy h = ''inference_stages:'' @ r" "indent_width h = 0"
    using h unfolding opens_stages_def by (auto elim: starts_withE)
  have g2': "g2 = g1\<lparr>gs_inside_gateway := False, gs_inside_inference_stages := True,
                      gs_inside_components := False, gs_inside_layers := False\<rparr>"
    using g2 r o1(1)
    by (simp add: gateway_scan_line_def Let_def starts_with_def finish_partition_if_valid_def outside_def)
  have s1: "foldR (stage_scan_line s) before ?s0 = Inr ?s0"
    by (rule stage_before [OF _ before]) (simp add: initial_stage_scan_def)
  have s2: "stage_scan_line s h ?s0 = Inr (?s0\<lparr>ss_inside_inference_stages := True\<rparr>)"
    using r by (simp add: stage_scan_line_def Let_def starts_with_def initial_stage_scan_def)
  have "in_step s ?c0 g2 (?s0\<lparr>ss_inside_inference_stages := True\<rparr>)"
    using o1 by (simp add: in_step_def g2' outside_def on_target_def entries_def loaded_as_def initial_stage_scan_def)
  from lines_in_step [OF this body g3 c0] obtain s3 where
    s3: "foldR (stage_scan_line s) body (?s0\<lparr>ss_inside_inference_stages := True\<rparr>) = Inr s3" "in_step s ?c0 g3 s3" by blast
  have head: "foldR (stage_scan_line s) ls ?s0 = foldR (stage_scan_line s) after s3"
    using s1 s2 s3(1) by (simp add: ls foldR_append)
  show ?thesis
  proof (cases after)
    case Nil
    then have "gs = g3" using g by simp
    then have "loaded_as s ?c0 (gc_partitions (gs_config gs')) (ss_config s3)"
      using s3(2) loaded_as_cong [OF finish_entries(3) [OF assms(3)]] finish_entries(2) [OF assms(3)]
      by (simp add: in_step_def)
    then show ?thesis using head Nil by simp
  next
    case (Cons c rest)
    then have c: "closes_stages c" "list_all (\<lambda>line. \<not> opens_stages line) rest" using after by auto
    obtain g4 where g4: "gateway_scan_line c g3 = Inr g4" "foldR gateway_scan_line rest g4 = Inr gs"
      using g Cons by (auto simp: result_simps)
    note cl = closing_line [OF s3(2) c(1) g4(1)]
    obtain s4 where s4: "stage_scan_line s c s3 = Inr s4" "ss_stopped s4" "ss_config s4 = ss_config s3" using cl(1) by blast
    have out: "outside gs" "gc_partitions (gs_config gs) = gc_partitions (gs_config g4)"
      using outside_lines [OF cl(2) c(2) g4(2)] by simp_all
    then have "gs' = gs" using assms(3) by (simp add: finish_partition_if_valid_def outside_def)
    then show ?thesis using head Cons s4 cl(3) out stage_stopped by simp
  qed
qed

lemma loaders_agree:
  assumes "one_stage_list (getlines text)" "load_gateway_config_from_file (Some text) path = Inr gc"
    and "distinct (map stage_id (gc_partitions gc))" "p \<in> set (gc_partitions gc)"
  shows "\<exists>sc. load_stage_config_from_file (Some text) path' (stage_id p) = Inr sc \<and>
    sc_stage_id sc = stage_id p \<and> same_entry p sc"
proof -
  let ?s = "stage_id p"
  obtain gs gs' where g: "foldR gateway_scan_line (getlines text) (initial_gateway_scan path) = Inr gs"
    and f: "finish_partition_if_valid gs = Inr gs'" and gc: "gc_partitions gc = gc_partitions (gs_config gs')"
    using assms(2) by (auto simp: load_gateway_config_from_file_def result_simps Let_def split: if_splits)
  obtain ss where ss: "foldR (stage_scan_line ?s) (getlines text) (initial_stage_scan path' ?s) = Inr ss"
    and load: "loaded_as ?s (ss_config (initial_stage_scan path' ?s)) (gc_partitions gc) (ss_config ss)"
    using scans_agree [OF assms(1) g f] gc by metis
  have "filter (\<lambda>q. stage_id q = ?s) (gc_partitions gc) = [p]"
    by (rule filter_distinct_key [OF assms(3,4)])
  then have same: "same_entry p (ss_config ss)" using load by (simp add: loaded_as_def)
  have "okR all_named (foldR gateway_scan_line (getlines text) (initial_gateway_scan path))"
    by (rule okR_fold [OF _ okR_line]) (simp_all add: all_named_def initial_gateway_scan_def default_gateway_config_def)
  then have "all_named gs'" using g f okR_finish by (auto simp: okR_def)
  then have "service_name p \<noteq> []" using assms(4) gc by (simp add: all_named_def list_all_iff)
  then have "sc_service_name (ss_config ss) \<noteq> []" using same by (simp add: same_entry_def)
  then show ?thesis
    using ss same keeps_stage_id [OF ss]
    by (simp add: load_stage_config_from_file_def initial_stage_scan_def)
qed

text \<open>C15. The gateway and the stages agree on the stage map. For every file whose stage list is one
  section, and whatever else it holds: when the gateway loads it and no stage id occurs twice, every
  stage finds its entry in it, and the names, files, URL, layers and owned components it loads are
  those the gateway has validated in its partition graph.\<close>

theorem stage_loads_gateway_partition:
  assumes "one_stage_list (getlines text)" "load_gateway_config_from_file (Some text) path = Inr gc"
    and "distinct (map stage_id (gc_partitions gc))" "p \<in> set (gc_partitions gc)"
  shows "\<exists>sc. load_stage_config_from_file (Some text) stage_path (stage_id p) = Inr sc \<and>
    sc_stage_id sc = stage_id p \<and> same_entry p sc"
  by (rule loaders_agree [OF assms])

section \<open>Samples\<close>

definition file_text :: "string list \<Rightarrow> string" where
  "file_text ls = concat (map (\<lambda>l. l @ [CHR 0x0A]) ls)"

definition sample_entry :: "string list" where
  "sample_entry = [''- stage_id: 1'', ''  service_name: a'', ''  components:'', ''    embedding: true'',
     ''    norm: true'', ''    lm_head: true'', ''    layers:'', ''    - 0'']"

definition sample_map :: string where
  "sample_map = file_text ([''num_layers: 1'', ''inference_stages:''] @ sample_entry @ [''topology:''])"

definition sample_partition :: partition_node where
  "sample_partition = empty_partition_node\<lparr>stage_id := 1, partition_id := ''partition-1'', service_name := ''a'',
     components := \<lparr>embedding = True, layers = [0], norm = True, lm_head = True\<rparr>\<rparr>"

lemma sample_map_lines:
  "one_stage_list (getlines sample_map)"
  "case load_gateway_config_from_file (Some sample_map) ''m'' of Inr gc \<Rightarrow> gc_partitions gc = [sample_partition] | Inl _ \<Rightarrow> False"
  by code_simp+

theorem stage_loads_gateway_partition_witness:
  "\<exists>sc. load_stage_config_from_file (Some sample_map) ''m'' 1 = Inr sc \<and> same_entry sample_partition sc"
proof -
  obtain gc where gc: "load_gateway_config_from_file (Some sample_map) ''m'' = Inr gc" "gc_partitions gc = [sample_partition]"
    using sample_map_lines(2) by (auto split: sum.splits)
  have "distinct (map stage_id (gc_partitions gc))" "sample_partition \<in> set (gc_partitions gc)" "stage_id sample_partition = 1"
    using gc(2) by (simp_all add: sample_partition_def)
  from stage_loads_gateway_partition [OF sample_map_lines(1) gc(1) this(1,2), where stage_path = "''m''"] this(3)
  show ?thesis by auto
qed

text \<open>A file in which the gateway's own section follows the stage list loses its last partition:
  \<open>inference_gateway:\<close> clears \<open>inside_current_partition\<close> without finishing the entry being read, so the
  gateway accepts the graph without a stage that loads its configuration from the same file.\<close>

theorem gateway_section_drops_last_partition:
  "(case load_gateway_config_from_file
       (Some (file_text ([''num_layers: 1'', ''inference_stages:''] @ sample_entry @
          [''- stage_id: 2'', ''  service_name: b'', ''inference_gateway:'', ''  port: 80'']))) ''m'' of
     Inr gc \<Rightarrow> map stage_id (gc_partitions gc) = [1] | Inl _ \<Rightarrow> False) \<and>
   (case load_stage_config_from_file
       (Some (file_text ([''num_layers: 1'', ''inference_stages:''] @ sample_entry @
          [''- stage_id: 2'', ''  service_name: b'', ''inference_gateway:'', ''  port: 80'']))) ''m'' 2 of
     Inr sc \<Rightarrow> sc_service_name sc = ''b'' | Inl _ \<Rightarrow> False)"
  by code_simp

end
