(* ===== verification/Http.thy ===== *)
theory Http
  imports Yaml_Lines
begin

text \<open>
  HTTP/1.1 as the stage server speaks it (\<open>dli_common_cpp/src/http.cpp\<close>): parsing a request head,
  reading one request off a connection, writing a response.

  A connection is the list of the results its next calls of \<open>recv\<close> will have; a reader that needs
  more than the list holds waits (\<open>None\<close>). Header text and bodies are bytes.
\<close>

section \<open>Messages\<close>

record http_request =
  hr_method :: string
  hr_path :: string
  hr_headers :: "string \<Rightarrow> string option"
  hr_body :: "byte list"

record http_response =
  hp_status_code :: int
  hp_reason :: string
  hp_content_type :: string
  hp_body :: "byte list"
  hp_keep_alive :: bool

definition MAX_HTTP_HEADER_BYTES :: nat where "MAX_HTTP_HEADER_BYTES = 64 * 1024"
definition MAX_HTTP_BODY_BYTES :: nat where "MAX_HTTP_BODY_BYTES = 512 * 1024 * 1024"

section \<open>Head of a message\<close>

definition lower_char :: "char \<Rightarrow> char" where
  "lower_char c = (if 65 \<le> (of_char c :: nat) \<and> (of_char c :: nat) \<le> 90 then char_of (of_char c + 32 :: nat) else c)"

definition lower_copy :: "string \<Rightarrow> string" where
  "lower_copy value = map lower_char value"

definition trim_white :: "string \<Rightarrow> string" where
  "trim_white value = drop_trailing is_space (dropWhile is_space value)"

definition carriage_return :: char where "carriage_return = CHR 0x0D"

definition header_terminator :: "byte list" where
  "header_terminator = bytes_of_string [CHR 0x0D, CHR 0x0A, CHR 0x0D, CHR 0x0A]"

definition find_header_end :: "byte list \<Rightarrow> nat option" where
  "find_header_end buffer = find_sub header_terminator buffer"

text \<open>\<open>if (!line.empty() && line.back() == '\r') line.pop_back();\<close>\<close>

definition pop_return :: "string \<Rightarrow> string" where
  "pop_return line = (if line \<noteq> [] \<and> last line = carriage_return then butlast line else line)"

text \<open>\<open>stream >> word\<close>: the word, empty when there is none, and what is left.\<close>

definition next_word :: "string \<Rightarrow> string \<times> string" where
  "next_word s = (let r = dropWhile is_space s
     in (takeWhile (\<lambda>c. \<not> is_space c) r, dropWhile (\<lambda>c. \<not> is_space c) r))"

fun parse_header_lines :: "string list \<Rightarrow> (string \<Rightarrow> string option) \<Rightarrow> (string \<Rightarrow> string option)" where
  "parse_header_lines [] headers = headers"
| "parse_header_lines (line # lines) headers =
     (let line = pop_return line
      in if line = [] then headers
         else if CHR '':'' \<notin> set line then parse_header_lines lines headers
         else let key = lower_copy (trim_white (takeWhile (\<lambda>c. c \<noteq> CHR '':'') line));
                  value = trim_white (tl (dropWhile (\<lambda>c. c \<noteq> CHR '':'') line))
              in parse_header_lines lines (headers(key \<mapsto> value)))"

definition parse_http_request :: "byte list \<Rightarrow> byte list \<Rightarrow> http_request result" where
  "parse_http_request header_bytes body =
     (case getlines (string_of_bytes header_bytes) of
        [] \<Rightarrow> Inl ''missing HTTP request line''
      | line # lines \<Rightarrow>
          (let (method, r) = next_word (pop_return line); (path, r) = next_word r; (version, r) = next_word r
           in if method = [] \<or> path = [] \<or> version = [] then Inl ''malformed HTTP request line''
              else Inr \<lparr>hr_method = method, hr_path = path,
                        hr_headers = parse_header_lines lines Map.empty, hr_body = body\<rparr>))"

text \<open>\<open>std::stoull(text, &parsed)\<close>: the value and the rest; \<open>None\<close> when it throws.\<close>

definition stoull_prefix :: "string \<Rightarrow> (nat \<times> string) option" where
  "stoull_prefix s =
     (let r = skip_ws s;
          neg = (r \<noteq> [] \<and> hd r = CHR ''-'');
          r = (if r \<noteq> [] \<and> (hd r = CHR ''-'' \<or> hd r = CHR ''+'') then tl r else r);
          ds = takeWhile is_digit r; n = read_nat ds
      in if ds = [] \<or> n \<ge> 2 ^ 64 then None
         else Some (if neg then (2 ^ 64 - n) mod 2 ^ 64 else n, dropWhile is_digit r))"

text \<open>The messages of the inner exceptions are lost: the function catches them and throws its own.\<close>

definition parse_content_length :: "(string \<Rightarrow> string option) \<Rightarrow> nat result" where
  "parse_content_length headers =
     (case headers ''content-length'' of
        None \<Rightarrow> Inr 0
      | Some v \<Rightarrow>
          (case stoull_prefix v of
             None \<Rightarrow> Inl ''invalid Content-Length''
           | Some (value, rest) \<Rightarrow>
               if rest \<noteq> [] \<or> value > MAX_HTTP_BODY_BYTES then Inl ''invalid Content-Length'' else Inr value))"

section \<open>Reading a message\<close>

text \<open>What one call of \<open>recv\<close> returns: bytes, end of stream, an interrupted call, another error.\<close>

datatype recv_result = Received "byte list" | Closed | Interrupted | Failed string

text \<open>The request reader and the response reader are two copies of one loop; they differ in the
  parser, in the texts of their exceptions and in what they do at the end of the stream.\<close>

record 'm message_reader =
  mr_parse :: "byte list \<Rightarrow> byte list \<Rightarrow> 'm result"
  mr_content_length :: "'m \<Rightarrow> nat result"
  mr_recv_error :: string
  mr_headers_too_long :: string
  mr_closed :: "byte list \<Rightarrow> (nat \<times> nat) option \<Rightarrow> 'm result"

text \<open>The loop: the bytes so far and, once the head is complete, where it ends and how long the body
  is. \<open>None\<close>: the call is still waiting when the list ends.\<close>

fun read_message ::
    "'m message_reader \<Rightarrow> byte list \<Rightarrow> (nat \<times> nat) option \<Rightarrow> recv_result list \<Rightarrow> ('m result \<times> recv_result list) option" where
  "read_message R buffer st [] = None"
| "read_message R buffer st (Interrupted # rs) = read_message R buffer st rs"
| "read_message R buffer st (Failed err # rs) = Some (Inl (mr_recv_error R @ err), rs)"
| "read_message R buffer st (Closed # rs) = Some (mr_closed R buffer st, rs)"
| "read_message R buffer st (Received bs # rs) =
     (let buffer = buffer @ bs
      in case st of
           None \<Rightarrow>
             (case find_header_end buffer of
                None \<Rightarrow>
                  if length buffer > MAX_HTTP_HEADER_BYTES then Some (Inl (mr_headers_too_long R), rs)
                  else read_message R buffer None rs
              | Some header_end \<Rightarrow>
                  (let header_bytes = take header_end buffer; partial_body = drop (header_end + 4) buffer
                   in case bindR (mr_parse R header_bytes partial_body) (mr_content_length R) of
                        Inl e \<Rightarrow> Some (Inl e, rs)
                      | Inr expected \<Rightarrow>
                          if length partial_body \<ge> expected
                          then Some (mr_parse R header_bytes (take expected partial_body), rs)
                          else read_message R buffer (Some (header_end, expected)) rs))
         | Some (header_end, expected) \<Rightarrow>
             if length buffer - (header_end + 4) \<ge> expected
             then Some (mr_parse R (take header_end buffer) (take expected (drop (header_end + 4) buffer)), rs)
             else read_message R buffer st rs)"

definition request_reader :: "http_request message_reader" where
  "request_reader =
     \<lparr>mr_parse = parse_http_request,
      mr_content_length = (\<lambda>m. parse_content_length (hr_headers m)),
      mr_recv_error = ''recv failed: '',
      mr_headers_too_long = ''HTTP headers exceed maximum allowed size'',
      mr_closed = (\<lambda>_ _. Inl ''client closed connection before full request was received'')\<rparr>"

text \<open>\<open>read_http_request\<close>: bytes that follow the body in the same chunk are dropped with the buffer,
  because the buffer is local to the call.\<close>

definition read_http_request :: "recv_result list \<Rightarrow> (http_request result \<times> recv_result list) option" where
  "read_http_request rs = read_message request_reader [] None rs"

section \<open>Responses\<close>

definition request_wants_keep_alive :: "http_request \<Rightarrow> bool" where
  "request_wants_keep_alive r =
     (case hr_headers r ''connection'' of
        None \<Rightarrow> True
      | Some value \<Rightarrow> lower_copy (trim_white value) \<noteq> ''close'')"

definition crlf :: string where "crlf = [CHR 0x0D, CHR 0x0A]"

definition response_header_text :: "http_response \<Rightarrow> string" where
  "response_header_text r =
     ''HTTP/1.1 '' @ show_int (hp_status_code r) @ '' '' @ hp_reason r @ crlf @
     ''Content-Type: '' @ hp_content_type r @ crlf @
     ''Content-Length: '' @ show_nat (length (hp_body r)) @ crlf @
     ''Connection: '' @ (if hp_keep_alive r then ''keep-alive'' else ''close'') @ crlf @
     crlf"

text \<open>The bytes \<open>send_http_response\<close> hands to \<open>send\<close>, in order; a failing \<open>send\<close> is ignored.\<close>

definition send_http_response :: "http_response \<Rightarrow> byte list" where
  "send_http_response r = bytes_of_string (response_header_text r) @ hp_body r"

definition make_json_response :: "int \<Rightarrow> string \<Rightarrow> string \<Rightarrow> http_response" where
  "make_json_response status reason json =
     \<lparr>hp_status_code = status, hp_reason = reason, hp_content_type = ''application/json'',
      hp_body = bytes_of_string json, hp_keep_alive = False\<rparr>"

definition make_text_response :: "int \<Rightarrow> string \<Rightarrow> string \<Rightarrow> http_response" where
  "make_text_response status reason t =
     \<lparr>hp_status_code = status, hp_reason = reason, hp_content_type = ''text/plain; charset=utf-8'',
      hp_body = bytes_of_string t, hp_keep_alive = False\<rparr>"

definition make_binary_response :: "int \<Rightarrow> string \<Rightarrow> byte list \<Rightarrow> http_response" where
  "make_binary_response status reason body =
     \<lparr>hp_status_code = status, hp_reason = reason, hp_content_type = ''application/octet-stream'',
      hp_body = body, hp_keep_alive = False\<rparr>"

definition http_error_json :: "string \<Rightarrow> string" where
  "http_error_json error = ''{'' @ json_key ''ok'' @ ''false,'' @ json_key ''error'' @ json_str error @ ''}''"

end
