(* ===== verification/Http_Client.thy ===== *)
theory Http_Client
  imports Http
begin

text \<open>
  The HTTP client of the gateway and of the chained stages (\<open>dli_common_cpp/src/http_client.cpp\<close>):
  URLs, responses, one-shot posts and the client that keeps its connection.

  A link is one endpoint as the client sees it: its open connection, the results its next calls of
  \<open>connect_tcp\<close> will have, and, as a record of what was done, the requests handed to the kernel.
  \<open>SO_RCVTIMEO\<close> is set on every socket: a \<open>recv\<close> that has nothing to return fails.
\<close>

section \<open>URLs\<close>

record parsed_url =
  pu_host :: string
  pu_port :: int
  pu_path :: string

definition parse_http_url :: "string \<Rightarrow> parsed_url result" where
  "parse_http_url url =
     (if \<not> starts_with url ''http://'' then Inl (''only http:// URLs are supported: '' @ url)
      else let rest = drop (length ''http://'') url;
               host_port = takeWhile (\<lambda>c. c \<noteq> CHR ''/'') rest;
               path = (if CHR ''/'' \<notin> set rest then ''/'' else dropWhile (\<lambda>c. c \<noteq> CHR ''/'') rest);
               host = (if CHR '':'' \<notin> set host_port then host_port
                       else rev (tl (dropWhile (\<lambda>c. c \<noteq> CHR '':'') (rev host_port))));
               port_str = rev (takeWhile (\<lambda>c. c \<noteq> CHR '':'') (rev host_port))
      in bindR (if CHR '':'' \<notin> set host_port then Inr 80
                else case std_stoi port_str of
                       Inl _ \<Rightarrow> Inl (''invalid URL port: '' @ port_str) | Inr p \<Rightarrow> Inr p) (\<lambda>port.
         if host = [] then Inl (''URL host is empty: '' @ url)
         else if port \<le> 0 \<or> port > 65535 then Inl (''URL port out of range: '' @ show_int port)
         else Inr \<lparr>pu_host = host, pu_port = port, pu_path = path\<rparr>))"

section \<open>Responses\<close>

record client_response =
  cr_status_code :: int
  cr_reason :: string
  cr_headers :: "string \<Rightarrow> string option"
  cr_body :: "byte list"

text \<open>\<open>stream >> status\<close> on an \<open>int\<close>: the value and, when the extraction did not fail, what is left of
  the line for \<open>std::getline\<close>.\<close>

definition stream_int :: "string \<Rightarrow> int \<times> string" where
  "stream_int s =
     (let r = dropWhile is_space s;
          neg = (r \<noteq> [] \<and> hd r = CHR ''-'');
          r = (if r \<noteq> [] \<and> (hd r = CHR ''-'' \<or> hd r = CHR ''+'') then tl r else r);
          ds = takeWhile is_digit r;
          i = (if neg then - int (read_nat ds) else int (read_nat ds))
      in if ds = [] then (0, [])
         else if i < - (2 ^ 31) then (- (2 ^ 31), [])
         else if i \<ge> 2 ^ 31 then (2 ^ 31 - 1, [])
         else (i, dropWhile is_digit r))"

definition parse_http_response :: "byte list \<Rightarrow> byte list \<Rightarrow> client_response result" where
  "parse_http_response header_bytes body =
     (case getlines (string_of_bytes header_bytes) of
        [] \<Rightarrow> Inl ''missing HTTP response status line''
      | line # lines \<Rightarrow>
          (let (version, r) = next_word (pop_return line); (status, r) = stream_int r
           in if version = [] \<or> status \<le> 0 then Inl ''malformed HTTP response status line''
              else Inr \<lparr>cr_status_code = status, cr_reason = trim_white r,
                        cr_headers = parse_header_lines lines Map.empty, cr_body = body\<rparr>))"

definition client_content_length :: "(string \<Rightarrow> string option) \<Rightarrow> nat result" where
  "client_content_length headers =
     (case headers ''content-length'' of
        None \<Rightarrow> Inr 0
      | Some v \<Rightarrow>
          (case stoull_prefix v of
             None \<Rightarrow> Inl ''invalid Content-Length in HTTP response''
           | Some (value, rest) \<Rightarrow>
               if rest \<noteq> [] \<or> value > MAX_HTTP_BODY_BYTES
               then Inl ''invalid Content-Length in HTTP response'' else Inr value))"

text \<open>A stream that ends inside the body: the response is returned with the bytes that came.\<close>

definition response_reader :: "client_response message_reader" where
  "response_reader =
     \<lparr>mr_parse = parse_http_response,
      mr_content_length = (\<lambda>m. client_content_length (cr_headers m)),
      mr_recv_error = ''recv failed while reading HTTP response: '',
      mr_headers_too_long = ''HTTP response headers exceed maximum allowed size'',
      mr_closed = (\<lambda>buffer st. case st of
         None \<Rightarrow> Inl ''connection closed before HTTP response header was received''
       | Some (header_end, _) \<Rightarrow> parse_http_response (take header_end buffer) (drop (header_end + 4) buffer))\<rparr>"

text \<open>What a timed-out \<open>recv\<close> reports.\<close>

definition recv_timeout :: string where "recv_timeout = ''Resource temporarily unavailable''"

definition read_http_response :: "recv_result list \<Rightarrow> client_response result \<times> recv_result list" where
  "read_http_response rs =
     (case read_message response_reader [] None rs of
        Some r \<Rightarrow> r
      | None \<Rightarrow> (Inl (mr_recv_error response_reader @ recv_timeout), []))"

section \<open>Posting\<close>

definition post_header_text :: "parsed_url \<Rightarrow> string \<Rightarrow> nat \<Rightarrow> string" where
  "post_header_text url connection n =
     ''POST '' @ pu_path url @ '' HTTP/1.1'' @ crlf @
     ''Host: '' @ pu_host url @ '':'' @ show_int (pu_port url) @ crlf @
     ''Content-Type: application/octet-stream'' @ crlf @
     ''Content-Length: '' @ show_nat n @ crlf @
     ''Connection: '' @ connection @ crlf @
     crlf"

definition post_request_bytes :: "parsed_url \<Rightarrow> string \<Rightarrow> byte list \<Rightarrow> byte list" where
  "post_request_bytes url connection body = bytes_of_string (post_header_text url connection (length body)) @ body"

text \<open>An open connection: whether each next \<open>send_all\<close> succeeds (it does when the list is exhausted)
  and what \<open>recv\<close> will return.\<close>

record connection =
  cn_sends :: "bool list"
  cn_recvs :: "recv_result list"

record link =
  ln_open :: "connection option"
  ln_connects :: "(string + connection) list"
  ln_sent :: "byte list list"

definition connect_tcp :: "parsed_url \<Rightarrow> (link, connection) action" where
  "connect_tcp url = (\<lambda>l. case ln_connects l of
     [] \<Rightarrow> (Inl (''failed to connect to '' @ pu_host url @ '':'' @ show_int (pu_port url)), l)
   | Inl e # cs \<Rightarrow> (Inl e, l\<lparr>ln_connects := cs\<rparr>)
   | Inr c # cs \<Rightarrow> (Inr c, l\<lparr>ln_connects := cs\<rparr>))"

definition ensure_connected :: "parsed_url \<Rightarrow> (link, unit) action" where
  "ensure_connected url = bindA getA (\<lambda>l.
     if ln_open l \<noteq> None then retA ()
     else bindA (connect_tcp url) (\<lambda>c. modifyA (\<lambda>l. l\<lparr>ln_open := Some c\<rparr>)))"

definition close_connection :: "(link, unit) action" where
  "close_connection = modifyA (\<lambda>l. l\<lparr>ln_open := None\<rparr>)"

definition send_all :: "byte list \<Rightarrow> (link, bool) action" where
  "send_all bytes = (\<lambda>l. case ln_open l of
     None \<Rightarrow> (Inr False, l)
   | Some c \<Rightarrow>
       let ok = (cn_sends c = [] \<or> hd (cn_sends c))
       in (Inr ok, l\<lparr>ln_open := Some (c\<lparr>cn_sends := tl (cn_sends c)\<rparr>),
                     ln_sent := (if ok then ln_sent l @ [bytes] else ln_sent l)\<rparr>))"

definition receive :: "(link, client_response) action" where
  "receive = (\<lambda>l. case ln_open l of
     None \<Rightarrow> (Inl (mr_recv_error response_reader), l)
   | Some c \<Rightarrow> (case read_http_response (cn_recvs c) of
       (r, rest) \<Rightarrow> (r, l\<lparr>ln_open := Some (c\<lparr>cn_recvs := rest\<rparr>)\<rparr>)))"

definition post_binary_once :: "parsed_url \<Rightarrow> byte list \<Rightarrow> (link, client_response) action" where
  "post_binary_once url body =
     bindA (ensure_connected url) (\<lambda>_.
     bindA (send_all (post_request_bytes url ''keep-alive'' body)) (\<lambda>sent.
     bindA (checkA sent ''failed to send HTTP keep-alive request'') (\<lambda>_.
     bindA receive (\<lambda>response.
     bindA (case cr_headers response ''connection'' of
              None \<Rightarrow> retA ()
            | Some v \<Rightarrow> if lower_copy (trim_white v) = ''close'' then close_connection else retA ()) (\<lambda>_.
     retA response)))))"

text \<open>\<open>try { return post_binary_once(body); } catch (...) { close_connection(); } return
  post_binary_once(body);\<close>: the second attempt has no handler.\<close>

definition post_binary :: "parsed_url \<Rightarrow> byte list \<Rightarrow> (link, client_response) action" where
  "post_binary url body = (\<lambda>l. case post_binary_once url body l of
     (Inr response, l') \<Rightarrow> (Inr response, l')
   | (Inl _, l') \<Rightarrow> bindA close_connection (\<lambda>_. post_binary_once url body) l')"

text \<open>\<open>http_post_binary\<close>: a connection of its own, closed on either exit.\<close>

definition http_post_binary :: "string \<Rightarrow> byte list \<Rightarrow> (link, client_response) action" where
  "http_post_binary url body =
     bindA (liftA (parse_http_url url)) (\<lambda>parsed.
     bindA (connect_tcp parsed) (\<lambda>c l.
       case bindA (modifyA (\<lambda>l. l\<lparr>ln_open := Some c\<rparr>)) (\<lambda>_.
            bindA (send_all (post_request_bytes parsed ''close'' body)) (\<lambda>sent.
            bindA (checkA sent ''failed to send HTTP request'') (\<lambda>_. receive))) l of
         (r, l') \<Rightarrow> (r, l'\<lparr>ln_open := None\<rparr>)))"

end
