(* ===== verification/Http_Wire.thy ===== *)
theory Http_Wire
  imports Http_Client Dli2_Protocol
begin

text \<open>
  What the two ends of a connection owe each other: the bytes one side writes, cut into whatever
  chunks \<open>recv\<close> returns, are read by the other side as the message that was meant. The contract is a
  locale over a reader of messages, interpreted once for requests (client to server) and once for
  responses (server to client).
\<close>

section \<open>Readers do not depend on the chunks\<close>

lemma find_sub_prefix:
  assumes "find_sub pat (p @ q) = Some h" "length p < h + length pat"
  shows "find_sub pat p = None"
  using assms
proof (induction p arbitrary: h)
  case Nil
  then show ?case by (cases pat; cases q) auto
next
  case (Cons x p)
  have no_prefix: "\<not> is_prefix pat (x # p)"
  proof
    assume p: "is_prefix pat (x # p)"
    then obtain zs where "x # p = pat @ zs" by (auto simp: is_prefix_iff)
    then have "is_prefix pat (x # p @ q)" "length pat \<le> length (x # p)"
      by (auto simp: is_prefix_iff append_eq_append_conv2 simp flip: append_Cons)
    then have "h = 0" using Cons.prems(1) by simp
    then show False using Cons.prems(2) \<open>length pat \<le> length (x # p)\<close> by simp
  qed
  show ?case
  proof (cases "is_prefix pat (x # p @ q)")
    case True
    then have "length (x # p) < length pat" using Cons.prems by simp
    then have "length p < 0 + length pat" by simp
    moreover have "find_sub pat p = None"
    proof (rule ccontr)
      assume "find_sub pat p \<noteq> None"
      then obtain i where "find_sub pat p = Some i" by blast
      from find_sub_Some [OF this] obtain r where "p = take i p @ pat @ r" by blast
      then have "length p = length (take i p) + length pat + length r" by (metis add.assoc length_append)
      then show False using \<open>length p < 0 + length pat\<close> by simp
    qed
    ultimately show ?thesis using no_prefix by simp
  next
    case False
    then obtain h' where "find_sub pat (p @ q) = Some h'" "h = Suc h'" using Cons.prems(1) by auto
    then show ?thesis using Cons.IH [of h'] Cons.prems(2) no_prefix by simp
  qed
qed

text \<open>A kind of message: its head without the terminator, its body, and what the reader makes of it.\<close>

locale http_wire =
  fixes R :: "'m message_reader"
    and ok :: "'a \<Rightarrow> bool"
    and head :: "'a \<Rightarrow> byte list"
    and body :: "'a \<Rightarrow> byte list"
    and received :: "'a \<Rightarrow> byte list \<Rightarrow> 'm"
  assumes parses: "ok a \<Longrightarrow> mr_parse R (head a) bs = Inr (received a bs)"
    and announced: "ok a \<Longrightarrow> mr_content_length R (received a bs) = Inr (length (body a))"
    and one_terminator: "ok a \<Longrightarrow> find_header_end (head a @ header_terminator @ bs) = Some (length (head a))"
    and short_head: "ok a \<Longrightarrow> length (head a) + 4 \<le> MAX_HTTP_HEADER_BYTES"
begin

definition wire :: "'a \<Rightarrow> byte list" where
  "wire a = head a @ header_terminator @ body a"

lemma length_terminator [simp]: "length header_terminator = 4"
  by (simp add: header_terminator_def)

text \<open>Once the head is known, chunks are collected until the body is complete.\<close>

lemma read_body:
  assumes "ok a" "wire a = buffer @ concat cs" "cs \<noteq> []" "[] \<notin> set cs" "length (head a) + 4 \<le> length buffer"
  shows "read_message R buffer (Some (length (head a), length (body a))) (map Received cs @ rest) =
    Some (Inr (received a (body a)), rest)"
  using assms(2-5)
proof (induction cs arbitrary: buffer)
  case (Cons c cs)
  have buf: "wire a = (buffer @ c) @ concat cs" using Cons.prems(1) by simp
  show ?case
  proof (cases "cs = []")
    case True
    then have "buffer @ c = wire a" using buf by simp
    then show ?thesis using True by (simp add: wire_def parses [OF assms(1)])
  next
    case False
    then obtain d ds where ds: "cs = d # ds" "0 < length d" using Cons.prems(3) by (cases cs) auto
    have "length (wire a) = length (buffer @ c) + length (concat cs)" using buf by simp
    then have "\<not> length (body a) \<le> length (buffer @ c) - (length (head a) + 4)"
      using ds(2) Cons.prems(4) unfolding ds(1) by (cases d) (simp_all add: wire_def)
    then show ?thesis
      using Cons.IH [OF buf False] Cons.prems(3,4) by simp
  qed
qed simp

lemma read_head:
  assumes "ok a" "wire a = buffer @ concat cs" "cs \<noteq> []" "[] \<notin> set cs" "length buffer < length (head a) + 4"
  shows "read_message R buffer None (map Received cs @ rest) = Some (Inr (received a (body a)), rest)"
  using assms(2-5)
proof (induction cs arbitrary: buffer)
  case (Cons c cs)
  have buf: "wire a = (buffer @ c) @ concat cs" using Cons.prems(1) by simp
  have full: "find_header_end (wire a) = Some (length (head a))"
    using one_terminator [OF assms(1)] by (simp add: wire_def)
  show ?case
  proof (cases "length (buffer @ c) < length (head a) + 4")
    case True
    have "find_header_end (buffer @ c) = None"
      using find_sub_prefix [of header_terminator "buffer @ c" "concat cs" "length (head a)"] full True buf
      by (simp add: find_header_end_def)
    moreover have "length (buffer @ c) \<le> MAX_HTTP_HEADER_BYTES"
      using True short_head [OF assms(1)] by simp
    moreover have "cs \<noteq> []"
    proof
      assume "cs = []"
      then have "length (wire a) = length (buffer @ c)" using buf by simp
      then show False using True by (simp add: wire_def)
    qed
    ultimately show ?thesis using Cons.IH [OF buf] Cons.prems(3) True by simp
  next
    case False
    define b where "b = drop (length (head a) + 4) (buffer @ c)"
    have w: "wire a = (head a @ header_terminator) @ body a" by (simp add: wire_def)
    have split: "buffer @ c = head a @ header_terminator @ b" "body a = b @ concat cs"
    proof -
      have "take (length (head a) + 4) (buffer @ c) = take (length (head a) + 4) (wire a)"
        using False by (subst buf) simp
      also have "\<dots> = head a @ header_terminator" by (simp add: w)
      finally show *: "buffer @ c = head a @ header_terminator @ b"
        by (metis append.assoc append_take_drop_id b_def)
      show "body a = b @ concat cs" using buf by (simp add: w *)
    qed
    have step: "read_message R buffer None (map Received (c # cs) @ rest) =
        (if length (body a) \<le> length b then Some (Inr (received a (take (length (body a)) b)), map Received cs @ rest)
         else read_message R (buffer @ c) (Some (length (head a), length (body a))) (map Received cs @ rest))"
      using one_terminator [OF assms(1)] parses [OF assms(1)] announced [OF assms(1)]
      by (simp add: split(1) Let_def)
    show ?thesis
    proof (cases "cs = []")
      case True
      then show ?thesis using step split(2) by simp
    next
      case ne: False
      then obtain d ds where "cs = d # ds" "d \<noteq> []" using Cons.prems(3) by (cases cs) auto
      then have "\<not> length (body a) \<le> length b" using split(2) by simp
      then show ?thesis
        using step read_body [OF assms(1) buf ne] Cons.prems(3) False by simp
    qed
  qed
qed simp

lemma read_wire:
  assumes "ok a" "concat cs = wire a" "[] \<notin> set cs"
  shows "read_message R [] None (map Received cs @ rest) = Some (Inr (received a (body a)), rest)"
proof (rule read_head [OF assms(1)])
  show "cs \<noteq> []" using assms(2) by (auto simp: wire_def header_terminator_def bytes_of_string_def)
qed (use assms in simp_all)

end

section \<open>Heads as lines\<close>

definition clean_line :: "string \<Rightarrow> bool" where
  "clean_line l \<longleftrightarrow> l \<noteq> [] \<and> CHR 0x0D \<notin> set l \<and> CHR 0x0A \<notin> set l"

fun crlf_joined :: "string list \<Rightarrow> string" where
  "crlf_joined [] = []"
| "crlf_joined [l] = l"
| "crlf_joined (l # m # ls) = l @ crlf @ crlf_joined (m # ls)"

lemma find_sub_skip: "c \<notin> set l \<Longrightarrow> find_sub (c # p) (l @ s) = map_option ((+) (length l)) (find_sub (c # p) s)"
proof (induction l)
  case Nil
  show ?case by (cases "find_sub (c # p) s") simp_all
next
  case (Cons a l)
  then show ?case by (cases "find_sub (c # p) s") auto
qed

lemma joined_terminator:
  assumes "ls \<noteq> []" "list_all clean_line ls"
  shows "find_sub (crlf @ crlf) (crlf_joined ls @ crlf @ crlf @ xs) = Some (length (crlf_joined ls))"
  using assms
proof (induction ls rule: crlf_joined.induct)
  case (2 l)
  then show ?case using find_sub_skip [of "CHR 0x0D" l] by (simp add: clean_line_def crlf_def)
next
  case (3 l m ls)
  obtain d r where d: "m = d # r" "d \<noteq> CHR 0x0D" using 3 by (cases m) (auto simp: clean_line_def)
  obtain s where s: "crlf_joined (m # ls) = d # s" using d by (cases ls) auto
  have "find_sub (crlf @ crlf) (crlf @ crlf_joined (m # ls) @ crlf @ crlf @ xs) =
      Some (2 + length (crlf_joined (m # ls)))"
    using 3 d(2) by (simp add: crlf_def s)
  then show ?case using 3 find_sub_skip [of "CHR 0x0D" l] by (simp add: clean_line_def crlf_def)
qed simp

lemma find_sub_map: "inj f \<Longrightarrow> find_sub (map f p) (map f s) = find_sub p s"
proof -
  assume f: "inj f"
  have pre: "is_prefix (map f p) (map f s) = is_prefix p s" for p s
    by (induction p s rule: is_prefix.induct) (auto simp: inj_eq [OF f])
  show ?thesis
  proof (induction s)
    case Nil
    then show ?case by (cases p) simp_all
  next
    case (Cons a s)
    then show ?case using pre [of p "a # s"] by simp
  qed
qed

lemma header_end_of_lines:
  assumes "ls \<noteq> []" "list_all clean_line ls"
  shows "find_header_end (bytes_of_string (crlf_joined ls) @ header_terminator @ bs) = Some (length (crlf_joined ls))"
proof -
  have inj: "inj byte_of_char" by (metis char_of_byte_of_char injI)
  have w: "bytes_of_string (crlf_joined ls) @ header_terminator @ bs =
      map byte_of_char (crlf_joined ls @ crlf @ crlf @ string_of_bytes bs)"
    by (simp add: bytes_of_string_def header_terminator_def crlf_def string_of_bytes_def comp_def)
  have h: "header_terminator = map byte_of_char (crlf @ crlf)"
    by (simp add: bytes_of_string_def header_terminator_def crlf_def)
  show ?thesis
    unfolding find_header_end_def w unfolding h find_sub_map [OF inj] joined_terminator [OF assms] ..
qed

lemma split_at_char:
  "c \<notin> set l \<Longrightarrow> takeWhile (\<lambda>x. x \<noteq> c) (l @ c # s) = l"
  "c \<notin> set l \<Longrightarrow> dropWhile (\<lambda>x. x \<noteq> c) (l @ c # s) = c # s"
  by (induction l) auto

lemma getlines_line: "CHR 0x0A \<notin> set l \<Longrightarrow> getlines (l @ CHR 0x0A # s) = l # getlines s"
  by (subst getlines.simps) (simp add: split_at_char)

lemma getlines_last: "\<lbrakk>CHR 0x0A \<notin> set l; l \<noteq> []\<rbrakk> \<Longrightarrow> getlines l = [l]"
proof -
  assume a: "CHR 0x0A \<notin> set l" "l \<noteq> []"
  have w: "takeWhile (\<lambda>c. c \<noteq> CHR 0x0A) l = l" "dropWhile (\<lambda>c. c \<noteq> CHR 0x0A) l = []"
    using a(1) by (induction l) auto
  have "getlines l = takeWhile (\<lambda>c. c \<noteq> CHR 0x0A) l # getlines (tl (dropWhile (\<lambda>c. c \<noteq> CHR 0x0A) l))"
    using a(2) by (subst getlines.simps) (simp del: dropWhile_eq_Nil_conv)
  then show ?thesis unfolding w by (simp add: getlines.simps [of "[]"])
qed

text \<open>\<open>std::getline\<close> gives the lines of the head, all but the last with a carriage return that
  \<open>pop_return\<close> removes.\<close>

lemma pop_return_line [simp]: "clean_line l \<Longrightarrow> pop_return l = l" "pop_return (l @ [CHR 0x0D]) = l"
  by (auto simp: pop_return_def carriage_return_def clean_line_def dest: last_in_set)

lemma getlines_joined:
  assumes "list_all clean_line ls"
  shows "map pop_return (getlines (crlf_joined ls)) = ls"
  using assms
proof (induction ls rule: crlf_joined.induct)
  case (2 l)
  then have "getlines l = [l]" by (intro getlines_last) (simp_all add: clean_line_def)
  then show ?case using 2 by simp
next
  case (3 l m ls)
  have "getlines ((l @ [CHR 0x0D]) @ CHR 0x0A # crlf_joined (m # ls)) =
      (l @ [CHR 0x0D]) # getlines (crlf_joined (m # ls))"
    by (rule getlines_line) (use 3 in \<open>auto simp: clean_line_def\<close>)
  then show ?case using 3 by (simp add: crlf_def)
qed (simp add: getlines.simps [of "[]"])

lemma parse_header_lines_cong:
  "map pop_return xs = map pop_return ys \<Longrightarrow> parse_header_lines xs h = parse_header_lines ys h"
proof (induction ys arbitrary: xs h)
  case (Cons y ys)
  then obtain x xs' where x: "xs = x # xs'" "pop_return x = pop_return y" "map pop_return xs' = map pop_return ys"
    by (cases xs) auto
  show ?case using Cons.IH [OF x(3)] by (simp only: x(1,2) parse_header_lines.simps)
qed simp

text \<open>A header line \<open>key: value\<close> whose value has no white space at its ends.\<close>

definition trimmed :: "string \<Rightarrow> bool" where
  "trimmed v \<longleftrightarrow> v \<noteq> [] \<and> \<not> is_space (hd v) \<and> \<not> is_space (last v)"

lemma trim_white_trimmed: "trimmed v \<Longrightarrow> trim_white v = v \<and> trim_white (CHR '' '' # v) = v"
proof -
  assume v: "trimmed v"
  then have "dropWhile is_space v = v" by (cases v) (simp_all add: trimmed_def)
  moreover have "drop_trailing is_space v = v"
    using v by (cases v rule: rev_cases) (simp_all add: trimmed_def drop_trailing_def)
  ultimately show ?thesis by (simp add: trim_white_def is_space_def)
qed

lemma parse_header_line:
  assumes "clean_line (key @ '':'' @ CHR '' '' # v)" "trimmed v" "trimmed key" "CHR '':'' \<notin> set key"
  shows "parse_header_lines ((key @ '':'' @ CHR '' '' # v) # ls) h = parse_header_lines ls (h(lower_copy key \<mapsto> v))"
proof -
  show ?thesis
    using assms trim_white_trimmed by (simp add: Let_def split_at_char)
qed

lemma lines_parsed:
  assumes "list_all clean_line (l # ls)"
  obtains l' ls' where "getlines (crlf_joined (l # ls)) = l' # ls'" "pop_return l' = l"
    "\<And>h. parse_header_lines ls' h = parse_header_lines ls h"
proof -
  have "map pop_return (getlines (crlf_joined (l # ls))) = l # ls"
    by (rule getlines_joined [OF assms])
  then obtain l' ls' where s: "getlines (crlf_joined (l # ls)) = l' # ls'" "pop_return l' = l" "map pop_return ls' = ls"
    by auto
  have "map pop_return ls = ls"
    using assms by (induction ls) auto
  then have "parse_header_lines ls' h = parse_header_lines ls h" for h
    using s(3) by (intro parse_header_lines_cong) simp
  then show ?thesis using that s by blast
qed

section \<open>Words and numbers of a head\<close>

definition no_space :: "string \<Rightarrow> bool" where
  "no_space w \<longleftrightarrow> w \<noteq> [] \<and> list_all (\<lambda>c. \<not> is_space c) w"

lemma while_stops:
  assumes "list_all P w"
  shows "\<not> P c \<Longrightarrow> takeWhile P (w @ c # r) = w" "\<not> P c \<Longrightarrow> dropWhile P (w @ c # r) = c # r"
    "takeWhile P w = w" "dropWhile P w = []"
  using assms by (induction w) simp_all

lemma next_word_plain:
  assumes "no_space w"
  shows "next_word (w @ CHR '' '' # r) = (w, CHR '' '' # r)" "next_word (CHR '' '' # w @ CHR '' '' # r) = (w, CHR '' '' # r)"
    "next_word (CHR '' '' # w) = (w, [])"
proof -
  have d: "dropWhile is_space (w @ s) = w @ s" for s using assms by (cases w) (simp_all add: no_space_def)
  have "list_all (\<lambda>c. \<not> is_space c) w" using assms by (simp add: no_space_def)
  note w = while_stops [OF this]
  have s: "is_space CHR '' ''" by (simp add: is_space_def)
  show "next_word (w @ CHR '' '' # r) = (w, CHR '' '' # r)" "next_word (CHR '' '' # w @ CHR '' '' # r) = (w, CHR '' '' # r)"
    using d w(1,2) s by (simp_all add: next_word_def)
  show "next_word (CHR '' '' # w) = (w, [])" using d [of "[]"] w(3,4) s by (simp add: next_word_def)
qed

lemma no_space_props:
  assumes "no_space w"
  shows "trimmed w" "clean_line w"
proof -
  have all: "c \<in> set w \<Longrightarrow> \<not> is_space c" for c using assms by (simp add: no_space_def list_all_iff)
  have ne: "w \<noteq> []" using assms by (simp add: no_space_def)
  show "trimmed w" using ne all [of "hd w"] all [of "last w"] by (simp add: trimmed_def)
  show "clean_line w" using ne all [of "CHR 0x0D"] all [of "CHR 0x0A"] by (auto simp: clean_line_def is_space_def)
qed

lemma no_space_show_nat [simp]: "no_space (show_nat n)"
  by (auto simp: no_space_def list_all_iff dest: show_nat_digits digit_not_space)

lemma show_int_nat: "0 \<le> i \<Longrightarrow> show_int i = show_nat (nat i)"
  by (simp add: show_int_def)

lemma length_show_nat: "\<lbrakk>n < 10 ^ k; 0 < k\<rbrakk> \<Longrightarrow> length (show_nat n) \<le> k"
proof (induction k arbitrary: n)
  case (Suc k)
  show ?case
  proof (cases "n < 10")
    case False
    then have k: "0 < k" using Suc.prems by (cases k) simp_all
    have "n div 10 < 10 ^ k" using Suc.prems(1) by (simp add: div_less_iff_less_mult mult.commute)
    then show ?thesis using Suc.IH [OF _ k] False by (simp add: show_nat.simps [of n])
  qed (simp add: show_nat.simps)
qed simp

lemma takeWhile_digits:
  "takeWhile is_digit (show_nat n @ CHR '' '' # r) = show_nat n" "dropWhile is_digit (show_nat n @ CHR '' '' # r) = CHR '' '' # r"
  "takeWhile is_digit (show_nat n) = show_nat n" "dropWhile is_digit (show_nat n) = []"
proof -
  have "list_all is_digit (show_nat n)" using show_nat_digits by (auto simp: list_all_iff)
  note w = while_stops [OF this]
  have "\<not> is_digit CHR '' ''" by (simp add: is_digit_def)
  then show "takeWhile is_digit (show_nat n @ CHR '' '' # r) = show_nat n"
    "dropWhile is_digit (show_nat n @ CHR '' '' # r) = CHR '' '' # r"
    "takeWhile is_digit (show_nat n) = show_nat n" "dropWhile is_digit (show_nat n) = []"
    using w by simp_all
qed

lemma show_nat_head: "\<exists>c s. show_nat n = c # s \<and> is_digit c \<and> \<not> is_space c \<and> c \<noteq> CHR ''-'' \<and> c \<noteq> CHR ''+''"
proof -
  obtain c s where c: "show_nat n = c # s" by (cases "show_nat n") auto
  then have "is_digit c" using hd_show_nat_digit [of n] by simp
  then show ?thesis using c digit_not_space by (auto simp: is_digit_def)
qed

lemma number_head:
  fixes s :: string
  assumes "s = show_nat n @ r"
  shows "dropWhile is_space s = s" "s \<noteq> []" "hd s \<noteq> CHR ''-''" "hd s \<noteq> CHR ''+''"
  using show_nat_head [of n] assms by auto

lemma stoull_show_nat:
  assumes "n < 2 ^ 64"
  shows "stoull_prefix (show_nat n) = Some (n, [])"
  using number_head [of "show_nat n" n "[]"] takeWhile_digits(3,4) [of n] assms
  by (simp add: stoull_prefix_def skip_ws_def Let_def del: takeWhile_eq_all_conv dropWhile_eq_Nil_conv)

lemma stream_int_show_nat:
  assumes "n < 2 ^ 31"
  shows "stream_int (CHR '' '' # show_nat n @ CHR '' '' # r) = (int n, CHR '' '' # r)"
  using number_head [OF refl, of n "CHR '' '' # r"] takeWhile_digits(1,2) [of n r] assms
  by (simp add: stream_int_def Let_def is_space_def)

section \<open>Requests: what the client posts, the server reads\<close>

definition post_lines :: "parsed_url \<Rightarrow> string \<Rightarrow> nat \<Rightarrow> string list" where
  "post_lines url connection n =
     [''POST '' @ pu_path url @ '' HTTP/1.1'',
      ''Host'' @ '':'' @ CHR '' '' # pu_host url @ '':'' @ show_int (pu_port url),
      ''Content-Type'' @ '':'' @ CHR '' '' # ''application/octet-stream'',
      ''Content-Length'' @ '':'' @ CHR '' '' # show_nat n,
      ''Connection'' @ '':'' @ CHR '' '' # connection]"

lemma post_header_joined: "post_header_text url connection n = crlf_joined (post_lines url connection n) @ crlf @ crlf"
  by (simp add: post_header_text_def post_lines_def)

definition postable :: "parsed_url \<times> string \<times> byte list \<Rightarrow> bool" where
  "postable = (\<lambda>(url, connection, body). no_space (pu_path url) \<and> no_space (pu_host url) \<and>
     length (pu_path url) + length (pu_host url) \<le> 60000 \<and> 0 < pu_port url \<and> pu_port url \<le> 65535 \<and>
     connection \<in> {''keep-alive'', ''close''} \<and> length body \<le> MAX_HTTP_BODY_BYTES)"

definition posted_request :: "parsed_url \<times> string \<times> byte list \<Rightarrow> byte list \<Rightarrow> http_request" where
  "posted_request = (\<lambda>(url, connection, body) bs.
     \<lparr>hr_method = ''POST'', hr_path = pu_path url,
      hr_headers = [''host'' \<mapsto> pu_host url @ '':'' @ show_int (pu_port url),
                    ''content-type'' \<mapsto> ''application/octet-stream'',
                    ''content-length'' \<mapsto> show_nat (length body), ''connection'' \<mapsto> connection],
      hr_body = bs\<rparr>)"

lemma clean_append: "clean_line (a @ b) \<longleftrightarrow> (a = [] \<or> clean_line a) \<and> (b = [] \<or> clean_line b) \<and> a @ b \<noteq> []"
  by (auto simp: clean_line_def)

lemma trimmed_ends: "\<lbrakk>trimmed a; trimmed b\<rbrakk> \<Longrightarrow> trimmed (a @ m @ b)"
  by (auto simp: trimmed_def)

lemma clean_space: "clean_line [CHR '' '']" "clean_line (CHR '' '' # v) \<longleftrightarrow> v = [] \<or> clean_line v"
  by (auto simp: clean_line_def)

lemma lower_names:
  "lower_copy ''Host'' = ''host''" "lower_copy ''Content-Type'' = ''content-type''"
  "lower_copy ''Content-Length'' = ''content-length''" "lower_copy ''Connection'' = ''connection''"
  by code_simp+

lemma plain_names: "trimmed ''Host''" "trimmed ''Content-Type''" "trimmed ''Content-Length''" "trimmed ''Connection''"
  "trimmed ''application/octet-stream''" "trimmed ''keep-alive''" "trimmed ''close''"
  by code_simp+

lemma colon_free: "CHR '':'' \<notin> set ''Host''" "CHR '':'' \<notin> set ''Content-Type''" "CHR '':'' \<notin> set ''Content-Length''"
  "CHR '':'' \<notin> set ''Connection''"
  by simp_all

lemma clean_names:
  "clean_line ''Host''" "clean_line ''Content-Type''" "clean_line ''Content-Length''" "clean_line ''Connection''"
  "clean_line ''application/octet-stream''" "clean_line ''keep-alive''" "clean_line ''close''" "clean_line '':''"
  "clean_line ''POST ''" "clean_line '' HTTP/1.1''" "clean_line ''HTTP/1.1''" "clean_line ''HTTP/1.1 ''"
  by code_simp+

lemma port_text:
  assumes "0 < p" "p \<le> 65535"
  shows "no_space (show_int p)" "length (show_int p) \<le> 5"
  using assms length_show_nat [of "nat p" 5] by (simp_all add: show_int_nat)

lemma post_lines_clean:
  assumes "postable (url, connection, body)"
  shows "list_all clean_line (post_lines url connection n)"
proof -
  have "clean_line (pu_path url)" "clean_line (pu_host url)" "clean_line (show_int (pu_port url))" "clean_line (show_nat n)"
    "clean_line connection"
    using assms port_text clean_names by (auto simp: postable_def intro: no_space_props)
  then show ?thesis
    unfolding post_lines_def by (simp add: clean_append clean_space clean_names del: append_Cons)
qed

lemma post_parses:
  assumes "postable (url, connection, body)"
  shows "parse_http_request (bytes_of_string (crlf_joined (post_lines url connection (length body)))) bs =
    Inr (posted_request (url, connection, body) bs)"
proof -
  let ?port = "show_int (pu_port url)" and ?n = "show_nat (length body)"
  have ends: "trimmed (pu_host url)" "trimmed ?port"
    using assms port_text by (auto simp: postable_def intro: no_space_props)
  have parts: "no_space (pu_path url)" "trimmed (pu_host url @ '':'' @ ?port)" "trimmed ?n" "trimmed connection"
  proof -
    show "trimmed (pu_host url @ '':'' @ ?port)" by (rule trimmed_ends [OF ends])
  qed (use assms plain_names in \<open>auto simp: postable_def intro: no_space_props\<close>)
  note clean = post_lines_clean [OF assms, of "length body"]
  have clean_tl: "clean_line (''Host'' @ '':'' @ CHR '' '' # pu_host url @ '':'' @ ?port)"
      "clean_line (''Content-Type'' @ '':'' @ CHR '' '' # ''application/octet-stream'')"
      "clean_line (''Content-Length'' @ '':'' @ CHR '' '' # ?n)" "clean_line (''Connection'' @ '':'' @ CHR '' '' # connection)"
    using clean unfolding post_lines_def by simp_all
  have headers: "parse_header_lines (tl (post_lines url connection (length body))) Map.empty =
      hr_headers (posted_request (url, connection, body) bs)"
    unfolding post_lines_def list.sel posted_request_def
    by (simp only: parse_header_line [OF clean_tl(1) parts(2) plain_names(1) colon_free(1)]
      parse_header_line [OF clean_tl(2) plain_names(5) plain_names(2) colon_free(2)]
      parse_header_line [OF clean_tl(3) parts(3) plain_names(3) colon_free(3)]
      parse_header_line [OF clean_tl(4) parts(4) plain_names(4) colon_free(4)]
      parse_header_lines.simps(1) lower_names) simp
  obtain l' ls' where l: "getlines (crlf_joined (post_lines url connection (length body))) = l' # ls'"
      "pop_return l' = ''POST '' @ pu_path url @ '' HTTP/1.1''"
      "\<And>h. parse_header_lines ls' h = parse_header_lines (tl (post_lines url connection (length body))) h"
    using lines_parsed [where l = "hd (post_lines url connection (length body))"
        and ls = "tl (post_lines url connection (length body))"] clean
    unfolding post_lines_def list.sel by blast
  have words: "next_word (''POST '' @ pu_path url @ '' HTTP/1.1'') = (''POST'', CHR '' '' # pu_path url @ '' HTTP/1.1'')"
      "next_word (CHR '' '' # pu_path url @ '' HTTP/1.1'') = (pu_path url, '' HTTP/1.1'')"
      "next_word '' HTTP/1.1'' = (''HTTP/1.1'', [])"
    using next_word_plain(1) [of "''POST''"] next_word_plain(2) [OF parts(1), of "''HTTP/1.1''"]
      next_word_plain(3) [of "''HTTP/1.1''"] by (simp_all add: no_space_def is_space_def)
  have "pu_path url \<noteq> []" using parts(1) by (simp add: no_space_def)
  then show ?thesis
    unfolding parse_http_request_def string_of_bytes_of_string l(1)
    by (simp only: list.case l(2,3) words Let_def prod.case headers) (simp add: posted_request_def)
qed

interpretation request_wire: http_wire request_reader postable
  "\<lambda>(url, connection, body). bytes_of_string (crlf_joined (post_lines url connection (length body)))"
  "\<lambda>(url, connection, body). body" posted_request
proof
  fix a :: "parsed_url \<times> string \<times> byte list" and bs
  obtain url connection body where a: "a = (url, connection, body)" by (cases a)
  assume ok: "postable a"
  let ?head = "crlf_joined (post_lines url connection (length body))"
  show "mr_parse request_reader (case a of (url, connection, body) \<Rightarrow>
      bytes_of_string (crlf_joined (post_lines url connection (length body)))) bs = Inr (posted_request a bs)"
    using post_parses ok by (simp add: a request_reader_def)
  have "length body \<le> MAX_HTTP_BODY_BYTES" using ok by (simp add: a postable_def)
  then show "mr_content_length request_reader (posted_request a bs) = Inr (length (case a of (url, connection, body) \<Rightarrow> body))"
    by (simp add: a request_reader_def posted_request_def parse_content_length_def stoull_show_nat MAX_HTTP_BODY_BYTES_def)
  show "find_header_end ((case a of (url, connection, body) \<Rightarrow>
      bytes_of_string (crlf_joined (post_lines url connection (length body)))) @ header_terminator @ bs) =
    Some (length (case a of (url, connection, body) \<Rightarrow>
      bytes_of_string (crlf_joined (post_lines url connection (length body)))))"
    using header_end_of_lines [OF _ post_lines_clean [OF ok [unfolded a]]] by (simp add: a post_lines_def)
  have "length (show_nat (length body)) \<le> 9"
    using ok by (intro length_show_nat) (simp_all add: a postable_def MAX_HTTP_BODY_BYTES_def)
  moreover have "length (show_int (pu_port url)) \<le> 5" "length connection \<le> 10"
    using ok port_text by (auto simp: a postable_def)
  ultimately show "length (case a of (url, connection, body) \<Rightarrow>
      bytes_of_string (crlf_joined (post_lines url connection (length body)))) + 4 \<le> MAX_HTTP_HEADER_BYTES"
    using ok by (simp add: a post_lines_def postable_def crlf_def MAX_HTTP_HEADER_BYTES_def)
qed

section \<open>Responses: what the server sends, the client reads\<close>

definition response_lines :: "http_response \<Rightarrow> string list" where
  "response_lines r =
     [''HTTP/1.1 '' @ show_int (hp_status_code r) @ CHR '' '' # hp_reason r,
      ''Content-Type'' @ '':'' @ CHR '' '' # hp_content_type r,
      ''Content-Length'' @ '':'' @ CHR '' '' # show_nat (length (hp_body r)),
      ''Connection'' @ '':'' @ CHR '' '' # (if hp_keep_alive r then ''keep-alive'' else ''close'')]"

lemma response_header_joined: "response_header_text r = crlf_joined (response_lines r) @ crlf @ crlf"
  by (simp add: response_header_text_def response_lines_def)

definition sendable_response :: "http_response \<Rightarrow> bool" where
  "sendable_response r \<longleftrightarrow> 0 < hp_status_code r \<and> hp_status_code r < 1000 \<and>
     trimmed (hp_reason r) \<and> clean_line (hp_reason r) \<and> trimmed (hp_content_type r) \<and> clean_line (hp_content_type r) \<and>
     length (hp_reason r) + length (hp_content_type r) \<le> 60000 \<and> length (hp_body r) \<le> MAX_HTTP_BODY_BYTES"

definition received_response :: "http_response \<Rightarrow> byte list \<Rightarrow> client_response" where
  "received_response r bs =
     \<lparr>cr_status_code = hp_status_code r, cr_reason = hp_reason r,
      cr_headers = [''content-type'' \<mapsto> hp_content_type r,
                    ''content-length'' \<mapsto> show_nat (length (hp_body r)),
                    ''connection'' \<mapsto> (if hp_keep_alive r then ''keep-alive'' else ''close'')],
      cr_body = bs\<rparr>"

lemma status_text:
  assumes "0 < i" "i < 1000"
  shows "show_int i = show_nat (nat i)" "length (show_int i) \<le> 3" "clean_line (show_int i)"
  using assms length_show_nat [of "nat i" 3] no_space_props(2) [OF no_space_show_nat]
  by (simp_all add: show_int_nat)

lemma response_lines_clean:
  assumes "sendable_response r"
  shows "list_all clean_line (response_lines r)"
proof -
  have "clean_line (show_int (hp_status_code r))" "clean_line (hp_reason r)" "clean_line (hp_content_type r)"
      "clean_line (show_nat (length (hp_body r)))" "clean_line (if hp_keep_alive r then ''keep-alive'' else ''close'')"
    using assms status_text clean_names by (auto simp: sendable_response_def intro: no_space_props)
  then show ?thesis
    unfolding response_lines_def by (simp add: clean_append clean_space clean_names del: append_Cons)
qed

lemma response_parses:
  assumes "sendable_response r"
  shows "parse_http_response (bytes_of_string (crlf_joined (response_lines r))) bs = Inr (received_response r bs)"
proof -
  let ?n = "show_nat (length (hp_body r))" and ?c = "if hp_keep_alive r then ''keep-alive'' else ''close''"
  have parts: "trimmed (hp_content_type r)" "trimmed ?n" "trimmed ?c"
    using assms plain_names by (auto simp: sendable_response_def intro: no_space_props)
  note clean = response_lines_clean [OF assms]
  have clean_tl: "clean_line (''Content-Type'' @ '':'' @ CHR '' '' # hp_content_type r)"
      "clean_line (''Content-Length'' @ '':'' @ CHR '' '' # ?n)" "clean_line (''Connection'' @ '':'' @ CHR '' '' # ?c)"
    using clean unfolding response_lines_def by simp_all
  have headers: "parse_header_lines (tl (response_lines r)) Map.empty = cr_headers (received_response r bs)"
    unfolding response_lines_def list.sel received_response_def
    by (simp only: parse_header_line [OF clean_tl(1) parts(1) plain_names(2) colon_free(2)]
      parse_header_line [OF clean_tl(2) parts(2) plain_names(3) colon_free(3)]
      parse_header_line [OF clean_tl(3) parts(3) plain_names(4) colon_free(4)]
      parse_header_lines.simps(1) lower_names) simp
  let ?line = "''HTTP/1.1 '' @ show_int (hp_status_code r) @ CHR '' '' # hp_reason r"
  obtain l' ls' where l: "getlines (crlf_joined (response_lines r)) = l' # ls'" "pop_return l' = ?line"
      "\<And>h. parse_header_lines ls' h = parse_header_lines (tl (response_lines r)) h"
    using lines_parsed [where l = "hd (response_lines r)" and ls = "tl (response_lines r)"] clean
    unfolding response_lines_def list.sel by blast
  have "next_word ?line = (''HTTP/1.1'', CHR '' '' # show_int (hp_status_code r) @ CHR '' '' # hp_reason r)"
    using next_word_plain(1) [of "''HTTP/1.1''"] by (simp add: no_space_def is_space_def)
  moreover have "stream_int (CHR '' '' # show_int (hp_status_code r) @ CHR '' '' # hp_reason r) =
      (hp_status_code r, CHR '' '' # hp_reason r)"
  proof -
    have "0 < hp_status_code r" "hp_status_code r < 1000" using assms by (simp_all add: sendable_response_def)
    moreover from this have "nat (hp_status_code r) < 2 ^ 31" by simp
    ultimately show ?thesis using stream_int_show_nat status_text(1) by simp
  qed
  moreover have "trim_white (CHR '' '' # hp_reason r) = hp_reason r"
    using trim_white_trimmed assms by (simp add: sendable_response_def)
  ultimately show ?thesis
    using assms unfolding parse_http_response_def string_of_bytes_of_string l(1)
    by (simp only: list.case l(2,3) Let_def prod.case headers) (simp add: received_response_def sendable_response_def)
qed

interpretation response_wire: http_wire response_reader sendable_response
  "\<lambda>r. bytes_of_string (crlf_joined (response_lines r))" hp_body received_response
proof
  fix r bs
  assume ok: "sendable_response r"
  show "mr_parse response_reader (bytes_of_string (crlf_joined (response_lines r))) bs = Inr (received_response r bs)"
    using response_parses [OF ok] by (simp add: response_reader_def)
  have small: "length (hp_body r) \<le> MAX_HTTP_BODY_BYTES" using ok by (simp add: sendable_response_def)
  then show "mr_content_length response_reader (received_response r bs) = Inr (length (hp_body r))"
    by (simp add: response_reader_def received_response_def client_content_length_def stoull_show_nat MAX_HTTP_BODY_BYTES_def)
  show "find_header_end (bytes_of_string (crlf_joined (response_lines r)) @ header_terminator @ bs) =
    Some (length (bytes_of_string (crlf_joined (response_lines r))))"
    using header_end_of_lines [OF _ response_lines_clean [OF ok]] by (simp add: response_lines_def)
  have "length (show_nat (length (hp_body r))) \<le> 9"
    using small by (intro length_show_nat) (simp_all add: MAX_HTTP_BODY_BYTES_def)
  moreover have "length (show_int (hp_status_code r)) \<le> 3"
    using ok status_text by (simp add: sendable_response_def)
  ultimately show "length (bytes_of_string (crlf_joined (response_lines r))) + 4 \<le> MAX_HTTP_HEADER_BYTES"
    using ok by (simp add: response_lines_def sendable_response_def crlf_def MAX_HTTP_HEADER_BYTES_def)
qed

section \<open>An exchange\<close>

lemma request_wire_bytes: "request_wire.wire (url, connection, body) = post_request_bytes url connection body"
  unfolding request_wire.wire_def by (simp add: post_request_bytes_def post_header_joined header_terminator_def crlf_def bytes_of_string_def)

lemma response_wire_bytes: "response_wire.wire r = send_http_response r"
  unfolding response_wire.wire_def by (simp add: send_http_response_def response_header_joined header_terminator_def crlf_def bytes_of_string_def)

lemma read_posted:
  assumes "postable (url, connection, body)" "concat cs = post_request_bytes url connection body" "[] \<notin> set cs"
  shows "read_http_request (map Received cs @ rest) = Some (Inr (posted_request (url, connection, body) body), rest)"
  using request_wire.read_wire [OF assms(1) _ assms(3), of rest] assms(2)
  by (simp add: read_http_request_def request_wire_bytes)

lemma read_sent:
  assumes "sendable_response r" "concat cs = send_http_response r" "[] \<notin> set cs"
  shows "read_http_response (map Received cs @ rest) = (Inr (received_response r (hp_body r)), rest)"
  using response_wire.read_wire [OF assms(1) _ assms(3), of rest] assms(2)
  by (simp add: read_http_response_def response_wire_bytes)

text \<open>C16. A frame crosses a connection unchanged, whatever the chunks \<open>recv\<close> cuts it into: the server
  reads exactly one request from the bytes the client posts, for the client's path, with the body the
  client posted, which decodes to the frame; and the client reads exactly one response from the bytes
  the server sends, with its status, reason and body. What follows on the connection is left unread.\<close>

theorem frame_exchange:
  assumes "encode_frame f = Inr body"
    and "postable (url, connection, body)" "concat cs = post_request_bytes url connection body" "[] \<notin> set cs"
    and "sendable_response r" "concat ds = send_http_response r" "[] \<notin> set ds"
  shows "(\<exists>m. read_http_request (map Received cs @ rest) = Some (Inr m, rest) \<and>
       hr_method m = ''POST'' \<and> hr_path m = pu_path url \<and> decode_frame (hr_body m) = Inr f \<and>
       request_wants_keep_alive m = (connection = ''keep-alive'')) \<and>
     (\<exists>m. read_http_response (map Received ds @ rest) = (Inr m, rest) \<and>
       cr_status_code m = hp_status_code r \<and> cr_reason m = hp_reason r \<and> cr_body m = hp_body r)"
proof -
  have f: "frame_fits f" "body = frame_bytes f" using assms(1) by (simp_all add: encode_frame_Inr)
  have "connection \<in> {''keep-alive'', ''close''}" using assms(2) by (simp add: postable_def)
  then have keep: "request_wants_keep_alive (posted_request (url, connection, body) body) = (connection = ''keep-alive'')"
    by (auto simp: request_wants_keep_alive_def posted_request_def trim_white_def drop_trailing_def is_space_def
        lower_copy_def lower_char_def)
  show ?thesis
    using read_posted [OF assms(2-4), of rest] read_sent [OF assms(5-7), of rest] keep f
    by (simp add: decode_frame_bytes) (simp add: posted_request_def received_response_def decode_frame_bytes)
qed

definition sample_url :: parsed_url where
  "sample_url = \<lparr>pu_host = ''stage-2'', pu_port = 8000, pu_path = ''/forward-binary''\<rparr>"

definition sample_reply :: http_response where
  "sample_reply = make_binary_response 200 ''OK'' [1, 2, 3]"

lemma sample_exchange:
  "postable (sample_url, ''keep-alive'', frame_bytes sample_frame)" "sendable_response sample_reply"
proof -
  have url: "no_space (pu_path sample_url)" "no_space (pu_host sample_url)" by code_simp+
  have len: "length (pu_path sample_url) + length (pu_host sample_url) \<le> 60000" by code_simp
  have "length (frame_bytes sample_frame) \<le> MAX_HTTP_BODY_BYTES"
    by (simp add: length_frame_bytes sample_frame_def MAX_HTTP_BODY_BYTES_def DLI2_HEADER_BYTES_def)
  note len = this len
  show "postable (sample_url, ''keep-alive'', frame_bytes sample_frame)"
    unfolding postable_def prod.case by (intro conjI url len) (simp_all add: sample_url_def)
  have texts: "trimmed ''OK''" "clean_line ''OK''" "trimmed ''application/octet-stream''" by code_simp+
  then show "sendable_response sample_reply"
    unfolding sendable_response_def sample_reply_def make_binary_response_def MAX_HTTP_BODY_BYTES_def
    using clean_names by simp
qed

theorem frame_exchange_witness:
  "\<exists>m. read_http_request (map Received [post_request_bytes sample_url ''keep-alive'' (frame_bytes sample_frame)] @ []) =
     Some (Inr m, []) \<and> decode_frame (hr_body m) = Inr sample_frame"
proof -
  have "encode_frame sample_frame = Inr (frame_bytes sample_frame)"
    using sample_frame_fits by (simp add: encode_frame_Inr)
  note sent = this
  let ?req = "post_request_bytes sample_url ''keep-alive'' (frame_bytes sample_frame)"
  let ?rep = "send_http_response sample_reply"
  have "?req \<noteq> []" "?rep \<noteq> []"
    by (simp_all add: post_request_bytes_def frame_bytes_def send_http_response_def sample_reply_def make_binary_response_def)
  then have chunks: "concat [?req] = ?req" "[] \<notin> set [?req]" "concat [?rep] = ?rep" "[] \<notin> set [?rep]"
    by simp_all
  from frame_exchange [OF sent sample_exchange(1) chunks(1,2) sample_exchange(2) chunks(3,4), where rest = "[]"]
  show ?thesis by (elim conjE exE) (rule exI, rule conjI, assumption+)
qed

section \<open>A reply that comes too late\<close>

lemma first_try_fails:
  assumes "ln_open l = None" "ln_connects l = Inr \<lparr>cn_sends = [], cn_recvs = Failed e # rs\<rparr> # cs"
  shows "post_binary_once url body l = (Inl (''recv failed while reading HTTP response: '' @ e),
    l\<lparr>ln_open := Some \<lparr>cn_sends = [], cn_recvs = rs\<rparr>, ln_connects := cs,
      ln_sent := ln_sent l @ [post_request_bytes url ''keep-alive'' body]\<rparr>)"
  using assms
  by (simp add: post_binary_once_def ensure_connected_def connect_tcp_def send_all_def receive_def
      read_http_response_def response_reader_def bindA_apply)

lemma open_link_answers:
  assumes "ln_open l = Some \<lparr>cn_sends = [], cn_recvs = map Received ds\<rparr>"
    and "sendable_response r" "concat ds = send_http_response r" "[] \<notin> set ds"
  shows "\<exists>l'. post_binary url body l = (Inr (received_response r (hp_body r)), l') \<and>
    ln_sent l' = ln_sent l @ [post_request_bytes url ''keep-alive'' body]"
proof -
  have read: "read_http_response (map Received ds) = (Inr (received_response r (hp_body r)), [])"
    using read_sent [OF assms(2-4), of "[]"] by simp
  show ?thesis
    using assms(1)
    by (simp add: post_binary_def post_binary_once_def ensure_connected_def send_all_def receive_def read bindA_apply
        close_connection_def split: option.splits)
qed

text \<open>C27. A client whose second attempt times out keeps its connection, and the reply that comes late
  is taken for the reply to the next request: the first request has then been sent twice (each
  attempt hands the whole request to the kernel, so a stage that is only slow runs the step twice),
  and the second caller gets the response to the first caller's request.\<close>

theorem late_reply_answers_next_request:
  assumes "ln_open l = None"
    and "ln_connects l = [Inr \<lparr>cn_sends = [], cn_recvs = [Failed recv_timeout]\<rparr>,
      Inr \<lparr>cn_sends = [], cn_recvs = Failed recv_timeout # map Received ds\<rparr>]"
    and "sendable_response r" "concat ds = send_http_response r" "[] \<notin> set ds"
  shows "case post_binary url first l of (r1, l1) \<Rightarrow>
    r1 = Inl (''recv failed while reading HTTP response: '' @ recv_timeout) \<and>
    (case post_binary url second l1 of (r2, l2) \<Rightarrow>
       r2 = Inr (received_response r (hp_body r)) \<and>
       ln_sent l2 = ln_sent l @ map (post_request_bytes url ''keep-alive'') [first, first, second])"
proof -
  let ?req = "post_request_bytes url ''keep-alive''"
  let ?l1 = "l\<lparr>ln_open := Some \<lparr>cn_sends = [], cn_recvs = map Received ds\<rparr>, ln_connects := [],
      ln_sent := ln_sent l @ [?req first, ?req first]\<rparr>"
  note try1 = first_try_fails [OF assms(1,2), of url first]
  have first: "post_binary url first l = (Inl (''recv failed while reading HTTP response: '' @ recv_timeout), ?l1)"
    by (simp add: post_binary_def try1 close_connection_def first_try_fails)
  obtain l2 where "post_binary url second ?l1 = (Inr (received_response r (hp_body r)), l2)"
      "ln_sent l2 = ln_sent ?l1 @ [?req second]"
    using open_link_answers [OF _ assms(3-5), of ?l1 url second] by auto
  then show ?thesis by (simp add: first)
qed

theorem late_reply_answers_next_request_witness:
  "\<exists>l1 l2. post_binary sample_url [7] \<lparr>ln_open = None, ln_connects =
       [Inr \<lparr>cn_sends = [], cn_recvs = [Failed recv_timeout]\<rparr>,
        Inr \<lparr>cn_sends = [], cn_recvs = [Failed recv_timeout, Received (send_http_response sample_reply)]\<rparr>],
       ln_sent = []\<rparr> = (Inl (''recv failed while reading HTTP response: '' @ recv_timeout), l1) \<and>
     post_binary sample_url [8] l1 = (Inr (received_response sample_reply [1, 2, 3]), l2)"
proof -
  have ne: "send_http_response sample_reply \<noteq> []"
    by (simp add: send_http_response_def sample_reply_def make_binary_response_def)
  have "hp_body sample_reply = [1, 2, 3]" by (simp add: sample_reply_def make_binary_response_def)
  with ne late_reply_answers_next_request [OF _ _ sample_exchange(2), of "\<lparr>ln_open = None, ln_connects =
       [Inr \<lparr>cn_sends = [], cn_recvs = [Failed recv_timeout]\<rparr>,
        Inr \<lparr>cn_sends = [], cn_recvs = [Failed recv_timeout, Received (send_http_response sample_reply)]\<rparr>],
       ln_sent = []\<rparr>" "[send_http_response sample_reply]" sample_url "[7]" "[8]"]
  show ?thesis by (simp split: prod.splits)
qed

end
