(* ===== verification/Stage_Client.thy ===== *)
theory Stage_Client
  imports Http_Client Generation_Loop
begin

text \<open>
  The gateway's stage client (\<open>dli_gateway_cpp/src/stage_client.cpp\<close>): one persistent HTTP client per
  URL, frames out and back. It is the sender the generation loop is given.

  The network is one link per URL and the elapsed times its next calls will measure.
\<close>

record network =
  nt_links :: "string \<Rightarrow> link"
  nt_elapsed :: "f64 list"

definition on_url :: "string \<Rightarrow> (link, 'a) action \<Rightarrow> (network, 'a) action" where
  "on_url url m = (\<lambda>n. case m (nt_links n url) of
     (r, l) \<Rightarrow> (r, n\<lparr>nt_links := (nt_links n)(url := l)\<rparr>))"

text \<open>\<open>client_for_url(url).post_binary(body)\<close>: the constructor of a new client parses the URL.\<close>

definition post_to_url :: "string \<Rightarrow> byte list \<Rightarrow> (link, client_response) action" where
  "post_to_url url body = bindA (liftA (parse_http_url url)) (\<lambda>parsed. post_binary parsed body)"

definition next_elapsed :: "(network, f64) action" where
  "next_elapsed = (\<lambda>n. case nt_elapsed n of
     [] \<Rightarrow> (Inr f64_zero, n) | t # ts \<Rightarrow> (Inr t, n\<lparr>nt_elapsed := ts\<rparr>))"

definition http_success :: "int \<Rightarrow> bool" where
  "http_success status \<longleftrightarrow> 200 \<le> status \<and> status < 300"

definition client_result :: "byte list \<Rightarrow> client_response \<Rightarrow> f64 \<Rightarrow> stage_client_result result" where
  "client_result request_body response elapsed =
     (let res = \<lparr>http_status = cr_status_code response, http_reason = cr_reason response, elapsed_ms = elapsed,
                 response_frame = \<lparr>metadata_json = [], tensor_bytes = []\<rparr>,
                 request_body_bytes = length request_body, response_body_bytes = length (cr_body response),
                 transport_payload_bytes = length request_body + length (cr_body response), error_body = []\<rparr>
      in if http_success (cr_status_code response)
         then bindR (decode_frame (cr_body response)) (\<lambda>f. Inr (res\<lparr>response_frame := f\<rparr>))
         else Inr (res\<lparr>error_body := string_of_bytes (cr_body response)\<rparr>))"

definition forward_frame :: "string \<Rightarrow> dli_frame \<Rightarrow> (network, stage_client_result) action" where
  "forward_frame stage_url frame =
     bindA (liftA (encode_frame frame)) (\<lambda>request_body.
     bindA (on_url stage_url (post_to_url stage_url request_body)) (\<lambda>response.
     bindA next_elapsed (\<lambda>elapsed.
     liftA (client_result request_body response elapsed))))"

record stub_request =
  sq_request_id :: string
  sq_token_index :: int
  sq_generation_mode :: string
  sq_dtype :: string
  sq_shape :: "int list"
  sq_kv_cache_enabled :: bool
  sq_tensor_bytes :: "byte list"

definition default_stub_request :: stub_request where
  "default_stub_request = \<lparr>sq_request_id = ''gateway-stub-request'', sq_token_index = 0,
     sq_generation_mode = ''decode'', sq_dtype = ''float16'', sq_shape = [1, 1, 4], sq_kv_cache_enabled = True,
     sq_tensor_bytes = [1, 2, 3, 4, 5, 6, 7, 8]\<rparr>"

text \<open>The texts go in unescaped.\<close>

definition raw_str :: "string \<Rightarrow> string" where
  "raw_str s = quote # s @ [quote]"

definition build_stub_metadata_json :: "stub_request \<Rightarrow> string" where
  "build_stub_metadata_json rq =
     ''{'' @ json_key ''request_id'' @ raw_str (sq_request_id rq) @ '',''
     @ json_key ''token_index'' @ show_int (sq_token_index rq) @ '',''
     @ json_key ''generation_mode'' @ raw_str (sq_generation_mode rq) @ '',''
     @ json_key ''tensor'' @ ''{''
     @ json_key ''dtype'' @ raw_str (sq_dtype rq) @ '',''
     @ json_key ''shape'' @ shape_json (sq_shape rq) @ '',''
     @ json_key ''byte_order'' @ json_str ''little'' @ ''},''
     @ json_key ''feature_flags'' @ ''{'' @ json_key ''kv_cache_enabled'' @ json_bool (sq_kv_cache_enabled rq) @ ''},''
     @ json_key ''sampling'' @ ''{'' @ json_key ''temperature'' @ ''0.0,'' @ json_key ''top_k'' @ ''1,''
     @ json_key ''top_p'' @ ''null}}''"

definition forward_stub_frame :: "string \<Rightarrow> stub_request \<Rightarrow> (network, stage_client_result) action" where
  "forward_stub_frame url rq =
     forward_frame url
       \<lparr>metadata_json = build_stub_metadata_json rq, tensor_bytes = sq_tensor_bytes rq\<rparr>"

end
