(* ===== verification/Stage_Server.thy ===== *)
theory Stage_Server
  imports Stage_Client Partial_Runtime
begin

text \<open>
  The stage's HTTP handlers (\<open>dli_stage_cpp/src/server.cpp\<close>) over any \<open>StageRuntime\<close>: a frame in,
  the runtime's reply out or, in a native chain, passed on to the next stage and the final reply
  passed back; the routes; the loop that serves one connection.

  A handler is given the runtime's \<open>forward\<close> as an action on the runtime's state and reads the
  environment variables it names as optional texts.
\<close>

section \<open>Environment\<close>

definition env_bool :: "string option \<Rightarrow> bool \<Rightarrow> bool" where
  "env_bool raw default_value =
     (case raw of None \<Rightarrow> default_value
      | Some value \<Rightarrow> value = ''1'' \<or> value = ''true'' \<or> value = ''TRUE'' \<or> value = ''yes'' \<or> value = ''on'')"

definition env_int :: "string option \<Rightarrow> int \<Rightarrow> int" where
  "env_int raw default_value =
     (case raw of None \<Rightarrow> default_value
      | Some t \<Rightarrow> (case std_stoi t of Inl _ \<Rightarrow> default_value | Inr i \<Rightarrow> i))"

definition stage_chaining_enabled :: "string option \<Rightarrow> runtime_request \<Rightarrow> bool" where
  "stage_chaining_enabled env rq \<longleftrightarrow> rq_native_stage_chaining_enabled rq \<or> env_bool env False"

section \<open>The stub runtime\<close>

definition stub_forward :: "f64 \<Rightarrow> runtime_request \<Rightarrow> ('s, runtime_response) action" where
  "stub_forward compute_ms rq =
     (let input_seq = infer_sequence_length_from_shape (shape (metadata (rq_input_tensor rq)))
      in retA \<lparr>rs_is_final_stage = False,
               rs_next_token_id = (if rq_generation_mode rq = ''decode'' then i32_wrap (1000 + rq_token_index rq) else - 1),
               rs_output_metadata_json = rq_input_metadata_json rq,
               rs_output_tensor = rq_input_tensor rq,
               rs_metrics = default_stage_metrics\<lparr>sm_backend := ''stub'', sm_status := ''stub_echo'',
                 sm_compute_time_ms := compute_ms,
                 sm_input_tensor_bytes := length (bytes (rq_input_tensor rq)),
                 sm_output_tensor_bytes := length (bytes (rq_input_tensor rq)),
                 sm_stage_input_token_count := input_seq, sm_stage_output_token_count := input_seq\<rparr>,
               rs_backend_metadata_json = []\<rparr>)"

section \<open>Pages\<close>

definition health_json :: "stage_config \<Rightarrow> string" where
  "health_json cfg =
     ''{'' @ json_key ''ok'' @ ''true,'' @ json_key ''service'' @ json_str (sc_service_name cfg) @ '',''
     @ json_key ''runtime'' @ json_str ''cpp-native-stub'' @ '','' @ json_key ''status'' @ json_str ''stub'' @ '',''
     @ json_key ''stage_id'' @ show_int (sc_stage_id cfg) @ '','' @ json_key ''protocol'' @ json_str ''DLI2'' @ ''}''"

definition layers_json :: "int list \<Rightarrow> string" where
  "layers_json ls = ''['' @ comma_ints ls @ '']''"

definition config_json :: "stage_config \<Rightarrow> string" where
  "config_json cfg =
     ''{'' @ json_key ''ok'' @ ''true,'' @ json_key ''service'' @ json_str (sc_service_name cfg) @ '',''
     @ json_key ''runtime'' @ json_str ''cpp-native-stub'' @ '','' @ json_key ''status'' @ json_str ''stub'' @ '',''
     @ json_key ''stage_id'' @ show_int (sc_stage_id cfg) @ '','' @ json_key ''port'' @ show_int (sc_port cfg) @ '',''
     @ json_key ''config_path'' @ json_str (sc_config_path cfg) @ '',''
     @ json_key ''physical_node'' @ json_str (sc_physical_node cfg) @ '',''
     @ json_key ''partition_file'' @ json_str (sc_partition_file cfg) @ '',''
     @ json_key ''native_partition_file'' @ json_str (sc_native_partition_file cfg) @ '',''
     @ json_key ''backend'' @ json_str (sc_backend cfg) @ '',''
     @ json_key ''next_stage_url'' @ json_str (sc_next_stage_url cfg) @ '',''
     @ json_key ''components'' @ ''{''
     @ json_key ''embedding'' @ json_bool (embedding (sc_components cfg)) @ '',''
     @ json_key ''layers'' @ layers_json (layers (sc_components cfg)) @ '',''
     @ json_key ''norm'' @ json_bool (norm (sc_components cfg)) @ '',''
     @ json_key ''lm_head'' @ json_bool (lm_head (sc_components cfg)) @ ''},''
     @ json_key ''routes'' @ ''['' @ json_str ''GET /health'' @ '','' @ json_str ''GET /config'' @ '',''
     @ json_str ''POST /forward-binary'' @ '']}''"

definition not_found_json :: "http_request \<Rightarrow> string" where
  "not_found_json rq =
     ''{'' @ json_key ''ok'' @ ''false,'' @ json_key ''error'' @ json_str ''route not found'' @ '',''
     @ json_key ''method'' @ json_str (hr_method rq) @ '','' @ json_key ''path'' @ json_str (hr_path rq) @ ''}''"

section \<open>One frame\<close>

definition on_runtime :: "('s, 'a) action \<Rightarrow> ('s \<times> 'n, 'a) action" where
  "on_runtime m = (\<lambda>(s, n). case m s of (r, s') \<Rightarrow> (r, (s', n)))"

definition on_next :: "('n, 'a) action \<Rightarrow> ('s \<times> 'n, 'a) action" where
  "on_next m = (\<lambda>(s, n). case m n of (r, n') \<Rightarrow> (r, (s, n')))"

text \<open>\<open>catch (const std::exception&)\<close>: the exception becomes the value, the state stays as it was left.\<close>

definition catchA :: "('s, 'a) action \<Rightarrow> (string \<Rightarrow> 'a) \<Rightarrow> 's \<Rightarrow> 'a \<times> 's" where
  "catchA m handler s = (case m s of (Inl e, s') \<Rightarrow> (handler e, s') | (Inr x, s') \<Rightarrow> (x, s'))"

text \<open>Passing the output on to the next stage and merging the metrics of the chain into its reply.\<close>

definition chain_output ::
    "fpu \<Rightarrow> number_io \<Rightarrow> (byte list \<Rightarrow> ('n, client_response) action) \<Rightarrow> f64 \<Rightarrow> stage_metrics \<Rightarrow> dli_frame \<Rightarrow>
     ('s \<times> 'n, http_response) action" where
  "chain_output F io post rpc_ms local_metrics output =
     bindA (liftA (encode_frame output)) (\<lambda>next_body.
     bindA (on_next (post next_body)) (\<lambda>next_response.
     if \<not> http_success (cr_status_code next_response)
     then retA (make_json_response 502 ''Bad Gateway'' (http_error_json
            (''next native stage failed with HTTP '' @ show_int (cr_status_code next_response))))
     else bindA (liftA (decode_frame (cr_body next_response))) (\<lambda>downstream.
          bindA (liftA (encode_frame (downstream\<lparr>metadata_json :=
                   merge_chain_metrics F io (metadata_json downstream) local_metrics rpc_ms
                     (length next_body) (length (cr_body next_response))\<rparr>))) (\<lambda>body.
          retA (make_binary_response 200 ''OK'' body)))))"

definition handle_forward_binary ::
    "fpu \<Rightarrow> number_io \<Rightarrow> string option \<Rightarrow> stage_config \<Rightarrow> (runtime_request \<Rightarrow> ('s, runtime_response) action) \<Rightarrow>
     (byte list \<Rightarrow> ('n, client_response) action) \<Rightarrow> f64 \<Rightarrow> http_request \<Rightarrow> 's \<times> 'n \<Rightarrow> http_response \<times> ('s \<times> 'n)" where
  "handle_forward_binary F io env cfg fwd post rpc_ms rq =
     catchA
       (bindA (liftA (decode_frame (hr_body rq))) (\<lambda>input.
        bindA (liftA (make_runtime_request io input (sc_stage_id cfg))) (\<lambda>runtime_request.
        bindA (on_runtime (fwd runtime_request)) (\<lambda>response.
        let output = \<lparr>metadata_json = runtime_response_metadata_json io response cfg runtime_request,
                      tensor_bytes = bytes (rs_output_tensor response)\<rparr>
        in if stage_chaining_enabled env runtime_request \<and> \<not> rs_is_final_stage response \<and> sc_next_stage_url cfg \<noteq> []
           then chain_output F io post rpc_ms (rs_metrics response) output
           else bindA (liftA (encode_frame output)) (\<lambda>body. retA (make_binary_response 200 ''OK'' body))))))
       (\<lambda>e. make_json_response 400 ''Bad Request'' (http_error_json e))"

section \<open>Routes and connections\<close>

text \<open>\<open>submit\<close> stands for the broker: the response its future will hold.\<close>

definition handle_request ::
    "stage_config \<Rightarrow> (http_request \<Rightarrow> 's \<Rightarrow> http_response \<times> 's) \<Rightarrow> http_request \<Rightarrow> 's \<Rightarrow> http_response \<times> 's" where
  "handle_request cfg submit rq s =
     (if hr_method rq = ''GET'' \<and> hr_path rq = ''/health''
      then (make_json_response 200 ''OK'' (health_json cfg), s)
      else if hr_method rq = ''GET'' \<and> hr_path rq = ''/config''
      then (make_json_response 200 ''OK'' (config_json cfg), s)
      else if hr_method rq = ''POST'' \<and> hr_path rq = ''/forward-binary'' then submit rq s
      else (make_json_response 404 ''Not Found'' (not_found_json rq), s))"

text \<open>The loop on one connection; the number is how often \<open>stop_requested\<close> still reads false. The
  bytes sent, in order, and the state; \<open>None\<close>: it is waiting for a request.\<close>

fun serve_connection ::
    "(http_request \<Rightarrow> 's \<Rightarrow> http_response \<times> 's) \<Rightarrow> nat \<Rightarrow> recv_result list \<Rightarrow> 's \<Rightarrow> (byte list list \<times> 's) option" where
  "serve_connection handle 0 rs s = Some ([], s)"
| "serve_connection handle (Suc n) rs s =
     (case read_http_request rs of
        None \<Rightarrow> None
      | Some (Inl e, rs') \<Rightarrow> Some ([send_http_response (make_json_response 400 ''Bad Request'' (http_error_json e))], s)
      | Some (Inr rq, rs') \<Rightarrow>
          (case handle rq s of (response, s') \<Rightarrow>
             let response = response\<lparr>hp_keep_alive := request_wants_keep_alive rq\<rparr>;
                 sent = send_http_response response
             in if \<not> hp_keep_alive response then Some ([sent], s')
                else map_option (\<lambda>(more, s''). (sent # more, s'')) (serve_connection handle n rs' s')))"

end
