(* ===== verification/Forward_Broker.thy ===== *)
theory Forward_Broker
  imports Stage_Server Action_Logic
begin

text \<open>
  The broker between the connection threads and the one worker thread that owns the runtime
  (\<open>class ForwardBroker\<close> in \<open>dli_stage_cpp/src/server.cpp\<close>), as a state machine.

  Every step is one critical section of the mutex or the worker's work outside it, so the steps of
  the connection threads (\<open>submit\<close>), of the destructor (\<open>stop\<close>) and of the worker interleave
  freely. A job is the number of its \<open>submit\<close> call; \<open>bk_requests\<close> records what was submitted and
  \<open>bk_answers\<close> the promises fulfilled, both in order. The machine is parametric in the job handler.
\<close>

section \<open>State and operations\<close>

record ('q, 'r, 's) service =
  sv_limit :: nat
  sv_handle :: "'q \<Rightarrow> 's \<Rightarrow> 'r \<times> 's"
  sv_stopping_reply :: 'r
  sv_full_reply :: 'r

record ('q, 'r, 's) broker =
  bk_queue :: "nat list"
  bk_running :: "nat option"
  bk_stop_requested :: bool
  bk_worker_done :: bool
  bk_runtime :: 's
  bk_requests :: "'q list"
  bk_answers :: "(nat \<times> 'r) list"

definition new_broker :: "'s \<Rightarrow> ('q, 'r, 's) broker" where
  "new_broker s = \<lparr>bk_queue = [], bk_running = None, bk_stop_requested = False, bk_worker_done = False,
     bk_runtime = s, bk_requests = [], bk_answers = []\<rparr>"

definition submit :: "('q, 'r, 's) service \<Rightarrow> 'q \<Rightarrow> ('q, 'r, 's) broker \<Rightarrow> ('q, 'r, 's) broker" where
  "submit S q b =
     (let i = length (bk_requests b); b = b\<lparr>bk_requests := bk_requests b @ [q]\<rparr>
      in if bk_stop_requested b then b\<lparr>bk_answers := bk_answers b @ [(i, sv_stopping_reply S)]\<rparr>
         else if length (bk_queue b) \<ge> sv_limit S then b\<lparr>bk_answers := bk_answers b @ [(i, sv_full_reply S)]\<rparr>
         else b\<lparr>bk_queue := bk_queue b @ [i]\<rparr>)"

definition stop :: "('q, 'r, 's) broker \<Rightarrow> ('q, 'r, 's) broker" where
  "stop b = b\<lparr>bk_stop_requested := True\<rparr>"

text \<open>The worker: take the front of the queue, handle it and fulfil its promise, or leave when it is
  asked to stop and nothing is queued.\<close>

definition finish_job :: "('q, 'r, 's) service \<Rightarrow> nat \<Rightarrow> ('q, 'r, 's) broker \<Rightarrow> ('q, 'r, 's) broker" where
  "finish_job S i b =
     (case sv_handle S (bk_requests b ! i) (bk_runtime b) of
        (r, s) \<Rightarrow> b\<lparr>bk_running := None, bk_runtime := s, bk_answers := bk_answers b @ [(i, r)]\<rparr>)"

inductive worker_step :: "('q, 'r, 's) service \<Rightarrow> ('q, 'r, 's) broker \<Rightarrow> ('q, 'r, 's) broker \<Rightarrow> bool" for S where
  take_job: "\<lbrakk>\<not> bk_worker_done b; bk_running b = None; bk_queue b = i # is\<rbrakk>
    \<Longrightarrow> worker_step S b (b\<lparr>bk_queue := is, bk_running := Some i\<rparr>)"
| serve_job: "bk_running b = Some i \<Longrightarrow> worker_step S b (finish_job S i b)"
| leave: "\<lbrakk>\<not> bk_worker_done b; bk_running b = None; bk_stop_requested b; bk_queue b = []\<rbrakk>
    \<Longrightarrow> worker_step S b (b\<lparr>bk_worker_done := True\<rparr>)"

inductive broker_step :: "('q, 'r, 's) service \<Rightarrow> ('q, 'r, 's) broker \<Rightarrow> ('q, 'r, 's) broker \<Rightarrow> bool" for S where
  submitted: "broker_step S b (submit S q b)"
| stopped: "broker_step S b (stop b)"
| worked: "worker_step S b b' \<Longrightarrow> broker_step S b b'"

inductive broker_reachable :: "('q, 'r, 's) service \<Rightarrow> 's \<Rightarrow> ('q, 'r, 's) broker \<Rightarrow> bool" for S s0 where
  start: "broker_reachable S s0 (new_broker s0)"
| step: "\<lbrakk>broker_reachable S s0 b; broker_step S b b'\<rbrakk> \<Longrightarrow> broker_reachable S s0 b'"

inductive_cases worker_stepE: "worker_step S b b'"
inductive_cases broker_stepE: "broker_step S b b'"

inductive_simps worker_step_iff: "worker_step S b b'"

section \<open>The sequential service\<close>

text \<open>What the broker promises: one job at a time, in the order of submission.\<close>

fun run_all :: "('q \<Rightarrow> 's \<Rightarrow> 'r \<times> 's) \<Rightarrow> 'q list \<Rightarrow> 's \<Rightarrow> 'r list \<times> 's" where
  "run_all h [] s = ([], s)"
| "run_all h (q # qs) s = (case h q s of (r, s') \<Rightarrow> case run_all h qs s' of (rs, s'') \<Rightarrow> (r # rs, s''))"

lemma run_all_snoc:
  "run_all h (qs @ [q]) s = (case run_all h qs s of (rs, s') \<Rightarrow> case h q s' of (r, s'') \<Rightarrow> (rs @ [r], s''))"
  by (induction qs arbitrary: s) (auto split: prod.splits)

lemma run_all_length: "run_all h qs s = (outs, s') \<Longrightarrow> length outs = length qs"
  by (induction qs arbitrary: s outs) (auto split: prod.splits)

definition refusal :: "('q, 'r, 's) service \<Rightarrow> nat \<times> 'r \<Rightarrow> bool" where
  "refusal S a \<longleftrightarrow> snd a = sv_stopping_reply S \<or> snd a = sv_full_reply S"

definition pending :: "('q, 'r, 's) broker \<Rightarrow> nat list" where
  "pending b = (case bk_running b of None \<Rightarrow> [] | Some i \<Rightarrow> [i]) @ bk_queue b"

text \<open>\<open>served\<close>: the jobs handled so far.\<close>

definition sequential :: "('q, 'r, 's) service \<Rightarrow> 's \<Rightarrow> ('q, 'r, 's) broker \<Rightarrow> nat list \<Rightarrow> bool" where
  "sequential S s0 b served \<longleftrightarrow>
     (case run_all (sv_handle S) (map (\<lambda>i. bk_requests b ! i) served) s0 of (outs, s) \<Rightarrow>
        bk_runtime b = s \<and> (\<forall>a \<in> set (bk_answers b). refusal S a \<or> a \<in> set (zip served outs)) \<and>
        set (zip served outs) \<subseteq> set (bk_answers b))"

lemma sequential_iff:
  "sequential S s0 b served \<longleftrightarrow> (\<exists>outs. run_all (sv_handle S) (map (\<lambda>i. bk_requests b ! i) served) s0 = (outs, bk_runtime b) \<and>
     (\<forall>a \<in> set (bk_answers b). refusal S a \<or> a \<in> set (zip served outs)) \<and> set (zip served outs) \<subseteq> set (bk_answers b))"
  by (cases "run_all (sv_handle S) (map (\<lambda>i. bk_requests b ! i) served) s0") (auto simp: sequential_def)

definition broker_inv :: "('q, 'r, 's) service \<Rightarrow> 's \<Rightarrow> ('q, 'r, 's) broker \<Rightarrow> bool" where
  "broker_inv S s0 b \<longleftrightarrow>
     length (bk_queue b) \<le> sv_limit S \<and>
     mset (map fst (bk_answers b)) + mset (pending b) = mset [0..<length (bk_requests b)] \<and>
     (bk_worker_done b \<longrightarrow> bk_stop_requested b \<and> pending b = []) \<and>
     (\<exists>served. sorted_wrt (<) (served @ pending b) \<and> set served \<subseteq> set (map fst (bk_answers b)) \<and> sequential S s0 b served)"

lemma inv_start: "broker_inv S s0 (new_broker s0)"
  by (auto simp: broker_inv_def new_broker_def pending_def sequential_def intro!: exI [of _ "[]"])

lemma pending_bound:
  assumes "broker_inv S s0 b" "i \<in> set (map fst (bk_answers b)) \<union> set (pending b)"
  shows "i < length (bk_requests b)"
proof -
  have "set_mset (mset (map fst (bk_answers b)) + mset (pending b)) = set_mset (mset [0..<length (bk_requests b)])"
    using assms(1) by (simp only: broker_inv_def)
  then show ?thesis using assms(2) by auto
qed

lemma pending_simps [simp]:
  "pending (b\<lparr>bk_requests := qs\<rparr>) = pending b" "pending (b\<lparr>bk_answers := as\<rparr>) = pending b"
  "pending (b\<lparr>bk_stop_requested := x\<rparr>) = pending b" "pending (b\<lparr>bk_worker_done := x\<rparr>) = pending b"
  "pending (b\<lparr>bk_runtime := s\<rparr>) = pending b" "pending (b\<lparr>bk_queue := bk_queue b @ is\<rparr>) = pending b @ is"
  by (simp_all add: pending_def split: option.splits)

text \<open>Later submissions do not change what the jobs served so far asked for.\<close>

lemma sequential_more_requests:
  assumes "sequential S s0 b served" "\<forall>i \<in> set served. i < length (bk_requests b)"
    and "bk_runtime b' = bk_runtime b" "bk_requests b' = bk_requests b @ qs"
    and "\<exists>as. bk_answers b' = bk_answers b @ as \<and> (\<forall>a \<in> set as. refusal S a)"
  shows "sequential S s0 b' served"
proof -
  have "map (\<lambda>i. bk_requests b' ! i) served = map (\<lambda>i. bk_requests b ! i) served"
    using assms(2,4) by (auto simp: nth_append)
  then have "run_all (sv_handle S) (map (\<lambda>i. bk_requests b' ! i) served) s0 =
      run_all (sv_handle S) (map (\<lambda>i. bk_requests b ! i) served) s0" by (rule arg_cong)
  moreover obtain as where "bk_answers b' = bk_answers b @ as" "\<forall>a \<in> set as. refusal S a" using assms(5) by blast
  ultimately show ?thesis using assms(1,3)
    by (cases "run_all (sv_handle S) (map (\<lambda>i. bk_requests b ! i) served) s0") (auto simp: sequential_def)
qed

lemma inv_submit:
  assumes "broker_inv S s0 b"
  shows "broker_inv S s0 (submit S q b)"
proof -
  let ?n = "length (bk_requests b)" and ?b = "b\<lparr>bk_requests := bk_requests b @ [q]\<rparr>"
  from assms obtain served where served: "sorted_wrt (<) (served @ pending b)"
      "set served \<subseteq> set (map fst (bk_answers b))" "sequential S s0 b served"
    by (auto simp: broker_inv_def)
  note bound = pending_bound [OF assms]
  have small: "\<forall>i \<in> set served. i < ?n" using served(2) bound by blast
  have ids: "mset (map fst (bk_answers b)) + mset (pending b) = mset [0..<?n]"
    and len: "length (bk_queue b) \<le> sv_limit S" and don: "bk_worker_done b \<longrightarrow> bk_stop_requested b \<and> pending b = []"
    using assms by (simp_all add: broker_inv_def)
  have refused: "broker_inv S s0 (?b\<lparr>bk_answers := bk_answers b @ [(?n, r)]\<rparr>)" if "refusal S (?n, r)" for r
    unfolding broker_inv_def
  proof (intro conjI exI [of _ served])
    show "sequential S s0 (?b\<lparr>bk_answers := bk_answers b @ [(?n, r)]\<rparr>) served"
      by (rule sequential_more_requests [OF served(3) small]) (use that in auto)
  qed (use len don served ids in auto)
  show ?thesis
  proof (cases "bk_stop_requested b \<or> length (bk_queue b) \<ge> sv_limit S")
    case True
    then show ?thesis using refused by (auto simp: submit_def Let_def refusal_def)
  next
    case False
    let ?b' = "?b\<lparr>bk_queue := bk_queue b @ [?n]\<rparr>"
    have pend: "pending ?b' = pending b @ [?n]" by (simp add: pending_def split: option.splits)
    have "broker_inv S s0 ?b'"
      unfolding broker_inv_def pend
    proof (intro conjI exI [of _ served])
      show "sequential S s0 ?b' served"
        by (rule sequential_more_requests [OF served(3) small]) auto
      show "sorted_wrt (<) (served @ pending b @ [?n])"
        using served(1) small bound by (auto simp: sorted_wrt_append)
      show "mset (map fst (bk_answers ?b')) + mset (pending b @ [?n]) = mset [0..<length (bk_requests ?b')]"
        using ids by simp
    qed (use False don served(2) len in auto)
    then show ?thesis using False by (simp add: submit_def Let_def)
  qed
qed

lemma inv_serve:
  assumes "broker_inv S s0 b" "bk_running b = Some i"
  shows "broker_inv S s0 (finish_job S i b)"
proof -
  from assms(1) obtain served where served: "sorted_wrt (<) (served @ pending b)"
      "set served \<subseteq> set (map fst (bk_answers b))" "sequential S s0 b served"
    by (auto simp: broker_inv_def)
  obtain outs where outs: "run_all (sv_handle S) (map (\<lambda>i. bk_requests b ! i) served) s0 = (outs, bk_runtime b)"
      "\<forall>a \<in> set (bk_answers b). refusal S a \<or> a \<in> set (zip served outs)" "set (zip served outs) \<subseteq> set (bk_answers b)"
    using served(3) by (auto simp: sequential_def split: prod.splits)
  obtain r s where h: "sv_handle S (bk_requests b ! i) (bk_runtime b) = (r, s)" by (cases "sv_handle S (bk_requests b ! i) (bk_runtime b)")
  have f: "finish_job S i b = b\<lparr>bk_running := None, bk_runtime := s, bk_answers := bk_answers b @ [(i, r)]\<rparr>"
    by (simp add: finish_job_def h)
  have pend: "pending b = i # bk_queue b" "pending (finish_job S i b) = bk_queue b"
    using assms(2) by (simp_all add: pending_def f)
  have run: "run_all (sv_handle S) (map (\<lambda>i. bk_requests b ! i) (served @ [i])) s0 = (outs @ [r], s)"
    using outs(1) h by (simp add: run_all_snoc)
  have len: "length outs = length served" using run_all_length [OF outs(1)] by simp
  have "sequential S s0 (finish_job S i b) (served @ [i])"
    using outs run len by (auto simp: sequential_def f)
  then show ?thesis
    using assms(1) served pend
    by (auto simp: broker_inv_def f intro!: exI [of _ "served @ [i]"])
qed

lemma inv_worker:
  assumes "broker_inv S s0 b" "worker_step S b b'"
  shows "broker_inv S s0 b'"
  using assms(2)
proof (cases rule: worker_step.cases)
  case (take_job i "is")
  then have "pending b' = pending b" by (simp add: pending_def)
  then show ?thesis using assms(1) take_job by (auto simp: broker_inv_def sequential_def)
next
  case (serve_job i)
  then show ?thesis using inv_serve [OF assms(1)] by simp
next
  case leave
  then have "pending b = []" by (simp add: pending_def)
  then show ?thesis using assms(1) leave by (auto simp: broker_inv_def sequential_def)
qed

lemma inv_step:
  assumes "broker_inv S s0 b" "broker_step S b b'"
  shows "broker_inv S s0 b'"
proof (rule broker_stepE [OF assms(2)])
  show "broker_inv S s0 b'" if "b' = submit S q b" for q
    using inv_submit [OF assms(1)] that by simp
  show "broker_inv S s0 b'" if "b' = stop b"
    using assms(1) that by (auto simp: broker_inv_def stop_def sequential_def)
  show "broker_inv S s0 b'" if "worker_step S b b'"
    by (rule inv_worker [OF assms(1) that])
qed

lemma inv_reachable: "broker_reachable S s0 b \<Longrightarrow> broker_inv S s0 b"
  by (induction rule: broker_reachable.induct) (auto intro: inv_start inv_step)

section \<open>Progress\<close>

text \<open>What the worker still has to do.\<close>

definition work_left :: "('q, 'r, 's) broker \<Rightarrow> nat" where
  "work_left b = 2 * length (bk_queue b) + (if bk_running b = None then 0 else 1) + (if bk_worker_done b then 0 else 1)"

lemma worker_decreases: "worker_step S b b' \<Longrightarrow> work_left b' < work_left b"
  by (elim worker_stepE) (auto simp: work_left_def finish_job_def split: prod.splits)

lemma worker_keeps_stop:
  "worker_step S b b' \<Longrightarrow> bk_stop_requested b' = bk_stop_requested b \<and> bk_requests b' = bk_requests b"
  by (elim worker_stepE) (auto simp: finish_job_def split: prod.splits)

text \<open>The worker is stuck only when it has left, or when it waits with nothing to do and no one has
  asked it to stop.\<close>

lemma worker_can_step:
  "(\<exists>b'. worker_step S b b') \<longleftrightarrow>
     bk_running b \<noteq> None \<or> \<not> bk_worker_done b \<and> (bk_queue b \<noteq> [] \<or> bk_stop_requested b)"
  by (cases "bk_running b"; cases "bk_queue b") (auto simp: worker_step_iff ex_disj_distrib)

lemma worker_stuck:
  assumes "broker_inv S s0 b" "\<nexists>b'. worker_step S b b'"
  shows "pending b = [] \<and> (bk_worker_done b \<or> \<not> bk_stop_requested b)"
proof -
  have "bk_running b = None" "bk_worker_done b \<or> bk_queue b = [] \<and> \<not> bk_stop_requested b"
    using assms(2) by (simp_all add: worker_can_step)
  then show ?thesis using assms(1) by (auto simp: broker_inv_def pending_def)
qed

lemma worker_drains:
  assumes "broker_inv S s0 b"
  shows "\<exists>b'. (worker_step S)\<^sup>*\<^sup>* b b' \<and> broker_inv S s0 b' \<and> (\<nexists>b''. worker_step S b' b'') \<and>
    bk_stop_requested b' = bk_stop_requested b \<and> bk_requests b' = bk_requests b"
  using assms
proof (induction "work_left b" arbitrary: b rule: less_induct)
  case less
  show ?case
  proof (cases "\<exists>b1. worker_step S b b1")
    case True
    then obtain b1 where b1: "worker_step S b b1" by blast
    from less.hyps [OF worker_decreases [OF b1] inv_worker [OF less.prems b1]] worker_keeps_stop [OF b1] b1
    show ?thesis by (metis converse_rtranclp_into_rtranclp)
  qed (use less.prems in blast)
qed

lemma answered_ids:
  assumes "broker_inv S s0 b" "pending b = []"
  shows "distinct (map fst (bk_answers b))" "set (map fst (bk_answers b)) = {..<length (bk_requests b)}"
proof -
  have m: "mset (map fst (bk_answers b)) = mset [0..<length (bk_requests b)]"
    using assms by (simp add: broker_inv_def)
  show "distinct (map fst (bk_answers b))" using m by (metis distinct_upt mset_eq_imp_distinct_iff)
  show "set (map fst (bk_answers b)) = {..<length (bk_requests b)}"
    using mset_eq_setD [OF m] by (simp add: atLeast_upt lessThan_atLeast0)
qed

section \<open>Any service\<close>

text \<open>C4. The broker is the sequential service: in every state any interleaving of connection threads,
  worker and destructor can reach, the queue is within its bound, no job is answered twice or lost,
  and there is an order of submission in which the jobs handled so far, run one at a time from the
  initial runtime, give exactly the answers that are not refusals and the runtime's present state.\<close>

theorem broker_is_sequential:
  assumes "broker_reachable S s0 b"
  shows "length (bk_queue b) \<le> sv_limit S \<and>
     mset (map fst (bk_answers b)) + mset (pending b) = mset [0..<length (bk_requests b)] \<and>
     (\<exists>served outs. sorted_wrt (<) (served @ pending b) \<and>
        run_all (sv_handle S) (map (\<lambda>i. bk_requests b ! i) served) s0 = (outs, bk_runtime b) \<and>
        set (zip served outs) \<subseteq> set (bk_answers b) \<and>
        (\<forall>a \<in> set (bk_answers b). refusal S a \<or> a \<in> set (zip served outs)))"
  using inv_reachable [OF assms] unfolding broker_inv_def sequential_iff by blast

text \<open>C5. A stop drains the broker: from every reachable state in which the stop was requested, every
  worker step leaves less to do, the worker gets as far as leaving, and then every job ever
  submitted has exactly one answer. Nothing waits for ever, whatever was queued when the stop came.\<close>

theorem stop_drains_broker:
  assumes "broker_reachable S s0 b" "bk_stop_requested b"
  shows "(\<exists>b'. (worker_step S)\<^sup>*\<^sup>* b b' \<and> bk_worker_done b' \<and>
       distinct (map fst (bk_answers b')) \<and> set (map fst (bk_answers b')) = {..<length (bk_requests b)}) \<and>
     (\<forall>b'. worker_step S b b' \<longrightarrow> work_left b' < work_left b)"
proof -
  obtain b' where b': "(worker_step S)\<^sup>*\<^sup>* b b'" "broker_inv S s0 b'" "\<nexists>b''. worker_step S b' b''"
      "bk_stop_requested b'" "bk_requests b' = bk_requests b"
    using worker_drains [OF inv_reachable [OF assms(1)]] assms(2) by auto
  have "pending b' = []" "bk_worker_done b'" using worker_stuck [OF b'(2,3)] b'(4) by auto
  then show ?thesis using b' answered_ids [OF b'(2)] worker_decreases by metis
qed

text \<open>A predicate on the runtime that every job keeps holds in every reachable state.\<close>

locale kept_service =
  fixes S :: "('q, 'r, 's) service" and good :: "'s \<Rightarrow> bool"
  assumes serve_keeps: "good s \<Longrightarrow> good (snd (sv_handle S q s))"
begin

lemma run_all_keeps: "good s \<Longrightarrow> good (snd (run_all (sv_handle S) qs s))"
proof (induction qs arbitrary: s)
  case (Cons q qs)
  obtain r s' where h: "sv_handle S q s = (r, s')" by (cases "sv_handle S q s")
  have "good s'" using serve_keeps [OF Cons.prems, of q] h by simp
  from Cons.IH [OF this] show ?case by (auto simp: h split: prod.splits)
qed simp

lemma reachable_good:
  assumes "broker_reachable S s0 b" "good s0"
  shows "good (bk_runtime b)"
proof -
  obtain served outs where "run_all (sv_handle S) (map (\<lambda>i. bk_requests b ! i) served) s0 = (outs, bk_runtime b)"
    using inv_reachable [OF assms(1)] unfolding broker_inv_def sequential_iff by blast
  then show ?thesis using run_all_keeps [OF assms(2)] by (metis snd_conv)
qed

end

section \<open>The stage's broker\<close>

text \<open>A job of the stage: the request, with what its handling will measure and draw.\<close>

record 'g stage_job =
  jb_request :: http_request
  jb_fresh :: 'g
  jb_entropy :: "32 word"
  jb_measurement :: measurement
  jb_rpc_ms :: f64

definition stage_service ::
    "fpu \<Rightarrow> number_io \<Rightarrow> string option \<Rightarrow> string option \<Rightarrow> stage_config \<Rightarrow> ('w, 'g) runtime_env \<Rightarrow> 'w loaded_runtime \<Rightarrow>
     ('g stage_job, http_response, 'g session_table \<times> link) service" where
  "stage_service F io queue_size chaining cfg env rt =
     \<lparr>sv_limit = nat (max 1 (env_int queue_size 1)),
      sv_handle = (\<lambda>j. handle_forward_binary F io chaining cfg
        (forward env rt (jb_fresh j) (jb_entropy j) (jb_measurement j)) (post_to_url (sc_next_stage_url cfg))
        (jb_rpc_ms j) (jb_request j)),
      sv_stopping_reply = make_json_response 503 ''Service Unavailable''
        (http_error_json ''native forward broker is stopping''),
      sv_full_reply = make_json_response 429 ''Too Many Requests'' (http_error_json ''native forward queue is full'')\<rparr>"

text \<open>Handling a frame touches the runtime only through its \<open>forward\<close>.\<close>

lemma on_runtime_keeps:
  assumes "keepsA P m"
  shows "keepsA (\<lambda>x. P (fst x)) (on_runtime m)"
  using assms by (auto simp: keepsA_def on_runtime_def split: prod.splits)

lemma on_next_keeps: "keepsA (\<lambda>x. P (fst x)) (on_next m)"
  by (auto simp: keepsA_def on_next_def split: prod.splits)

lemma handle_forward_keeps:
  assumes "\<And>q. keepsA P (fwd q)" "P (fst x)"
  shows "P (fst (snd (handle_forward_binary F io env cfg fwd post rpc_ms rq x)))"
proof -
  have catch: "P (fst (snd (catchA m h x)))" if "keepsA (\<lambda>x. P (fst x)) m" for m h
    using that [unfolded keepsA_def, rule_format, of x] assms(2)
    by (cases "m x") (auto simp: catchA_def split: sum.splits)
  show ?thesis
    unfolding handle_forward_binary_def chain_output_def Let_def
    by (intro catch keeps_intros on_runtime_keeps on_next_keeps assms(1))
qed

lemma keepsA_forward_sessions:
  fixes env :: "('w, 'g) runtime_env" and rt :: "'w loaded_runtime" and fresh :: 'g
  shows "keepsA (\<lambda>ss. iteration_ok env \<longrightarrow> sessions_ok env rt ss) (forward env rt fresh entropy me rq)"
  unfolding keepsA_def
  by (intro allI impI) (rule forward_sessions_kept [THEN conjunct1], simp_all)

interpretation stage: kept_service "stage_service F io queue_size chaining cfg env rt"
    "\<lambda>x :: 'g session_table \<times> link. iteration_ok env \<longrightarrow> sessions_ok env rt (fst x)"
  for F io queue_size chaining cfg and env :: "('w, 'g) runtime_env" and rt :: "'w loaded_runtime"
proof
  fix s :: "'g session_table \<times> link" and q
  assume good: "iteration_ok env \<longrightarrow> sessions_ok env rt (fst s)"
  note kept = handle_forward_keeps [where P = "\<lambda>ss. iteration_ok env \<longrightarrow> sessions_ok env rt ss", OF keepsA_forward_sessions]
  show "iteration_ok env \<longrightarrow> sessions_ok env rt (fst (snd (sv_handle (stage_service F io queue_size chaining cfg env rt) q s)))"
    using kept [where x = s] good by (simp add: stage_service_def)
qed

text \<open>C17. However the connection threads, the worker and the destructor interleave, and whatever
  requests they bring, the stage's session table is well formed in every state in between: distinct
  keys, never more sessions than the bound, every executor in its invariant.\<close>

theorem stage_broker_keeps_sessions:
  assumes "broker_reachable (stage_service F io queue_size chaining cfg env rt) (ss, next) b"
    and "iteration_ok env" "sessions_ok env rt ss"
  shows "sessions_ok env rt (fst (bk_runtime b))"
  using stage.reachable_good [OF assms(1)] assms(2,3) by simp

section \<open>Samples\<close>

definition sample_job :: "nat stage_job" where
  "sample_job = \<lparr>jb_request = \<lparr>hr_method = ''POST'', hr_path = ''/forward-binary'', hr_headers = Map.empty, hr_body = []\<rparr>,
     jb_fresh = 0, jb_entropy = 0, jb_measurement = sample_me, jb_rpc_ms = f64_zero\<rparr>"

definition sample_service :: "(nat stage_job, http_response, nat session_table \<times> link) service" where
  "sample_service = stage_service sample_fpu sample_io (Some ''1'') None default_stage_config sample_env (sample_stage False)"

definition idle_link :: link where
  "idle_link = \<lparr>ln_open = None, ln_connects = [], ln_sent = []\<rparr>"

lemma sample_limit: "sv_limit sample_service = 1"
  by (simp add: sample_service_def stage_service_def env_int_def std_stoi_def skip_ws_def is_space_def is_digit_def
      read_nat_def digit_value_def)

definition stopped_sample :: "(nat stage_job, http_response, nat session_table \<times> link) broker" where
  "stopped_sample = stop (submit sample_service sample_job (submit sample_service sample_job (new_broker ([], idle_link))))"

lemma stopped_sample_reachable: "broker_reachable sample_service ([], idle_link) stopped_sample"
  unfolding stopped_sample_def
  by (rule broker_reachable.step [OF broker_reachable.step [OF broker_reachable.step [OF broker_reachable.start
      broker_step.submitted] broker_step.submitted] broker_step.stopped])

lemma stopped_sample_state: "bk_queue stopped_sample = [0]" "length (bk_requests stopped_sample) = 2" "bk_stop_requested stopped_sample"
  by (simp_all add: stopped_sample_def stop_def submit_def new_broker_def sample_limit)

theorem broker_is_sequential_witness:
  "length (bk_queue stopped_sample) \<le> 1 \<and> mset (map fst (bk_answers stopped_sample)) + mset (pending stopped_sample) = mset [0, 1]"
  using broker_is_sequential [OF stopped_sample_reachable] stopped_sample_state(2)
  by (simp add: sample_limit upt_rec)

theorem stop_drains_broker_witness:
  "\<exists>b'. (worker_step sample_service)\<^sup>*\<^sup>* stopped_sample b' \<and> bk_worker_done b' \<and> set (map fst (bk_answers b')) = {..<2}"
  using stop_drains_broker [OF stopped_sample_reachable stopped_sample_state(3)] stopped_sample_state(2)
  by auto

theorem stage_broker_keeps_sessions_witness:
  "sessions_ok sample_env (sample_stage False) (fst (bk_runtime stopped_sample))"
  using stage_broker_keeps_sessions [OF stopped_sample_reachable [unfolded sample_service_def] sample_iteration_ok sample_sessions_ok] .

end
