(* ===== verification/Gateway_Server.thy ===== *)
theory Gateway_Server
  imports Stage_Server Stage_Map
begin

text \<open>
  The gateway's HTTP server (\<open>dli_gateway_cpp/src/server.cpp\<close>): the fields it looks up in the body of
  a \<open>/generate\<close> request, the configuration of the run it starts with them, the pages, the routes and
  the connection loop. The GGUF inspection, the tokenizer, the clock and the network are arguments.
\<close>

section \<open>Fields of a request\<close>

text \<open>\<open>-?\d+(?:\.\d+)?(?:[eE][-+]?\d+)?\<close>: unlike the stages' reader this one wants a digit on both
  sides of the dot, and leaves the dot unread otherwise.\<close>

definition match_fraction :: "string \<Rightarrow> string \<times> string" where
  "match_fraction s =
     (case s of
        [] \<Rightarrow> ([], s)
      | c # r \<Rightarrow> if c = CHR ''.'' \<and> takeWhile is_digit r \<noteq> []
                 then (c # takeWhile is_digit r, dropWhile is_digit r) else ([], s))"

definition match_decimal :: matcher where
  "match_decimal s =
     (case match_int s of
        None \<Rightarrow> None
      | Some (m, r) \<Rightarrow>
          (case match_fraction r of (f, r') \<Rightarrow>
             case match_exponent r' of (e, r'') \<Rightarrow> Some (m @ f @ e, r'')))"

definition max_new_tokens_ceiling :: int where
  "max_new_tokens_ceiling = 2 ^ 20"

definition parse_int_field_or_default :: "string \<Rightarrow> string \<Rightarrow> int \<Rightarrow> int \<Rightarrow> int \<Rightarrow> int" where
  "parse_int_field_or_default json field_name default_value min_value max_value =
     (case regex_search (match_field field_name match_int) json of
        None \<Rightarrow> default_value
      | Some (t, _) \<Rightarrow>
          (case stoi t of
             None \<Rightarrow> default_value
           | Some parsed \<Rightarrow> max min_value (min max_value parsed)))"

definition parse_double_field :: "number_io \<Rightarrow> string \<Rightarrow> string \<Rightarrow> f64 option" where
  "parse_double_field io json field_name =
     (case regex_search (match_field field_name match_decimal) json of
        None \<Rightarrow> None
      | Some (t, _) \<Rightarrow> stod io t)"

text \<open>The captured text is returned as it stands, with its escapes.\<close>

definition parse_string_field :: "string \<Rightarrow> string \<Rightarrow> string option" where
  "parse_string_field json field_name =
     (case regex_search (match_field field_name match_string) json of
        None \<Rightarrow> None
      | Some (t, _) \<Rightarrow> Some t)"

definition parse_bool_field_or_default :: "string \<Rightarrow> string \<Rightarrow> bool \<Rightarrow> bool" where
  "parse_bool_field_or_default json field_name default_value =
     (case regex_search (match_field field_name match_bool) json of
        None \<Rightarrow> default_value
      | Some (t, _) \<Rightarrow> t = ''true'')"

definition parse_string_field_or_default :: "string \<Rightarrow> string \<Rightarrow> string \<Rightarrow> string" where
  "parse_string_field_or_default json field_name default_value =
     or_default default_value (parse_string_field json field_name)"

section \<open>A run for a request\<close>

definition request_prompt :: "string \<Rightarrow> string" where
  "request_prompt body_text = or_default [] (parse_string_field body_text ''prompt'')"

definition request_loop_config :: "number_io \<Rightarrow> gateway_config \<Rightarrow> string \<Rightarrow> generation_loop_config" where
  "request_loop_config io cfg body_text =
     (let max_new = parse_int_field_or_default body_text ''max_new_tokens'' 2 0 max_new_tokens_ceiling;
          min_new = min max_new (parse_int_field_or_default body_text ''min_new_tokens'' 0 0 max_new_tokens_ceiling);
          temperature = dmax f64_zero (or_default f64_zero (parse_double_field io body_text ''temperature''));
          top_p = parse_double_field io body_text ''top_p'';
          seed_field = parse_double_field io body_text ''seed''
      in \<lparr>first_stage_url = gc_first_stage_url cfg, model_path = gc_model_path cfg,
          max_new_tokens = max_new, min_new_tokens = min_new,
          apply_chat_template = parse_bool_field_or_default body_text ''apply_chat_template'' True,
          gl_temperature = temperature,
          gl_top_k = parse_int_field_or_default body_text ''top_k'' 0 0 max_new_tokens_ceiling,
          gl_has_top_p = (top_p \<noteq> None), gl_top_p = or_default 0x3FF0000000000000 top_p,
          gl_has_seed = (seed_field \<noteq> None), gl_seed = i64_of_f64 io (or_default f64_zero seed_field),
          partitions = gc_partitions cfg,
          persistent_sessions_enabled = parse_bool_field_or_default body_text ''persistent_sessions_enabled'' False,
          native_stage_chaining_enabled = parse_bool_field_or_default body_text ''native_stage_chaining_enabled'' False,
          activation_precision = parse_string_field_or_default body_text ''activation_precision'' ''fp32'',
          metadata_level = parse_string_field_or_default body_text ''metadata_level'' ''debug''\<rparr>)"

definition generate_loop_json ::
    "fpu \<Rightarrow> number_io \<Rightarrow> gateway_config \<Rightarrow> tokenizer \<Rightarrow> 'n sender \<Rightarrow> string \<Rightarrow> f64 \<Rightarrow> http_request \<Rightarrow> 'n \<Rightarrow> string \<times> 'n" where
  "generate_loop_json F io cfg tk send rid total_latency rq n =
     (let body_text = string_of_bytes (hr_body rq);
          loop_config = request_loop_config io cfg body_text
      in case run_stub_generation F io loop_config tk send rid total_latency (request_prompt body_text)
                (max_new_tokens loop_config) n of
           (r, n') \<Rightarrow> (generation_loop_result_json F io r (length (hr_body rq)), n'))"

section \<open>Pages\<close>

definition gateway_health_json :: "gateway_config \<Rightarrow> string" where
  "gateway_health_json cfg =
     ''{'' @ json_key ''ok'' @ ''true,'' @ json_key ''service'' @ json_str (gc_service_name cfg) @ '',''
     @ json_key ''runtime'' @ json_str ''cpp-native-stub'' @ '','' @ json_key ''status'' @ json_str ''stub'' @ '',''
     @ json_key ''protocol'' @ json_str ''http-json+dli2'' @ ''}''"

definition string_vector_json :: "string list \<Rightarrow> string" where
  "string_vector_json values = ''['' @ comma_texts (map json_str values) @ '']''"

definition assignment_json :: "partition_tensor_assignment \<Rightarrow> string" where
  "assignment_json a =
     ''{'' @ json_key ''partition_id'' @ json_str (assigned_partition_id a) @ '',''
     @ json_key ''tensor_count'' @ show_nat (length (tensor_names a)) @ '',''
     @ json_key ''missing_required_names'' @ string_vector_json (missing_required_names a) @ '',''
     @ json_key ''missing_required_prefixes'' @ string_vector_json (missing_required_prefixes a) @ ''}''"

definition partition_tensor_assignment_json :: "(string \<Rightarrow> gguf_inspection result) \<Rightarrow> gateway_config \<Rightarrow> string" where
  "partition_tensor_assignment_json inspect cfg =
     (if gc_model_path cfg = [] then ''[]''
      else case inspect (gc_model_path cfg) of
        Inl e \<Rightarrow> ''[{'' @ json_key ''error'' @ json_str e @ ''}]''
      | Inr inspection \<Rightarrow>
          ''['' @ comma_texts (map (\<lambda>p. assignment_json (assign_tensors_to_partition inspection
             (build_llama_tensor_name_plan (partition_id p) (components p)))) (gc_partitions cfg)) @ '']'')"

definition partition_node_json :: "partition_node \<Rightarrow> string" where
  "partition_node_json p =
     ''{'' @ json_key ''stage_id'' @ show_int (stage_id p) @ '',''
     @ json_key ''partition_id'' @ json_str (partition_id p) @ '',''
     @ json_key ''service_name'' @ json_str (service_name p) @ '',''
     @ json_key ''physical_node'' @ json_str (physical_node p) @ '',''
     @ json_key ''partition_file'' @ json_str (partition_file p) @ '',''
     @ json_key ''native_partition_file'' @ json_str (native_partition_file p) @ '',''
     @ json_key ''backend'' @ json_str (backend p) @ '',''
     @ json_key ''next_stage_url'' @ json_str (next_stage_url p) @ '',''
     @ json_key ''components'' @ ''{''
     @ json_key ''embedding'' @ json_bool (embedding (components p)) @ '',''
     @ json_key ''layers'' @ int_vector_json (layers (components p)) @ '',''
     @ json_key ''norm'' @ json_bool (norm (components p)) @ '',''
     @ json_key ''lm_head'' @ json_bool (lm_head (components p)) @ ''}}''"

definition partition_graph_json :: "partition_node list \<Rightarrow> string" where
  "partition_graph_json ps = ''['' @ comma_texts (map partition_node_json ps) @ '']''"

definition gateway_config_json :: "(string \<Rightarrow> gguf_inspection result) \<Rightarrow> gateway_config \<Rightarrow> string" where
  "gateway_config_json inspect cfg =
     (let v = gc_partition_validation cfg
      in ''{'' @ json_key ''ok'' @ ''true,'' @ json_key ''service'' @ json_str (gc_service_name cfg) @ '',''
       @ json_key ''runtime'' @ json_str ''cpp-native-stub'' @ '','' @ json_key ''status'' @ json_str ''stub'' @ '',''
       @ json_key ''port'' @ show_int (gc_port cfg) @ '',''
       @ json_key ''config_path'' @ json_str (gc_config_path cfg) @ '',''
       @ json_key ''num_layers'' @ show_int (gc_num_layers cfg) @ '',''
       @ json_key ''model_name'' @ json_str (gc_model_name cfg) @ '',''
       @ json_key ''model_path'' @ json_str (gc_model_path cfg) @ '',''
       @ json_key ''first_stage_url'' @ json_str (gc_first_stage_url cfg) @ '',''
       @ json_key ''partition_validation'' @ ''{''
       @ json_key ''valid'' @ json_bool (valid v) @ '',''
       @ json_key ''error'' @ json_str (validation_error v) @ '',''
       @ json_key ''assigned_layer_count'' @ show_int (assigned_layer_count v) @ '',''
       @ json_key ''embedding_owner_count'' @ show_int (embedding_owner_count v) @ '',''
       @ json_key ''lm_head_owner_count'' @ show_int (lm_head_owner_count v) @ '',''
       @ json_key ''terminal_partition_id'' @ json_str (terminal_partition_id v) @ ''},''
       @ json_key ''partition_count'' @ show_nat (length (gc_partitions cfg)) @ '',''
       @ json_key ''partition_graph'' @ partition_graph_json (gc_partitions cfg) @ '',''
       @ json_key ''partition_tensor_assignment'' @ partition_tensor_assignment_json inspect cfg @ '',''
       @ json_key ''routes'' @ ''['' @ json_str ''GET /health'' @ '','' @ json_str ''GET /config'' @ '',''
       @ json_str ''POST /generate'' @ '']}'')"

definition gateway_not_found_json :: "http_request \<Rightarrow> string" where
  "gateway_not_found_json rq =
     ''{'' @ json_key ''ok'' @ ''false,'' @ json_key ''error'' @ json_str ''route not found'' @ '',''
     @ json_key ''method'' @ json_str (hr_method rq) @ '','' @ json_key ''path'' @ json_str (hr_path rq) @ ''}''"

section \<open>Routes and connections\<close>

text \<open>\<open>response_json.find("\"ok\":false")\<close>: the status is decided from the text of the reply.\<close>

definition failure_mark :: string where
  "failure_mark = json_key ''ok'' @ ''false''"

definition handle_generate ::
    "fpu \<Rightarrow> number_io \<Rightarrow> gateway_config \<Rightarrow> tokenizer \<Rightarrow> 'n sender \<Rightarrow> string \<Rightarrow> f64 \<Rightarrow> http_request \<Rightarrow> 'n \<Rightarrow>
     http_response \<times> 'n" where
  "handle_generate F io cfg tk send rid total_latency rq n =
     (case generate_loop_json F io cfg tk send rid total_latency rq n of
        (json, n') \<Rightarrow>
          (if find_sub failure_mark json \<noteq> None then make_json_response 502 ''Bad Gateway'' json
           else make_json_response 200 ''OK'' json, n'))"

definition gateway_handle_request ::
    "(string \<Rightarrow> gguf_inspection result) \<Rightarrow> gateway_config \<Rightarrow> (http_request \<Rightarrow> 'n \<Rightarrow> http_response \<times> 'n) \<Rightarrow>
     http_request \<Rightarrow> 'n \<Rightarrow> http_response \<times> 'n" where
  "gateway_handle_request inspect cfg gen rq n =
     (if hr_method rq = ''GET'' \<and> hr_path rq = ''/health''
      then (make_json_response 200 ''OK'' (gateway_health_json cfg), n)
      else if hr_method rq = ''GET'' \<and> hr_path rq = ''/config''
      then (make_json_response 200 ''OK'' (gateway_config_json inspect cfg), n)
      else if hr_method rq = ''POST'' \<and> hr_path rq = ''/generate'' then gen rq n
      else (make_json_response 404 ''Not Found'' (gateway_not_found_json rq), n))"

text \<open>The loop on one connection is the stage server's, around other handlers; generations of all
  connections exclude each other, so each is one step on the network.\<close>

definition gateway_connection ::
    "(string \<Rightarrow> gguf_inspection result) \<Rightarrow> gateway_config \<Rightarrow> (http_request \<Rightarrow> 'n \<Rightarrow> http_response \<times> 'n) \<Rightarrow>
     nat \<Rightarrow> recv_result list \<Rightarrow> 'n \<Rightarrow> (byte list list \<times> 'n) option" where
  "gateway_connection inspect cfg gen steps rs n =
     serve_connection (gateway_handle_request inspect cfg gen) steps rs n"

definition make_gateway_server :: "gateway_config \<Rightarrow> tokenizer option \<Rightarrow> (gateway_config \<times> tokenizer) result" where
  "make_gateway_server cfg tk =
     (case tk of None \<Rightarrow> Inl ''GatewayServer requires a tokenizer'' | Some t \<Rightarrow> Inr (cfg, t))"

section \<open>What a client asks for\<close>

text \<open>The body the user interface posts, with the prompt written as JSON text.\<close>

definition client_body :: "string \<Rightarrow> int \<Rightarrow> int \<Rightarrow> string \<Rightarrow> int \<Rightarrow> string" where
  "client_body prompt n m temp k =
     ''{'' @ json_key ''prompt'' @ json_str prompt @ '',''
     @ json_key ''max_new_tokens'' @ show_int n @ '',''
     @ json_key ''min_new_tokens'' @ show_int m @ '',''
     @ json_key ''temperature'' @ temp @ '',''
     @ json_key ''top_k'' @ show_int k @ ''}''"

lemma gateway_keys [read_simps]:
  "plain_key ''prompt''" "plain_key ''max_new_tokens''" "plain_key ''ok''"
  by (simp_all add: plain_key_def is_key_char_def)

lemmas request_defs = parse_int_field_or_default_def parse_double_field_def parse_string_field_def
  parse_bool_field_or_default_def parse_string_field_or_default_def

lemma escape_char_length: "length (escape_char c) = 1 \<longleftrightarrow> escape_char c = [c]"
  by (simp add: escape_char_def)

lemma escape_char_longer: "1 \<le> length (escape_char c)"
  by (cases c rule: escape_char_cases) auto

lemma json_escape_id: "json_escape s = s \<longleftrightarrow> list_all (\<lambda>c. escape_char c = [c]) s"
proof (induction s)
  case (Cons c s)
  have longer: "length s \<le> length (json_escape s)" for s
  proof (induction s)
    case (Cons a s)
    then show ?case using escape_char_longer [of a] by (simp add: json_escape_simps)
  qed simp
  have "escape_char c = [c]" if e: "escape_char c @ json_escape s = c # s"
  proof -
    have "length (escape_char c) + length (json_escape s) = 1 + length s"
      using arg_cong [OF e, of length] by simp
    with longer [of s] escape_char_longer [of c] have "length (escape_char c) = 1" by linarith
    then show ?thesis by (simp only: escape_char_length)
  qed
  with Cons show ?case by (auto simp: json_escape_simps)
qed (simp add: json_escape_simps)

lemma client_body_read:
  assumes "int32_range n" "int32_range m" "int32_range k" "number_text temp"
  shows "parse_string_field (client_body prompt n m temp k) ''prompt'' = Some (json_escape prompt)"
    "parse_int_field_or_default (client_body prompt n m temp k) ''max_new_tokens'' d lo hi = max lo (min hi n)"
    "parse_int_field_or_default (client_body prompt n m temp k) ''min_new_tokens'' d lo hi = max lo (min hi m)"
    "parse_int_field_or_default (client_body prompt n m temp k) ''top_k'' d lo hi = max lo (min hi k)"
    "parse_double_field io (client_body prompt n m temp k) ''top_p'' = None"
    "parse_double_field io (client_body prompt n m temp k) ''seed'' = None"
    "parse_bool_field_or_default (client_body prompt n m temp k) ''apply_chat_template'' b = b"
    "parse_bool_field_or_default (client_body prompt n m temp k) ''native_stage_chaining_enabled'' b = b"
  using assms by (simp_all add: client_body_def request_defs search_simps gateway_keys)



section \<open>The status of a reply\<close>

text \<open>The mark is a field search in disguise: where no field \<open>ok\<close> holds \<open>false\<close>, it does not occur.\<close>

lemma regex_search_None: "regex_search m s = None \<Longrightarrow> m (drop i s) = None"
proof (induction s arbitrary: i)
  case (Cons c s)
  then show ?case by (cases i) (auto simp: regex_search.simps split: option.splits)
qed (simp add: regex_search.simps)

lemma no_failure_mark:
  assumes "search_field ''ok'' (match_literal ''false'') s = None"
  shows "find_sub failure_mark s = None"
  unfolding find_sub_None
proof (intro allI notI)
  fix pre post
  assume "s = pre @ failure_mark @ post"
  with regex_search_None [OF assms, of "length pre"]
  have "match_field ''ok'' (match_literal ''false'') (failure_mark @ post) = None" by simp
  then show False
    by (simp add: failure_mark_def match_field_key read_simps skip_ws_def is_space_def match_literal_def)
qed

text \<open>No printed number has a quote in it.\<close>

definition quoteless :: "number_io \<Rightarrow> bool" where
  "quoteless io \<longleftrightarrow> (\<forall>d. quote \<notin> set (stream_f64 io d))"

lemma search_stream: "quoteless io \<Longrightarrow> search_field key val (stream_f64 io d @ s) = search_field key val s"
  by (rule search_skip_plain) (simp add: quoteless_def)

lemma search_ints: "search_field key val (int_vector_json xs @ s) = search_field key val s"
  using search_skip_plain [of "int_vector_json xs"] by (simp add: int_vector_json_def comma_ints_no)

lemma field_other_key:
  "\<lbrakk>plain_key k; k \<noteq> ''ok''\<rbrakk> \<Longrightarrow> search_field ''ok'' val (json_key k @ s) = search_field ''ok'' val s"
  by (simp add: search_key read_simps)

lemma search_step:
  assumes "quoteless io"
  shows "search_field ''ok'' val (step_json io t @ s) = search_field ''ok'' val s"
  using assms
  by (simp add: step_json_def field_other_key search_stream search_skip_char search_string search_int gateway_keys
      plain_key_def is_key_char_def)

lemma search_comma_texts:
  assumes "\<And>x s. x \<in> set xs \<Longrightarrow> search_field key val (x @ s) = search_field key val s"
  shows "search_field key val (comma_texts xs @ s) = search_field key val s"
  using assms by (induction xs rule: comma_texts.induct) (simp_all add: search_skip_char)

lemma failure_mark_reply:
  assumes "quoteless io"
  shows "find_sub failure_mark (generation_loop_result_json F io r n) = None \<longleftrightarrow> gr_ok r"
proof (cases "gr_ok r")
  case True
  have steps: "search_field ''ok'' val (comma_texts (map (step_json io) ts) @ s) = search_field ''ok'' val s" for val ts s
    by (rule search_comma_texts) (auto simp: search_step [OF assms])
  have "search_field ''ok'' (match_literal ''false'') (generation_loop_result_json F io r n) = None"
    using assms True unfolding generation_loop_result_json_def Let_def
    by (simp add: search_key field_other_key search_stream search_skip_char search_string search_int search_ints
        search_bool search_empty steps gateway_keys plain_key_def is_key_char_def
        json_bool_def match_literal_def skip_ws_def is_space_def)
  then show ?thesis using True by (simp add: no_failure_mark)
next
  case False
  then have "\<exists>post. generation_loop_result_json F io r n = ''{'' @ failure_mark @ post"
    by (simp add: generation_loop_result_json_def Let_def failure_mark_def json_bool_def)
  then have "find_sub failure_mark (generation_loop_result_json F io r n) \<noteq> None"
    unfolding find_sub_None by blast
  then show ?thesis using False by simp
qed

text \<open>C20. Every request is answered, and the status tells the outcome: 502 exactly for a run that
  failed, whatever the prompt, the generated text or the stages' metadata contain, 404 exactly for
  an unknown route, 200 otherwise. Only a generation touches the network.\<close>

theorem reply_status_tells_outcome:
  assumes "quoteless io"
  shows "(case gateway_handle_request inspect cfg (handle_generate F io cfg tk send rid latency) rq n of
     (resp, n') \<Rightarrow>
       if hr_method rq = ''POST'' \<and> hr_path rq = ''/generate''
       then (let body_text = string_of_bytes (hr_body rq); loop_config = request_loop_config io cfg body_text;
                 (r, net) = run_stub_generation F io loop_config tk send rid latency (request_prompt body_text)
                      (max_new_tokens loop_config) n
             in n' = net \<and> hp_status_code resp = (if gr_ok r then 200 else 502) \<and>
                string_of_bytes (hp_body resp) = generation_loop_result_json F io r (length (hr_body rq)))
       else n' = n \<and> (hp_status_code resp = 404 \<or> hp_status_code resp = 200) \<and>
            (hp_status_code resp = 200 \<longleftrightarrow> hr_method rq = ''GET'' \<and> hr_path rq \<in> {''/health'', ''/config''}))"
  using failure_mark_reply [OF assms]
  by (auto simp: gateway_handle_request_def handle_generate_def generate_loop_json_def make_json_response_def Let_def
      simp del: not_None_eq split: prod.splits)

definition sample_generate :: http_request where
  "sample_generate = \<lparr>hr_method = ''POST'', hr_path = ''/generate'', hr_headers = Map.empty,
     hr_body = bytes_of_string (client_body ''hi'' 4 0 ''0.8'' 40)\<rparr>"

definition no_tokenizer :: tokenizer where
  "no_tokenizer = \<lparr>tk_tokenize = (\<lambda>_. Inl ''no vocabulary''), tk_detokenize = (\<lambda>_. Inr []), tk_backend_name = ''none''\<rparr>"

theorem reply_status_tells_outcome_witness:
  "hp_status_code (fst (gateway_handle_request (\<lambda>_. Inl []) default_gateway_config
     (handle_generate sample_fpu sample_io default_gateway_config no_tokenizer (\<lambda>_ _. throwA ''refused'') ''r1'' 0)
     sample_generate ())) = 502"
proof -
  have "quoteless sample_io" by (simp add: quoteless_def sample_io_def)
  moreover have "False"
    if "run_stub_generation sample_fpu sample_io cfg no_tokenizer send rid 0 prompt m n = (r, net)" "gr_ok r" for cfg send rid prompt m n r net
    using that by (auto simp: run_stub_generation_def generate_def no_tokenizer_def Let_def split: if_splits)
  ultimately show ?thesis
    using reply_status_tells_outcome [where io = sample_io and inspect = "\<lambda>_. Inl []" and cfg = default_gateway_config
        and F = sample_fpu and tk = no_tokenizer and send = "\<lambda>_ _. throwA ''refused''" and rid = "''r1''" and latency = 0
        and rq = sample_generate and n = "()"]
    by (fastforce simp: sample_generate_def Let_def split: prod.splits if_splits)
qed

end
