(* ===== verification/Stage_Map_Writer.thy ===== *)
theory Stage_Map_Writer
  imports Stage_Agreement
begin

text \<open>
  How the model controller (\<open>dli_tools_cpp/src/native_model_controller_tool.cpp\<close>) lays a model out:
  the layers split over the stages, the node names, the slug, and the \<open>stage_map.yaml\<close> it writes for
  the gateway and the stages to load.
\<close>

section \<open>Layout\<close>

text \<open>One iteration of the loop: the ranges so far and the cursor.\<close>

definition next_range :: "int \<Rightarrow> int \<Rightarrow> nat \<Rightarrow> int list list \<times> int \<Rightarrow> int list list \<times> int" where
  "next_range base remainder index = (\<lambda>(ranges, cursor).
     let size = base + (if int index < remainder then 1 else 0)
     in (ranges @ [[cursor..cursor + size - 1]], cursor + size))"

definition split_layers :: "int \<Rightarrow> int \<Rightarrow> int list list result" where
  "split_layers num_layers num_stages =
     (if num_layers \<le> 0 then Inl ''num_layers must be greater than zero''
      else if num_stages \<le> 0 then Inl ''num_stages must be greater than zero''
      else if num_stages > num_layers then Inl ''num_stages cannot be greater than num_layers''
      else Inr (fst (fold (next_range (num_layers div num_stages) (num_layers mod num_stages))
                       [0..<nat num_stages] ([], 0))))"

text \<open>\<open>std::isspace\<close> at both ends, not the blanks of the YAML readers.\<close>

definition trim_space_copy :: "string \<Rightarrow> string" where
  "trim_space_copy value = drop_trailing is_space (dropWhile is_space value)"

text \<open>\<open>std::getline(stream, item, ',')\<close>.\<close>

function split_commas :: "string \<Rightarrow> string list" where
  "split_commas s =
     (if s = [] then []
      else takeWhile (\<lambda>c. c \<noteq> CHR '','') s # split_commas (tl (dropWhile (\<lambda>c. c \<noteq> CHR '','') s)))"
  by auto
termination
  by (relation "measure length")
    (auto simp: less_le_trans [OF diff_less [OF zero_less_one] length_dropWhile_le] neq_Nil_conv
      le_imp_less_Suc [OF length_dropWhile_le] diff_le_self less_Suc_eq_le
      intro: order_trans [OF diff_le_self length_dropWhile_le] le_imp_less_Suc)

declare split_commas.simps [simp del]

definition parse_physical_nodes :: "string \<Rightarrow> int \<Rightarrow> string list" where
  "parse_physical_nodes raw_nodes num_stages =
     (let values = filter (\<lambda>item. item \<noteq> []) (map trim_space_copy (split_commas raw_nodes));
          filled = values @ map (\<lambda>i. ''dli-worker-'' @ show_nat (i + 1)) [length values..<nat num_stages]
      in take (nat num_stages) filled)"

text \<open>\<open>std::tolower\<close> in the C locale; the loop keeps the text written and whether it ends in a dash.\<close>

definition to_lower :: "char \<Rightarrow> char" where
  "to_lower c = (if 65 \<le> (of_char c :: nat) \<and> (of_char c :: nat) \<le> 90 then char_of ((of_char c :: nat) + 32) else c)"

definition slug_char :: "char \<Rightarrow> bool" where
  "slug_char c \<longleftrightarrow> (97 \<le> (of_char c :: nat) \<and> (of_char c :: nat) \<le> 122) \<or> is_digit c \<or>
     c = CHR ''.'' \<or> c = CHR ''_'' \<or> c = CHR ''-''"

definition slug_step :: "char \<Rightarrow> string \<times> bool \<Rightarrow> string \<times> bool" where
  "slug_step ch = (\<lambda>(out, last_dash).
     let lower = to_lower ch
     in if slug_char lower then (out @ [lower], lower = CHR ''-'')
        else if \<not> last_dash then (out @ [CHR ''-''], True)
        else (out, last_dash))"

definition slug_edge :: "char \<Rightarrow> bool" where
  "slug_edge c \<longleftrightarrow> c = CHR ''-'' \<or> c = CHR ''.'' \<or> c = CHR ''_''"

definition slugify :: "string \<Rightarrow> string" where
  "slugify value =
     (let out = drop_trailing slug_edge (dropWhile slug_edge (fst (fold slug_step value ([], False))))
      in if out = [] then ''model'' else out)"

section \<open>The stage map\<close>

abbreviation newline :: string where "newline \<equiv> [CHR 0x0A]"

text \<open>The lines joined; the code appends a line feed to each and takes the last one off.\<close>

definition yaml_int_list :: "int list \<Rightarrow> nat \<Rightarrow> string" where
  "yaml_int_list values indent =
     (let out = concat (map (\<lambda>v. replicate indent (CHR '' '') @ ''- '' @ show_int v @ newline) values)
      in if out \<noteq> [] \<and> last out = CHR 0x0A then butlast out else out)"

function strip_trailing_slashes :: "string \<Rightarrow> string" where
  "strip_trailing_slashes value =
     (if length value > 1 \<and> last value = CHR ''/'' then strip_trailing_slashes (butlast value) else value)"
  by auto
termination by (relation "measure length") auto

declare strip_trailing_slashes.simps [simp del]

definition stage_address :: "string \<Rightarrow> int \<Rightarrow> string" where
  "stage_address prefix sid = ''http://'' @ prefix @ ''-'' @ show_int sid @ '':8000/forward-binary''"

definition yaml_bool :: "bool \<Rightarrow> string" where
  "yaml_bool b = (if b then ''true'' else ''false'')"

definition stage_entry_text ::
    "string \<Rightarrow> string \<Rightarrow> int \<Rightarrow> string list \<Rightarrow> string \<Rightarrow> int list list \<Rightarrow> nat \<Rightarrow> string" where
  "stage_entry_text model_slug prefix num_stages physical_nodes model_root ranges index =
     (let stage_id = int index + 1
      in ''- stage_id: '' @ show_int stage_id @ newline
       @ ''  partition_id: partition-'' @ show_int stage_id @ newline
       @ ''  service_name: '' @ prefix @ ''-'' @ show_int stage_id @ newline
       @ ''  physical_node: '' @ physical_nodes ! index @ newline
       @ ''  partition_file: '' @ model_root @ ''/'' @ model_slug @ ''/stage_'' @ show_int stage_id @ ''.pt'' @ newline
       @ ''  native_partition_file: '' @ model_root @ ''/'' @ model_slug @ ''/partition-'' @ show_int stage_id
         @ ''.dli.gguf'' @ newline
       @ ''  backend: llama'' @ newline
       @ ''  components:'' @ newline
       @ ''    embedding: '' @ yaml_bool (stage_id = 1) @ newline
       @ ''    layers:'' @ newline
       @ yaml_int_list (ranges ! index) 4 @ newline
       @ ''    norm: '' @ yaml_bool (stage_id = num_stages) @ newline
       @ ''    lm_head: '' @ yaml_bool (stage_id = num_stages) @ newline
       @ ''  next_stage_url: ''
       @ (if stage_id < num_stages then stage_address prefix (stage_id + 1) else ''null'')
       @ newline @ newline)"

definition generate_stage_map ::
    "string \<Rightarrow> string \<Rightarrow> string \<Rightarrow> int \<Rightarrow> int \<Rightarrow> string \<Rightarrow> string \<Rightarrow> string list \<Rightarrow> string \<Rightarrow> string result" where
  "generate_stage_map model_name model_slug full_gguf_file num_layers num_stages gateway_service_name
       stage_service_prefix physical_nodes container_model_root =
     bindR (split_layers num_layers num_stages) (\<lambda>ranges.
     let model_root = strip_trailing_slashes container_model_root
     in Inr (''model_name: '' @ model_name @ newline
       @ ''model_slug: '' @ model_slug @ newline
       @ ''model_path: '' @ model_root @ ''/'' @ model_slug @ ''/'' @ full_gguf_file @ newline
       @ ''num_layers: '' @ show_int num_layers @ newline @ newline
       @ ''inference_gateway:'' @ newline
       @ ''  service_name: '' @ gateway_service_name @ newline
       @ ''  port: 8000'' @ newline
       @ ''  first_stage_url: http://'' @ stage_service_prefix @ ''-1:8000/forward-binary'' @ newline @ newline
       @ ''inference_stages:'' @ newline
       @ concat (map (stage_entry_text model_slug stage_service_prefix num_stages physical_nodes model_root ranges)
           [0..<nat num_stages])
       @ ''topology:'' @ newline
       @ ''  probe_timeout_seconds: 0.25'' @ newline
       @ ''  route_candidates:'' @ newline
       @ concat (map (\<lambda>sid. ''    '' @ [quote] @ show_int (int sid) @ [quote] @ '':'' @ newline
           @ ''    - '' @ stage_address stage_service_prefix (int sid + 1) @ newline) [1..<nat num_stages])))"

section \<open>The split is a balanced partition of the layers\<close>

definition range_start :: "int \<Rightarrow> int \<Rightarrow> nat \<Rightarrow> int" where
  "range_start num_layers num_stages i = (num_layers div num_stages) * int i + min (int i) (num_layers mod num_stages)"

lemma range_start_Suc:
  "range_start n k (Suc i) = range_start n k i + (n div k + (if int i < n mod k then 1 else 0))"
  by (auto simp: range_start_def algebra_simps min_def)

lemma range_fold:
  assumes "range_start n k 0 = 0"
  shows "fold (next_range (n div k) (n mod k)) [0..<m] ([], 0) =
    (map (\<lambda>i. [range_start n k i .. range_start n k (Suc i) - 1]) [0..<m], range_start n k m)"
  using assms by (induction m) (simp_all add: next_range_def Let_def range_start_Suc)

lemma concat_ranges:
  fixes f :: "nat \<Rightarrow> int"
  assumes "\<And>i. f i \<le> f (Suc i)" "f 0 = 0"
  shows "concat (map (\<lambda>i. [f i .. f (Suc i) - 1]) [0..<n]) = [0 .. f n - 1]"
proof (induction n)
  case 0
  then show ?case using assms(2) by simp
next
  case (Suc n)
  have "0 \<le> f n" by (induction n) (use assms in \<open>auto intro: order_trans\<close>)
  then have "[0 .. f n - 1] @ [f n .. f (Suc n) - 1] = [0 .. f (Suc n) - 1]"
    using assms(1) [of n] upto_split1 [of 0 "f n" "f (Suc n) - 1"]
    by (cases "f n = f (Suc n)") auto
  with Suc show ?case by simp
qed

lemma range_start_0: "0 < k \<Longrightarrow> range_start n k 0 = 0"
  using pos_mod_sign [of k n] by (simp add: range_start_def)

lemma split_layers_ranges:
  assumes "0 < num_stages" "num_stages \<le> num_layers"
  shows "split_layers num_layers num_stages = Inr (map (\<lambda>i.
     [range_start num_layers num_stages i .. range_start num_layers num_stages (Suc i) - 1]) [0..<nat num_stages])"
  using assms range_fold [OF range_start_0 [OF assms(1)], of num_layers "nat num_stages"]
  by (simp add: split_layers_def)

lemma split_layers_partition:
  assumes "split_layers num_layers num_stages = Inr ranges"
  shows "concat ranges = [0..num_layers - 1]" "length ranges = nat num_stages"
    "\<forall>r \<in> set ranges. r \<noteq> [] \<and> int (length r) - num_layers div num_stages \<in> {0, 1}"
proof -
  have n: "0 < num_stages" "num_stages \<le> num_layers" using assms by (auto simp: split_layers_def split: if_splits)
  let ?f = "range_start num_layers num_stages" and ?b = "num_layers div num_stages"
  have r: "ranges = map (\<lambda>i. [?f i .. ?f (Suc i) - 1]) [0..<nat num_stages]"
    using assms split_layers_ranges [OF n] by simp
  have b: "1 \<le> ?b" using n zdiv_mono1 [of num_stages num_layers num_stages] by simp
  have step: "?f (Suc i) - ?f i - ?b \<in> {0, 1}" for i
    by (simp add: range_start_Suc)
  have mono: "?f i \<le> ?f (Suc i)" for i using step [of i] b by auto
  have "?f (nat num_stages) = num_layers"
    using n pos_mod_bound [of num_stages num_layers] by (simp add: range_start_def min_absorb2)
  moreover have "?f 0 = 0" using n range_start_0 by simp
  ultimately show "concat ranges = [0..num_layers - 1]"
    using concat_ranges [of ?f, OF mono] r by simp
  show "length ranges = nat num_stages" using r by simp
  show "\<forall>r \<in> set ranges. r \<noteq> [] \<and> int (length r) - ?b \<in> {0, 1}"
  proof
    fix q assume "q \<in> set ranges"
    then obtain i where q: "q = [?f i .. ?f (Suc i) - 1]" using r by auto
    have "int (length q) = ?f (Suc i) - ?f i" using mono [of i] by (simp add: q)
    then show "q \<noteq> [] \<and> int (length q) - ?b \<in> {0, 1}"
      using step [of i] b by (cases "q = []") auto
  qed
qed

end
