(* ===== verification/Generated_Map.thy ===== *)
theory Generated_Map
  imports Stage_Map_Writer
begin

text \<open>
  What the model controller writes, the gateway and the stages load: the generated \<open>stage_map.yaml\<close> is
  read line by line by the gateway's scanner, gives the partition graph that was meant, and passes
  the validator; every stage finds its entry in it.
\<close>

section \<open>Values that survive the line reader\<close>

definition yaml_value :: "string \<Rightarrow> bool" where
  "yaml_value v \<longleftrightarrow> v \<noteq> [] \<and> CHR 0x0A \<notin> set v \<and> \<not> is_blank (hd v) \<and> \<not> is_trailing_blank (last v) \<and>
     hd v \<noteq> quote \<and> hd v \<noteq> CHR 0x27 \<and> v \<noteq> ''null''"

named_theorems yaml_simps \<open>how the line reader takes a written line apart\<close>

lemma blank_chars [yaml_simps]:
  "is_blank CHR '' ''" "\<not> is_blank CHR ''-''" "\<not> is_blank CHR '':''"
  "is_key_char c \<Longrightarrow> \<not> is_blank c" "is_digit c \<Longrightarrow> \<not> is_trailing_blank c" "is_key_char c \<Longrightarrow> \<not> is_trailing_blank c"
  "\<not> is_trailing_blank CHR '':''"
  by (auto simp: is_blank_def is_trailing_blank_def is_key_char_def is_digit_def)

lemma key_chars [yaml_simps]:
  "is_key_char CHR ''m''" "is_key_char CHR ''i''" "is_key_char CHR ''n''" "is_key_char CHR ''s''"
  "is_key_char CHR ''p''" "is_key_char CHR ''f''" "is_key_char CHR ''b''" "is_key_char CHR ''c''"
  "is_key_char CHR ''e''" "is_key_char CHR ''l''" "is_key_char CHR ''t''" "is_key_char CHR ''r''" "is_key_char CHR ''a''"
  by (simp_all add: is_key_char_def)

lemma drop_trailing_id: "s \<noteq> [] \<Longrightarrow> \<not> p (last s) \<Longrightarrow> drop_trailing p s = s"
  by (cases s rule: rev_cases) (simp_all add: drop_trailing_def)

lemma trim_blank [yaml_simps]: "is_blank c \<Longrightarrow> trim_copy (c # s) = trim_copy s"
  by (simp add: trim_copy_def)

lemma trim_start [yaml_simps]:
  "\<lbrakk>\<not> is_blank c; \<not> is_trailing_blank (last (c # s))\<rbrakk> \<Longrightarrow> trim_copy (c # s) = c # s"
  by (simp add: trim_copy_def drop_trailing_id)

lemma trim_empty [yaml_simps]: "trim_copy [] = []"
  by (simp add: trim_copy_def drop_trailing_def)

lemma indent_simps [yaml_simps]:
  "indent_width [] = 0" "indent_width (c # s) = (if c = CHR '' '' then Suc (indent_width s) else 0)"
  by (simp_all add: indent_width_def)

lemma starts_with_cons [yaml_simps]:
  "starts_with s []" "starts_with (c # s) (d # t) \<longleftrightarrow> d = c \<and> starts_with s t" "\<not> starts_with [] (d # t)"
  by (auto simp: starts_with_def)

lemma value_skip [yaml_simps]: "c \<noteq> CHR '':'' \<Longrightarrow> value_after_colon (c # s) = value_after_colon s"
  by (simp add: value_after_colon_def)

lemma trim_value: "yaml_value v \<Longrightarrow> trim_copy v = v"
  by (cases v) (auto simp: yaml_value_def trim_start simp del: last.simps)

lemma value_found [yaml_simps]: "yaml_value v \<Longrightarrow> value_after_colon (CHR '':'' # CHR '' '' # v) = v"
  by (simp add: value_after_colon_def trim_blank yaml_simps trim_value yaml_value_def [of v] strip_marks_def)

lemma value_last [yaml_simps]: "yaml_value v \<Longrightarrow> v \<noteq> [] \<and> \<not> is_trailing_blank (last v)"
  by (simp add: yaml_value_def)

lemma yaml_value_int [yaml_simps]: "yaml_value (show_int i)"
proof -
  obtain c r where s: "show_int i = c # r" by (cases "show_int i") (auto simp: show_int_def split: if_splits)
  have "\<forall>d \<in> set (show_int i). d \<notin> {CHR 0x0A, quote, CHR 0x27, CHR ''n''} \<and> \<not> is_blank d \<and> \<not> is_trailing_blank d"
    by (auto dest!: show_int_chars simp: is_digit_def is_blank_def is_trailing_blank_def)
  moreover have "last (show_int i) \<in> set (show_int i)" "hd (show_int i) \<in> set (show_int i)" using s by simp_all
  ultimately show ?thesis using s by (auto simp: yaml_value_def)
qed

lemma std_stoi_show_int [yaml_simps]: "\<lbrakk>- (2 ^ 31) \<le> i; i < 2 ^ 31\<rbrakk> \<Longrightarrow> std_stoi (show_int i) = Inr i"
proof -
  assume r: "- (2 ^ 31) \<le> i" "i < 2 ^ 31"
  have d: "takeWhile is_digit (show_nat m) = show_nat m" for m
    using show_nat_digits by (auto simp: takeWhile_eq_all_conv)
  have h: "\<not> is_space c" if "is_digit c" for c using that by (rule digit_not_space)
  show ?thesis
  proof (cases "i < 0")
    case True
    then show ?thesis using r
      by (simp add: std_stoi_def show_int_def skip_ws_def is_space_def d)
  next
    case False
    have hd: "is_digit (hd (show_nat m))" for m by (rule hd_show_nat_digit)
    have "skip_ws (show_nat m) = show_nat m" for m
      using h [OF hd [of m]] by (cases "show_nat m") (auto simp: skip_ws_def)
    moreover have "hd (show_nat m) \<noteq> CHR ''-''" "hd (show_nat m) \<noteq> CHR ''+''" for m
      using hd [of m] by (auto simp: is_digit_def)
    ultimately show ?thesis using False r by (simp add: std_stoi_def show_int_def d Let_def)
  qed
qed

section \<open>Lines\<close>

text \<open>The state while the fields of an entry are read.\<close>

definition in_entry :: "gateway_config \<Rightarrow> partition_node \<Rightarrow> bool \<Rightarrow> bool \<Rightarrow> gateway_scan" where
  "in_entry cfg p c l = \<lparr>gs_config = cfg, gs_inside_gateway = False, gs_inside_inference_stages = True,
     gs_inside_current_partition = True, gs_inside_components = c, gs_inside_layers = l, gs_gateway_indent = 0,
     gs_current_partition = p\<rparr>"

lemmas scan_defs = gateway_scan_line_def leave_gateway_def gateway_inner_line_def gateway_stages_line_def
  gateway_entry_line_def partition_field_line_def partition_component_line_def gateway_section_line_def
  is_stage_list_item_def in_entry_def Let_def

lemma field_lines:
  assumes "yaml_value v"
  shows "gateway_scan_line (''  partition_id: '' @ v) (in_entry cfg p False False) = Inr (in_entry cfg (p\<lparr>partition_id := v\<rparr>) False False)"
    "gateway_scan_line (''  service_name: '' @ v) (in_entry cfg p False False) = Inr (in_entry cfg (p\<lparr>service_name := v\<rparr>) False False)"
    "gateway_scan_line (''  physical_node: '' @ v) (in_entry cfg p False False) = Inr (in_entry cfg (p\<lparr>physical_node := v\<rparr>) False False)"
    "gateway_scan_line (''  partition_file: '' @ v) (in_entry cfg p False False) = Inr (in_entry cfg (p\<lparr>partition_file := v\<rparr>) False False)"
    "gateway_scan_line (''  native_partition_file: '' @ v) (in_entry cfg p False False) = Inr (in_entry cfg (p\<lparr>native_partition_file := v\<rparr>) False False)"
    "gateway_scan_line (''  next_stage_url: '' @ v) (in_entry cfg p True True) = Inr (in_entry cfg (p\<lparr>next_stage_url := v\<rparr>) False False)"
  using assms value_last [OF assms] by (simp_all add: scan_defs yaml_simps)

lemma bool_value [yaml_simps]: "yaml_value (yaml_bool b)" "parse_bool_value (yaml_bool b) = b"
  by (simp_all add: yaml_bool_def yaml_value_def is_blank_def is_trailing_blank_def parse_bool_value_def)

lemma show_int_start: "\<lbrakk>\<not> is_digit c; c \<noteq> CHR ''-''\<rbrakk> \<Longrightarrow> \<not> starts_with (show_int i) (c # t)"
proof
  assume c: "\<not> is_digit c" "c \<noteq> CHR ''-''" and s: "starts_with (show_int i) (c # t)"
  then have "c \<in> set (show_int i)" by (cases "show_int i") (auto simp: starts_with_def)
  with c show False by (auto dest: show_int_chars)
qed

lemma fixed_values [yaml_simps]:
  "value_after_colon '': llama'' = ''llama''" "value_after_colon '': null'' = []" "value_after_colon '': 8000'' = ''8000''"
  "trim_copy ''port: 8000'' = ''port: 8000''" "std_stoi ''8000'' = Inr 8000"
  by code_simp+

lemma component_lines:
  "gateway_scan_line ''  backend: llama'' (in_entry cfg p False False) = Inr (in_entry cfg (p\<lparr>backend := ''llama''\<rparr>) False False)"
  "gateway_scan_line ''  components:'' (in_entry cfg p False False) = Inr (in_entry cfg p True False)"
  "gateway_scan_line (''    embedding: '' @ yaml_bool b) (in_entry cfg p True False) =
     Inr (in_entry cfg (p\<lparr>components := (components p)\<lparr>embedding := b\<rparr>\<rparr>) True False)"
  "gateway_scan_line ''    layers:'' (in_entry cfg p True False) = Inr (in_entry cfg p True True)"
  "\<lbrakk>- (2 ^ 31) \<le> i; i < 2 ^ 31\<rbrakk> \<Longrightarrow> gateway_scan_line (''    - '' @ show_int i) (in_entry cfg p True True) =
     Inr (in_entry cfg (p\<lparr>components := (components p)\<lparr>layers := layers (components p) @ [i]\<rparr>\<rparr>) True True)"
  "gateway_scan_line (''    norm: '' @ yaml_bool b) (in_entry cfg p True True) =
     Inr (in_entry cfg (p\<lparr>components := (components p)\<lparr>norm := b\<rparr>\<rparr>) True True)"
  "gateway_scan_line (''    lm_head: '' @ yaml_bool b) (in_entry cfg p True True) =
     Inr (in_entry cfg (p\<lparr>components := (components p)\<lparr>lm_head := b\<rparr>\<rparr>) True True)"
  "gateway_scan_line ''  next_stage_url: null'' (in_entry cfg p True True) =
     Inr (in_entry cfg (p\<lparr>next_stage_url := []\<rparr>) False False)"
  "gateway_scan_line [] st = Inr st"
  using value_last [OF bool_value(1) [of b]] value_last [OF yaml_value_int [of i]]
  by (simp_all add: scan_defs yaml_simps show_int_start trim_value is_digit_def)

text \<open>A list item finishes the entry before it and opens one.\<close>

definition stages_open :: "gateway_scan \<Rightarrow> bool" where
  "stages_open st \<longleftrightarrow> gs_inside_inference_stages st \<and> \<not> gs_inside_gateway st \<and> gs_gateway_indent st = 0"

lemma item_line:
  assumes "stages_open st" "finish_partition_if_valid st = Inr st'" "gs_config st' = cfg"
    and "- (2 ^ 31) \<le> i" "i < 2 ^ 31"
  shows "gateway_scan_line (''- stage_id: '' @ show_int i) st =
    Inr (in_entry cfg (empty_partition_node\<lparr>stage_id := i, partition_id := default_partition_id i\<rparr>) False False)"
proof -
  have "gs_inside_inference_stages st'" "\<not> gs_inside_gateway st'" "gs_gateway_indent st' = 0"
    using assms(1,2) by (auto simp: stages_open_def finish_partition_if_valid_def Let_def split: if_splits)
  then show ?thesis using assms value_last [OF yaml_value_int [of i]]
    by (simp add: scan_defs yaml_simps stages_open_def parse_stage_id_from_list_item_def)
qed

lemma topology_line:
  assumes "stages_open st" "finish_partition_if_valid st = Inr st'"
  shows "gateway_scan_line ''topology:'' st =
    Inr (st'\<lparr>gs_inside_inference_stages := False, gs_inside_components := False, gs_inside_layers := False\<rparr>)"
  using assms by (simp add: scan_defs yaml_simps stages_open_def is_digit_def)

text \<open>Lines below a top-level key the gateway does not know.\<close>

lemma ignored_line:
  assumes "\<not> gs_inside_inference_stages st" "\<not> gs_inside_gateway st" "0 < indent_width line"
  shows "gateway_scan_line line st = Inr st"
  using assms by (simp add: scan_defs)

section \<open>The header\<close>

definition header_lines :: "string \<Rightarrow> string \<Rightarrow> string \<Rightarrow> int \<Rightarrow> string \<Rightarrow> string \<Rightarrow> string list" where
  "header_lines name slug path num_layers service prefix =
     [''model_name: '' @ name, ''model_slug: '' @ slug, ''model_path: '' @ path, ''num_layers: '' @ show_int num_layers, [],
      ''inference_gateway:'', ''  service_name: '' @ service, ''  port: 8000'',
      ''  first_stage_url: '' @ stage_address prefix 1, [], ''inference_stages:'']"

definition loaded_header :: "string \<Rightarrow> string \<Rightarrow> string \<Rightarrow> int \<Rightarrow> string \<Rightarrow> string \<Rightarrow> gateway_config" where
  "loaded_header cfg_path name path num_layers service prefix =
     default_gateway_config\<lparr>gc_config_path := cfg_path, gc_model_name := name, gc_model_path := path,
       gc_num_layers := num_layers, gc_service_name := service, gc_port := 8000, gc_first_stage_url := stage_address prefix 1\<rparr>"

lemma header_scanned:
  assumes "yaml_value name" "yaml_value slug" "yaml_value path" "yaml_value service" "yaml_value (stage_address prefix 1)"
    and "- (2 ^ 31) \<le> n" "n < 2 ^ 31"
  shows "\<exists>st. foldR gateway_scan_line (header_lines name slug path n service prefix) (initial_gateway_scan p) = Inr st \<and>
    stages_open st \<and> \<not> gs_inside_current_partition st \<and> gs_config st = loaded_header p name path n service prefix"
  using assms assms(1-5) [THEN value_last] value_last [OF yaml_value_int [of n]]
  by (simp add: header_lines_def scan_defs yaml_simps initial_gateway_scan_def stages_open_def loaded_header_def
      finish_partition_if_valid_def)

section \<open>The entries\<close>

definition entry_lines :: "string \<Rightarrow> string \<Rightarrow> int \<Rightarrow> string list \<Rightarrow> string \<Rightarrow> int list list \<Rightarrow> nat \<Rightarrow> string list" where
  "entry_lines slug prefix k nodes root ranges index =
     (let sid = int index + 1
      in [''- stage_id: '' @ show_int sid, ''  partition_id: partition-'' @ show_int sid,
          ''  service_name: '' @ prefix @ ''-'' @ show_int sid, ''  physical_node: '' @ nodes ! index,
          ''  partition_file: '' @ root @ ''/'' @ slug @ ''/stage_'' @ show_int sid @ ''.pt'',
          ''  native_partition_file: '' @ root @ ''/'' @ slug @ ''/partition-'' @ show_int sid @ ''.dli.gguf'',
          ''  backend: llama'', ''  components:'', ''    embedding: '' @ yaml_bool (sid = 1), ''    layers:''] @
         map (\<lambda>v. ''    - '' @ show_int v) (ranges ! index) @
         [''    norm: '' @ yaml_bool (sid = k), ''    lm_head: '' @ yaml_bool (sid = k),
          ''  next_stage_url: '' @ (if sid < k then stage_address prefix (sid + 1) else ''null''), []])"

definition entry_node :: "string \<Rightarrow> string \<Rightarrow> int \<Rightarrow> string list \<Rightarrow> string \<Rightarrow> int list list \<Rightarrow> nat \<Rightarrow> partition_node" where
  "entry_node slug prefix k nodes root ranges index =
     (let sid = int index + 1
      in \<lparr>stage_id = sid, partition_id = ''partition-'' @ show_int sid, service_name = prefix @ ''-'' @ show_int sid,
          physical_node = nodes ! index,
          partition_file = root @ ''/'' @ slug @ ''/stage_'' @ show_int sid @ ''.pt'',
          native_partition_file = root @ ''/'' @ slug @ ''/partition-'' @ show_int sid @ ''.dli.gguf'',
          backend = ''llama'', next_stage_url = (if sid < k then stage_address prefix (sid + 1) else []),
          components = \<lparr>embedding = (sid = 1), layers = ranges ! index, norm = (sid = k), lm_head = (sid = k)\<rparr>\<rparr>)"

definition map_texts_ok :: "string \<Rightarrow> string \<Rightarrow> string \<Rightarrow> string \<Rightarrow> string \<Rightarrow> string \<Rightarrow> string list \<Rightarrow> bool" where
  "map_texts_ok name slug file service prefix root nodes \<longleftrightarrow>
     list_all yaml_value ([name, slug, file, service, prefix, root] @ nodes)"

lemma yaml_value_join:
  assumes "a \<noteq> []" "\<not> is_blank (hd a)" "hd a \<noteq> quote" "hd a \<noteq> CHR 0x27" "CHR 0x0A \<notin> set a"
    and "b \<noteq> []" "CHR 0x0A \<notin> set b" "\<not> is_trailing_blank (last b)" "\<exists>c \<in> set b. c \<notin> set ''null''"
  shows "yaml_value (a @ b)"
proof -
  have "a @ b \<noteq> ''null''" using assms(9) by (metis Un_iff set_append)
  then show ?thesis using assms by (simp add: yaml_value_def)
qed

lemma show_int_clean: "CHR 0x0A \<notin> set (show_int i)" "show_int i \<noteq> []" "\<not> is_trailing_blank (last (show_int i))"
  using yaml_value_int [of i] by (simp_all add: yaml_value_def)

lemma address_value: "CHR 0x0A \<notin> set prefix \<Longrightarrow> yaml_value (stage_address prefix i)"
  by (auto simp: stage_address_def yaml_value_def is_blank_def is_trailing_blank_def show_int_clean)

lemma strip_slashes:
  assumes "s \<noteq> []"
  shows "strip_trailing_slashes s \<noteq> [] \<and> hd (strip_trailing_slashes s) = hd s \<and> set (strip_trailing_slashes s) \<subseteq> set s"
  using assms
proof (induction s rule: strip_trailing_slashes.induct)
  case (1 v)
  have b: "hd (butlast v) = hd v" "butlast v \<noteq> []" if "length v > 1"
    using that by (cases v rule: remdups_adj.cases; simp)+
  show ?case
  proof (cases "length v > 1 \<and> last v = CHR ''/''")
    case True
    then show ?thesis using 1 b in_set_butlastD [of _ v] by (auto simp: strip_trailing_slashes.simps [of v])
  next
    case False
    then show ?thesis using 1 by (auto simp: strip_trailing_slashes.simps [of v])
  qed
qed

lemma entry_values:
  assumes "map_texts_ok name slug file service prefix root nodes" "index < length nodes"
  defines "r \<equiv> strip_trailing_slashes root"
  shows "yaml_value (''partition-'' @ show_int i)" "yaml_value (prefix @ ''-'' @ show_int i)" "yaml_value (nodes ! index)"
    "yaml_value (r @ ''/'' @ slug @ ''/stage_'' @ show_int i @ ''.pt'')"
    "yaml_value (r @ ''/'' @ slug @ ''/partition-'' @ show_int i @ ''.dli.gguf'')"
    "yaml_value (r @ ''/'' @ slug @ ''/'' @ file)" "yaml_value (stage_address prefix i)"
proof -
  have v: "yaml_value prefix" "yaml_value root" "yaml_value slug" "yaml_value file" and n: "\<forall>x \<in> set nodes. yaml_value x"
    using assms(1) by (auto simp: map_texts_ok_def list_all_iff)
  have r: "r \<noteq> []" "CHR 0x0A \<notin> set r" "\<not> is_blank (hd r)" "hd r \<noteq> quote" "hd r \<noteq> CHR 0x27"
    using strip_slashes [of root] v(2) by (auto simp: r_def yaml_value_def)
  have p: "prefix \<noteq> []" "CHR 0x0A \<notin> set prefix" "\<not> is_blank (hd prefix)" "hd prefix \<noteq> quote" "hd prefix \<noteq> CHR 0x27"
    using v(1) by (simp_all add: yaml_value_def)
  have f: "CHR 0x0A \<notin> set slug" "CHR 0x0A \<notin> set file" "file \<noteq> []" "\<not> is_trailing_blank (last file)"
    using v(3,4) by (simp_all add: yaml_value_def)
  have t: "\<not> is_trailing_blank CHR ''t''" "\<not> is_trailing_blank CHR ''f''" by (simp_all add: is_trailing_blank_def is_blank_def)
  note c = show_int_clean
  show "yaml_value (''partition-'' @ show_int i)"
    using c by (simp add: yaml_value_def is_blank_def)
  show "yaml_value (prefix @ ''-'' @ show_int i)"
    by (rule yaml_value_join [OF p(1,3,4,5,2)]) (use c in simp_all)
  show "yaml_value (nodes ! index)" using n assms(2) by auto
  show "yaml_value (r @ ''/'' @ slug @ ''/stage_'' @ show_int i @ ''.pt'')"
    by (rule yaml_value_join [OF r(1,3,4,5,2)]) (use c f t in simp_all)
  show "yaml_value (r @ ''/'' @ slug @ ''/partition-'' @ show_int i @ ''.dli.gguf'')"
    by (rule yaml_value_join [OF r(1,3,4,5,2)]) (use c f t in simp_all)
  show "yaml_value (r @ ''/'' @ slug @ ''/'' @ file)"
    by (rule yaml_value_join [OF r(1,3,4,5,2)]) (use c f t in simp_all)
  show "yaml_value (stage_address prefix i)"
    using v(1) by (intro address_value) (simp add: yaml_value_def)
qed

lemma layer_lines_scanned:
  assumes "\<forall>v \<in> set vs. - (2 ^ 31) \<le> v \<and> v < 2 ^ 31"
  shows "foldR gateway_scan_line (map (\<lambda>v. ''    - '' @ show_int v) vs) (in_entry cfg p True True) =
    Inr (in_entry cfg (p\<lparr>components := (components p)\<lparr>layers := layers (components p) @ vs\<rparr>\<rparr>) True True)"
  using assms
proof (induction vs arbitrary: p)
  case (Cons v vs)
  then show ?case by (simp add: component_lines(5) [simplified])
qed (simp add: in_entry_def)

lemma entry_scanned:
  assumes "stages_open st" "finish_partition_if_valid st = Inr st'" "gs_config st' = cfg"
    and ok: "map_texts_ok name slug file service prefix root nodes" "index < length nodes"
    and "int index + 2 < 2 ^ 31" "\<forall>v \<in> set (ranges ! index). - (2 ^ 31) \<le> v \<and> v < 2 ^ 31"
  shows "foldR gateway_scan_line (entry_lines slug prefix k nodes (strip_trailing_slashes root) ranges index) st =
    Inr (in_entry cfg (entry_node slug prefix k nodes (strip_trailing_slashes root) ranges index) False False)"
proof -
  have item: "gateway_scan_line (''- stage_id: '' @ show_int (int index + 1)) st =
      Inr (in_entry cfg (empty_partition_node\<lparr>stage_id := int index + 1, partition_id := default_partition_id (int index + 1)\<rparr>) False False)"
    using assms(6) by (intro item_line [OF assms(1-3)]) simp_all
  note v = entry_values(1,2,4,5) [OF ok, where i = "int index + 1"]
  note lines = field_lines(1) [OF v(1)] field_lines(2) [OF v(2)] field_lines(3) [OF entry_values(3) [OF ok]]
    field_lines(4) [OF v(3)] field_lines(5) [OF v(4)]
    field_lines(6) [OF entry_values(7) [OF ok, where i = "int index + 1 + 1"]]
  have pid: "''  partition_id: partition-'' @ x = ''  partition_id: '' @ (''partition-'' @ x)" for x by simp
  note scanned = foldR.simps foldR_append bindR_simps item lines component_lines
    layer_lines_scanned [OF assms(7)]
  show ?thesis
  proof (cases "int index + 1 < k")
    case True
    show ?thesis
      unfolding entry_lines_def Let_def if_P [OF True] pid
      by (simp only: scanned) (simp add: entry_node_def Let_def True default_partition_id_def empty_partition_node_def empty_components_def in_entry_def)
  next
    case False
    have null: "''  next_stage_url: '' @ ''null'' = ''  next_stage_url: null''" by simp
    show ?thesis
      unfolding entry_lines_def Let_def if_not_P [OF False] null pid
      by (simp only: scanned) (simp add: entry_node_def Let_def False default_partition_id_def empty_partition_node_def empty_components_def in_entry_def)
  qed
qed

text \<open>The entries one after the other: what finishing the last one gives.\<close>

lemma finish_entry:
  assumes "p = entry_node slug prefix k nodes root ranges index" "prefix \<noteq> []"
  shows "finish_partition_if_valid (in_entry cfg p c l) = Inr (in_entry (cfg\<lparr>gc_partitions := gc_partitions cfg @ [p]\<rparr>)
    empty_partition_node c l\<lparr>gs_inside_current_partition := False\<rparr>)"
  using assms by (simp add: finish_partition_if_valid_def in_entry_def entry_node_def Let_def)

lemma entries_scanned:
  assumes "stages_open st0" "\<not> gs_inside_current_partition st0" "gs_config st0 = cfg" "gc_partitions cfg = []"
    and ok: "map_texts_ok name slug file service prefix root nodes" "m \<le> length nodes" "int m + 1 < 2 ^ 31"
    and ranges: "\<forall>i < m. \<forall>v \<in> set (ranges ! i). - (2 ^ 31) \<le> v \<and> v < 2 ^ 31"
  defines "r \<equiv> strip_trailing_slashes root"
  shows "\<exists>st st'. foldR gateway_scan_line (concat (map (entry_lines slug prefix k nodes r ranges) [0..<m])) st0 = Inr st \<and>
    stages_open st \<and> finish_partition_if_valid st = Inr st' \<and> \<not> gs_inside_gateway st' \<and>
    \<not> gs_inside_current_partition st' \<and>
    gs_config st' = cfg\<lparr>gc_partitions := map (entry_node slug prefix k nodes r ranges) [0..<m]\<rparr>"
  using ok(2,3) ranges
proof (induction m)
  case 0
  then show ?case using assms(1-4) by (simp add: finish_partition_if_valid_def stages_open_def)
next
  case (Suc m)
  have earlier: "\<forall>i < m. \<forall>v \<in> set (ranges ! i). - (2 ^ 31) \<le> v \<and> v < 2 ^ 31"
    using Suc.prems(3) less_SucI by blast
  obtain st st' where st: "foldR gateway_scan_line (concat (map (entry_lines slug prefix k nodes r ranges) [0..<m])) st0 = Inr st"
      "stages_open st" "finish_partition_if_valid st = Inr st'"
      "gs_config st' = cfg\<lparr>gc_partitions := map (entry_node slug prefix k nodes r ranges) [0..<m]\<rparr>"
    using Suc.IH [OF _ _ earlier] Suc.prems(1,2) by auto
  have "prefix \<noteq> []" using ok(1) by (simp add: map_texts_ok_def yaml_value_def)
  note fin = finish_entry [OF refl this]
  have "foldR gateway_scan_line (entry_lines slug prefix k nodes r ranges m) st =
      Inr (in_entry (gs_config st') (entry_node slug prefix k nodes r ranges m) False False)"
    unfolding r_def using Suc.prems by (intro entry_scanned [OF st(2,3) refl ok(1)]) auto
  then show ?case using st(1,4) fin
    by (auto simp: foldR_append in_entry_def stages_open_def)
qed

section \<open>The file\<close>

definition topology_lines :: "string \<Rightarrow> int \<Rightarrow> string list" where
  "topology_lines prefix k = [''topology:'', ''  probe_timeout_seconds: 0.25'', ''  route_candidates:''] @
     concat (map (\<lambda>sid. [''    '' @ [quote] @ show_int (int sid) @ [quote] @ '':'',
        ''    - '' @ stage_address prefix (int sid + 1)]) [1..<nat k])"

lemma topology_scanned:
  assumes "stages_open st" "finish_partition_if_valid st = Inr st'" "\<not> gs_inside_gateway st'" "\<not> gs_inside_current_partition st'"
  shows "\<exists>st''. foldR gateway_scan_line (topology_lines prefix k) st = Inr st'' \<and> finish_partition_if_valid st'' = Inr st'' \<and>
    gs_config st'' = gs_config st'"
proof -
  let ?closed = "st'\<lparr>gs_inside_inference_stages := False, gs_inside_components := False, gs_inside_layers := False\<rparr>"
  have ignored: "foldR gateway_scan_line ls ?closed = Inr ?closed" if "\<forall>l \<in> set ls. 0 < indent_width l" for ls
    using that assms(3) by (induction ls) (simp_all add: ignored_line)
  have "foldR gateway_scan_line (tl (topology_lines prefix k)) ?closed = Inr ?closed"
    by (rule ignored) (auto simp: topology_lines_def indent_simps)
  then have "foldR gateway_scan_line (topology_lines prefix k) st = Inr ?closed"
    using topology_line [OF assms(1,2)] by (simp add: topology_lines_def)
  then show ?thesis using assms(4) by (auto simp: finish_partition_if_valid_def)
qed

lemma getlines_file_text:
  assumes "\<forall>l \<in> set ls. CHR 0x0A \<notin> set l"
  shows "getlines (file_text ls) = ls"
  using assms
proof (induction ls)
  case (Cons l ls)
  then have "CHR 0x0A \<notin> set l" by simp
  from takeWhile_until [OF this] Cons show ?case
    by (subst getlines.simps) (simp add: file_text_def)
qed (simp add: file_text_def getlines.simps)

lemma file_text_simps: "file_text [] = []" "file_text (l # ls) = l @ newline @ file_text ls" "file_text (ls @ ms) = file_text ls @ file_text ms"
  by (simp_all add: file_text_def)

lemma file_text_concat: "concat (map (\<lambda>i. file_text (f i)) xs) = file_text (concat (map f xs))"
  by (induction xs) (simp_all add: file_text_simps)

lemma int_list_text:
  assumes "vs \<noteq> []"
  shows "yaml_int_list vs 4 @ newline = file_text (map (\<lambda>v. ''    - '' @ show_int v) vs)"
proof -
  let ?out = "concat (map (\<lambda>v. replicate 4 (CHR '' '') @ ''- '' @ show_int v @ newline) vs)"
  have out: "?out \<noteq> [] \<and> last ?out = CHR 0x0A" using assms by (induction vs rule: rev_induct) simp_all
  then have "butlast ?out @ newline = ?out" by (metis append_butlast_last_id)
  then have "yaml_int_list vs 4 @ newline = ?out"
    by (simp only: yaml_int_list_def Let_def if_P [OF out])
  also have "\<dots> = file_text (map (\<lambda>v. ''    - '' @ show_int v) vs)"
    by (simp add: file_text_def comp_def numeral_eq_Suc)
  finally show ?thesis .
qed

lemma entry_text_lines:
  assumes "ranges ! index \<noteq> []"
  shows "stage_entry_text slug prefix k nodes root ranges index = file_text (entry_lines slug prefix k nodes root ranges index)"
  using int_list_text [OF assms]
  by (simp add: stage_entry_text_def entry_lines_def Let_def file_text_simps)

definition map_lines :: "string \<Rightarrow> string \<Rightarrow> string \<Rightarrow> int \<Rightarrow> int \<Rightarrow> string \<Rightarrow> string \<Rightarrow> string list \<Rightarrow> string \<Rightarrow> int list list \<Rightarrow> string list" where
  "map_lines name slug file n k service prefix nodes root ranges =
     header_lines name slug (root @ ''/'' @ slug @ ''/'' @ file) n service prefix @
     concat (map (entry_lines slug prefix k nodes root ranges) [0..<nat k]) @ topology_lines prefix k"

lemma generated_text:
  assumes "split_layers n k = Inr ranges"
  shows "generate_stage_map name slug file n k service prefix nodes root =
    Inr (file_text (map_lines name slug file n k service prefix nodes (strip_trailing_slashes root) ranges))"
proof -
  let ?r = "strip_trailing_slashes root"
  have "ranges ! i \<noteq> []" if "i < nat k" for i
    using split_layers_partition(2,3) [OF assms] that by (metis nth_mem)
  then have "map (stage_entry_text slug prefix k nodes ?r ranges) [0..<nat k] =
      map (\<lambda>i. file_text (entry_lines slug prefix k nodes ?r ranges i)) [0..<nat k]"
    using entry_text_lines by (intro map_cong) auto
  then have entries: "concat (map (stage_entry_text slug prefix k nodes ?r ranges) [0..<nat k]) =
      file_text (concat (map (entry_lines slug prefix k nodes ?r ranges) [0..<nat k]))"
    by (simp only: file_text_concat)
  have topology: "file_text (topology_lines prefix k) = ''topology:'' @ newline @ ''  probe_timeout_seconds: 0.25'' @ newline
       @ ''  route_candidates:'' @ newline
       @ concat (map (\<lambda>sid. ''    '' @ [quote] @ show_int (int sid) @ [quote] @ '':'' @ newline
           @ ''    - '' @ stage_address prefix (int sid + 1) @ newline) [1..<nat k])"
    by (simp add: topology_lines_def file_text_simps flip: file_text_concat)
  have one: "show_int 1 = ''1''" by code_simp
  show ?thesis
    unfolding generate_stage_map_def assms bindR_simps Let_def entries map_lines_def file_text_simps(3) topology
    by (simp add: header_lines_def file_text_simps stage_address_def one)
qed

lemma lines_clean:
  assumes ok: "map_texts_ok name slug file service prefix root nodes" and "length nodes = nat k"
  shows "\<forall>l \<in> set (map_lines name slug file n k service prefix nodes (strip_trailing_slashes root) ranges). CHR 0x0A \<notin> set l"
proof -
  have v: "CHR 0x0A \<notin> set name" "CHR 0x0A \<notin> set slug" "CHR 0x0A \<notin> set file" "CHR 0x0A \<notin> set service"
      "CHR 0x0A \<notin> set prefix" "CHR 0x0A \<notin> set root" "root \<noteq> []" "\<forall>x \<in> set nodes. CHR 0x0A \<notin> set x"
    using ok by (auto simp: map_texts_ok_def yaml_value_def list_all_iff)
  have r: "CHR 0x0A \<notin> set (strip_trailing_slashes root)" using strip_slashes [OF v(7)] v(6) by auto
  have a: "CHR 0x0A \<notin> set (stage_address prefix i)" for i
    using v(5) by (simp add: stage_address_def show_int_clean)
  have b: "CHR 0x0A \<notin> set (yaml_bool c)" for c by (simp add: yaml_bool_def)
  have n: "CHR 0x0A \<notin> set (nodes ! i)" if "i < nat k" for i using v(8) assms(2) that by auto
  have e: "\<forall>l \<in> set (entry_lines slug prefix k nodes (strip_trailing_slashes root) ranges i). CHR 0x0A \<notin> set l" if "i < nat k" for i
    using v(2,5) r a b n [OF that] by (auto simp: entry_lines_def Let_def show_int_clean)
  show ?thesis
    using v r a e by (auto simp: map_lines_def header_lines_def topology_lines_def show_int_clean)
qed

lemma owners_one:
  assumes "\<And>i. i < m \<Longrightarrow> P (f i) \<longleftrightarrow> i = j" "j < m"
  shows "length (owners P (map f [0..<m])) = 1"
proof -
  have "filter (\<lambda>i. P (f i)) [0..<m] = filter (\<lambda>i. i = j) [0..<m]" using assms(1) by (intro filter_cong) auto
  moreover have "length (filter (\<lambda>i. i = j) [0..<m]) = 1"
    using assms(2) by (induction m) auto
  ultimately show ?thesis by (simp add: owners_def filter_map comp_def)
qed

lemma generated_graph_valid:
  assumes "split_layers n k = Inr ranges" "map_texts_ok name slug file service prefix root nodes"
  shows "valid (validate_partition_graph (map (entry_node slug prefix k nodes r ranges) [0..<nat k]) n)"
proof -
  let ?node = "entry_node slug prefix k nodes r ranges"
  note split = split_layers_partition [OF assms(1)]
  have n: "0 < k" "k \<le> n" using assms(1) by (auto simp: split_layers_def split: if_splits)
  have pre: "prefix \<noteq> []" using assms(2) by (simp add: map_texts_ok_def yaml_value_def)
  have layers: "all_layers (map ?node [0..<nat k]) = [0..n - 1]"
  proof -
    have "map (\<lambda>i. ranges ! i) [0..<nat k] = ranges" using split(2) by (metis map_nth)
    then show ?thesis using split(1) by (simp add: all_layers_def comp_def entry_node_def Let_def)
  qed
  have ints: "[0..n - 1] = map int [0..<nat n]"
    using n by (intro nth_equalityI) (simp_all add: nth_upto)
  have allowed: "\<forall>l \<in> set [0..n - 1]. layer_allowed n l" by (simp add: layer_allowed_def)
  have "find_duplicates (sort [0..n - 1]) = [] \<and> find_missing n (sort [0..n - 1]) = []"
    using exact_layers [OF allowed] n ints by simp
  moreover have "\<forall>p \<in> set (map ?node [0..<nat k]). node_allowed n p"
  proof -
    have "layer_allowed n l" if "i < nat k" "l \<in> set (ranges ! i)" for i l
    proof -
      have "l \<in> set (concat ranges)" using that split(2) by (auto intro!: bexI [of _ "ranges ! i"])
      then show ?thesis using split(1) allowed by simp
    qed
    then show ?thesis using pre n by (auto simp: node_allowed_def entry_node_def Let_def stage_address_def split: if_splits)
  qed
  moreover have "length (owners (\<lambda>p. embedding (components p)) (map ?node [0..<nat k])) = 1"
    by (rule owners_one [of _ _ _ 0]) (use n in \<open>auto simp: entry_node_def Let_def\<close>)
  moreover have "length (owners (\<lambda>p. lm_head (components p)) (map ?node [0..<nat k])) = 1"
    by (rule owners_one [of _ _ _ "nat k - 1"]) (use n in \<open>auto simp: entry_node_def Let_def\<close>)
  moreover have "length (owners (\<lambda>p. next_stage_url p = []) (map ?node [0..<nat k])) = 1"
    by (rule owners_one [of _ _ _ "nat k - 1"]) (use n in \<open>auto simp: entry_node_def Let_def stage_address_def\<close>)
  ultimately show ?thesis using n by (simp add: validate_valid_iff layers)
qed

lemma generated_map_loaded:
  assumes "split_layers n k = Inr ranges" "n < 2 ^ 31 - 1" "length nodes = nat k"
    and ok: "map_texts_ok name slug file service prefix root nodes"
  defines "r \<equiv> strip_trailing_slashes root"
  shows "\<exists>gc. load_gateway_config_from_file (Some (file_text (map_lines name slug file n k service prefix nodes r ranges))) path = Inr gc \<and>
    valid (gc_partition_validation gc) \<and>
    gc\<lparr>gc_partition_validation := empty_validation\<rparr> =
      loaded_header path name (r @ ''/'' @ slug @ ''/'' @ file) n service prefix\<lparr>
        gc_partitions := map (entry_node slug prefix k nodes r ranges) [0..<nat k]\<rparr>"
proof -
  have n: "0 < k" "k \<le> n" using assms(1) by (auto simp: split_layers_def split: if_splits)
  have v: "yaml_value name" "yaml_value slug" "yaml_value service" "yaml_value (stage_address prefix 1)"
    using ok address_value by (auto simp: map_texts_ok_def yaml_value_def)
  have "0 < length nodes" using n(1) assms(3) by simp
  from entry_values(6) [OF ok this] have path: "yaml_value (r @ ''/'' @ slug @ ''/'' @ file)" unfolding r_def .
  have bounds: "- (2 ^ 31) \<le> n" "n < 2 ^ 31" using n assms(2) by simp_all
  let ?h = "loaded_header path name (r @ ''/'' @ slug @ ''/'' @ file) n service prefix"
  let ?nodes = "map (entry_node slug prefix k nodes r ranges) [0..<nat k]"
  from header_scanned [OF v(1,2) path v(3,4) bounds, of path] obtain st where
    st: "foldR gateway_scan_line (header_lines name slug (r @ ''/'' @ slug @ ''/'' @ file) n service prefix)
          (initial_gateway_scan path) = Inr st" "stages_open st" "\<not> gs_inside_current_partition st" "gs_config st = ?h"
    by blast
  have small: "\<forall>i < nat k. \<forall>v \<in> set (ranges ! i). - (2 ^ 31) \<le> v \<and> v < 2 ^ 31"
  proof (intro allI impI ballI)
    fix i l assume "i < nat k" "l \<in> set (ranges ! i)"
    then have "l \<in> set (concat ranges)" using split_layers_partition(2) [OF assms(1)] by (auto intro!: bexI [of _ "ranges ! i"])
    then show "- (2 ^ 31) \<le> l \<and> l < 2 ^ 31" using split_layers_partition(1) [OF assms(1)] bounds by auto
  qed
  have "gc_partitions ?h = []" by (simp add: loaded_header_def default_gateway_config_def)
  then obtain s2 s3 where s2: "foldR gateway_scan_line (concat (map (entry_lines slug prefix k nodes r ranges) [0..<nat k])) st = Inr s2"
      "stages_open s2" "finish_partition_if_valid s2 = Inr s3" "\<not> gs_inside_gateway s3" "\<not> gs_inside_current_partition s3"
      "gs_config s3 = ?h\<lparr>gc_partitions := ?nodes\<rparr>"
    using entries_scanned [OF st(2,3,4) _ ok _ _ small, of k] assms(2,3) n unfolding r_def by auto
  from topology_scanned [OF s2(2-5), of prefix k] obtain s4 where
    s4: "foldR gateway_scan_line (topology_lines prefix k) s2 = Inr s4" "finish_partition_if_valid s4 = Inr s4"
      "gs_config s4 = ?h\<lparr>gc_partitions := ?nodes\<rparr>"
    using s2(6) by auto
  have "getlines (file_text (map_lines name slug file n k service prefix nodes r ranges)) =
      map_lines name slug file n k service prefix nodes r ranges"
    unfolding r_def by (rule getlines_file_text [OF lines_clean [OF ok assms(3)]])
  moreover have "gc_num_layers ?h = n" by (simp add: loaded_header_def)
  ultimately show ?thesis
    using st(1) s2(1) s4 generated_graph_valid [OF assms(1) ok, of r]
    by (simp add: load_gateway_config_from_file_def map_lines_def foldR_append Let_def loaded_header_def default_gateway_config_def)
qed

lemma generated_one_list:
  assumes ok: "map_texts_ok name slug file service prefix root nodes"
  shows "one_stage_list (map_lines name slug file n k service prefix nodes (strip_trailing_slashes root) ranges)"
proof -
  let ?r = "strip_trailing_slashes root"
  let ?entries = "concat (map (entry_lines slug prefix k nodes ?r ranges) [0..<nat k])"
  have v: "yaml_value name" "yaml_value slug" "yaml_value service" "yaml_value (stage_address prefix 1)"
    using ok address_value by (auto simp: map_texts_ok_def yaml_value_def)
  have path: "last (?r @ ''/'' @ slug @ ''/'' @ file) = last file" "file \<noteq> []" "\<not> is_trailing_blank (last file)"
    using ok by (auto simp: map_texts_ok_def yaml_value_def)
  have head: "dropWhile (\<lambda>line. \<not> opens_stages line)
      (header_lines name slug (?r @ ''/'' @ slug @ ''/'' @ file) n service prefix @ rest) = ''inference_stages:'' # rest" for rest
    using v [THEN value_last] value_last [OF yaml_value_int [of n]] path
    by (simp add: header_lines_def opens_stages_def yaml_simps)
  have "in_stage_list (''- stage_id: '' @ show_int i)" for i
    using value_last [OF yaml_value_int [of i]] by (simp add: in_stage_list_def yaml_simps is_stage_list_item_def)
  then have "\<forall>l \<in> set ?entries. in_stage_list l"
    by (auto simp: entry_lines_def Let_def in_stage_list_def indent_simps trim_empty)
  then have entries: "dropWhile in_stage_list (?entries @ rest) = dropWhile in_stage_list rest" for rest
    by (intro dropWhile_append2) blast
  have topology: "dropWhile in_stage_list (topology_lines prefix k) = topology_lines prefix k"
      "closes_stages (hd (topology_lines prefix k))" "list_all (\<lambda>line. \<not> opens_stages line) (tl (topology_lines prefix k))"
    by (auto simp: topology_lines_def in_stage_list_def closes_stages_def opens_stages_def yaml_simps is_stage_list_item_def
        list_all_iff)
  show ?thesis
    unfolding one_stage_list_def map_lines_def append_assoc head Let_def list.sel entries topology(1)
    using topology(2,3) by simp
qed

text \<open>C7. The stage map the model controller generates is accepted by the gateway and by every stage,
  for every model with at least as many layers as stages: the graph passes the validator, its stages
  are numbered from 1 and own consecutive, non-empty, balanced runs of layers that make up the whole
  model, each points to the next stage and the last to none, and every stage finds its own entry.\<close>

theorem generated_map_loads:
  assumes "generate_stage_map name slug file n k service prefix nodes root = Inr text" "n < 2 ^ 31 - 1"
    and "length nodes = nat k" "map_texts_ok name slug file service prefix root nodes"
  shows "\<exists>gc. load_gateway_config_from_file (Some text) path = Inr gc \<and> valid (gc_partition_validation gc) \<and>
    gc_num_layers gc = n \<and> gc_first_stage_url gc = stage_address prefix 1 \<and>
    map stage_id (gc_partitions gc) = [1..k] \<and>
    concat (map (\<lambda>p. layers (components p)) (gc_partitions gc)) = [0..n - 1] \<and>
    (\<forall>p \<in> set (gc_partitions gc).
       int (length (layers (components p))) - n div k \<in> {0, 1} \<and> layers (components p) \<noteq> [] \<and>
       next_stage_url p = (if stage_id p < k then stage_address prefix (stage_id p + 1) else []) \<and>
       (\<exists>sc. load_stage_config_from_file (Some text) stage_path (stage_id p) = Inr sc \<and>
          sc_stage_id sc = stage_id p \<and> same_entry p sc))"
proof -
  obtain ranges where split: "split_layers n k = Inr ranges"
    using assms(1) by (auto simp: generate_stage_map_def result_simps)
  let ?r = "strip_trailing_slashes root"
  let ?lines = "map_lines name slug file n k service prefix nodes ?r ranges"
  let ?node = "entry_node slug prefix k nodes ?r ranges"
  have written: "text = file_text ?lines" using assms(1) generated_text [OF split] by simp
  obtain gc where gc: "load_gateway_config_from_file (Some text) path = Inr gc" "valid (gc_partition_validation gc)"
      "gc\<lparr>gc_partition_validation := empty_validation\<rparr> = loaded_header path name (?r @ ''/'' @ slug @ ''/'' @ file) n service prefix\<lparr>
        gc_partitions := map ?node [0..<nat k]\<rparr>"
    using generated_map_loaded [OF split assms(2-4)] unfolding written by blast
  from arg_cong [OF gc(3), of gc_partitions] arg_cong [OF gc(3), of gc_num_layers] arg_cong [OF gc(3), of gc_first_stage_url]
  have parts: "gc_partitions gc = map ?node [0..<nat k]" "gc_num_layers gc = n" "gc_first_stage_url gc = stage_address prefix 1"
    by (simp_all add: loaded_header_def)
  note ranges = split_layers_partition [OF split]
  have ids: "map stage_id (map ?node [0..<nat k]) = [1..k]"
    by (rule nth_equalityI) (simp_all add: entry_node_def Let_def nth_upto)
  have all: "concat (map (\<lambda>p. layers (components p)) (map ?node [0..<nat k])) = [0..n - 1]"
    using ranges(1,2) map_nth [of ranges] by (simp add: comp_def entry_node_def Let_def)
  have one: "one_stage_list (getlines text)"
    unfolding written getlines_file_text [OF lines_clean [OF assms(4,3)]] by (rule generated_one_list [OF assms(4)])
  have "distinct (map stage_id (gc_partitions gc))" using ids by (simp add: parts del: map_map)
  note stage = loaders_agree [OF one gc(1) this]
  have "int (length (ranges ! i)) - n div k \<in> {0, 1} \<and> ranges ! i \<noteq> []" if "i < nat k" for i
    using ranges(2,3) that by auto
  then have "\<forall>p \<in> set (gc_partitions gc). int (length (layers (components p))) - n div k \<in> {0, 1} \<and> layers (components p) \<noteq> [] \<and>
       next_stage_url p = (if stage_id p < k then stage_address prefix (stage_id p + 1) else [])"
    by (auto simp: parts(1) entry_node_def Let_def)
  then show ?thesis using gc(1,2) parts(2,3) ids all stage by (intro exI [of _ gc]) (simp add: parts(1) del: map_map)
qed

theorem generated_map_loads_witness:
  "\<exists>text gc. generate_stage_map ''m'' ''m'' ''m.gguf'' 5 2 ''gw'' ''st'' [''a'', ''b''] ''/app'' = Inr text \<and>
     load_gateway_config_from_file (Some text) ''c'' = Inr gc \<and> valid (gc_partition_validation gc) \<and>
     map stage_id (gc_partitions gc) = [1, 2]"
proof -
  have ok: "map_texts_ok ''m'' ''m'' ''m.gguf'' ''gw'' ''st'' ''/app'' [''a'', ''b'']"
    by (simp add: map_texts_ok_def yaml_value_def is_blank_def is_trailing_blank_def)
  have "\<exists>text. generate_stage_map ''m'' ''m'' ''m.gguf'' 5 2 ''gw'' ''st'' [''a'', ''b''] ''/app'' = Inr text"
    using generated_text [OF split_layers_ranges [of 2 5, simplified]] by blast
  then obtain t where t: "generate_stage_map ''m'' ''m'' ''m.gguf'' 5 2 ''gw'' ''st'' [''a'', ''b''] ''/app'' = Inr t" by blast
  have "[1..2 :: int] = [1, 2]" by (simp add: upto.simps)
  then show ?thesis using generated_map_loads [OF t _ _ ok, of "''c''" "''c''"] t by auto
qed

end
