(* ===== verification/Manifest.thy ===== *)
theory Manifest
  imports Gateway_Server Generated_Map "HOL-Library.Sublist"
begin

text \<open>
  Partition manifests: the JSON file \<open>dli-partition-manifest\<close> writes for a partition
  (\<open>partition_manifest_tool.cpp\<close>) and the reader the shard tools share (\<open>manifest_json.hpp\<close>). The
  reader finds the first occurrence of a quoted key and the next colon; a position in the text is
  the rest of the text after it.
\<close>

section \<open>The reader\<close>

record partition_manifest =
  mn_partition_id :: string
  mn_stage_id :: int
  mn_service_name :: string
  mn_physical_node :: string
  mn_partition_file :: string
  mn_next_stage_url :: string
  mn_owns_embedding :: bool
  mn_owns_norm :: bool
  mn_owns_lm_head :: bool
  mn_layers :: "int list"
  mn_tensor_names :: "string list"

text \<open>\<open>json.find(pat)\<close>: what follows the first occurrence.\<close>

fun after_sub :: "string \<Rightarrow> string \<Rightarrow> string option" where
  "after_sub pat [] = (if pat = [] then Some [] else None)"
| "after_sub pat (c # s) = (if is_prefix pat (c # s) then Some (drop (length pat) (c # s)) else after_sub pat s)"

definition after_key :: "string \<Rightarrow> string \<Rightarrow> string option" where
  "after_key key json = after_sub (quote # key @ [quote]) json"

definition find_key :: "string \<Rightarrow> string \<Rightarrow> string result" where
  "find_key json key =
     (case after_key key json of
        None \<Rightarrow> Inl (''manifest missing key: '' @ key)
      | Some r \<Rightarrow>
          (case after_sub '':'' r of
             None \<Rightarrow> Inl (''manifest key has no value: '' @ key)
           | Some v \<Rightarrow> Inr (skip_ws v)))"

definition manifest_escape :: "char \<Rightarrow> char option" where
  "manifest_escape c =
     (if c = quote then Some quote
      else if c = backslash then Some backslash
      else if c = CHR ''/'' then Some (CHR ''/'')
      else if c = CHR ''b'' then Some (CHR 0x08)
      else if c = CHR ''f'' then Some (CHR 0x0C)
      else if c = CHR ''n'' then Some (CHR 0x0A)
      else if c = CHR ''r'' then Some (CHR 0x0D)
      else if c = CHR ''t'' then Some (CHR 0x09)
      else None)"

text \<open>The loop of \<open>parse_json_string_at\<close>: the text read so far and the rest.\<close>

fun json_string_loop :: "string \<Rightarrow> string \<Rightarrow> (string \<times> string) result" where
  "json_string_loop v [] = Inl ''unterminated JSON string''"
| "json_string_loop v [c] =
     (if c = quote then Inr (v, [])
      else if c = backslash then Inl ''unterminated JSON escape sequence''
      else Inl ''unterminated JSON string'')"
| "json_string_loop v (c # d # s) =
     (if c = quote then Inr (v, d # s)
      else if c = backslash
      then (case manifest_escape d of
              None \<Rightarrow> Inl ''unsupported JSON escape sequence''
            | Some e \<Rightarrow> json_string_loop (v @ [e]) s)
      else json_string_loop (v @ [c]) (d # s))"

definition parse_json_string_at :: "string \<Rightarrow> (string \<times> string) result" where
  "parse_json_string_at s =
     (case skip_ws s of
        [] \<Rightarrow> Inl ''expected JSON string''
      | c # r \<Rightarrow> if c = quote then json_string_loop [] r else Inl ''expected JSON string'')"

definition parse_json_string_value :: "string \<Rightarrow> string \<Rightarrow> string result" where
  "parse_json_string_value json key =
     bindR (find_key json key) (\<lambda>s. bindR (parse_json_string_at s) (\<lambda>(v, _). Inr v))"

text \<open>An optional minus and digits, and what follows.\<close>

definition int_text :: "string \<Rightarrow> string \<times> string" where
  "int_text s = (case split_minus s of (sign, r) \<Rightarrow> (sign @ takeWhile is_digit r, dropWhile is_digit r))"

definition parse_json_int_value :: "string \<Rightarrow> string \<Rightarrow> int result" where
  "parse_json_int_value json key =
     bindR (find_key json key) (\<lambda>s.
     case int_text (skip_ws s) of
       (t, _) \<Rightarrow> if t = [] then Inl (''expected integer value for key: '' @ key) else std_stoi t)"

definition parse_json_bool_value :: "string \<Rightarrow> string \<Rightarrow> bool result" where
  "parse_json_bool_value json key =
     bindR (find_key json key) (\<lambda>s.
     let s = skip_ws s
     in if is_prefix ''true'' s then Inr True
        else if is_prefix ''false'' s then Inr False
        else Inl (''expected boolean value for key: '' @ key))"

lemma json_string_loop_length: "json_string_loop v s = Inr (t, r) \<Longrightarrow> length r < length s"
  by (induction v s rule: json_string_loop.induct) (auto split: if_splits option.splits)

lemma skip_ws_length: "length (skip_ws s) \<le> length s"
  by (simp add: skip_ws_def length_dropWhile_le)

lemma parse_string_length: "parse_json_string_at s = Inr (t, r) \<Longrightarrow> length r < length s"
  using skip_ws_length [of s]
  by (auto simp: parse_json_string_at_def dest!: json_string_loop_length split: list.splits if_splits)

lemma array_step:
  "\<lbrakk>skip_ws s = c # r; parse_json_string_at (c # r) = Inr (v, r'); skip_ws r' = d # r''\<rbrakk> \<Longrightarrow> length r'' < length s"
  using skip_ws_length [of s] skip_ws_length [of r'] parse_string_length [of "c # r" v r'] by simp

lemma int_text_length: "length (snd (int_text s)) \<le> length s"
proof -
  obtain sign r where s: "split_minus s = (sign, r)" by (rule prod.exhaust)
  then have "length r \<le> length s" using split_minus_cases [OF s] by simp
  then show ?thesis using length_dropWhile_le [of is_digit r] by (simp add: int_text_def s)
qed

lemma int_array_step:
  "\<lbrakk>skip_ws s = c # r; (t, r') = int_text (c # r); skip_ws r' = d # r''\<rbrakk> \<Longrightarrow> length r'' < length s"
  using skip_ws_length [of s] skip_ws_length [of r'] int_text_length [of "c # r"] by (auto dest: sym)

text \<open>The loops over an array, from after the bracket; the values, in order.\<close>

function string_array_loop :: "string \<Rightarrow> string \<Rightarrow> string list result" where
  "string_array_loop key s =
     (case skip_ws s of
        [] \<Rightarrow> Inl (''unterminated string array for key: '' @ key)
      | c # r \<Rightarrow>
          if c = CHR '']'' then Inr []
          else (case parse_json_string_at (c # r) of
                  Inl e \<Rightarrow> Inl e
                | Inr (v, r') \<Rightarrow>
                    (case skip_ws r' of
                       [] \<Rightarrow> Inl (''expected ',' or ']' in string array for key: '' @ key)
                     | d # r'' \<Rightarrow>
                         if d = CHR '','' then bindR (string_array_loop key r'') (\<lambda>vs. Inr (v # vs))
                         else if d = CHR '']'' then Inr [v]
                         else Inl (''expected ',' or ']' in string array for key: '' @ key))))"
  by auto
termination
  by (relation "measure (\<lambda>(key, s). length s)") (auto dest: array_step)

function int_array_loop :: "string \<Rightarrow> string \<Rightarrow> int list result" where
  "int_array_loop key s =
     (case skip_ws s of
        [] \<Rightarrow> Inl (''unterminated integer array for key: '' @ key)
      | c # r \<Rightarrow>
          if c = CHR '']'' then Inr []
          else (case int_text (c # r) of (t, r') \<Rightarrow>
                  if t = [] then Inl (''expected integer item in array for key: '' @ key)
                  else (case std_stoi t of
                          Inl e \<Rightarrow> Inl e
                        | Inr i \<Rightarrow>
                            (case skip_ws r' of
                               [] \<Rightarrow> Inl (''expected ',' or ']' in integer array for key: '' @ key)
                             | d # r'' \<Rightarrow>
                                 if d = CHR '','' then bindR (int_array_loop key r'') (\<lambda>is. Inr (i # is))
                                 else if d = CHR '']'' then Inr [i]
                                 else Inl (''expected ',' or ']' in integer array for key: '' @ key)))))"
  by auto
termination
  by (relation "measure (\<lambda>(key, s). length s)") (auto dest: int_array_step)

declare string_array_loop.simps [simp del] int_array_loop.simps [simp del]

definition parse_json_string_array_value :: "string \<Rightarrow> string \<Rightarrow> string list result" where
  "parse_json_string_array_value json key =
     bindR (find_key json key) (\<lambda>s.
     case skip_ws s of
       [] \<Rightarrow> Inl (''expected string array for key: '' @ key)
     | c # r \<Rightarrow> if c = CHR ''['' then string_array_loop key r else Inl (''expected string array for key: '' @ key))"

definition parse_json_int_array_value :: "string \<Rightarrow> string \<Rightarrow> int list result" where
  "parse_json_int_array_value json key =
     bindR (find_key json key) (\<lambda>s.
     case skip_ws s of
       [] \<Rightarrow> Inl (''expected integer array for key: '' @ key)
     | c # r \<Rightarrow> if c = CHR ''['' then int_array_loop key r else Inl (''expected integer array for key: '' @ key))"

definition parse_partition_manifest_text :: "string \<Rightarrow> partition_manifest result" where
  "parse_partition_manifest_text json =
     bindR (parse_json_string_value json ''partition_id'') (\<lambda>pid.
     bindR (parse_json_int_value json ''stage_id'') (\<lambda>sid.
     bindR (parse_json_string_value json ''service_name'') (\<lambda>service.
     bindR (parse_json_string_value json ''physical_node'') (\<lambda>node.
     bindR (parse_json_string_value json ''partition_file'') (\<lambda>file.
     bindR (parse_json_string_value json ''next_stage_url'') (\<lambda>url.
     bindR (parse_json_bool_value json ''embedding'') (\<lambda>emb.
     bindR (parse_json_bool_value json ''norm'') (\<lambda>nrm.
     bindR (parse_json_bool_value json ''lm_head'') (\<lambda>lmh.
     bindR (parse_json_int_array_value json ''layers'') (\<lambda>ls.
     bindR (parse_json_string_array_value json ''tensor_names'') (\<lambda>names.
     if pid = [] then Inl ''manifest partition_id is empty''
     else if sid \<le> 0 then Inl ''manifest stage_id must be positive''
     else Inr \<lparr>mn_partition_id = pid, mn_stage_id = sid, mn_service_name = service, mn_physical_node = node,
                mn_partition_file = file, mn_next_stage_url = url, mn_owns_embedding = emb, mn_owns_norm = nrm,
                mn_owns_lm_head = lmh, mn_layers = ls, mn_tensor_names = names\<rparr>)))))))))))"

definition load_partition_manifest :: "string \<Rightarrow> string option \<Rightarrow> partition_manifest result" where
  "load_partition_manifest path content =
     (case content of
        None \<Rightarrow> Inl (''failed to open file: '' @ path)
      | Some json \<Rightarrow> parse_partition_manifest_text json)"

section \<open>The writer\<close>

definition has_missing_tensors :: "partition_tensor_assignment \<Rightarrow> bool" where
  "has_missing_tensors a \<longleftrightarrow> missing_required_names a \<noteq> [] \<or> missing_required_prefixes a \<noteq> []"

definition partition_manifest_json :: "partition_node \<Rightarrow> partition_tensor_assignment \<Rightarrow> string" where
  "partition_manifest_json p a =
     ''{'' @ json_key ''partition_id'' @ json_str (partition_id p) @ '',''
     @ json_key ''stage_id'' @ show_int (stage_id p) @ '',''
     @ json_key ''service_name'' @ json_str (service_name p) @ '',''
     @ json_key ''physical_node'' @ json_str (physical_node p) @ '',''
     @ json_key ''partition_file'' @ json_str (partition_file p) @ '',''
     @ json_key ''next_stage_url'' @ json_str (next_stage_url p) @ '',''
     @ json_key ''components'' @ ''{''
     @ json_key ''embedding'' @ json_bool (embedding (components p)) @ '',''
     @ json_key ''layers'' @ int_vector_json (layers (components p)) @ '',''
     @ json_key ''norm'' @ json_bool (norm (components p)) @ '',''
     @ json_key ''lm_head'' @ json_bool (lm_head (components p)) @ ''},''
     @ json_key ''tensor_count'' @ show_int (int (length (tensor_names a))) @ '',''
     @ json_key ''missing_required_names'' @ string_vector_json (missing_required_names a) @ '',''
     @ json_key ''missing_required_prefixes'' @ string_vector_json (missing_required_prefixes a) @ '',''
     @ json_key ''tensor_names'' @ string_vector_json (tensor_names a) @ ''}''"

section \<open>Finding a key in written text\<close>

named_theorems find_simps \<open>how a key search moves over written JSON text\<close>

lemma after_skip [find_simps]: "c \<noteq> quote \<Longrightarrow> after_key key (c # s) = after_key key s"
  by (simp add: after_key_def)

lemma after_skip_plain: "quote \<notin> set pre \<Longrightarrow> after_key key (pre @ s) = after_key key s"
  by (induction pre) (auto simp: find_simps)

lemma after_not_key:
  "\<not> is_prefix (key @ [quote]) s \<Longrightarrow> after_key key (quote # s) = after_key key s"
  by (simp add: after_key_def)

lemma after_value_end:
  assumes "plain_key key" "list_all (\<lambda>c. \<not> is_key_char c) (take 1 s)"
  shows "after_key key (quote # s) = after_key key s"
proof -
  obtain a key' where "key = a # key'" "is_key_char a"
    using assms(1) by (cases key) (auto simp: plain_key_def)
  then have "\<not> is_prefix (key @ [quote]) s" using assms(2) by (cases s) auto
  then show ?thesis by (rule after_not_key)
qed

lemma after_json_key [find_simps]:
  assumes "plain_key k" "plain_key key"
  shows "after_key key (json_key k @ s) = (if k = key then Some (CHR '':'' # s) else after_key key s)"
proof -
  note nq = assms [THEN plain_key_no_quote]
  have "after_key key (k @ quote # CHR '':'' # s) = after_key key s"
    using after_value_end [OF assms(2), of "CHR '':'' # s"]
    by (simp add: after_skip_plain nq find_simps)
  then show ?thesis using nq by (simp add: json_key_def is_prefix_quoted after_key_def)
qed

text \<open>A written text is passed over unless it ends in the key: a quote inside it is escaped, and only
  the part after a quote could be taken for the key.\<close>

lemma escape_backslash: "backslash \<notin> set (json_escape u) \<Longrightarrow> json_escape u = u"
proof (induction u)
  case (Cons c u)
  then show ?case by (cases c rule: escape_char_cases) (auto simp: json_escape_simps)
qed (simp add: json_escape_simps)

lemma key_no_backslash: "list_all is_key_char key \<Longrightarrow> backslash \<notin> set key"
  by (auto simp: list_all_iff)

definition no_key_next :: "string \<Rightarrow> bool" where
  "no_key_next s \<longleftrightarrow> list_all (\<lambda>c. \<not> is_key_char c) (take 1 s)"

lemma no_key_next_simps [find_simps]:
  "no_key_next (CHR '','' # s)" "no_key_next (CHR ''}'' # s)" "no_key_next (CHR '']'' # s)"
  by (simp_all add: no_key_next_def is_key_char_def)

lemma after_escaped:
  assumes "plain_key key" "no_key_next s" "\<not> suffix key t"
  shows "after_key key (json_escape t @ quote # s) = after_key key s"
proof -
  have k: "list_all is_key_char key" using assms(1) by (simp add: plain_key_def)
  have inside: "after_key key (quote # json_escape u @ quote # s) = after_key key (json_escape u @ quote # s)"
    if "\<not> suffix key u" for u
  proof (rule after_not_key)
    show "\<not> is_prefix (key @ [quote]) (json_escape u @ quote # s)"
    proof
      assume "is_prefix (key @ [quote]) (json_escape u @ quote # s)"
      then have "json_escape u = key" by (rule prefix_escape [OF k])
      with escape_backslash [of u] key_no_backslash [OF k] that show False by simp
    qed
  qed
  note last = after_value_end [OF assms(1) assms(2) [unfolded no_key_next_def]]
  show ?thesis using assms(3)
  proof (induction t)
    case Nil
    show ?case using last by (simp add: json_escape_simps)
  next
    case (Cons c t)
    then have "\<not> suffix key t" by (auto simp: suffix_Cons)
    with Cons.IH inside [OF this] show ?case
      by (cases c rule: escape_char_cases) (simp_all add: json_escape_simps after_skip)
  qed
qed

lemma after_string [find_simps]:
  assumes "plain_key key" "no_key_next s" "\<not> suffix key t"
  shows "after_key key (json_str t @ s) = after_key key s"
proof -
  have k: "list_all is_key_char key" using assms(1) by (simp add: plain_key_def)
  have "\<not> is_prefix (key @ [quote]) (json_escape t @ quote # s)"
    using prefix_escape [OF k] escape_backslash [of t] key_no_backslash [OF k] assms(3) by fastforce
  then show ?thesis using after_escaped [OF assms]
    by (simp add: json_str_def after_not_key)
qed

lemma after_plain_values [find_simps]:
  "after_key key (show_int i @ s) = after_key key s" "after_key key (json_bool b @ s) = after_key key s"
  "after_key key (int_vector_json xs @ s) = after_key key s"
  using after_skip_plain [of "int_vector_json xs"]
  by (simp_all add: after_skip_plain show_int_no_quote json_bool_def int_vector_json_def comma_ints_no)

lemma after_strings [find_simps]:
  assumes "plain_key key" "list_all (\<lambda>t. \<not> suffix key t) ts"
  shows "after_key key (string_vector_json ts @ s) = after_key key s"
proof -
  have "after_key key (comma_texts (map json_str ts) @ CHR '']'' # s) = after_key key s"
    using assms by (induction ts rule: induct_list012) (simp_all add: find_simps)
  then show ?thesis by (simp add: string_vector_json_def find_simps)
qed

section \<open>Reading back what was written\<close>

lemma read_string:
  assumes "escape_safe t"
  shows "parse_json_string_at (json_str t @ s) = Inr (t, s)"
proof -
  have "json_string_loop v (json_escape t @ quote # s) = Inr (v @ t, s)" for v
    using assms
  proof (induction t arbitrary: v)
    case Nil
    then show ?case by (cases s) (simp_all add: json_escape_simps)
  next
    case (Cons c t)
    obtain a w where w: "json_escape t @ quote # s = a # w" by (cases "json_escape t @ quote # s") auto
    have safe: "\<not> unicode_escaped c" "escape_safe t" using Cons.prems by (simp_all add: escape_safe_simps)
    show ?case
    proof (cases "c \<in> {quote, backslash, CHR 0x08, CHR 0x0C, CHR 0x0A, CHR 0x0D, CHR 0x09}")
      case True
      then show ?thesis
        by (elim insertE emptyE) (simp_all add: json_escape_simps escape_char_def manifest_escape_def Cons.IH safe)
    next
      case False
      with safe(1) have "escape_char c = [c]" by (auto simp: escape_char_def unicode_escaped_def)
      then show ?thesis using False Cons.IH [OF safe(2), of "v @ [c]"] w by (simp add: json_escape_simps)
    qed
  qed
  then show ?thesis by (simp add: parse_json_string_at_def json_str_def skip_ws_def is_space_def)
qed

lemma string_array_item:
  assumes "escape_safe t"
  shows "string_array_loop key (json_str t @ s) =
    (case skip_ws s of
       [] \<Rightarrow> Inl (''expected ',' or ']' in string array for key: '' @ key)
     | d # r \<Rightarrow> if d = CHR '','' then bindR (string_array_loop key r) (\<lambda>vs. Inr (t # vs))
                else if d = CHR '']'' then Inr [t]
                else Inl (''expected ',' or ']' in string array for key: '' @ key))"
proof -
  obtain w where w: "json_str t @ s = quote # w" by (simp add: json_str_def)
  then have "skip_ws (json_str t @ s) = quote # w" by (simp add: skip_ws_def is_space_def)
  then show ?thesis using read_string [OF assms, of s] w
    by (subst string_array_loop.simps) (simp split: list.splits)
qed

lemma string_array_read:
  assumes "list_all escape_safe ts"
  shows "string_array_loop key (comma_texts (map json_str ts) @ CHR '']'' # s) = Inr ts"
  using assms
  by (induction ts rule: induct_list012)
    (simp_all add: string_array_loop.simps [of _ "CHR '']'' # _"] string_array_item skip_ws_def is_space_def)

lemma int_text_show: "no_digit_next s \<Longrightarrow> int_text (show_int i @ s) = (show_int i, s)"
  using match_int_show [of s i] by (auto simp: int_text_def match_int_def Let_def split: prod.splits if_splits)

lemma int_array_item:
  assumes "int32_range i" "no_digit_next s"
  shows "int_array_loop key (show_int i @ s) =
    (case skip_ws s of
       [] \<Rightarrow> Inl (''expected ',' or ']' in integer array for key: '' @ key)
     | d # r \<Rightarrow> if d = CHR '','' then bindR (int_array_loop key r) (\<lambda>is. Inr (i # is))
                else if d = CHR '']'' then Inr [i]
                else Inl (''expected ',' or ']' in integer array for key: '' @ key))"
proof -
  obtain c w where w: "show_int i @ s = c # w" "is_digit c \<or> c = CHR ''-''"
    using show_int_chars [of _ i] by (cases "show_int i") (auto simp: show_int_def split: if_splits)
  then have "\<not> is_space c" "c \<noteq> CHR '']''" using digit_not_space by (auto simp: is_space_def is_digit_def)
  then have "skip_ws (show_int i @ s) = c # w" using w(1) by (simp add: skip_ws_def)
  moreover have "std_stoi (show_int i) = Inr i" "show_int i \<noteq> []"
    using assms(1) std_stoi_show_int [of i] by (auto simp: int32_range_def show_int_def split: if_splits)
  ultimately show ?thesis using int_text_show [OF assms(2), of i] w(1) \<open>c \<noteq> CHR '']''\<close>
    by (subst int_array_loop.simps) (simp split: list.splits)
qed

lemma int_array_read:
  assumes "list_all int32_range xs"
  shows "int_array_loop key (comma_ints xs @ CHR '']'' # s) = Inr xs"
  using assms
  by (induction xs rule: induct_list012)
    (simp_all add: int_array_loop.simps [of _ "CHR '']'' # _"] int_array_item skip_ws_def is_space_def no_digit_next_def is_digit_def)

definition manifest_keys :: "string list" where
  "manifest_keys = [''partition_id'', ''stage_id'', ''service_name'', ''physical_node'', ''partition_file'', ''next_stage_url'',
     ''embedding'', ''norm'', ''lm_head'', ''layers'', ''tensor_names'']"

text \<open>Texts that survive: no control characters beyond the ones with a letter escape, and none that
  ends in the name of a key.\<close>

definition manifest_text_ok :: "string \<Rightarrow> bool" where
  "manifest_text_ok t \<longleftrightarrow> escape_safe t \<and> list_all (\<lambda>k. \<not> suffix k t) manifest_keys"

definition manifest_ok :: "partition_node \<Rightarrow> partition_tensor_assignment \<Rightarrow> bool" where
  "manifest_ok p a \<longleftrightarrow>
     list_all manifest_text_ok ([partition_id p, service_name p, physical_node p, partition_file p, next_stage_url p] @
       missing_required_names a @ missing_required_prefixes a) \<and>
     list_all escape_safe (tensor_names a) \<and> list_all int32_range (stage_id p # layers (components p)) \<and>
     partition_id p \<noteq> [] \<and> 0 < stage_id p"

definition manifest_of :: "partition_node \<Rightarrow> partition_tensor_assignment \<Rightarrow> partition_manifest" where
  "manifest_of p a = \<lparr>mn_partition_id = partition_id p, mn_stage_id = stage_id p, mn_service_name = service_name p,
     mn_physical_node = physical_node p, mn_partition_file = partition_file p, mn_next_stage_url = next_stage_url p,
     mn_owns_embedding = embedding (components p), mn_owns_norm = norm (components p),
     mn_owns_lm_head = lm_head (components p), mn_layers = layers (components p), mn_tensor_names = tensor_names a\<rparr>"

lemma manifest_plain_keys:
  "plain_key ''partition_id''" "plain_key ''stage_id''" "plain_key ''service_name''" "plain_key ''physical_node''"
  "plain_key ''partition_file''" "plain_key ''next_stage_url''" "plain_key ''components''" "plain_key ''embedding''"
  "plain_key ''layers''" "plain_key ''norm''" "plain_key ''lm_head''" "plain_key ''tensor_count''"
  "plain_key ''missing_required_names''" "plain_key ''missing_required_prefixes''" "plain_key ''tensor_names''"
  by (simp_all add: plain_key_def is_key_char_def)

lemma manifest_positions:
  assumes "manifest_ok p a"
  defines "json \<equiv> partition_manifest_json p a @ [CHR 0x0A]"
  shows "\<exists>r. after_key ''partition_id'' json = Some (CHR '':'' # json_str (partition_id p) @ r)"
    "\<exists>r. after_key ''stage_id'' json = Some (CHR '':'' # show_int (stage_id p) @ CHR '','' # r)"
    "\<exists>r. after_key ''service_name'' json = Some (CHR '':'' # json_str (service_name p) @ r)"
    "\<exists>r. after_key ''physical_node'' json = Some (CHR '':'' # json_str (physical_node p) @ r)"
    "\<exists>r. after_key ''partition_file'' json = Some (CHR '':'' # json_str (partition_file p) @ r)"
    "\<exists>r. after_key ''next_stage_url'' json = Some (CHR '':'' # json_str (next_stage_url p) @ r)"
    "\<exists>r. after_key ''embedding'' json = Some (CHR '':'' # json_bool (embedding (components p)) @ r)"
    "\<exists>r. after_key ''layers'' json = Some (CHR '':'' # int_vector_json (layers (components p)) @ r)"
    "\<exists>r. after_key ''norm'' json = Some (CHR '':'' # json_bool (norm (components p)) @ r)"
    "\<exists>r. after_key ''lm_head'' json = Some (CHR '':'' # json_bool (lm_head (components p)) @ r)"
    "\<exists>r. after_key ''tensor_names'' json = Some (CHR '':'' # string_vector_json (tensor_names a) @ r)"
proof -
  have ok: "\<not> suffix k (partition_id p)" "\<not> suffix k (service_name p)" "\<not> suffix k (physical_node p)"
      "\<not> suffix k (partition_file p)" "\<not> suffix k (next_stage_url p)"
      "list_all (\<lambda>t. \<not> suffix k t) (missing_required_names a)" "list_all (\<lambda>t. \<not> suffix k t) (missing_required_prefixes a)"
    if "List.member manifest_keys k" for k
    using assms(1) that by (auto simp: manifest_ok_def manifest_text_ok_def list_all_iff)
  have mem: "List.member manifest_keys ''partition_id''" "List.member manifest_keys ''stage_id''"
    "List.member manifest_keys ''service_name''" "List.member manifest_keys ''physical_node''"
    "List.member manifest_keys ''partition_file''" "List.member manifest_keys ''next_stage_url''"
    "List.member manifest_keys ''embedding''" "List.member manifest_keys ''layers''"
    "List.member manifest_keys ''norm''" "List.member manifest_keys ''lm_head''"
    "List.member manifest_keys ''tensor_names''"
    by code_simp+
  note find = partition_manifest_json_def find_simps manifest_plain_keys
  show "\<exists>r. after_key ''partition_id'' json = Some (CHR '':'' # json_str (partition_id p) @ r)"
    unfolding json_def using ok [OF mem(1)] by (simp add: find)
  show "\<exists>r. after_key ''stage_id'' json = Some (CHR '':'' # show_int (stage_id p) @ CHR '','' # r)"
    unfolding json_def using ok [OF mem(2)] by (simp add: find)
  show "\<exists>r. after_key ''service_name'' json = Some (CHR '':'' # json_str (service_name p) @ r)"
    unfolding json_def using ok [OF mem(3)] by (simp add: find)
  show "\<exists>r. after_key ''physical_node'' json = Some (CHR '':'' # json_str (physical_node p) @ r)"
    unfolding json_def using ok [OF mem(4)] by (simp add: find)
  show "\<exists>r. after_key ''partition_file'' json = Some (CHR '':'' # json_str (partition_file p) @ r)"
    unfolding json_def using ok [OF mem(5)] by (simp add: find)
  show "\<exists>r. after_key ''next_stage_url'' json = Some (CHR '':'' # json_str (next_stage_url p) @ r)"
    unfolding json_def using ok [OF mem(6)] by (simp add: find)
  show "\<exists>r. after_key ''embedding'' json = Some (CHR '':'' # json_bool (embedding (components p)) @ r)"
    unfolding json_def using ok [OF mem(7)] by (simp add: find)
  show "\<exists>r. after_key ''layers'' json = Some (CHR '':'' # int_vector_json (layers (components p)) @ r)"
    unfolding json_def using ok [OF mem(8)] by (simp add: find)
  show "\<exists>r. after_key ''norm'' json = Some (CHR '':'' # json_bool (norm (components p)) @ r)"
    unfolding json_def using ok [OF mem(9)] by (simp add: find)
  show "\<exists>r. after_key ''lm_head'' json = Some (CHR '':'' # json_bool (lm_head (components p)) @ r)"
    unfolding json_def using ok [OF mem(10)] by (simp add: find)
  show "\<exists>r. after_key ''tensor_names'' json = Some (CHR '':'' # string_vector_json (tensor_names a) @ r)"
    unfolding json_def using ok [OF mem(11)] by (simp add: find)
qed

lemma find_key_value:
  assumes "after_key key json = Some (CHR '':'' # v)"
  shows "find_key json key = Inr (skip_ws v)"
  using assms by (simp add: find_key_def)

lemma skip_ws_twice [simp]: "skip_ws (skip_ws s) = skip_ws s"
  by (simp add: skip_ws_def)

lemma bool_prefix: "is_prefix ''true'' (json_bool b @ s) = b" "is_prefix ''false'' (json_bool b @ s) = (\<not> b)"
  by (simp_all add: json_bool_def)

lemma skip_bracket: "skip_ws (CHR ''['' # s) = CHR ''['' # s"
  by (simp add: skip_ws_def is_space_def)

lemma vector_head: "skip_ws (int_vector_json xs @ s) = CHR ''['' # comma_ints xs @ CHR '']'' # s"
    "skip_ws (string_vector_json ts @ s) = CHR ''['' # comma_texts (map json_str ts) @ CHR '']'' # s"
  by (simp_all add: int_vector_json_def string_vector_json_def skip_ws_def is_space_def)

lemma manifest_read:
  assumes ok: "manifest_ok p a"
  shows "parse_partition_manifest_text (partition_manifest_json p a @ [CHR 0x0A]) = Inr (manifest_of p a)"
proof -
  note pos = manifest_positions [OF ok]
  have safe: "escape_safe (partition_id p)" "escape_safe (service_name p)" "escape_safe (physical_node p)"
      "escape_safe (partition_file p)" "escape_safe (next_stage_url p)" "list_all escape_safe (tensor_names a)"
      "int32_range (stage_id p)" "list_all int32_range (layers (components p))" "partition_id p \<noteq> []" "0 < stage_id p"
    using ok by (auto simp: manifest_ok_def manifest_text_ok_def list_all_iff)
  have str: "parse_json_string_value json key = Inr t"
    if "\<exists>r. after_key key json = Some (CHR '':'' # json_str t @ r)" "escape_safe t" for json key t
    using that read_string [OF that(2)] by (auto simp: parse_json_string_value_def find_key_value skip_ws_string)
  have int: "parse_json_int_value json key = Inr i"
    if "\<exists>r. after_key key json = Some (CHR '':'' # show_int i @ CHR '','' # r)" "int32_range i" for json key i
    using that std_stoi_show_int [of i]
    by (auto simp: parse_json_int_value_def find_key_value skip_ws_int int_text_show int32_range_def show_int_clean no_digit_next_def
        is_digit_def)
  have bool: "parse_json_bool_value json key = Inr b"
    if "\<exists>r. after_key key json = Some (CHR '':'' # json_bool b @ r)" for json key b
    using that by (auto simp: parse_json_bool_value_def find_key_value skip_ws_bool bool_prefix Let_def)
  have ints: "parse_json_int_array_value json key = Inr xs"
    if "\<exists>r. after_key key json = Some (CHR '':'' # int_vector_json xs @ r)" "list_all int32_range xs" for json key xs
    using that by (auto simp: parse_json_int_array_value_def find_key_value vector_head int_array_read skip_bracket)
  have texts: "parse_json_string_array_value json key = Inr ts"
    if "\<exists>r. after_key key json = Some (CHR '':'' # string_vector_json ts @ r)" "list_all escape_safe ts" for json key ts
    using that by (auto simp: parse_json_string_array_value_def find_key_value vector_head string_array_read skip_bracket)
  show ?thesis
    unfolding parse_partition_manifest_text_def
    using str [OF pos(1) safe(1)] int [OF pos(2) safe(7)] str [OF pos(3) safe(2)] str [OF pos(4) safe(3)]
      str [OF pos(5) safe(4)] str [OF pos(6) safe(5)] bool [OF pos(7)] ints [OF pos(8) safe(8)] bool [OF pos(9)]
      bool [OF pos(10)] texts [OF pos(11) safe(6)] safe(9,10)
    by (simp add: manifest_of_def)
qed

section \<open>The tool\<close>

text \<open>Arguments: help, an error, or the options. An environment variable counts when it is not empty.\<close>

datatype 'a cli = CliHelp | CliError string | CliOptions 'a

definition env_or :: "string option \<Rightarrow> string \<Rightarrow> string" where
  "env_or env default_value = (case env of None \<Rightarrow> default_value | Some v \<Rightarrow> if v \<noteq> [] then v else default_value)"

record manifest_options =
  mo_config_path :: string
  mo_model_path :: string
  mo_output_dir :: string
  mo_allow_missing :: bool

fun manifest_args_loop :: "manifest_options \<Rightarrow> string list \<Rightarrow> manifest_options cli" where
  "manifest_args_loop opts [] = CliOptions opts"
| "manifest_args_loop opts (arg # rest) =
     (if arg = ''--help'' \<or> arg = ''-h'' then CliHelp
      else if arg = ''--config''
      then (case rest of [] \<Rightarrow> CliError ''--config requires a value'' | v # r \<Rightarrow> manifest_args_loop (opts\<lparr>mo_config_path := v\<rparr>) r)
      else if arg = ''--model''
      then (case rest of [] \<Rightarrow> CliError ''--model requires a value'' | v # r \<Rightarrow> manifest_args_loop (opts\<lparr>mo_model_path := v\<rparr>) r)
      else if arg = ''--output-dir''
      then (case rest of [] \<Rightarrow> CliError ''--output-dir requires a value'' | v # r \<Rightarrow> manifest_args_loop (opts\<lparr>mo_output_dir := v\<rparr>) r)
      else if arg = ''--allow-missing'' then manifest_args_loop (opts\<lparr>mo_allow_missing := True\<rparr>) rest
      else CliError (''unknown argument: '' @ arg))"

definition parse_manifest_args ::
    "string option \<Rightarrow> string option \<Rightarrow> string option \<Rightarrow> string list \<Rightarrow> manifest_options cli" where
  "parse_manifest_args env_config env_model env_output args =
     (case manifest_args_loop \<lparr>mo_config_path = env_or env_config ''configs/stage_map.yaml'', mo_model_path = env_or env_model [],
             mo_output_dir = env_or env_output ''build/dli-partitions'', mo_allow_missing = False\<rparr> args of
        CliOptions opts \<Rightarrow>
          if mo_model_path opts = [] then CliError ''--model is required or set DLI_TEST_GGUF_MODEL_PATH''
          else if mo_output_dir opts = [] then CliError ''--output-dir must not be empty''
          else CliOptions opts
      | other \<Rightarrow> other)"

definition manifest_file_name :: "partition_node \<Rightarrow> string" where
  "manifest_file_name p = partition_id p @ ''.manifest.json''"

definition tensor_list_file_name :: "partition_node \<Rightarrow> string" where
  "tensor_list_file_name p = partition_id p @ ''.tensors.txt''"

definition manifest_entry_json :: "partition_node \<times> partition_tensor_assignment \<Rightarrow> string" where
  "manifest_entry_json = (\<lambda>(p, a).
     ''{'' @ json_key ''partition_id'' @ json_str (partition_id p) @ '',''
     @ json_key ''stage_id'' @ show_int (stage_id p) @ '',''
     @ json_key ''service_name'' @ json_str (service_name p) @ '',''
     @ json_key ''tensor_count'' @ show_int (int (length (tensor_names a))) @ '',''
     @ json_key ''missing_required_names'' @ string_vector_json (missing_required_names a) @ '',''
     @ json_key ''missing_required_prefixes'' @ string_vector_json (missing_required_prefixes a) @ '',''
     @ json_key ''manifest_file'' @ json_str (manifest_file_name p) @ '',''
     @ json_key ''tensor_list_file'' @ json_str (tensor_list_file_name p) @ ''}'')"

definition main_manifest_json ::
    "manifest_options \<Rightarrow> gateway_config \<Rightarrow> gguf_inspection \<Rightarrow> partition_tensor_assignment list \<Rightarrow> string" where
  "main_manifest_json opts cfg inspection assignments =
     ''{'' @ json_key ''ok'' @ ''true,''
     @ json_key ''config_path'' @ json_str (mo_config_path opts) @ '',''
     @ json_key ''model_path'' @ json_str (mo_model_path opts) @ '',''
     @ json_key ''model_name'' @ json_str (gc_model_name cfg) @ '',''
     @ json_key ''num_layers'' @ show_int (gc_num_layers cfg) @ '',''
     @ json_key ''gguf_tensor_count'' @ show_int (int (length (inspected_tensors inspection))) @ '',''
     @ json_key ''partition_count'' @ show_int (int (length (gc_partitions cfg))) @ '',''
     @ json_key ''partitions'' @ ''['' @ comma_texts (map manifest_entry_json (zip (gc_partitions cfg) assignments)) @ '']}''"

definition node_plan :: "partition_node \<Rightarrow> tensor_name_plan" where
  "node_plan p = build_llama_tensor_name_plan (partition_id p) (components p)"

text \<open>The exit code and the files written, by name in the output directory, in order.\<close>

definition run_manifest_tool ::
    "manifest_options \<Rightarrow> gateway_config result \<Rightarrow> gguf_inspection result \<Rightarrow> int \<times> (string \<times> string) list" where
  "run_manifest_tool opts config inspected =
     (case bindR config (\<lambda>cfg. bindR inspected (\<lambda>inspection. Inr (cfg, inspection))) of
        Inl e \<Rightarrow> (1, [])
      | Inr (cfg, inspection) \<Rightarrow>
          let assignments = assign_tensors_to_partitions inspection (map node_plan (gc_partitions cfg))
          in if list_ex has_missing_tensors assignments \<and> \<not> mo_allow_missing opts then (2, [])
             else (0, concat (map (\<lambda>(p, a).
                    [(manifest_file_name p, partition_manifest_json p a @ newline),
                     (tensor_list_file_name p, concat (map (\<lambda>name. name @ newline) (tensor_names a)))])
                    (zip (gc_partitions cfg) assignments)) @
                  [(''manifest.json'', main_manifest_json opts cfg inspection assignments @ newline)]))"

lemma service_named_like_a_key:
  "parse_partition_manifest_text (partition_manifest_json
     (empty_partition_node\<lparr>stage_id := 1, partition_id := ''p'', service_name := ''layers''\<rparr>)
     \<lparr>assigned_partition_id = ''p'', tensor_names = [], missing_required_names = [], missing_required_prefixes = []\<rparr>) =
   Inl ''expected integer array for key: layers''"
  by code_simp

section \<open>The round trip\<close>

text \<open>C23. The manifest a partition is written as is read back as that partition. The reader knows nothing
  of JSON structure: it takes the first quoted occurrence of a key. Still, for every partition and
  assignment whose texts have no character the reader refuses, and whose names, files, URL and missing
  lists do not end in the name of a key, each of the eleven fields comes back as it was, the quotes and
  backslashes of the texts included.\<close>

theorem manifest_round_trip:
  assumes "manifest_ok p a"
  shows "load_partition_manifest path (Some (partition_manifest_json p a @ newline)) = Inr (manifest_of p a)"
  by (simp add: load_partition_manifest_def manifest_read [OF assms])

definition quoted_node :: partition_node where
  "quoted_node = empty_partition_node\<lparr>stage_id := 2, partition_id := ''partition-2'', service_name := quote # ''a:b,c'' @ [backslash],
     next_stage_url := ''http://st-3:8000'', components := \<lparr>embedding = False, layers = [3, 4], norm = True, lm_head = False\<rparr>\<rparr>"

definition quoted_assignment :: partition_tensor_assignment where
  "quoted_assignment = \<lparr>assigned_partition_id = ''partition-2'', tensor_names = [''blk.3.a'', ''layers'', quote # ''x''],
     missing_required_names = [''output_norm.weight''], missing_required_prefixes = []\<rparr>"

theorem manifest_round_trip_witness:
  "load_partition_manifest ''m'' (Some (partition_manifest_json quoted_node quoted_assignment @ newline)) =
     Inr (manifest_of quoted_node quoted_assignment) \<and> manifest_ok quoted_node quoted_assignment"
proof -
  have ok: "manifest_ok quoted_node quoted_assignment" by code_simp
  then show ?thesis using manifest_round_trip [OF ok, of "''m''"] by blast
qed

end
