(* ===== verification/Shard_Tools.thy ===== *)
theory Shard_Tools
  imports Manifest Shard_Metadata
begin

text \<open>
  The shard tools: \<open>dli-gguf-shard-writer\<close> cuts the tensors a manifest names out of the full model and
  stamps them with the partition's metadata (\<open>gguf_shard_writer_tool.cpp\<close>), \<open>dli-gguf-shard-validate\<close>
  checks a shard against its manifest and the stage map (\<open>gguf_shard_validate_tool.cpp\<close>),
  \<open>gguf_inspector.cpp\<close> lists the tensors of a file.

  The gguf library is the parameter \<open>gguf_lib\<close>: a context \<open>'c\<close> with the values and tensors that can be
  read from it, the setters, and the files it opens. Its getters abort on a value of another type.
\<close>

section \<open>The library\<close>

record ('c, 't) gguf_lib =
  gf_values :: "'c \<Rightarrow> gguf_context"
  gf_keys :: "'c \<Rightarrow> string list"
  gf_tensors :: "'c \<Rightarrow> gguf_tensor_info list"
  gf_tensor :: "'c \<Rightarrow> string \<Rightarrow> 't option"
  gf_init_empty :: "'c option"
  gf_set_kv :: "'c \<Rightarrow> 'c \<Rightarrow> 'c"
  gf_set_val :: "string \<Rightarrow> gguf_value \<Rightarrow> 'c \<Rightarrow> 'c"
  gf_add_tensor :: "string \<Rightarrow> 't \<Rightarrow> 'c \<Rightarrow> 'c"
  gf_reopened :: "'c \<Rightarrow> 'c option"

text \<open>What the tools rely on, as the library documents it; \<open>gf_reopened\<close> is what opens the file written
  from a context.\<close>

definition context_names :: "('c, 't) gguf_lib \<Rightarrow> 'c \<Rightarrow> string list" where
  "context_names L c = map tensor_name (gf_tensors L c)"

definition gguf_laws :: "('c, 't) gguf_lib \<Rightarrow> bool" where
  "gguf_laws L \<longleftrightarrow>
     (\<exists>e. gf_init_empty L = Some e \<and> gf_values L e = Map.empty \<and> context_names L e = []) \<and>
     (\<forall>d s. gf_values L (gf_set_kv L d s) = gf_values L d ++ gf_values L s \<and>
       context_names L (gf_set_kv L d s) = context_names L d) \<and>
     (\<forall>k v c. gf_values L (gf_set_val L k v c) = (gf_values L c)(k \<mapsto> v) \<and>
       context_names L (gf_set_val L k v c) = context_names L c) \<and>
     (\<forall>n t c. n \<notin> set (context_names L c) \<longrightarrow> gf_values L (gf_add_tensor L n t c) = gf_values L c \<and>
       context_names L (gf_add_tensor L n t c) = context_names L c @ [n]) \<and>
     (\<forall>c. set (gf_keys L c) = dom (gf_values L c)) \<and>
     (\<forall>c n. gf_tensor L c n = None \<longleftrightarrow> n \<notin> set (context_names L c)) \<and>
     (\<forall>c. \<exists>r. gf_reopened L c = Some r \<and> gf_values L r = gf_values L c \<and> context_names L r = context_names L c)"

definition inspect_gguf_tensors :: "('c, 't) gguf_lib \<Rightarrow> string \<Rightarrow> 'c option \<Rightarrow> gguf_inspection result" where
  "inspect_gguf_tensors L path file =
     (case file of
        None \<Rightarrow> Inl (''failed to open GGUF file for inspection: '' @ path)
      | Some ctx \<Rightarrow> Inr \<lparr>inspection_path = path, inspected_tensors = gf_tensors L ctx\<rparr>)"

section \<open>Writing a shard\<close>

text \<open>The first candidate present decides.\<close>

fun read_i32_metadata_or_default :: "gguf_context \<Rightarrow> string list \<Rightarrow> int \<Rightarrow> int result" where
  "read_i32_metadata_or_default ctx [] default_value = Inr default_value"
| "read_i32_metadata_or_default ctx (key # keys) default_value =
     (case ctx key of
        None \<Rightarrow> read_i32_metadata_or_default ctx keys default_value
      | Some (GInt i) \<Rightarrow> Inr i
      | Some (GUInt u) \<Rightarrow> if u > 2 ^ 31 - 1 then Inl (''GGUF metadata value is too large for int: '' @ key) else Inr (int u)
      | Some _ \<Rightarrow> Inl (''GGUF metadata key has unsupported integer type for this writer: '' @ key))"

definition hidden_size_keys :: "string list" where
  "hidden_size_keys = [''llama.embedding_length'', ''gptneox.embedding_length'', ''mistral.embedding_length'']"

text \<open>The keys set one after the other.\<close>

definition add_dli_metadata ::
    "('c, 't) gguf_lib \<Rightarrow> partition_manifest \<Rightarrow> 'c \<Rightarrow> string \<Rightarrow> 'c \<Rightarrow> 'c result" where
  "add_dli_metadata L m src source_model dst =
     (let dst = gf_set_val L ''dli.format'' (GString ''dli.gguf.stage_shard'') dst;
          dst = gf_set_val L ''dli.format_version'' (GInt 1) dst;
          dst = gf_set_val L ''dli.partition_id'' (GString (mn_partition_id m)) dst;
          dst = gf_set_val L ''dli.stage_id'' (GInt (mn_stage_id m)) dst;
          dst = gf_set_val L ''dli.layers'' (GIntArray (mn_layers m)) dst;
          dst = gf_set_val L ''dli.owns_embedding'' (GBool (mn_owns_embedding m)) dst;
          dst = gf_set_val L ''dli.owns_norm'' (GBool (mn_owns_norm m)) dst;
          dst = gf_set_val L ''dli.owns_lm_head'' (GBool (mn_owns_lm_head m)) dst;
          dst = gf_set_val L ''dli.next_partition_id'' (GString []) dst;
          dst = gf_set_val L ''dli.next_stage_url'' (GString (mn_next_stage_url m)) dst
      in bindR (read_i32_metadata_or_default (gf_values L src) hidden_size_keys (- 1)) (\<lambda>hidden_size.
         Inr (gf_set_val L ''dli.source_model'' (GString source_model)
                (gf_set_val L ''dli.hidden_size'' (GInt hidden_size) dst))))"

definition add_manifest_tensor :: "('c, 't) gguf_lib \<Rightarrow> 'c \<Rightarrow> string \<Rightarrow> 'c \<Rightarrow> 'c result" where
  "add_manifest_tensor L src name dst =
     (case gf_tensor L src name of
        None \<Rightarrow> Inl (''manifest tensor not found in source GGUF data context: '' @ name)
      | Some tensor \<Rightarrow> Inr (gf_add_tensor L name tensor dst))"

text \<open>The context that is written to the output file; whether \<open>gguf_write_to_file\<close> succeeds is not
  looked at.\<close>

definition write_one_shard ::
    "('c, 't) gguf_lib \<Rightarrow> string \<Rightarrow> 'c option \<Rightarrow> partition_manifest result \<Rightarrow> string \<Rightarrow> 'c result" where
  "write_one_shard L source_path model manifest source_model =
     bindR manifest (\<lambda>m.
     case model of
       None \<Rightarrow> Inl (''failed to load source GGUF: '' @ source_path)
     | Some src \<Rightarrow>
         (case gf_init_empty L of
            None \<Rightarrow> Inl ''failed to create empty output GGUF context''
          | Some dst \<Rightarrow>
              bindR (add_dli_metadata L m src source_model (gf_set_kv L dst src)) (\<lambda>dst.
              foldR (add_manifest_tensor L src) (mn_tensor_names m) dst)))"

section \<open>Validating a shard\<close>

definition require_key :: "gguf_context \<Rightarrow> string \<Rightarrow> gguf_value result" where
  "require_key ctx key =
     (case ctx key of None \<Rightarrow> Inl (''missing required GGUF metadata key: '' @ key) | Some v \<Rightarrow> Inr v)"

definition require_string_key :: "gguf_context \<Rightarrow> string \<Rightarrow> string result" where
  "require_string_key ctx key =
     bindR (require_key ctx key) (\<lambda>v. case v of GString s \<Rightarrow> Inr s | _ \<Rightarrow> Inl gguf_type_abort)"

definition require_i32_key :: "gguf_context \<Rightarrow> string \<Rightarrow> int result" where
  "require_i32_key ctx key =
     bindR (require_key ctx key) (\<lambda>v. case v of GInt i \<Rightarrow> Inr i | _ \<Rightarrow> Inl gguf_type_abort)"

definition require_bool_key :: "gguf_context \<Rightarrow> string \<Rightarrow> bool result" where
  "require_bool_key ctx key =
     bindR (require_key ctx key) (\<lambda>v. case v of GBool b \<Rightarrow> Inr b | _ \<Rightarrow> Inl gguf_type_abort)"

definition require_i32_array_key :: "gguf_context \<Rightarrow> string \<Rightarrow> int list result" where
  "require_i32_array_key ctx key =
     bindR (require_key ctx key) (\<lambda>v.
       case v of GIntArray is \<Rightarrow> Inr is | _ \<Rightarrow> Inl (''metadata key is not array<int32>: '' @ key))"

definition has_tokenizer_metadata :: "string list \<Rightarrow> bool" where
  "has_tokenizer_metadata keys = list_ex (\<lambda>key. starts_with key ''tokenizer.ggml.'') keys"

definition find_partition_config :: "gateway_config \<Rightarrow> string \<Rightarrow> partition_node result" where
  "find_partition_config cfg pid =
     (case find (\<lambda>p. partition_id p = pid) (gc_partitions cfg) of
        None \<Rightarrow> Inl (''partition not found in stage_map.yaml: '' @ pid)
      | Some p \<Rightarrow> Inr p)"

definition validate_metadata :: "('c, 't) gguf_lib \<Rightarrow> string \<Rightarrow> 'c option \<Rightarrow> partition_manifest \<Rightarrow> partition_node \<Rightarrow> unit result" where
  "validate_metadata L path file m p =
     (case file of
        None \<Rightarrow> Inl (''failed to open GGUF shard: '' @ path)
      | Some shard \<Rightarrow>
          let ctx = gf_values L shard
          in bindR (require_string_key ctx ''dli.format'') (\<lambda>format.
             bindR (checkR (format = ''dli.gguf.stage_shard'') ''invalid dli.format'') (\<lambda>_.
             bindR (require_i32_key ctx ''dli.format_version'') (\<lambda>version.
             bindR (checkR (version = 1) ''unsupported dli.format_version'') (\<lambda>_.
             bindR (require_string_key ctx ''dli.partition_id'') (\<lambda>pid.
             bindR (checkR (pid = mn_partition_id m) ''dli.partition_id does not match manifest'') (\<lambda>_.
             bindR (require_i32_key ctx ''dli.stage_id'') (\<lambda>sid.
             bindR (checkR (sid = mn_stage_id m) ''dli.stage_id does not match manifest'') (\<lambda>_.
             bindR (checkR (mn_stage_id m = stage_id p) ''manifest stage_id does not match stage_map partition'') (\<lambda>_.
             bindR (require_bool_key ctx ''dli.owns_embedding'') (\<lambda>emb.
             bindR (checkR (emb = embedding (components p)) ''dli.owns_embedding does not match stage_map'') (\<lambda>_.
             bindR (require_bool_key ctx ''dli.owns_norm'') (\<lambda>nrm.
             bindR (checkR (nrm = norm (components p)) ''dli.owns_norm does not match stage_map'') (\<lambda>_.
             bindR (require_bool_key ctx ''dli.owns_lm_head'') (\<lambda>lmh.
             bindR (checkR (lmh = lm_head (components p)) ''dli.owns_lm_head does not match stage_map'') (\<lambda>_.
             bindR (require_i32_array_key ctx ''dli.layers'') (\<lambda>ls.
             bindR (checkR (ls = layers (components p)) ''dli.layers does not match stage_map'') (\<lambda>_.
             bindR (require_string_key ctx ''dli.next_stage_url'') (\<lambda>url.
             bindR (checkR (url = next_stage_url p) ''dli.next_stage_url does not match stage_map'') (\<lambda>_.
             bindR (require_key ctx ''dli.next_partition_id'') (\<lambda>_.
             bindR (require_key ctx ''dli.hidden_size'') (\<lambda>_.
             bindR (require_key ctx ''dli.source_model'') (\<lambda>_.
             bindR (require_key ctx ''general.architecture'') (\<lambda>_.
             checkR (has_tokenizer_metadata (gf_keys L shard)) ''shard does not preserve tokenizer.ggml.* metadata''))))))))))))))))))))))))"

fun join_strings :: "string list \<Rightarrow> string" where
  "join_strings [] = []"
| "join_strings [v] = v"
| "join_strings (v # w # vs) = v @ '', '' @ join_strings (w # vs)"

text \<open>\<open>std::set_difference\<close> of two sorted ranges.\<close>

fun set_difference :: "string list \<Rightarrow> string list \<Rightarrow> string list" where
  "set_difference [] bs = []"
| "set_difference as [] = as"
| "set_difference (a # as) (b # bs) =
     (if a < b then a # set_difference as (b # bs)
      else if b < a then set_difference (a # as) bs
      else set_difference as bs)"

definition require_tensor_sets_equal :: "string list \<Rightarrow> string list \<Rightarrow> string \<Rightarrow> unit result" where
  "require_tensor_sets_equal actual expected label =
     (let a = sort actual; e = sort expected;
          missing = set_difference e a; extra = set_difference a e
      in if missing \<noteq> [] \<or> extra \<noteq> []
         then Inl (label @ '' tensor set mismatch; missing=['' @ join_strings missing @ ''], extra=['' @ join_strings extra @ '']'')
         else Inr ())"

definition validate_one_shard ::
    "('c, 't) gguf_lib \<Rightarrow> gateway_config \<Rightarrow> partition_manifest result \<Rightarrow> string \<Rightarrow> 'c option \<Rightarrow> unit result" where
  "validate_one_shard L cfg manifest path file =
     bindR manifest (\<lambda>m.
     bindR (find_partition_config cfg (mn_partition_id m)) (\<lambda>p.
     bindR (validate_metadata L path file m p) (\<lambda>_.
     bindR (inspect_gguf_tensors L path file) (\<lambda>inspection.
     let names = map tensor_name (inspected_tensors inspection)
     in bindR (require_tensor_sets_equal names (mn_tensor_names m) (mn_partition_id m @ '' manifest'')) (\<lambda>_.
        let a = assign_tensors_to_partition inspection (build_llama_tensor_name_plan (mn_partition_id m) (components p))
        in bindR (checkR (missing_required_names a = [])
              (mn_partition_id m @ '' missing required tensor names: '' @ join_strings (missing_required_names a))) (\<lambda>_.
           bindR (checkR (missing_required_prefixes a = [])
              (mn_partition_id m @ '' missing required tensor prefixes: '' @ join_strings (missing_required_prefixes a))) (\<lambda>_.
           require_tensor_sets_equal names (tensor_names a) (mn_partition_id m @ '' stage_map'')))))))) "

section \<open>The tools\<close>

definition path_join :: "string \<Rightarrow> string \<Rightarrow> string" where
  "path_join dir name =
     (if is_prefix ''/'' name then name
      else if dir = [] \<or> last dir = CHR ''/'' then dir @ name else dir @ ''/'' @ name)"

definition is_manifest_file :: "string \<Rightarrow> bool" where
  "is_manifest_file filename \<longleftrightarrow> starts_with filename ''partition-'' \<and>
     length ''.manifest.json'' \<le> length filename \<and>
     drop (length filename - length ''.manifest.json'') filename = ''.manifest.json''"

text \<open>The regular files of a directory (\<open>None\<close> when it is none), in no particular order.\<close>

definition list_partition_manifest_files :: "(string \<Rightarrow> string list option) \<Rightarrow> string \<Rightarrow> string list result" where
  "list_partition_manifest_files listing dir =
     (case listing dir of
        None \<Rightarrow> Inl (''manifest-dir is not a directory: '' @ dir)
      | Some files \<Rightarrow>
          let manifests = sort (filter is_manifest_file files)
          in if manifests = [] then Inl (''no partition-*.manifest.json files found in: '' @ dir)
             else Inr (map (path_join dir) manifests))"

subsection \<open>The writer\<close>

record writer_options =
  wo_model_path :: string
  wo_manifest_path :: string
  wo_manifest_dir :: string
  wo_output_path :: string
  wo_output_dir :: string
  wo_source_model :: string

fun writer_args_loop :: "writer_options \<Rightarrow> string list \<Rightarrow> writer_options cli" where
  "writer_args_loop opts [] = CliOptions opts"
| "writer_args_loop opts (arg # rest) =
     (if arg = ''--help'' \<or> arg = ''-h'' then CliHelp
      else if arg = ''--model''
      then (case rest of [] \<Rightarrow> CliError ''--model requires a value'' | v # r \<Rightarrow> writer_args_loop (opts\<lparr>wo_model_path := v\<rparr>) r)
      else if arg = ''--manifest''
      then (case rest of [] \<Rightarrow> CliError ''--manifest requires a value'' | v # r \<Rightarrow> writer_args_loop (opts\<lparr>wo_manifest_path := v\<rparr>) r)
      else if arg = ''--manifest-dir''
      then (case rest of [] \<Rightarrow> CliError ''--manifest-dir requires a value'' | v # r \<Rightarrow> writer_args_loop (opts\<lparr>wo_manifest_dir := v\<rparr>) r)
      else if arg = ''--output''
      then (case rest of [] \<Rightarrow> CliError ''--output requires a value'' | v # r \<Rightarrow> writer_args_loop (opts\<lparr>wo_output_path := v\<rparr>) r)
      else if arg = ''--output-dir''
      then (case rest of [] \<Rightarrow> CliError ''--output-dir requires a value'' | v # r \<Rightarrow> writer_args_loop (opts\<lparr>wo_output_dir := v\<rparr>) r)
      else if arg = ''--source-model''
      then (case rest of [] \<Rightarrow> CliError ''--source-model requires a value'' | v # r \<Rightarrow> writer_args_loop (opts\<lparr>wo_source_model := v\<rparr>) r)
      else CliError (''unknown argument: '' @ arg))"

definition parse_writer_args :: "string option \<Rightarrow> string list \<Rightarrow> writer_options cli" where
  "parse_writer_args env_model args =
     (case writer_args_loop \<lparr>wo_model_path = env_or env_model [], wo_manifest_path = [], wo_manifest_dir = [],
             wo_output_path = [], wo_output_dir = ''build/dli-shards'', wo_source_model = []\<rparr> args of
        CliOptions opts \<Rightarrow>
          if wo_model_path opts = [] then CliError ''--model is required or set DLI_TEST_GGUF_MODEL_PATH''
          else if (wo_manifest_path opts \<noteq> []) = (wo_manifest_dir opts \<noteq> [])
          then CliError ''pass exactly one of --manifest or --manifest-dir''
          else if wo_manifest_path opts \<noteq> [] \<and> wo_output_path opts = []
          then CliError ''--output is required with --manifest''
          else if wo_manifest_dir opts \<noteq> [] \<and> wo_output_dir opts = []
          then CliError ''--output-dir must not be empty''
          else CliOptions (if wo_source_model opts = [] then opts\<lparr>wo_source_model := wo_model_path opts\<rparr> else opts)
      | other \<Rightarrow> other)"

text \<open>The shards written, in order, and whether the loop came to its end.\<close>

fun write_shards ::
    "('c, 't) gguf_lib \<Rightarrow> writer_options \<Rightarrow> 'c option \<Rightarrow> (string \<Rightarrow> string option) \<Rightarrow> string list \<Rightarrow>
     (string \<times> 'c) list \<times> unit result" where
  "write_shards L opts model files [] = ([], Inr ())"
| "write_shards L opts model files (file # rest) =
     (let manifest = load_partition_manifest file (files file)
      in case bindR manifest (\<lambda>m. write_one_shard L (wo_model_path opts) model manifest (wo_source_model opts)) of
           Inl e \<Rightarrow> ([], Inl e)
         | Inr d \<Rightarrow>
             (case manifest of
                Inl e \<Rightarrow> ([], Inl e)
              | Inr m \<Rightarrow>
                  (case write_shards L opts model files rest of
                     (written, r) \<Rightarrow>
                       ((path_join (wo_output_dir opts) (mn_partition_id m @ ''.dli.gguf''), d) # written, r))))"

definition run_shard_writer ::
    "('c, 't) gguf_lib \<Rightarrow> 'c option \<Rightarrow> (string \<Rightarrow> string option) \<Rightarrow> (string \<Rightarrow> string list option) \<Rightarrow>
     writer_options cli \<Rightarrow> (string \<times> 'c) list \<times> nat" where
  "run_shard_writer L model files listing cli =
     (case cli of
        CliHelp \<Rightarrow> ([], 0)
      | CliError e \<Rightarrow> ([], 1)
      | CliOptions opts \<Rightarrow>
          if wo_manifest_path opts \<noteq> []
          then (case write_one_shard L (wo_model_path opts) model
                       (load_partition_manifest (wo_manifest_path opts) (files (wo_manifest_path opts))) (wo_source_model opts) of
                  Inl e \<Rightarrow> ([], 1) | Inr d \<Rightarrow> ([(wo_output_path opts, d)], 0))
          else (case list_partition_manifest_files listing (wo_manifest_dir opts) of
                  Inl e \<Rightarrow> ([], 1)
                | Inr manifests \<Rightarrow>
                    (case write_shards L opts model files manifests of
                       (written, r) \<Rightarrow> (written, case r of Inl e \<Rightarrow> 1 | Inr _ \<Rightarrow> 0))))"

subsection \<open>The validator\<close>

record validator_options =
  vo_config_path :: string
  vo_manifest_path :: string
  vo_manifest_dir :: string
  vo_shard_path :: string
  vo_shard_dir :: string

fun validator_args_loop :: "validator_options \<Rightarrow> string list \<Rightarrow> validator_options cli" where
  "validator_args_loop opts [] = CliOptions opts"
| "validator_args_loop opts (arg # rest) =
     (if arg = ''--help'' \<or> arg = ''-h'' then CliHelp
      else if arg = ''--config''
      then (case rest of [] \<Rightarrow> CliError ''--config requires a value'' | v # r \<Rightarrow> validator_args_loop (opts\<lparr>vo_config_path := v\<rparr>) r)
      else if arg = ''--manifest''
      then (case rest of [] \<Rightarrow> CliError ''--manifest requires a value'' | v # r \<Rightarrow> validator_args_loop (opts\<lparr>vo_manifest_path := v\<rparr>) r)
      else if arg = ''--manifest-dir''
      then (case rest of [] \<Rightarrow> CliError ''--manifest-dir requires a value'' | v # r \<Rightarrow> validator_args_loop (opts\<lparr>vo_manifest_dir := v\<rparr>) r)
      else if arg = ''--shard''
      then (case rest of [] \<Rightarrow> CliError ''--shard requires a value'' | v # r \<Rightarrow> validator_args_loop (opts\<lparr>vo_shard_path := v\<rparr>) r)
      else if arg = ''--shard-dir''
      then (case rest of [] \<Rightarrow> CliError ''--shard-dir requires a value'' | v # r \<Rightarrow> validator_args_loop (opts\<lparr>vo_shard_dir := v\<rparr>) r)
      else CliError (''unknown argument: '' @ arg))"

definition parse_validator_args :: "string option \<Rightarrow> string list \<Rightarrow> validator_options cli" where
  "parse_validator_args env_config args =
     (case validator_args_loop \<lparr>vo_config_path = env_or env_config ''configs/stage_map.yaml'', vo_manifest_path = [],
             vo_manifest_dir = [], vo_shard_path = [], vo_shard_dir = []\<rparr> args of
        CliOptions opts \<Rightarrow>
          let single_mode = (vo_manifest_path opts \<noteq> [] \<or> vo_shard_path opts \<noteq> []);
              directory_mode = (vo_manifest_dir opts \<noteq> [] \<or> vo_shard_dir opts \<noteq> [])
          in if single_mode = directory_mode then CliError ''use either single mode or directory mode''
             else if single_mode \<and> (vo_manifest_path opts = [] \<or> vo_shard_path opts = [])
             then CliError ''single mode requires both --manifest and --shard''
             else if directory_mode \<and> (vo_manifest_dir opts = [] \<or> vo_shard_dir opts = [])
             then CliError ''directory mode requires both --manifest-dir and --shard-dir''
             else CliOptions opts
      | other \<Rightarrow> other)"

definition run_shard_validator ::
    "('c, 't) gguf_lib \<Rightarrow> (string \<Rightarrow> string option) \<Rightarrow> (string \<Rightarrow> string list option) \<Rightarrow> (string \<Rightarrow> 'c option) \<Rightarrow>
     validator_options cli \<Rightarrow> nat" where
  "run_shard_validator L files listing shards cli =
     (case cli of
        CliHelp \<Rightarrow> 0
      | CliError e \<Rightarrow> 1
      | CliOptions opts \<Rightarrow>
          (case bindR (load_gateway_config_from_file (files (vo_config_path opts)) (vo_config_path opts)) (\<lambda>cfg.
             if vo_manifest_path opts \<noteq> []
             then validate_one_shard L cfg (load_partition_manifest (vo_manifest_path opts) (files (vo_manifest_path opts)))
                    (vo_shard_path opts) (shards (vo_shard_path opts))
             else bindR (list_partition_manifest_files listing (vo_manifest_dir opts)) (\<lambda>manifests.
                  foldR (\<lambda>file (_ :: unit).
                    let manifest = load_partition_manifest file (files file)
                    in bindR manifest (\<lambda>m.
                       let shard = path_join (vo_shard_dir opts) (mn_partition_id m @ ''.dli.gguf'')
                       in validate_one_shard L cfg manifest shard (shards shard))) manifests ())) of
             Inl e \<Rightarrow> 1 | Inr _ \<Rightarrow> 0))"

section \<open>A written shard\<close>

definition stamped :: "partition_manifest \<Rightarrow> int \<Rightarrow> string \<Rightarrow> gguf_context \<Rightarrow> gguf_context" where
  "stamped m h source_model vs = vs(
     ''dli.format'' \<mapsto> GString ''dli.gguf.stage_shard'', ''dli.format_version'' \<mapsto> GInt 1,
     ''dli.partition_id'' \<mapsto> GString (mn_partition_id m), ''dli.stage_id'' \<mapsto> GInt (mn_stage_id m),
     ''dli.layers'' \<mapsto> GIntArray (mn_layers m), ''dli.owns_embedding'' \<mapsto> GBool (mn_owns_embedding m),
     ''dli.owns_norm'' \<mapsto> GBool (mn_owns_norm m), ''dli.owns_lm_head'' \<mapsto> GBool (mn_owns_lm_head m),
     ''dli.next_partition_id'' \<mapsto> GString [], ''dli.next_stage_url'' \<mapsto> GString (mn_next_stage_url m),
     ''dli.hidden_size'' \<mapsto> GInt h, ''dli.source_model'' \<mapsto> GString source_model)"

lemma stamped_keys:
  "stamped m h sm vs ''dli.format'' = Some (GString ''dli.gguf.stage_shard'')"
  "stamped m h sm vs ''dli.format_version'' = Some (GInt 1)"
  "stamped m h sm vs ''dli.partition_id'' = Some (GString (mn_partition_id m))"
  "stamped m h sm vs ''dli.stage_id'' = Some (GInt (mn_stage_id m))"
  "stamped m h sm vs ''dli.layers'' = Some (GIntArray (mn_layers m))"
  "stamped m h sm vs ''dli.owns_embedding'' = Some (GBool (mn_owns_embedding m))"
  "stamped m h sm vs ''dli.owns_norm'' = Some (GBool (mn_owns_norm m))"
  "stamped m h sm vs ''dli.owns_lm_head'' = Some (GBool (mn_owns_lm_head m))"
  "stamped m h sm vs ''dli.next_partition_id'' = Some (GString [])"
  "stamped m h sm vs ''dli.next_stage_url'' = Some (GString (mn_next_stage_url m))"
  "stamped m h sm vs ''dli.hidden_size'' = Some (GInt h)"
  "stamped m h sm vs ''dli.source_model'' = Some (GString sm)"
  by (simp_all add: stamped_def)

lemma dli_update_other:
  "\<lbrakk>is_prefix ''dli.'' key; \<not> is_prefix ''dli.'' k\<rbrakk> \<Longrightarrow> (vs(key \<mapsto> v)) k = vs k"
  by auto

lemma stamped_other: "\<not> is_prefix ''dli.'' k \<Longrightarrow> stamped m h sm vs k = vs k"
  by (simp add: stamped_def dli_update_other del: fun_upd_apply)

lemma add_dli_metadata_values:
  assumes "gguf_laws L" "read_i32_metadata_or_default (gf_values L src) hidden_size_keys (- 1) = Inr h"
  shows "\<exists>d. add_dli_metadata L m src sm dst = Inr d \<and> gf_values L d = stamped m h sm (gf_values L dst) \<and>
    context_names L d = context_names L dst"
proof -
  have "gf_values L (gf_set_val L k v c) = (gf_values L c)(k \<mapsto> v)"
    "context_names L (gf_set_val L k v c) = context_names L c" for k v c
    using assms(1) by (simp_all add: gguf_laws_def)
  then show ?thesis by (simp add: add_dli_metadata_def assms(2) Let_def stamped_def)
qed

lemma add_manifest_tensors:
  assumes L: "gguf_laws L"
  shows "\<lbrakk>distinct (context_names L dst @ names); set names \<subseteq> set (context_names L src)\<rbrakk> \<Longrightarrow>
    \<exists>d. foldR (add_manifest_tensor L src) names dst = Inr d \<and> gf_values L d = gf_values L dst \<and>
      context_names L d = context_names L dst @ names"
proof (induction names arbitrary: dst)
  case (Cons n names)
  obtain t where t: "gf_tensor L src n = Some t" using L Cons.prems(2) by (fastforce simp: gguf_laws_def)
  have one: "gf_values L (gf_add_tensor L n t dst) = gf_values L dst"
    "context_names L (gf_add_tensor L n t dst) = context_names L dst @ [n]"
    using L Cons.prems(1) by (simp_all add: gguf_laws_def)
  then show ?case
    using Cons.IH [of "gf_add_tensor L n t dst"] Cons.prems by (simp add: add_manifest_tensor_def t one)
qed simp

text \<open>A shard is written whenever the manifest names tensors of the model, each once.\<close>

lemma shard_written:
  assumes L: "gguf_laws L" and m: "manifest = Inr m"
    and h: "read_i32_metadata_or_default (gf_values L src) hidden_size_keys (- 1) = Inr h"
    and names: "distinct (mn_tensor_names m)" "set (mn_tensor_names m) \<subseteq> set (context_names L src)"
  shows "\<exists>d r. write_one_shard L path (Some src) manifest sm = Inr d \<and> gf_reopened L d = Some r \<and>
    gf_values L r = stamped m h sm (gf_values L src) \<and> context_names L r = mn_tensor_names m"
proof -
  obtain e where e: "gf_init_empty L = Some e" "gf_values L e = Map.empty" "context_names L e = []"
    using L by (auto simp: gguf_laws_def)
  have kv: "gf_values L (gf_set_kv L e src) = gf_values L src" "context_names L (gf_set_kv L e src) = []"
    using L e by (simp_all add: gguf_laws_def)
  obtain d where d: "add_dli_metadata L m src sm (gf_set_kv L e src) = Inr d"
    "gf_values L d = stamped m h sm (gf_values L src)" "context_names L d = []"
    using add_dli_metadata_values [OF L h, of m sm "gf_set_kv L e src"] kv by auto
  obtain d' where d': "foldR (add_manifest_tensor L src) (mn_tensor_names m) d = Inr d'"
    "gf_values L d' = stamped m h sm (gf_values L src)" "context_names L d' = mn_tensor_names m"
    using add_manifest_tensors [OF L, of d "mn_tensor_names m" src] d(2,3) names by auto
  obtain r where "gf_reopened L d' = Some r" "gf_values L r = gf_values L d'" "context_names L r = context_names L d'"
    using L unfolding gguf_laws_def by blast
  then show ?thesis using d' by (simp add: write_one_shard_def m e(1) d(1))
qed

section \<open>The checks\<close>

lemma set_difference_same [simp]: "set_difference xs xs = []"
  by (induction xs) simp_all

lemma tensor_sets_equal: "sort xs = sort ys \<Longrightarrow> require_tensor_sets_equal xs ys label = Inr ()"
  by (simp add: require_tensor_sets_equal_def)

lemma find_by_id:
  "\<lbrakk>distinct (map partition_id ps); p \<in> set ps\<rbrakk> \<Longrightarrow> find (\<lambda>q. partition_id q = partition_id p) ps = Some p"
  by (induction ps) (auto simp: image_iff)

lemma sort_empty: "sort xs = [] \<longleftrightarrow> xs = []" for xs :: "string list"
  by (metis length_0_conv length_sort)

lemma has_missing_iff:
  "has_missing_tensors (assign_tensors_to_partition insp plan) \<longleftrightarrow>
     (\<exists>n \<in> set (required_tensor_names plan). n \<notin> tensor_name ` set (inspected_tensors insp)) \<or>
     (\<exists>x \<in> set (required_tensor_prefixes plan). \<forall>n \<in> tensor_name ` set (inspected_tensors insp). \<not> starts_with n x)"
  by (simp add: has_missing_tensors_def assign_tensors_to_partition_def sort_empty filter_empty_conv
    gguf_contains_tensor_def gguf_contains_tensor_with_prefix_def list_ex_iff) fastforce

lemma assigned_names:
  "set (tensor_names (assign_tensors_to_partition insp plan)) =
     {n \<in> tensor_name ` set (inspected_tensors insp). tensor_matches_plan n plan}"
  by (auto simp: assign_tensors_to_partition_def)

text \<open>A file that holds what was assigned is assigned all of it again.\<close>

lemma nothing_missing:
  assumes a: "a = assign_tensors_to_partition insp plan" "\<not> has_missing_tensors a"
    and names: "map tensor_name (inspected_tensors shard) = tensor_names a"
  shows "\<not> has_missing_tensors (assign_tensors_to_partition shard plan)"
    and "tensor_names (assign_tensors_to_partition shard plan) = sort (tensor_names a)"
proof -
  have set: "tensor_name ` set (inspected_tensors shard) = set (tensor_names a)"
    using arg_cong [OF names, of set] by simp
  have "\<exists>m. m \<in> set (tensor_names a) \<and> starts_with m x" if "x \<in> set (required_tensor_prefixes plan)" for x
    using a that unfolding has_missing_iff a(1) assigned_names
    by (fastforce simp: tensor_matches_plan_def list_ex_iff)
  moreover have "n \<in> set (tensor_names a)" if "n \<in> set (required_tensor_names plan)" for n
    using a that unfolding has_missing_iff a(1) assigned_names
    by (fastforce simp: tensor_matches_plan_def list_ex_iff)
  ultimately show "\<not> has_missing_tensors (assign_tensors_to_partition shard plan)"
    unfolding has_missing_iff set by blast
  have "filter (\<lambda>n. tensor_matches_plan n plan) (tensor_names a) = tensor_names a"
    using assigned_names [of insp plan] by (auto simp: a(1) intro!: filter_True)
  then show "tensor_names (assign_tensors_to_partition shard plan) = sort (tensor_names a)"
    by (simp add: assign_tensors_to_partition_def [of shard] names)
qed

text \<open>What the writer made of a loaded partition passes every check.\<close>

lemma written_shard_valid:
  assumes L: "gguf_laws L" and ids: "distinct (map partition_id (gc_partitions cfg))" "p \<in> set (gc_partitions cfg)"
    and a: "a = assign_tensors_to_partition insp (build_llama_tensor_name_plan (partition_id p) (components p))"
      "\<not> has_missing_tensors a"
    and m: "manifest = Inr (manifest_of p a)"
    and r: "gf_values L r = stamped (manifest_of p a) h sm vs" "context_names L r = tensor_names a"
    and kept: "vs ''general.architecture'' \<noteq> None" "vs k \<noteq> None" "is_prefix ''tokenizer.ggml.'' k"
  shows "validate_one_shard L cfg manifest path (Some r) = Inr ()"
proof -
  have names: "map tensor_name (gf_tensors L r) = tensor_names a" using r(2) by (simp add: context_names_def)
  have arch: "gf_values L r ''general.architecture'' \<noteq> None" using kept(1) by (simp add: r(1) stamped_other)
  have "\<not> is_prefix ''dli.'' k" using kept(3) by (cases k) auto
  then have "k \<in> dom (gf_values L r)" using kept(2) by (auto simp: r(1) stamped_other)
  then have tok: "has_tokenizer_metadata (gf_keys L r)"
    using L kept(3) by (auto simp: has_tokenizer_metadata_def list_ex_iff gguf_laws_def starts_with_def)
  have meta: "validate_metadata L path (Some r) (manifest_of p a) p = Inr ()"
    using arch tok
    by (auto simp: validate_metadata_def require_string_key_def require_i32_key_def require_bool_key_def
      require_i32_array_key_def require_key_def r(1) stamped_keys manifest_of_def checkR_def)
  let ?insp = "\<lparr>inspection_path = path, inspected_tensors = gf_tensors L r\<rparr>"
  let ?plan = "build_llama_tensor_name_plan (partition_id p) (components p)"
  note again = nothing_missing [OF a, of ?insp, simplified, OF names]
  show ?thesis
    using find_by_id [OF ids] again
    by (simp add: validate_one_shard_def m find_partition_config_def manifest_of_def [THEN arg_cong, of mn_partition_id, simplified]
      meta inspect_gguf_tensors_def names Let_def has_missing_tensors_def tensor_sets_equal checkR_def)
      (simp add: manifest_of_def tensor_sets_equal sorted_sort_id)
qed

end
