(* ===== verification/Entry_Points.thy ===== *)
theory Entry_Points
  imports Stage_Server Gateway_Server Manifest
begin

text \<open>
  How the two servers start: the environment and the arguments, the merge with the stage map, the choice
  of the runtime (\<open>dli_stage_cpp/src/main.cpp\<close>) and of the tokenizer (\<open>dli_gateway_cpp/src/main.cpp\<close>,
  \<open>tokenizer.cpp\<close>). The environment is a record of what \<open>getenv\<close> answers, the file systems are functions.
\<close>

section \<open>Numbers in arguments\<close>

definition stoi_rest :: "string \<Rightarrow> string" where
  "stoi_rest s =
     (let r = skip_ws s
      in dropWhile is_digit (if r \<noteq> [] \<and> (hd r = CHR ''-'' \<or> hd r = CHR ''+'') then tl r else r))"

text \<open>\<open>parse_int\<close>: \<open>std::stoi\<close> that has to use the whole text.\<close>

definition parse_int :: "string \<Rightarrow> int option" where
  "parse_int value_text =
     (case std_stoi value_text of
        Inl _ \<Rightarrow> None
      | Inr i \<Rightarrow> if stoi_rest value_text \<noteq> [] then None else Some i)"

definition parse_port :: "string \<Rightarrow> int option" where
  "parse_port value_text =
     (case parse_int value_text of
        None \<Rightarrow> None
      | Some i \<Rightarrow> if i \<le> 0 \<or> i > 65535 then None else Some i)"

definition env_port :: "string option \<Rightarrow> int" where
  "env_port env = (case env of None \<Rightarrow> 0 | Some v \<Rightarrow> or_default 0 (parse_port v))"

section \<open>The stage server\<close>

record stage_environment =
  se_stage_id :: "string option"
  se_port :: "string option"
  se_stage_map_path :: "string option"
  se_backend :: "string option"
  se_model_path :: "string option"

record stage_options =
  so_config_path :: string
  so_backend :: string
  so_model_path :: string
  so_port :: int
  so_stage_id :: int

fun stage_args_loop :: "stage_options \<Rightarrow> string list \<Rightarrow> stage_options cli" where
  "stage_args_loop opts [] = CliOptions opts"
| "stage_args_loop opts (arg # rest) =
     (if arg = ''--help'' \<or> arg = ''-h'' then CliHelp
      else if arg = ''--config''
      then (case rest of [] \<Rightarrow> CliError ''--config requires a value'' | v # r \<Rightarrow> stage_args_loop (opts\<lparr>so_config_path := v\<rparr>) r)
      else if arg = ''--port''
      then (case rest of
              [] \<Rightarrow> CliError ''--port requires a value''
            | v # r \<Rightarrow>
                (case parse_port v of
                   None \<Rightarrow> CliError ''--port must be an integer in [1, 65535]''
                 | Some i \<Rightarrow> stage_args_loop (opts\<lparr>so_port := i\<rparr>) r))
      else if arg = ''--stage-id''
      then (case rest of
              [] \<Rightarrow> CliError ''--stage-id requires a value''
            | v # r \<Rightarrow>
                (case parse_int v of
                   None \<Rightarrow> CliError ''--stage-id must be a positive integer''
                 | Some i \<Rightarrow>
                     if i \<le> 0 then CliError ''--stage-id must be a positive integer''
                     else stage_args_loop (opts\<lparr>so_stage_id := i\<rparr>) r))
      else if arg = ''--backend''
      then (case rest of [] \<Rightarrow> CliError ''--backend requires a value'' | v # r \<Rightarrow> stage_args_loop (opts\<lparr>so_backend := v\<rparr>) r)
      else if arg = ''--model''
      then (case rest of [] \<Rightarrow> CliError ''--model requires a value'' | v # r \<Rightarrow> stage_args_loop (opts\<lparr>so_model_path := v\<rparr>) r)
      else CliError (''unknown argument: '' @ arg))"

definition stage_env_options :: "stage_environment \<Rightarrow> stage_options" where
  "stage_env_options env =
     \<lparr>so_config_path = env_or (se_stage_map_path env) ''/app/configs/stage_map.yaml'',
      so_backend = env_or (se_backend env) ''stub'', so_model_path = env_or (se_model_path env) [],
      so_port = env_port (se_port env),
      so_stage_id = (case se_stage_id env of None \<Rightarrow> 0 | Some v \<Rightarrow> or_default 0 (parse_int v))\<rparr>"

definition parse_stage_args :: "stage_environment \<Rightarrow> string list \<Rightarrow> stage_options cli" where
  "parse_stage_args env args =
     (case stage_args_loop (stage_env_options env) args of
        CliOptions opts \<Rightarrow>
          if so_stage_id opts \<le> 0 then CliError ''stage id is required; pass --stage-id or set STAGE_ID''
          else CliOptions opts
      | other \<Rightarrow> other)"

datatype 'w stage_runtime = StubRuntime | LlamaPartialRuntime "'w loaded_runtime"

definition partial_config :: "stage_options \<Rightarrow> stage_config \<Rightarrow> partial_runtime_config" where
  "partial_config opts cfg =
     \<lparr>pc_model_path = so_model_path opts, pc_stage_id = so_stage_id opts,
      pc_expected_layers = layers (sc_components cfg), pc_expected_owns_embedding = embedding (sc_components cfg),
      pc_expected_owns_norm = norm (sc_components cfg), pc_expected_owns_lm_head = lm_head (sc_components cfg),
      pc_expected_next_stage_url = sc_next_stage_url cfg\<rparr>"

definition make_runtime ::
    "(string \<Rightarrow> f32 option) \<Rightarrow> (string \<Rightarrow> 'w model_file) \<Rightarrow> stage_options \<Rightarrow> stage_config \<Rightarrow> 'w stage_runtime result" where
  "make_runtime stof models opts cfg =
     (if so_backend opts = ''stub'' then Inr StubRuntime
      else if so_backend opts = ''llama'' \<or> so_backend opts = ''llama-partial''
      then bindR (construct_partial_runtime stof (partial_config opts cfg) (models (so_model_path opts)))
             (\<lambda>rt. Inr (LlamaPartialRuntime rt))
      else Inl (''unknown stage backend '' @ [CHR 0x27] @ so_backend opts @ [CHR 0x27] @ ''; expected stub or llama''))"

text \<open>The backend and the model of the stage map stand in for the ones not given.\<close>

definition runtime_options :: "stage_options \<Rightarrow> stage_config \<Rightarrow> stage_options" where
  "runtime_options opts cfg =
     (let opts = (if so_backend opts = ''stub'' \<and> sc_backend cfg \<noteq> [] then opts\<lparr>so_backend := sc_backend cfg\<rparr> else opts)
      in if so_model_path opts = []
         then (if (so_backend opts = ''llama'' \<or> so_backend opts = ''llama-partial'') \<and> sc_native_partition_file cfg \<noteq> []
               then opts\<lparr>so_model_path := sc_native_partition_file cfg\<rparr>
               else if sc_partition_file cfg \<noteq> [] then opts\<lparr>so_model_path := sc_partition_file cfg\<rparr>
               else opts)
         else opts)"

definition stage_override :: "stage_options \<Rightarrow> stage_config" where
  "stage_override opts = default_stage_config\<lparr>sc_service_name := [], sc_config_path := so_config_path opts,
     sc_stage_id := so_stage_id opts, sc_port := so_port opts\<rparr>"

text \<open>What \<open>main\<close> hands to \<open>HttpServer\<close>.\<close>

definition start_stage ::
    "(string \<Rightarrow> f32 option) \<Rightarrow> (string \<Rightarrow> string option) \<Rightarrow> (string \<Rightarrow> 'w model_file) \<Rightarrow> stage_options \<Rightarrow>
     (stage_config \<times> 'w stage_runtime) result" where
  "start_stage stof files models opts =
     bindR (load_stage_config_from_file (files (so_config_path opts)) (so_config_path opts) (so_stage_id opts)) (\<lambda>file_config.
     let cfg = merge_stage_config file_config (stage_override opts)
     in bindR (make_runtime stof models (runtime_options opts cfg) cfg) (\<lambda>rt. Inr (cfg, rt)))"

text \<open>The server, or the exit code.\<close>

definition stage_main ::
    "(string \<Rightarrow> f32 option) \<Rightarrow> (string \<Rightarrow> string option) \<Rightarrow> (string \<Rightarrow> 'w model_file) \<Rightarrow> stage_environment \<Rightarrow>
     string list \<Rightarrow> nat + (stage_config \<times> 'w stage_runtime)" where
  "stage_main stof files models env args =
     (case parse_stage_args env args of
        CliHelp \<Rightarrow> Inl 0
      | CliError e \<Rightarrow> Inl 2
      | CliOptions opts \<Rightarrow> (case start_stage stof files models opts of Inl e \<Rightarrow> Inl 2 | Inr s \<Rightarrow> Inr s))"

section \<open>Tokenizers\<close>

text \<open>The words of \<open>while (stream >> word)\<close>.\<close>

lemma next_word_shorter: "\<lbrakk>next_word s = (w, r); w \<noteq> []\<rbrakk> \<Longrightarrow> length r < length s"
proof -
  assume w: "next_word s = (w, r)" "w \<noteq> []"
  have "w @ r = dropWhile is_space s"
    using w(1) unfolding next_word_def Let_def by (metis prod.inject takeWhile_dropWhile_id)
  then have "length w + length r = length (dropWhile is_space s)" by (metis length_append)
  then show ?thesis using w(2) length_dropWhile_le [of is_space s] by (cases w) simp_all
qed

function stream_words :: "string \<Rightarrow> string list" where
  "stream_words s = (case next_word s of (w, r) \<Rightarrow> if w = [] then [] else w # stream_words r)"
  by auto
termination
  by (relation "measure length") (auto dest: next_word_shorter [OF sym])

declare stream_words.simps [simp del]

definition stub_token_text :: "int \<Rightarrow> string" where
  "stub_token_text t = ''<tok_'' @ show_int t @ ''>''"

fun spaced :: "string list \<Rightarrow> string" where
  "spaced [] = []"
| "spaced [v] = v"
| "spaced (v # w # vs) = v @ '' '' @ spaced (w # vs)"

definition stub_tokenize :: "string \<Rightarrow> int list" where
  "stub_tokenize prompt =
     (let ids = 1 # map (\<lambda>i. 100 + int i) [0..<length (stream_words prompt)]
      in if length ids = 1 then ids @ [100] else ids)"

definition tokenizer_stub :: tokenizer where
  "tokenizer_stub = \<lparr>tk_tokenize = (\<lambda>prompt. Inr (stub_tokenize prompt)),
     tk_detokenize = (\<lambda>token_ids. Inr (spaced (map stub_token_text token_ids))), tk_backend_name = ''stub''\<rparr>"

text \<open>The vocabulary of the llama library: both calls take the size of the buffer and give the count they
  return and what they wrote.\<close>

record llama_vocab =
  lv_tokenize :: "string \<Rightarrow> nat \<Rightarrow> int \<times> int list"
  lv_token_to_piece :: "int \<Rightarrow> nat \<Rightarrow> int \<times> string"

text \<open>A buffer of a size, and \<open>resize\<close>.\<close>

definition sized :: "nat \<Rightarrow> 'a \<Rightarrow> 'a list \<Rightarrow> 'a list" where
  "sized n z xs = take n (xs @ replicate n z)"

definition tokenize_with_vocab :: "llama_vocab \<Rightarrow> string \<Rightarrow> int list result" where
  "tokenize_with_vocab vocab prompt =
     (let token_count = fst (lv_tokenize vocab prompt 0)
      in if token_count = 0 then Inr []
         else let n = nat \<bar>token_count\<bar>;
                  (actual_count, written) = lv_tokenize vocab prompt n
              in if actual_count < 0 then Inl ''llama_tokenize reported insufficient token buffer unexpectedly''
                 else Inr (sized (nat actual_count) 0 (sized n 0 written)))"

definition llama_token_to_string :: "llama_vocab \<Rightarrow> int \<Rightarrow> string result" where
  "llama_token_to_string vocab token =
     (let required = fst (lv_token_to_piece vocab token 0)
      in if required = 0 then Inr []
         else let n = nat \<bar>required\<bar>;
                  (actual, written) = lv_token_to_piece vocab token n
              in if actual < 0 then Inl ''llama_token_to_piece reported insufficient buffer unexpectedly''
                 else Inr (sized (nat actual) (CHR 0x00) (sized n (CHR 0x00) written)))"

definition llama_detokenize :: "llama_vocab \<Rightarrow> int list \<Rightarrow> string result" where
  "llama_detokenize vocab token_ids =
     foldR (\<lambda>t out. bindR (llama_token_to_string vocab t) (\<lambda>piece. Inr (out @ piece))) token_ids []"

definition llama_tokenizer :: "llama_vocab \<Rightarrow> tokenizer" where
  "llama_tokenizer vocab =
     \<lparr>tk_tokenize = (\<lambda>prompt. bindR (tokenize_with_vocab vocab prompt) (\<lambda>ids.
        if ids = [] then Inl ''llama tokenizer returned no tokens'' else Inr ids)),
      tk_detokenize = llama_detokenize vocab, tk_backend_name = ''llama.cpp''\<rparr>"

text \<open>What the file system and the library answer for a model path.\<close>

record vocab_file =
  vf_exists :: bool
  vf_regular :: bool
  vf_loaded :: "llama_vocab option option"

definition validate_model_path :: "string \<Rightarrow> vocab_file \<Rightarrow> unit result" where
  "validate_model_path path file =
     (if path = [] then Inl ''LlamaTokenizer requires a non-empty model path''
      else if \<not> vf_exists file then Inl (''LlamaTokenizer model path does not exist: '' @ path)
      else if \<not> vf_regular file then Inl (''LlamaTokenizer model path is not a regular file: '' @ path)
      else Inr ())"

definition make_llama_tokenizer :: "string \<Rightarrow> vocab_file \<Rightarrow> tokenizer result" where
  "make_llama_tokenizer path file =
     bindR (validate_model_path path file) (\<lambda>_.
     case vf_loaded file of
       None \<Rightarrow> Inl (''failed to load GGUF model for tokenizer: '' @ path)
     | Some None \<Rightarrow> Inl (''failed to get llama vocab from model: '' @ path)
     | Some (Some vocab) \<Rightarrow> Inr (llama_tokenizer vocab))"

definition make_tokenizer_for_model_path :: "(string \<Rightarrow> vocab_file) \<Rightarrow> string \<Rightarrow> tokenizer result" where
  "make_tokenizer_for_model_path vocabs path =
     (if path = [] then Inr tokenizer_stub else make_llama_tokenizer path (vocabs path))"

section \<open>The gateway\<close>

record gateway_environment =
  ge_stage_map_path :: "string option"
  ge_port :: "string option"
  ge_first_stage_url :: "string option"
  ge_service_name :: "string option"
  ge_model_path :: "string option"

record gateway_options =
  go_config_path :: string
  go_first_stage_url :: string
  go_service_name :: string
  go_model_path :: string
  go_port :: int

fun gateway_args_loop :: "gateway_options \<Rightarrow> string list \<Rightarrow> gateway_options cli" where
  "gateway_args_loop opts [] = CliOptions opts"
| "gateway_args_loop opts (arg # rest) =
     (if arg = ''--help'' \<or> arg = ''-h'' then CliHelp
      else if arg = ''--config''
      then (case rest of [] \<Rightarrow> CliError ''--config requires a value'' | v # r \<Rightarrow> gateway_args_loop (opts\<lparr>go_config_path := v\<rparr>) r)
      else if arg = ''--port''
      then (case rest of
              [] \<Rightarrow> CliError ''--port requires a value''
            | v # r \<Rightarrow>
                (case parse_port v of
                   None \<Rightarrow> CliError ''--port must be an integer in [1, 65535]''
                 | Some i \<Rightarrow> gateway_args_loop (opts\<lparr>go_port := i\<rparr>) r))
      else if arg = ''--first-stage-url''
      then (case rest of [] \<Rightarrow> CliError ''--first-stage-url requires a value''
            | v # r \<Rightarrow> gateway_args_loop (opts\<lparr>go_first_stage_url := v\<rparr>) r)
      else if arg = ''--service-name''
      then (case rest of [] \<Rightarrow> CliError ''--service-name requires a value''
            | v # r \<Rightarrow> gateway_args_loop (opts\<lparr>go_service_name := v\<rparr>) r)
      else if arg = ''--model''
      then (case rest of [] \<Rightarrow> CliError ''--model requires a value'' | v # r \<Rightarrow> gateway_args_loop (opts\<lparr>go_model_path := v\<rparr>) r)
      else CliError (''unknown argument: '' @ arg))"

definition parse_gateway_args :: "gateway_environment \<Rightarrow> string list \<Rightarrow> gateway_options cli" where
  "parse_gateway_args env args =
     gateway_args_loop \<lparr>go_config_path = env_or (ge_stage_map_path env) ''/app/configs/stage_map.yaml'',
       go_first_stage_url = env_or (ge_first_stage_url env) [], go_service_name = env_or (ge_service_name env) [],
       go_model_path = env_or (ge_model_path env) [], go_port = env_port (ge_port env)\<rparr> args"

definition gateway_override :: "gateway_options \<Rightarrow> gateway_config" where
  "gateway_override opts = default_gateway_config\<lparr>gc_config_path := go_config_path opts, gc_port := go_port opts,
     gc_first_stage_url := go_first_stage_url opts, gc_service_name := go_service_name opts,
     gc_model_path := go_model_path opts\<rparr>"

definition gateway_main ::
    "(string \<Rightarrow> string option) \<Rightarrow> (string \<Rightarrow> vocab_file) \<Rightarrow> gateway_environment \<Rightarrow> string list \<Rightarrow>
     nat + (gateway_config \<times> tokenizer)" where
  "gateway_main files vocabs env args =
     (case parse_gateway_args env args of
        CliHelp \<Rightarrow> Inl 0
      | CliError e \<Rightarrow> Inl 2
      | CliOptions opts \<Rightarrow>
          (case bindR (load_gateway_config_from_file (files (go_config_path opts)) (go_config_path opts)) (\<lambda>file_config.
             let cfg = merge_gateway_config file_config (gateway_override opts)
             in bindR (make_tokenizer_for_model_path vocabs (gc_model_path cfg)) (\<lambda>tk.
                make_gateway_server cfg (Some tk))) of
             Inl e \<Rightarrow> Inl 2 | Inr s \<Rightarrow> Inr s))"

section \<open>The tokenizer over the vocabulary\<close>

text \<open>The library's convention: the negated need when the buffer is too small.\<close>

definition vocab_laws :: "llama_vocab \<Rightarrow> (string \<Rightarrow> int list) \<Rightarrow> (int \<Rightarrow> string) \<Rightarrow> bool" where
  "vocab_laws vocab tokens piece \<longleftrightarrow>
     (\<forall>prompt n. lv_tokenize vocab prompt n =
        (if length (tokens prompt) \<le> n then (int (length (tokens prompt)), tokens prompt)
         else (- int (length (tokens prompt)), []))) \<and>
     (\<forall>t n. lv_token_to_piece vocab t n =
        (if length (piece t) \<le> n then (int (length (piece t)), piece t) else (- int (length (piece t)), [])))"

lemma sized_id [simp]: "sized (length xs) z xs = xs"
  by (simp add: sized_def)

lemma tokenize_exact:
  "vocab_laws vocab tokens piece \<Longrightarrow> tokenize_with_vocab vocab prompt = Inr (tokens prompt)"
  by (simp add: vocab_laws_def tokenize_with_vocab_def)

lemma piece_exact: "vocab_laws vocab tokens piece \<Longrightarrow> llama_token_to_string vocab t = Inr (piece t)"
  by (simp add: vocab_laws_def llama_token_to_string_def)

lemma detokenize_exact:
  assumes "vocab_laws vocab tokens piece"
  shows "llama_detokenize vocab ids = Inr (concat (map piece ids))"
proof -
  have "foldR (\<lambda>t out. bindR (llama_token_to_string vocab t) (\<lambda>p. Inr (out @ p))) ids acc =
      Inr (acc @ concat (map piece ids))" for acc
    by (induction ids arbitrary: acc) (simp_all add: piece_exact [OF assms])
  then show ?thesis by (simp add: llama_detokenize_def)
qed

lemma stub_never_empty: "stub_tokenize prompt \<noteq> [] \<and> 2 \<le> length (stub_tokenize prompt) \<and> hd (stub_tokenize prompt) = 1"
  by (cases "stream_words prompt") (simp_all add: stub_tokenize_def Let_def)

end
