(* ===== verification/Deployment.thy ===== *)
theory Deployment
  imports Entry_Points Shard_Tools
begin

text \<open>
  The tools and the servers together: from the stage map to running stages. A stage never serves a shard
  other than the one its entry of the stage map describes, and the shard the writer cuts for an entry
  passes the validator and starts its stage.
\<close>

section \<open>A stage serves its own part\<close>

lemma merged_entry:
  "same_entry p c \<Longrightarrow> same_entry p (merge_stage_config c (stage_override opts))"
  by (simp add: same_entry_def merge_stage_config_def stage_override_def default_stage_config_def override_string_def)

lemma merged_fields:
  "sc_components (merge_stage_config c (stage_override opts)) = sc_components c"
  "sc_next_stage_url (merge_stage_config c (stage_override opts)) = sc_next_stage_url c"
  "0 < so_stage_id opts \<Longrightarrow> sc_stage_id (merge_stage_config c (stage_override opts)) = so_stage_id opts"
  by (simp_all add: merge_stage_config_def stage_override_def default_stage_config_def override_string_def)

lemma runtime_options_stage [simp]: "so_stage_id (runtime_options opts cfg) = so_stage_id opts"
  by (simp add: runtime_options_def Let_def)

lemma validated_shard:
  "validate_shard_against_stage_config sh config = Inr () \<longleftrightarrow>
     sh_shard_loaded sh \<and> sh_stage_id sh = pc_stage_id config \<and> sh_layers sh = pc_expected_layers config \<and>
     sh_owns_embedding sh = pc_expected_owns_embedding config \<and> sh_owns_norm sh = pc_expected_owns_norm config \<and>
     sh_owns_lm_head sh = pc_expected_owns_lm_head config \<and> sh_next_stage_url sh = pc_expected_next_stage_url config"
  by (auto simp: validate_shard_against_stage_config_def)

lemma constructed_shard:
  assumes "construct_partial_runtime stof config file = Inr rt" "pc_model_path (lr_config rt) \<noteq> []"
  shows "lr_config rt = config \<and> validate_shard_against_stage_config (lr_shard_metadata rt) config = Inr () \<and>
    (\<exists>ctx. lr_tensor_ctx rt = Some ctx \<and> mf_tensors file = Some (Some ctx))"
proof (cases "pc_model_path config = []")
  case True
  then show ?thesis using assms by (auto simp: construct_partial_runtime_def Let_def bindR_Inr)
next
  case False
  obtain meta n where parts: "mf_meta file = Some meta" "mf_vocab file = Some n"
    using assms(1) False by (auto simp: construct_partial_runtime_def Let_def bindR_Inr split: option.splits)
  then show ?thesis
    using assms(1) False
    by (auto simp: construct_partial_runtime_def Let_def bindR_Inr load_raw_tensor_context_def split: if_splits option.splits)
qed

definition serves_entry :: "stage_config \<Rightarrow> 'w loaded_runtime \<Rightarrow> bool" where
  "serves_entry cfg rt \<longleftrightarrow>
     (let sh = lr_shard_metadata rt
      in sh_stage_id sh = sc_stage_id cfg \<and> sh_layers sh = layers (sc_components cfg) \<and>
         sh_owns_embedding sh = embedding (sc_components cfg) \<and> sh_owns_norm sh = norm (sc_components cfg) \<and>
         sh_owns_lm_head sh = lm_head (sc_components cfg) \<and> sh_next_stage_url sh = sc_next_stage_url cfg)"

text \<open>C10. A stage that comes up with a model serves exactly its entry of the stage map. Whatever the
  environment and the arguments are, when \<open>main\<close> hands a partial runtime with a model to the server, the
  arguments named a positive stage, the file has an entry for it, and the shard that was loaded is
  stamped with that stage, with the layers, the owned components and the next stage's URL of the entry,
  its tensors being those of the file; a shard of another stage, or one cut for another layout, is never
  served.\<close>

theorem stage_serves_its_entry:
  assumes "stage_main stof files models env args = Inr (cfg, LlamaPartialRuntime rt)"
    and "pc_model_path (lr_config rt) \<noteq> []"
  shows "\<exists>opts sc. parse_stage_args env args = CliOptions opts \<and> 0 < so_stage_id opts \<and>
    load_stage_config_from_file (files (so_config_path opts)) (so_config_path opts) (so_stage_id opts) = Inr sc \<and>
    cfg = merge_stage_config sc (stage_override opts) \<and> sc_stage_id cfg = so_stage_id opts \<and> serves_entry cfg rt \<and>
    (\<exists>ctx. lr_tensor_ctx rt = Some ctx \<and> mf_tensors (models (pc_model_path (lr_config rt))) = Some (Some ctx))"
proof -
  obtain opts where opts: "parse_stage_args env args = CliOptions opts" "start_stage stof files models opts = Inr (cfg, LlamaPartialRuntime rt)"
    using assms(1) by (auto simp: stage_main_def split: cli.splits sum.splits)
  have pos: "0 < so_stage_id opts"
    using opts(1) by (auto simp: parse_stage_args_def split: cli.splits if_splits)
  obtain sc where sc: "load_stage_config_from_file (files (so_config_path opts)) (so_config_path opts) (so_stage_id opts) = Inr sc"
      "cfg = merge_stage_config sc (stage_override opts)"
      "make_runtime stof models (runtime_options opts cfg) cfg = Inr (LlamaPartialRuntime rt)"
    using opts(2) by (auto simp: start_stage_def Let_def result_simps)
  let ?o = "runtime_options opts cfg"
  have rt: "construct_partial_runtime stof (partial_config ?o cfg) (models (so_model_path ?o)) = Inr rt"
    using sc(3) by (auto simp: make_runtime_def result_simps split: if_splits)
  have id: "sc_stage_id cfg = so_stage_id opts" using merged_fields(3) [OF pos] by (simp add: sc(2))
  from constructed_shard [OF rt assms(2)] show ?thesis
    using opts(1) pos sc(1,2) id
    by (auto simp: validated_shard partial_config_def serves_entry_def Let_def merged_fields)
qed

section \<open>From the model to a running stage\<close>

definition partition_assignment :: "gguf_inspection \<Rightarrow> partition_node \<Rightarrow> partition_tensor_assignment" where
  "partition_assignment insp p = assign_tensors_to_partition insp (node_plan p)"

lemma manifest_of_names: "mn_tensor_names (manifest_of p a) = tensor_names a"
  by (simp add: manifest_of_def)

lemma manifest_file_content:
  assumes "run_manifest_tool mopts (Inr gc) (Inr insp) = (0, written)" "\<not> mo_allow_missing mopts"
    and "p \<in> set (gc_partitions gc)"
  shows "(manifest_file_name p, partition_manifest_json p (partition_assignment insp p) @ newline) \<in> set written \<and>
    \<not> has_missing_tensors (partition_assignment insp p)"
proof -
  have all: "assign_tensors_to_partitions insp (map node_plan ps) = map (partition_assignment insp) ps" for ps
    by (simp add: assign_tensors_to_partitions_def partition_assignment_def)
  show ?thesis
    using assms by (auto simp: run_manifest_tool_def Let_def all list_ex_iff zip_map2 zip_same_conv_map split: if_splits)
qed

text \<open>What is known of the file a shard was written to, as the stage sees it: the model library reads the
  hidden size that was stamped, or none.\<close>

definition shard_file_ok :: "'w model_file \<Rightarrow> gguf_context \<Rightarrow> int \<Rightarrow> bool" where
  "shard_file_ok file vs h \<longleftrightarrow>
     mf_exists file \<and> mf_regular file \<and> mf_gguf file = Some vs \<and>
     (case mf_meta file of
        None \<Rightarrow> False
      | Some meta \<Rightarrow> h \<le> 0 \<or> model_meta_int meta ''llama.embedding_length'' \<in> {0, h}) \<and>
     mf_vocab file \<noteq> None \<and> (case mf_tensors file of Some (Some _) \<Rightarrow> True | _ \<Rightarrow> False)"

lemma stamped_loads:
  "load_shard_metadata_from_gguf path (Some (stamped m h sm vs)) =
     Inr \<lparr>sh_shard_loaded = True, sh_format = ''dli.gguf.stage_shard'', sh_format_version = 1,
       sh_partition_id = mn_partition_id m, sh_stage_id = mn_stage_id m, sh_layers = mn_layers m,
       sh_owns_embedding = mn_owns_embedding m, sh_owns_norm = mn_owns_norm m, sh_owns_lm_head = mn_owns_lm_head m,
       sh_next_partition_id = [], sh_next_stage_url = mn_next_stage_url m, sh_hidden_size = h, sh_source_model = sm\<rparr>"
  by (simp add: load_shard_metadata_from_gguf_def gguf_string_required_def gguf_i32_required_def gguf_bool_required_def
    gguf_i32_array_required_def require_gguf_key_def stamped_keys)

lemma stamped_starts:
  assumes disk: "shard_file_ok file (stamped (manifest_of p a) h sm vs) h" and path: "so_model_path opts \<noteq> []"
    and entry: "same_entry p cfg" "so_stage_id opts = stage_id p"
  shows "\<exists>rt. construct_partial_runtime stof (partial_config opts cfg) file = Inr rt \<and>
    lr_config rt = partial_config opts cfg"
proof -
  obtain meta n ctx where f: "mf_meta file = Some meta" "mf_vocab file = Some n" "mf_tensors file = Some (Some ctx)"
    "h \<le> 0 \<or> model_meta_int meta ''llama.embedding_length'' \<in> {0, h}"
    using disk by (auto simp: shard_file_ok_def split: option.splits)
  then have "\<not> (0 < h \<and> 0 < mm_n_embd (loaded_model_metadata path meta n) \<and> h \<noteq> mm_n_embd (loaded_model_metadata path meta n))" for path
    by (auto simp: loaded_model_metadata_def)
  moreover have "validate_shard_against_stage_config
      \<lparr>sh_shard_loaded = True, sh_format = ''dli.gguf.stage_shard'', sh_format_version = 1,
       sh_partition_id = partition_id p, sh_stage_id = stage_id p, sh_layers = layers (components p),
       sh_owns_embedding = embedding (components p), sh_owns_norm = norm (components p), sh_owns_lm_head = lm_head (components p),
       sh_next_partition_id = [], sh_next_stage_url = next_stage_url p, sh_hidden_size = h, sh_source_model = sm\<rparr>
      (partial_config opts cfg) = Inr ()"
    using entry by (simp add: validated_shard partial_config_def same_entry_def)
  ultimately show ?thesis
    using disk path f(1-3)
    by (simp add: construct_partial_runtime_def partial_config_def [of opts, THEN arg_cong, of pc_model_path, simplified]
      validate_model_path_if_present_def shard_file_ok_def stamped_loads manifest_of_def load_raw_tensor_context_def Let_def)
qed

text \<open>A stage started on the shard of its entry.\<close>

lemma stage_on_shard:
  assumes map: "files (so_config_path opts) = Some map_text" "one_stage_list (getlines map_text)"
      "load_gateway_config_from_file (Some map_text) map_path = Inr gc" "p \<in> set (gc_partitions gc)"
      "distinct (map stage_id (gc_partitions gc))"
    and stage: "so_stage_id opts = stage_id p" "so_backend opts = ''llama''" "so_model_path opts \<noteq> []" "0 < stage_id p"
    and disk: "shard_file_ok (models (so_model_path opts)) (stamped (manifest_of p a) h sm vs) h"
  shows "\<exists>cfg rt. start_stage stof files models opts = Inr (cfg, LlamaPartialRuntime rt) \<and>
    lr_config rt = partial_config opts cfg \<and> same_entry p cfg \<and> sc_stage_id cfg = stage_id p \<and> serves_entry cfg rt"
proof -
  obtain sc where sc: "load_stage_config_from_file (Some map_text) (so_config_path opts) (stage_id p) = Inr sc"
      "same_entry p sc"
    using loaders_agree [OF map(2,3,5,4)] by blast
  let ?cfg = "merge_stage_config sc (stage_override opts)"
  have pos: "0 < so_stage_id opts" using stage(1,4) by simp
  have opts: "runtime_options opts ?cfg = opts" using stage(2,3) by (simp add: runtime_options_def)
  obtain rt where rt: "construct_partial_runtime stof (partial_config opts ?cfg) (models (so_model_path opts)) = Inr rt"
      "lr_config rt = partial_config opts ?cfg"
    using stamped_starts [OF disk stage(3) merged_entry [OF sc(2)] stage(1)] by blast
  have "pc_model_path (lr_config rt) \<noteq> []" using stage(3) by (simp add: rt(2) partial_config_def)
  from constructed_shard [OF rt(1) this] have "serves_entry ?cfg rt"
    using merged_fields(3) [OF pos] by (simp add: validated_shard serves_entry_def partial_config_def Let_def)
  moreover have "start_stage stof files models opts = Inr (?cfg, LlamaPartialRuntime rt)"
    using sc(1) rt(1) stage(1,2) by (simp add: start_stage_def map(1) Let_def opts make_runtime_def)
  ultimately show ?thesis using rt(2) merged_entry [OF sc(2)] merged_fields(3) [OF pos] stage(1) by auto
qed


section \<open>A sample\<close>

text \<open>The library as lists: a context is its key-value pairs, the last first, and its tensors.\<close>

definition sample_lib :: "((string \<times> gguf_value) list \<times> gguf_tensor_info list, gguf_tensor_info) gguf_lib" where
  "sample_lib = \<lparr>gf_values = (\<lambda>c. map_of (fst c)), gf_keys = (\<lambda>c. map fst (fst c)), gf_tensors = snd,
     gf_tensor = (\<lambda>c n. find (\<lambda>t. tensor_name t = n) (snd c)), gf_init_empty = Some ([], []),
     gf_set_kv = (\<lambda>d s. (fst s @ fst d, snd d)), gf_set_val = (\<lambda>k v c. ((k, v) # fst c, snd c)),
     gf_add_tensor = (\<lambda>n t c. (fst c, snd c @ [t\<lparr>tensor_name := n\<rparr>])), gf_reopened = Some\<rparr>"

lemma sample_lib_laws: "gguf_laws sample_lib"
  by (auto simp: gguf_laws_def sample_lib_def context_names_def dom_map_of_conv_image_fst find_None_iff fun_eq_iff
    map_add_def split: option.splits)

definition sample_tensors :: "gguf_tensor_info list" where
  "sample_tensors = map (\<lambda>n. \<lparr>tensor_name = n, type_name = ''f32'', byte_size = 4, tensor_offset = 0\<rparr>)
     [''token_embd.weight'', ''blk.0.attn_q.weight'', ''output_norm.weight'', ''output.weight'', ''rope_freqs.weight'']"

definition sample_source :: "(string \<times> gguf_value) list \<times> gguf_tensor_info list" where
  "sample_source = ([(''general.architecture'', GString ''llama''), (''tokenizer.ggml.model'', GString ''gpt2''),
     (''llama.embedding_length'', GUInt 4)], sample_tensors)"

definition sample_inspection :: gguf_inspection where
  "sample_inspection = \<lparr>inspection_path = ''m.gguf'', inspected_tensors = sample_tensors\<rparr>"

definition sample_manifest :: partition_manifest where
  "sample_manifest = manifest_of sample_partition (partition_assignment sample_inspection sample_partition)"

definition sample_shard_file :: "unit model_file" where
  "sample_shard_file = \<lparr>mf_exists = True, mf_regular = True, mf_size = Some 4096,
     mf_gguf = Some (stamped sample_manifest 4 ''m.gguf'' (map_of (fst sample_source))),
     mf_meta = Some [''llama.embedding_length'' \<mapsto> ''4''], mf_vocab = Some 8, mf_tensors = Some (Some (\<lambda>_. None))\<rparr>"

definition sample_stage_options :: stage_options where
  "sample_stage_options = \<lparr>so_config_path = ''stage_map.yaml'', so_backend = ''llama'', so_model_path = ''p.gguf'',
     so_port = 0, so_stage_id = 1\<rparr>"

lemma sample_source_facts:
  "distinct (context_names sample_lib sample_source)"
  "inspect_gguf_tensors sample_lib ''m.gguf'' (Some sample_source) = Inr sample_inspection"
  "gf_values sample_lib sample_source ''general.architecture'' \<noteq> None"
  "is_prefix ''tokenizer.ggml.'' ''tokenizer.ggml.model''"
  "gf_values sample_lib sample_source ''tokenizer.ggml.model'' \<noteq> None"
  "read_i32_metadata_or_default (gf_values sample_lib sample_source) hidden_size_keys (- 1) = Inr 4"
  by (simp_all add: context_names_def inspect_gguf_tensors_def sample_lib_def sample_source_def sample_tensors_def
    sample_inspection_def hidden_size_keys_def)

lemma sample_assignment:
  "manifest_ok sample_partition (partition_assignment sample_inspection sample_partition)"
  "\<not> has_missing_tensors (partition_assignment sample_inspection sample_partition)"
  by code_simp+

lemma sample_meta: "model_meta_int [''llama.embedding_length'' \<mapsto> ''4''] ''llama.embedding_length'' = 4"
  by code_simp

lemma sample_file_ok:
  "gf_values sample_lib r = stamped sample_manifest 4 ''m.gguf'' (gf_values sample_lib sample_source) \<Longrightarrow>
   shard_file_ok sample_shard_file (gf_values sample_lib r) 4"
  by (simp add: shard_file_ok_def sample_shard_file_def sample_lib_def sample_meta)


definition sample_environment :: stage_environment where
  "sample_environment = \<lparr>se_stage_id = Some ''one'', se_port = None, se_stage_map_path = Some ''stage_map.yaml'',
     se_backend = Some ''llama'', se_model_path = None\<rparr>"

lemma sample_arguments:
  "parse_stage_args sample_environment [''--stage-id'', ''1'', ''--model'', ''p.gguf''] = CliOptions sample_stage_options"
  by code_simp

theorem stage_serves_its_entry_witness:
  "\<exists>cfg rt. stage_main (\<lambda>_. None) [''stage_map.yaml'' \<mapsto> sample_map] (\<lambda>_. sample_shard_file) sample_environment
      [''--stage-id'', ''1'', ''--model'', ''p.gguf''] = Inr (cfg, LlamaPartialRuntime rt) \<and> serves_entry cfg rt"
proof -
  obtain gc where gc: "load_gateway_config_from_file (Some sample_map) ''m'' = Inr gc" "gc_partitions gc = [sample_partition]"
    using sample_map_lines(2) by (auto split: sum.splits)
  have opts: "so_config_path sample_stage_options = ''stage_map.yaml''" "so_stage_id sample_stage_options = stage_id sample_partition"
    "so_backend sample_stage_options = ''llama''" "so_model_path sample_stage_options \<noteq> []" "0 < stage_id sample_partition"
    by (simp_all add: sample_stage_options_def sample_partition_def)
  have disk: "shard_file_ok sample_shard_file
      (stamped (manifest_of sample_partition (partition_assignment sample_inspection sample_partition)) 4 ''m.gguf'' (map_of (fst sample_source))) 4"
    by (simp add: shard_file_ok_def sample_shard_file_def sample_manifest_def sample_meta)
  have "[''stage_map.yaml'' \<mapsto> sample_map] (so_config_path sample_stage_options) = Some sample_map"
    "sample_partition \<in> set (gc_partitions gc)" "distinct (map stage_id (gc_partitions gc))" by (simp_all add: gc(2) opts)
  note started = stage_on_shard [where models = "\<lambda>_. sample_shard_file" and stof = "\<lambda>_. None" and
      files = "[''stage_map.yaml'' \<mapsto> sample_map]" and opts = sample_stage_options,
      OF this(1) sample_map_lines(1) gc(1) this(2,3) opts(2-5) disk]
  then obtain cfg rt where s: "stage_main (\<lambda>_. None) [''stage_map.yaml'' \<mapsto> sample_map] (\<lambda>_. sample_shard_file) sample_environment
      [''--stage-id'', ''1'', ''--model'', ''p.gguf''] = Inr (cfg, LlamaPartialRuntime rt)"
      "lr_config rt = partial_config sample_stage_options cfg"
    unfolding stage_main_def sample_arguments by auto
  have "pc_model_path (lr_config rt) \<noteq> []" using opts(4) by (simp add: s(2) partial_config_def)
  from stage_serves_its_entry [OF s(1) this] s(1) show ?thesis by blast
qed

end
