(* ===== verification/Model_Controller.thy ===== *)
theory Model_Controller
  imports Deployment Action_Logic
begin

text \<open>
  \<open>dli-native-model-controller\<close> (\<open>native_model_controller_tool.cpp\<close>): it fetches a model, writes the stage
  map, has the three tools cut and check the shards, collects the artifacts and uploads them. What it
  does to the machine goes through the record \<open>host\<close>: the environment, the processes it runs, the files;
  a state \<open>'w\<close> stands for the rest of the world.
\<close>

section \<open>Arguments\<close>

record controller_options =
  co_model_id :: string
  co_model_name :: string
  co_model_slug :: string
  co_local_model_path :: string
  co_source_repo :: string
  co_source_revision :: string
  co_source_file :: string
  co_artifact_repo :: string
  co_artifact_revision :: string
  co_artifact_private :: bool
  co_full_gguf_file :: string
  co_num_layers :: int
  co_num_stages :: int
  co_physical_nodes :: string
  co_gateway_service_name :: string
  co_stage_service_prefix :: string
  co_container_model_root :: string
  co_work_dir :: string
  co_no_upload :: bool
  co_partition_manifest_bin :: string
  co_shard_writer_bin :: string
  co_shard_validate_bin :: string

definition default_controller_options :: controller_options where
  "default_controller_options = \<lparr>co_model_id = [], co_model_name = [], co_model_slug = [], co_local_model_path = [],
     co_source_repo = [], co_source_revision = ''main'', co_source_file = [], co_artifact_repo = [],
     co_artifact_revision = ''main'', co_artifact_private = False, co_full_gguf_file = [], co_num_layers = 0,
     co_num_stages = 4, co_physical_nodes = [], co_gateway_service_name = ''inference-native-gateway'',
     co_stage_service_prefix = ''inference-native-stage'', co_container_model_root = ''/app/models'',
     co_work_dir = ''/work'', co_no_upload = False, co_partition_manifest_bin = ''/usr/local/bin/dli-partition-manifest'',
     co_shard_writer_bin = ''/usr/local/bin/dli-gguf-shard-writer'',
     co_shard_validate_bin = ''/usr/local/bin/dli-gguf-shard-validate''\<rparr>"

text \<open>The options that take a text: what each sets.\<close>

definition text_option :: "string \<Rightarrow> (string \<Rightarrow> controller_options \<Rightarrow> controller_options) option" where
  "text_option arg =
     (if arg = ''--model-id'' then Some (\<lambda>v o'. o'\<lparr>co_model_id := v\<rparr>)
      else if arg = ''--model-name'' then Some (\<lambda>v o'. o'\<lparr>co_model_name := v\<rparr>)
      else if arg = ''--model-slug'' then Some (\<lambda>v o'. o'\<lparr>co_model_slug := v\<rparr>)
      else if arg = ''--local-model-path'' then Some (\<lambda>v o'. o'\<lparr>co_local_model_path := v\<rparr>)
      else if arg = ''--source-repo'' then Some (\<lambda>v o'. o'\<lparr>co_source_repo := v\<rparr>)
      else if arg = ''--source-revision'' then Some (\<lambda>v o'. o'\<lparr>co_source_revision := v\<rparr>)
      else if arg = ''--source-file'' then Some (\<lambda>v o'. o'\<lparr>co_source_file := v\<rparr>)
      else if arg = ''--artifact-repo'' then Some (\<lambda>v o'. o'\<lparr>co_artifact_repo := v\<rparr>)
      else if arg = ''--artifact-revision'' then Some (\<lambda>v o'. o'\<lparr>co_artifact_revision := v\<rparr>)
      else if arg = ''--full-gguf-file'' then Some (\<lambda>v o'. o'\<lparr>co_full_gguf_file := v\<rparr>)
      else if arg = ''--physical-nodes'' then Some (\<lambda>v o'. o'\<lparr>co_physical_nodes := v\<rparr>)
      else if arg = ''--gateway-service-name'' then Some (\<lambda>v o'. o'\<lparr>co_gateway_service_name := v\<rparr>)
      else if arg = ''--stage-service-prefix'' then Some (\<lambda>v o'. o'\<lparr>co_stage_service_prefix := v\<rparr>)
      else if arg = ''--container-model-root'' then Some (\<lambda>v o'. o'\<lparr>co_container_model_root := v\<rparr>)
      else if arg = ''--work-dir'' then Some (\<lambda>v o'. o'\<lparr>co_work_dir := v\<rparr>)
      else if arg = ''--partition-manifest-bin'' then Some (\<lambda>v o'. o'\<lparr>co_partition_manifest_bin := v\<rparr>)
      else if arg = ''--shard-writer-bin'' then Some (\<lambda>v o'. o'\<lparr>co_shard_writer_bin := v\<rparr>)
      else if arg = ''--shard-validate-bin'' then Some (\<lambda>v o'. o'\<lparr>co_shard_validate_bin := v\<rparr>)
      else None)"

definition number_option :: "string \<Rightarrow> (int \<Rightarrow> controller_options \<Rightarrow> controller_options) option" where
  "number_option arg =
     (if arg = ''--num-layers'' then Some (\<lambda>i o'. o'\<lparr>co_num_layers := i\<rparr>)
      else if arg = ''--num-stages'' then Some (\<lambda>i o'. o'\<lparr>co_num_stages := i\<rparr>)
      else None)"

fun controller_args_loop :: "controller_options \<Rightarrow> string list \<Rightarrow> controller_options cli" where
  "controller_args_loop opts [] = CliOptions opts"
| "controller_args_loop opts (arg # rest) =
     (if arg = ''--help'' \<or> arg = ''-h'' then CliHelp
      else if arg = ''--artifact-private'' then controller_args_loop (opts\<lparr>co_artifact_private := True\<rparr>) rest
      else if arg = ''--no-upload'' then controller_args_loop (opts\<lparr>co_no_upload := True\<rparr>) rest
      else (case text_option arg of
              Some upd \<Rightarrow>
                (case rest of [] \<Rightarrow> CliError (arg @ '' requires a value'') | v # r \<Rightarrow> controller_args_loop (upd v opts) r)
            | None \<Rightarrow>
                (case number_option arg of
                   Some upd \<Rightarrow>
                     (case rest of
                        [] \<Rightarrow> CliError (arg @ '' requires a value'')
                      | v # r \<Rightarrow>
                          (case std_stoi v of Inl e \<Rightarrow> CliError e | Inr i \<Rightarrow> controller_args_loop (upd i opts) r))
                 | None \<Rightarrow> CliError (''unknown argument: '' @ arg))))"

definition parse_controller_args :: "string list \<Rightarrow> controller_options cli" where
  "parse_controller_args args =
     (case args of
        [] \<Rightarrow> CliError ''missing command''
      | command # rest \<Rightarrow>
          if command = ''--help'' \<or> command = ''-h'' then CliHelp
          else if command \<noteq> ''prepare'' then CliError (''unknown command: '' @ command)
          else (case controller_args_loop default_controller_options rest of
            CliOptions opts \<Rightarrow>
              if co_model_id opts = [] then CliError ''--model-id is required''
              else if co_num_stages opts \<le> 0 then CliError ''--num-stages must be greater than zero''
              else if co_local_model_path opts = [] \<and> (co_source_repo opts = [] \<or> co_source_file opts = [])
              then CliError ''--source-repo and --source-file are required unless --local-model-path is set''
              else if \<not> co_no_upload opts \<and> co_artifact_repo opts = []
              then CliError ''--artifact-repo is required unless --no-upload is set''
              else CliOptions (opts\<lparr>
                co_model_name := (if co_model_name opts = [] then co_model_id opts else co_model_name opts),
                co_artifact_revision := (if co_artifact_revision opts = [] then ''main'' else co_artifact_revision opts),
                co_source_revision := (if co_source_revision opts = [] then ''main'' else co_source_revision opts)\<rparr>)
          | other \<Rightarrow> other))"

section \<open>The machine\<close>

datatype wait_status = Exited nat | Signaled nat | OtherStatus

text \<open>\<open>ho_exec\<close> runs a command and says how it ended and, when asked to, what it printed; it fails when
  no process can be started. The other fields are the calls of \<open>std::filesystem\<close> and of the gguf library
  the controller makes.\<close>

record 'w host =
  ho_env :: "string \<Rightarrow> string option"
  ho_setenv :: "string \<Rightarrow> string \<Rightarrow> ('w, unit) action"
  ho_log :: "string \<Rightarrow> 'w \<Rightarrow> 'w"
  ho_exec :: "bool \<Rightarrow> string list \<Rightarrow> ('w, wait_status \<times> string) action"
  ho_write :: "string \<Rightarrow> string \<Rightarrow> nat \<Rightarrow> ('w, unit) action"
  ho_read :: "string \<Rightarrow> 'w \<Rightarrow> string"
  ho_exists :: "string \<Rightarrow> 'w \<Rightarrow> bool"
  ho_create_directories :: "string \<Rightarrow> ('w, unit) action"
  ho_regular_files :: "string \<Rightarrow> ('w, string list) action"
  ho_copy_file :: "string \<Rightarrow> string \<Rightarrow> ('w, unit) action"
  ho_copy_directory :: "string \<Rightarrow> string \<Rightarrow> ('w, unit) action"
  ho_remove_all :: "string \<Rightarrow> ('w, unit) action"
  ho_gguf :: "string \<Rightarrow> 'w \<Rightarrow> gguf_context option"

definition getenv_string :: "'w host \<Rightarrow> string \<Rightarrow> string" where
  "getenv_string H key = or_default [] (ho_env H key)"

text \<open>A command as it is printed; a quote inside a quoted argument closes, escapes and reopens.\<close>

definition needs_quotes :: "string \<Rightarrow> bool" where
  "needs_quotes arg \<longleftrightarrow> list_ex (\<lambda>c. c \<in> {CHR '' '', CHR 0x09, CHR 0x0A, quote, CHR 0x27}) arg"

definition quoted_argument :: "string \<Rightarrow> string" where
  "quoted_argument arg =
     (if \<not> needs_quotes arg then arg
      else [CHR 0x27] @ concat (map (\<lambda>c. if c = CHR 0x27 then [CHR 0x27, backslash, CHR 0x27, CHR 0x27] else [c]) arg) @
           [CHR 0x27])"

definition join_command :: "string list \<Rightarrow> string" where
  "join_command args = spaced (map quoted_argument args)"

definition exit_code_of :: "wait_status \<Rightarrow> int" where
  "exit_code_of status = (case status of Exited n \<Rightarrow> int n | Signaled n \<Rightarrow> 128 + int n | OtherStatus \<Rightarrow> 1)"

definition run_command ::
    "'w host \<Rightarrow> string list \<Rightarrow> bool \<Rightarrow> bool \<Rightarrow> string list \<Rightarrow> ('w, int \<times> string) action" where
  "run_command H args capture_output allow_failure masked_args =
     bindA (checkA (args \<noteq> []) ''empty command'') (\<lambda>_.
     let shown = join_command (if masked_args = [] then args else masked_args)
     in bindA (modifyA (ho_log H (''+ '' @ shown @ newline))) (\<lambda>_.
        bindA (ho_exec H capture_output args) (\<lambda>(status, output).
        let exit_code = exit_code_of status
        in if exit_code \<noteq> 0 \<and> \<not> allow_failure
           then throwA (''command failed with exit code '' @ show_int exit_code @ '': '' @ shown @
                  (if output \<noteq> [] then newline @ output else []))
           else retA (exit_code, output))))"

definition run_plain :: "'w host \<Rightarrow> string list \<Rightarrow> ('w, int \<times> string) action" where
  "run_plain H args = run_command H args False False []"

section \<open>The model\<close>

record gguf_metadata =
  gm_architecture :: string
  gm_name :: string
  gm_block_count :: int

definition string_key_or_empty :: "gguf_context \<Rightarrow> string \<Rightarrow> string" where
  "string_key_or_empty ctx key = (case ctx key of Some (GString s) \<Rightarrow> s | _ \<Rightarrow> [])"

text \<open>Unlike the writer's reader, a key of another type is passed over.\<close>

fun int_key_or_default :: "gguf_context \<Rightarrow> string list \<Rightarrow> int \<Rightarrow> int result" where
  "int_key_or_default ctx [] default_value = Inr default_value"
| "int_key_or_default ctx (key # keys) default_value =
     (case ctx key of
        Some (GInt i) \<Rightarrow> Inr i
      | Some (GUInt u) \<Rightarrow> if u > 2 ^ 31 - 1 then Inl (''GGUF integer metadata too large: '' @ key) else Inr (int u)
      | _ \<Rightarrow> int_key_or_default ctx keys default_value)"

definition block_count_keys :: "string list" where
  "block_count_keys = [''llama.block_count'', ''mistral.block_count'', ''qwen2.block_count'', ''gptneox.block_count'']"

definition inspect_gguf :: "string \<Rightarrow> gguf_context option \<Rightarrow> gguf_metadata result" where
  "inspect_gguf path file =
     (case file of
        None \<Rightarrow> Inl (''failed to open GGUF file: '' @ path)
      | Some ctx \<Rightarrow>
          bindR (int_key_or_default ctx block_count_keys (- 1)) (\<lambda>n.
          Inr \<lparr>gm_architecture = string_key_or_empty ctx ''general.architecture'',
               gm_name = string_key_or_empty ctx ''general.name'', gm_block_count = n\<rparr>))"

text \<open>\<open>path::filename\<close>: what follows the last slash.\<close>

definition path_filename :: "string \<Rightarrow> string" where
  "path_filename path = rev (takeWhile (\<lambda>c. c \<noteq> CHR ''/'') (rev path))"

definition private_mode :: nat where "private_mode = 384"
definition script_mode :: nat where "script_mode = 448"
definition default_mode :: nat where "default_mode = 420"

definition curl_header :: "string \<Rightarrow> string" where
  "curl_header token = ''header = '' @ [quote] @ ''Authorization: Bearer '' @ token @ [quote] @ newline"

definition first_token :: "'w host \<Rightarrow> string \<Rightarrow> string \<Rightarrow> string" where
  "first_token H a b = (if getenv_string H a \<noteq> [] then getenv_string H a else getenv_string H b)"

definition download_model :: "'w host \<Rightarrow> controller_options \<Rightarrow> string \<Rightarrow> ('w, string) action" where
  "download_model H opts work_dir =
     (if co_local_model_path opts \<noteq> []
      then bindA getA (\<lambda>w.
           bindA (checkA (ho_exists H (co_local_model_path opts) w)
             (''local model path does not exist: '' @ co_local_model_path opts)) (\<lambda>_.
           retA (co_local_model_path opts)))
      else
        let local_dir = path_join work_dir ''full-model'';
            output_path = path_join local_dir (path_filename (co_source_file opts));
            url = ''https://huggingface.co/'' @ co_source_repo opts @ ''/resolve/'' @ co_source_revision opts @ ''/'' @
                  co_source_file opts;
            token = first_token H ''HF_TOKEN'' ''HF_UPLOAD_TOKEN'';
            curl_config = path_join work_dir ''hf-download-curl.conf'';
            base = [''curl'', ''-L'', ''-f'', ''-sS'', ''--retry'', ''5'', ''--retry-delay'', ''3'', ''--connect-timeout'', ''30'',
                    ''-o'', output_path];
            args = base @ (if token \<noteq> [] then [''--config'', curl_config] else []) @ [url]
        in bindA (ho_create_directories H local_dir) (\<lambda>_.
           bindA (if token \<noteq> [] then ho_write H curl_config (curl_header token) private_mode else retA ()) (\<lambda>_.
           bindA (modifyA (ho_log H (''Downloading '' @ co_source_repo opts @ ''/'' @ co_source_file opts @ ''@'' @
                    co_source_revision opts @ newline))) (\<lambda>_.
           bindA (run_command H args False False args) (\<lambda>_.
           retA output_path)))))"

section \<open>The upload\<close>

definition is_shard_file :: "string \<Rightarrow> bool" where
  "is_shard_file filename \<longleftrightarrow> starts_with filename ''partition-'' \<and>
     length ''.dli.gguf'' \<le> length filename \<and> drop (length filename - length ''.dli.gguf'') filename = ''.dli.gguf''"

definition list_shards :: "'w host \<Rightarrow> string \<Rightarrow> ('w, string list) action" where
  "list_shards H shard_dir =
     bindA (ho_regular_files H shard_dir) (\<lambda>files. retA (sort (filter is_shard_file files)))"

definition split_repo_id :: "string \<Rightarrow> (string \<times> string) result" where
  "split_repo_id repo_id =
     (let namespace = takeWhile (\<lambda>c. c \<noteq> CHR ''/'') repo_id; rest = dropWhile (\<lambda>c. c \<noteq> CHR ''/'') repo_id
      in if rest = [] \<or> namespace = [] \<or> tl rest = []
         then Inl (''Hugging Face repo id must be <namespace>/<repo>: '' @ repo_id)
         else Inr (namespace, tl rest))"

definition create_repo_body :: "controller_options \<Rightarrow> string \<times> string \<Rightarrow> string" where
  "create_repo_body opts = (\<lambda>(namespace_name, repo_name).
     ''{'' @ json_key ''name'' @ json_str repo_name @ '','' @ json_key ''organization'' @ json_str namespace_name @ '',''
     @ json_key ''type'' @ json_str ''model'' @ '','' @ json_key ''private'' @ json_bool (co_artifact_private opts) @ ''}'')"

definition mentions :: "string \<Rightarrow> string \<Rightarrow> bool" where
  "mentions pat s \<longleftrightarrow> after_sub pat s \<noteq> None"

definition create_repo_if_needed :: "'w host \<Rightarrow> controller_options \<Rightarrow> string \<Rightarrow> string \<Rightarrow> ('w, unit) action" where
  "create_repo_if_needed H opts work_dir token =
     (let curl_config = path_join work_dir ''hf-upload-curl.conf'';
          output_path = path_join work_dir ''hf-create-repo-response.json''
      in bindA (ho_write H curl_config (curl_header token) private_mode) (\<lambda>_.
         bindA (liftA (split_repo_id (co_artifact_repo opts))) (\<lambda>names.
         bindA (run_command H [''curl'', ''-sS'', ''-o'', output_path, ''-w'', ''%{http_code}'', ''-X'', ''POST'', ''-H'',
                  ''Content-Type: application/json'', ''--config'', curl_config, ''--data-binary'',
                  create_repo_body opts names, ''https://huggingface.co/api/repos/create''] True True []) (\<lambda>(_, output).
         bindA getA (\<lambda>w.
         let status = trim_space_copy output; body_text = ho_read H output_path w
         in if status = ''200'' \<or> status = ''201'' \<or> status = ''409'' then retA ()
            else if status = ''400'' \<and> (mentions ''exist'' body_text \<or> mentions ''already'' body_text) then retA ()
            else throwA (''failed to create/verify HF repo '' @ co_artifact_repo opts @ ''; HTTP status '' @ status @
                   '' response file '' @ output_path))))))"

definition askpass_script :: string where
  "askpass_script =
     ''#!/bin/sh'' @ newline @ ''case '' @ [quote] @ ''$1'' @ [quote] @ '' in'' @ newline @
     ''*Username*) printf '' @ [CHR 0x27] @ ''%s'' @ [backslash] @ ''n'' @ [CHR 0x27] @ '' '' @ [CHR 0x27] @ ''hf'' @ [CHR 0x27] @
     '' ;;'' @ newline @
     ''*) printf '' @ [CHR 0x27] @ ''%s'' @ [backslash] @ ''n'' @ [CHR 0x27] @ '' '' @ [quote] @ ''${HF_UPLOAD_TOKEN:-$HF_TOKEN}'' @
     [quote] @ '' ;;'' @ newline @ ''esac'' @ newline"

definition git :: "'w host \<Rightarrow> string \<Rightarrow> string list \<Rightarrow> bool \<Rightarrow> bool \<Rightarrow> ('w, int \<times> string) action" where
  "git H clone_dir args capture_output allow_failure =
     run_command H ([''git'', ''-C'', clone_dir] @ args) capture_output allow_failure []"

definition checkout_revision :: "'w host \<Rightarrow> controller_options \<Rightarrow> string \<Rightarrow> ('w, unit) action" where
  "checkout_revision H opts clone_dir =
     (if co_artifact_revision opts = ''main'' then retA ()
      else bindA (git H clone_dir [''fetch'', ''origin'', co_artifact_revision opts] False True) (\<lambda>_.
           bindA (git H clone_dir [''checkout'', co_artifact_revision opts] False True) (\<lambda>(exit_code, _).
           if exit_code \<noteq> 0
           then bindA (git H clone_dir [''checkout'', ''-b'', co_artifact_revision opts] False False) (\<lambda>_. retA ())
           else retA ())))"

definition commit_and_push :: "'w host \<Rightarrow> controller_options \<Rightarrow> string \<Rightarrow> string \<Rightarrow> ('w, unit) action" where
  "commit_and_push H opts clone_dir model_slug =
     bindA (git H clone_dir [''add'', ''.gitattributes'', model_slug] False False) (\<lambda>_.
     bindA (git H clone_dir [''status'', ''--porcelain''] True False) (\<lambda>(_, output).
     if trim_space_copy output = []
     then bindA (modifyA (ho_log H (''No HF artifact changes to commit.'' @ newline))) (\<lambda>_. retA ())
     else bindA (git H clone_dir [''commit'', ''-m'', ''Prepare DLI native artifacts for '' @ co_model_id opts] False False) (\<lambda>_.
          bindA (git H clone_dir [''push'', ''origin'', ''HEAD:'' @ co_artifact_revision opts] False False) (\<lambda>_. retA ()))))"

definition upload_artifacts :: "'w host \<Rightarrow> controller_options \<Rightarrow> string \<Rightarrow> string \<Rightarrow> string \<Rightarrow> ('w, unit) action" where
  "upload_artifacts H opts artifact_dir work_dir model_slug =
     (if co_no_upload opts
      then modifyA (ho_log H (''Skipping Hugging Face upload because --no-upload was set.'' @ newline))
      else
        let token = first_token H ''HF_UPLOAD_TOKEN'' ''HF_TOKEN'';
            askpass = path_join work_dir ''hf-git-askpass.sh'';
            clone_dir = path_join work_dir ''hf-repo'';
            target_dir = path_join clone_dir model_slug
        in bindA (checkA (token \<noteq> []) ''HF_UPLOAD_TOKEN or HF_TOKEN is required for Hugging Face upload'') (\<lambda>_.
           bindA (create_repo_if_needed H opts work_dir token) (\<lambda>_.
           bindA (ho_write H askpass askpass_script script_mode) (\<lambda>_.
           bindA (ho_setenv H ''GIT_ASKPASS'' askpass) (\<lambda>_.
           bindA (ho_setenv H ''GIT_TERMINAL_PROMPT'' ''0'') (\<lambda>_.
           bindA (ho_remove_all H clone_dir) (\<lambda>_.
           bindA (run_plain H [''git'', ''clone'', ''https://huggingface.co/'' @ co_artifact_repo opts, clone_dir]) (\<lambda>_.
           bindA (checkout_revision H opts clone_dir) (\<lambda>_.
           bindA (git H clone_dir [''lfs'', ''install'', ''--local''] False False) (\<lambda>_.
           bindA (git H clone_dir [''lfs'', ''track'', ''*.gguf''] False False) (\<lambda>_.
           bindA (git H clone_dir [''config'', ''user.email'', ''dli-native-controller@local''] False False) (\<lambda>_.
           bindA (git H clone_dir [''config'', ''user.name'', ''DLI Native Controller''] False False) (\<lambda>_.
           bindA (ho_remove_all H target_dir) (\<lambda>_.
           bindA (ho_copy_directory H artifact_dir target_dir) (\<lambda>_.
           commit_and_push H opts clone_dir model_slug)))))))))))))))"

section \<open>The records\<close>

definition json_line :: "string \<Rightarrow> string \<Rightarrow> string \<Rightarrow> string" where
  "json_line indent key written = indent @ [quote] @ key @ [quote] @ '': '' @ written"

definition json_lines :: "(string \<times> string) list \<Rightarrow> string \<Rightarrow> string" where
  "json_lines members indent = concat (map (\<lambda>(k, v). json_line indent k v @ '','' @ newline) (butlast members)) @
     json_line indent (fst (last members)) (snd (last members)) @ newline"

definition metadata_json :: "controller_options \<Rightarrow> string \<Rightarrow> string \<Rightarrow> int \<Rightarrow> string \<Rightarrow> string" where
  "metadata_json opts model_slug arch num_layers full_file_name =
     ''{'' @ newline @ json_lines
       [(''model_id'', json_str (co_model_id opts)), (''model_name'', json_str (co_model_name opts)),
        (''model_slug'', json_str model_slug), (''architecture'', json_str arch),
        (''num_layers'', show_int num_layers), (''num_stages'', show_int (co_num_stages opts)),
        (''source_repo'', json_str (co_source_repo opts)), (''source_revision'', json_str (co_source_revision opts)),
        (''source_file'', json_str (co_source_file opts)), (''artifact_repo'', json_str (co_artifact_repo opts)),
        (''artifact_revision'', json_str (co_artifact_revision opts)),
        (''full_gguf_file'', json_str (model_slug @ ''/'' @ full_file_name)),
        (''stage_map_file'', json_str (model_slug @ ''/stage_map.yaml''))] ''  '' @ ''}'' @ newline"

definition activation_json :: "controller_options \<Rightarrow> string \<Rightarrow> string \<Rightarrow> string \<Rightarrow> string \<Rightarrow> string" where
  "activation_json opts model_slug stage_map_yaml metadata_text full_file_name =
     ''{'' @ newline
     @ json_line ''  '' ''modelId'' (json_str (co_model_id opts)) @ '','' @ newline
     @ json_line ''  '' ''modelName'' (json_str (co_model_name opts)) @ '','' @ newline
     @ json_line ''  '' ''modelSlug'' (json_str model_slug) @ '','' @ newline
     @ json_line ''  '' ''data'' ''{'' @ newline @ json_lines
         [(''DLI_ACTIVE_MODEL_ID'', json_str (co_model_id opts)), (''DLI_ACTIVE_MODEL_SLUG'', json_str model_slug),
          (''HF_NATIVE_STAGE_REPO'', json_str (co_artifact_repo opts)),
          (''HF_NATIVE_STAGE_REVISION'', json_str (co_artifact_revision opts)),
          (''HF_NATIVE_FULL_GGUF_REPO'', json_str (co_artifact_repo opts)),
          (''HF_NATIVE_FULL_GGUF_REVISION'', json_str (co_artifact_revision opts)),
          (''HF_NATIVE_FULL_GGUF_FILE'', json_str (model_slug @ ''/'' @ full_file_name)),
          (''stage_map.yaml'', json_str stage_map_yaml)] ''    ''
     @ ''  },'' @ newline @ json_line ''  '' ''metadata'' metadata_text @ ''}'' @ newline"

section \<open>Preparing a model\<close>

definition full_file_name :: "controller_options \<Rightarrow> string \<Rightarrow> string" where
  "full_file_name opts full_model_path =
     (if co_full_gguf_file opts \<noteq> [] then co_full_gguf_file opts
      else path_filename (if co_source_file opts \<noteq> [] then co_source_file opts else path_filename full_model_path))"

definition chosen_slug :: "controller_options \<Rightarrow> string" where
  "chosen_slug opts = (if co_model_slug opts = [] then slugify (co_model_id opts) else co_model_slug opts)"

definition generated_dir :: "controller_options \<Rightarrow> string" where
  "generated_dir opts = path_join (co_work_dir opts) ''generated''"

definition manifest_dir :: "controller_options \<Rightarrow> string" where
  "manifest_dir opts = path_join (generated_dir opts) ''manifests''"

definition shard_dir :: "controller_options \<Rightarrow> string" where
  "shard_dir opts = path_join (path_join (generated_dir opts) ''shards'') (chosen_slug opts)"

definition artifact_dir :: "controller_options \<Rightarrow> string" where
  "artifact_dir opts = path_join (path_join (generated_dir opts) ''artifacts'') (chosen_slug opts)"

definition stage_map_path :: "controller_options \<Rightarrow> string" where
  "stage_map_path opts = path_join (generated_dir opts) ''stage_map.yaml''"

definition manifest_arguments :: "controller_options \<Rightarrow> string \<Rightarrow> string list" where
  "manifest_arguments opts full_model_path =
     [''--config'', stage_map_path opts, ''--model'', full_model_path, ''--output-dir'', manifest_dir opts]"

definition writer_arguments :: "controller_options \<Rightarrow> string \<Rightarrow> string list" where
  "writer_arguments opts full_model_path =
     [''--model'', full_model_path, ''--manifest-dir'', manifest_dir opts, ''--output-dir'', shard_dir opts,
      ''--source-model'', co_model_name opts]"

definition validator_arguments :: "controller_options \<Rightarrow> string list" where
  "validator_arguments opts =
     [''--config'', stage_map_path opts, ''--manifest-dir'', manifest_dir opts, ''--shard-dir'', shard_dir opts]"

definition planned_stage_map :: "controller_options \<Rightarrow> string \<Rightarrow> int \<Rightarrow> string result" where
  "planned_stage_map opts full_model_path num_layers =
     generate_stage_map (co_model_name opts) (chosen_slug opts) (full_file_name opts full_model_path) num_layers
       (co_num_stages opts) (co_gateway_service_name opts) (co_stage_service_prefix opts)
       (parse_physical_nodes (co_physical_nodes opts) (co_num_stages opts)) (co_container_model_root opts)"

text \<open>The three tools, one after the other.\<close>

definition run_tools :: "'w host \<Rightarrow> controller_options \<Rightarrow> string \<Rightarrow> ('w, unit) action" where
  "run_tools H opts full_model_path =
     bindA (run_plain H (co_partition_manifest_bin opts # manifest_arguments opts full_model_path)) (\<lambda>_.
     bindA (run_plain H (co_shard_writer_bin opts # writer_arguments opts full_model_path)) (\<lambda>_.
     bindA (run_plain H (co_shard_validate_bin opts # validator_arguments opts)) (\<lambda>_. retA ())))"

definition collect_artifacts :: "'w host \<Rightarrow> controller_options \<Rightarrow> string \<Rightarrow> string \<Rightarrow> string \<Rightarrow> ('w, unit) action" where
  "collect_artifacts H opts full_model_path stage_map_yaml metadata_text =
     bindA (ho_copy_file H full_model_path (path_join (artifact_dir opts) (full_file_name opts full_model_path))) (\<lambda>_.
     bindA (list_shards H (shard_dir opts)) (\<lambda>shards.
     bindA (foldA (\<lambda>shard (_ :: unit). ho_copy_file H (path_join (shard_dir opts) shard) (path_join (artifact_dir opts) shard))
              shards ()) (\<lambda>_.
     bindA (ho_write H (path_join (artifact_dir opts) ''stage_map.yaml'') stage_map_yaml default_mode) (\<lambda>_.
     ho_write H (path_join (artifact_dir opts) ''native-model.json'') metadata_text default_mode))))"

text \<open>The text printed on the standard output.\<close>

definition prepare :: "'w host \<Rightarrow> controller_options \<Rightarrow> ('w, string) action" where
  "prepare H opts =
     bindA (ho_create_directories H (co_work_dir opts)) (\<lambda>_.
     bindA (download_model H opts (co_work_dir opts)) (\<lambda>full_model_path.
     bindA getA (\<lambda>w.
     bindA (liftA (inspect_gguf full_model_path (ho_gguf H full_model_path w))) (\<lambda>info.
     bindA (checkA (gm_architecture info = ''llama'')
       (''native CPU executor currently supports GGUF general.architecture=llama; got '' @ [CHR 0x27] @
        gm_architecture info @ [CHR 0x27])) (\<lambda>_.
     let num_layers = (if co_num_layers opts > 0 then co_num_layers opts else gm_block_count info)
     in bindA (checkA (num_layers > 0) ''could not determine model layer count from GGUF metadata'') (\<lambda>_.
        bindA (liftA (planned_stage_map opts full_model_path num_layers)) (\<lambda>stage_map_yaml.
        bindA (ho_create_directories H (manifest_dir opts)) (\<lambda>_.
        bindA (ho_create_directories H (shard_dir opts)) (\<lambda>_.
        bindA (ho_create_directories H (artifact_dir opts)) (\<lambda>_.
        bindA (ho_write H (stage_map_path opts) stage_map_yaml default_mode) (\<lambda>_.
        bindA (run_tools H opts full_model_path) (\<lambda>_.
        let metadata_text = metadata_json opts (chosen_slug opts) (gm_architecture info) num_layers
                              (full_file_name opts full_model_path)
        in bindA (collect_artifacts H opts full_model_path stage_map_yaml metadata_text) (\<lambda>_.
           bindA (upload_artifacts H opts (artifact_dir opts) (co_work_dir opts) (chosen_slug opts)) (\<lambda>_.
           retA (''DLI_ACTIVATION_JSON_BEGIN'' @ newline @
             activation_json opts (chosen_slug opts) stage_map_yaml metadata_text (full_file_name opts full_model_path) @
             ''DLI_ACTIVATION_JSON_END'' @ newline)))))))))))))))"

definition controller_main :: "'w host \<Rightarrow> string list \<Rightarrow> 'w \<Rightarrow> (nat \<times> string) \<times> 'w" where
  "controller_main H args w =
     (case parse_controller_args args of
        CliHelp \<Rightarrow> ((0, []), w)
      | CliError e \<Rightarrow> ((1, []), ho_log H (''dli-native-model-controller failed: '' @ e @ newline) w)
      | CliOptions opts \<Rightarrow>
          (case prepare H opts w of
             (Inl e, w') \<Rightarrow> ((1, []), ho_log H (''dli-native-model-controller failed: '' @ e @ newline) w')
           | (Inr out, w') \<Rightarrow> ((0, out), w')))"

end
