(* ===== verification/Controller_Safety.thy ===== *)
theory Controller_Safety
  imports Model_Controller
begin

text \<open>
  What the controller never does: publish shards that were not checked, and show the token it logs in
  with. The first is stated over a host that records the commands run, the second as the equality of
  two runs that differ in the token only, for every host whose private files cannot be read back.
\<close>

section \<open>The token stays private\<close>

definition private_files_unseen :: "'w host \<Rightarrow> bool" where
  "private_files_unseen H \<longleftrightarrow> (\<forall>path content content'. ho_write H path content private_mode = ho_write H path content' private_mode)"

definition with_env :: "'w host \<Rightarrow> string \<Rightarrow> string \<Rightarrow> 'w host" where
  "with_env H key token = H\<lparr>ho_env := (ho_env H)(key \<mapsto> token)\<rparr>"

lemma with_env_host [simp]:
  "ho_setenv (with_env H k t) = ho_setenv H" "ho_log (with_env H k t) = ho_log H" "ho_exec (with_env H k t) = ho_exec H"
  "ho_write (with_env H k t) = ho_write H" "ho_read (with_env H k t) = ho_read H" "ho_exists (with_env H k t) = ho_exists H"
  "ho_create_directories (with_env H k t) = ho_create_directories H"
  "ho_regular_files (with_env H k t) = ho_regular_files H" "ho_copy_file (with_env H k t) = ho_copy_file H"
  "ho_copy_directory (with_env H k t) = ho_copy_directory H" "ho_remove_all (with_env H k t) = ho_remove_all H"
  "ho_gguf (with_env H k t) = ho_gguf H"
  by (simp_all add: with_env_def)

lemma run_command_env [simp]:
  "run_command (with_env H k t) = run_command H" "run_plain (with_env H k t) = run_plain H" "git (with_env H k t) = git H"
  by (auto simp: fun_eq_iff run_command_def run_plain_def git_def)

lemma publishing_env [simp]:
  "checkout_revision (with_env H k t) = checkout_revision H" "commit_and_push (with_env H k t) = commit_and_push H"
  "run_tools (with_env H k t) = run_tools H" "collect_artifacts (with_env H k t) = collect_artifacts H"
  by (simp_all cong: if_cong add: fun_eq_iff checkout_revision_def commit_and_push_def run_tools_def collect_artifacts_def list_shards_def)

lemma first_token_nonempty:
  assumes "t \<noteq> []" "t' \<noteq> []" "k \<in> {a, b}"
  shows "(first_token (with_env H k t) a b = []) = (first_token (with_env H k t') a b = [])"
  using assms by (auto simp: first_token_def getenv_string_def with_env_def)

lemma create_repo_env:
  assumes "private_files_unseen H"
  shows "create_repo_if_needed (with_env H k t) opts work_dir token = create_repo_if_needed H opts work_dir []"
proof -
  have "ho_write H path (curl_header token) private_mode = ho_write H path (curl_header []) private_mode" for path
    using assms by (simp add: private_files_unseen_def)
  then show ?thesis by (simp add: create_repo_if_needed_def)
qed

lemma download_env:
  assumes "private_files_unseen H" "t \<noteq> []" "t' \<noteq> []" "k \<in> {''HF_TOKEN'', ''HF_UPLOAD_TOKEN''}"
  shows "download_model (with_env H k t) opts work_dir = download_model (with_env H k t') opts work_dir"
proof -
  let ?a = "first_token (with_env H k t) ''HF_TOKEN'' ''HF_UPLOAD_TOKEN''"
  let ?b = "first_token (with_env H k t') ''HF_TOKEN'' ''HF_UPLOAD_TOKEN''"
  have "(?a = []) = (?b = [])" using assms(2-4) by (rule first_token_nonempty)
  moreover have "ho_write H path (curl_header ?a) private_mode = ho_write H path (curl_header ?b) private_mode" for path
    using assms(1) by (simp add: private_files_unseen_def)
  ultimately show ?thesis by (simp add: download_model_def Let_def)
qed

lemma upload_env:
  assumes "private_files_unseen H" "t \<noteq> []" "t' \<noteq> []" "k \<in> {''HF_UPLOAD_TOKEN'', ''HF_TOKEN''}"
  shows "upload_artifacts (with_env H k t) opts artifacts work_dir slug = upload_artifacts (with_env H k t') opts artifacts work_dir slug"
proof -
  have "(first_token (with_env H k t) ''HF_UPLOAD_TOKEN'' ''HF_TOKEN'' = []) = (first_token (with_env H k t') ''HF_UPLOAD_TOKEN'' ''HF_TOKEN'' = [])"
    using assms(2-4) by (rule first_token_nonempty)
  then show ?thesis by (simp add: upload_artifacts_def Let_def create_repo_env [OF assms(1)])
qed


section \<open>Only checked shards are published\<close>

type_synonym command_log = "(string list \<times> wait_status) list"

definition untraced :: "('w, 'a) action \<Rightarrow> ('w \<times> command_log, 'a) action" where
  "untraced m = (\<lambda>(w, tr). case m w of (r, w') \<Rightarrow> (r, (w', tr)))"

definition traced_exec ::
    "(bool \<Rightarrow> string list \<Rightarrow> ('w, wait_status \<times> string) action) \<Rightarrow>
     bool \<Rightarrow> string list \<Rightarrow> ('w \<times> command_log, wait_status \<times> string) action" where
  "traced_exec exec capture args = (\<lambda>(w, tr). case exec capture args w of
     (Inl e, w') \<Rightarrow> (Inl e, (w', tr)) | (Inr (status, output), w') \<Rightarrow> (Inr (status, output), (w', tr @ [(args, status)])))"

text \<open>A host that also keeps the commands it has run and how they ended.\<close>

definition recorded :: "'w host \<Rightarrow> ('w \<times> command_log) host" where
  "recorded H = \<lparr>ho_env = ho_env H, ho_setenv = (\<lambda>k v. untraced (ho_setenv H k v)),
     ho_log = (\<lambda>s (w, tr). (ho_log H s w, tr)), ho_exec = traced_exec (ho_exec H),
     ho_write = (\<lambda>p c m. untraced (ho_write H p c m)), ho_read = (\<lambda>p (w, tr). ho_read H p w),
     ho_exists = (\<lambda>p (w, tr). ho_exists H p w), ho_create_directories = (\<lambda>p. untraced (ho_create_directories H p)),
     ho_regular_files = (\<lambda>p. untraced (ho_regular_files H p)), ho_copy_file = (\<lambda>a b. untraced (ho_copy_file H a b)),
     ho_copy_directory = (\<lambda>a b. untraced (ho_copy_directory H a b)), ho_remove_all = (\<lambda>p. untraced (ho_remove_all H p)),
     ho_gguf = (\<lambda>p (w, tr). ho_gguf H p w)\<rparr>"

definition is_push :: "string list \<Rightarrow> bool" where
  "is_push c \<longleftrightarrow> (case c of [a, b, d, e, f, g] \<Rightarrow> a = ''git'' \<and> b = ''-C'' \<and> e = ''push'' | _ \<Rightarrow> False)"

definition no_push :: "command_log \<Rightarrow> bool" where
  "no_push tr \<longleftrightarrow> (\<forall>(c, status) \<in> set tr. \<not> is_push c)"

definition tool_commands :: "controller_options \<Rightarrow> string \<Rightarrow> string list list" where
  "tool_commands opts full_model_path =
     [co_partition_manifest_bin opts # manifest_arguments opts full_model_path,
      co_shard_writer_bin opts # writer_arguments opts full_model_path,
      co_shard_validate_bin opts # validator_arguments opts]"

definition checked :: "controller_options \<Rightarrow> command_log \<Rightarrow> bool" where
  "checked opts tr \<longleftrightarrow> (\<exists>full pre post. tr = pre @ map (\<lambda>c. (c, Exited 0)) (tool_commands opts full) @ post \<and> no_push pre)"

lemma tools_no_push: "c \<in> set (tool_commands opts full) \<Longrightarrow> \<not> is_push c"
  by (auto simp: tool_commands_def is_push_def manifest_arguments_def writer_arguments_def validator_arguments_def)


subsection \<open>What the log keeps\<close>

lemma keepsA_untraced: "keepsA (\<lambda>s. P (snd s)) (untraced m)"
  by (auto simp: keepsA_def untraced_def split: prod.splits)

lemma keepsA_recorded:
  "keepsA (\<lambda>s. P (snd s)) (ho_setenv (recorded H) k v)" "keepsA (\<lambda>s. P (snd s)) (modifyA (ho_log (recorded H) x))"
  "keepsA (\<lambda>s. P (snd s)) (ho_write (recorded H) p c m)" "keepsA (\<lambda>s. P (snd s)) (ho_create_directories (recorded H) p)"
  "keepsA (\<lambda>s. P (snd s)) (ho_regular_files (recorded H) p)" "keepsA (\<lambda>s. P (snd s)) (ho_copy_file (recorded H) a b)"
  "keepsA (\<lambda>s. P (snd s)) (ho_copy_directory (recorded H) a b)" "keepsA (\<lambda>s. P (snd s)) (ho_remove_all (recorded H) p)"
  by (auto simp: recorded_def keepsA_untraced intro: keepsA_modify)

lemma keepsA_run_command:
  assumes "\<And>tr status. P tr \<Longrightarrow> P (tr @ [(args, status)])"
  shows "keepsA (\<lambda>s. P (snd s)) (run_command (recorded H) args capture allow masked)"
proof -
  have "keepsA (\<lambda>s. P (snd s)) (ho_exec (recorded H) capture args)"
    using assms by (auto simp: keepsA_def recorded_def traced_exec_def split: prod.splits sum.splits)
  then show ?thesis
    unfolding run_command_def Let_def
    by (auto intro!: keeps_intros keepsA_recorded split: prod.splits)
qed

lemma validA_run_command:
  "validA (\<lambda>s. P (snd s)) (run_plain (recorded H) args)
     (\<lambda>_ s. \<exists>tr. snd s = tr @ [(args, Exited 0)] \<and> P tr) (\<lambda>s. P (snd s) \<or> (\<exists>tr status. snd s = tr @ [(args, status)] \<and> P tr))"
  by (auto simp: validA_def run_plain_def run_command_def recorded_def traced_exec_def bindA_apply Let_def exit_code_of_def
    split: prod.splits sum.splits wait_status.splits if_splits)

lemma checked_more: "checked opts tr \<Longrightarrow> checked opts (tr @ tr2)"
  by (fastforce simp: checked_def)

lemma no_push_simps [simp]:
  "no_push []" "no_push (x # tr) \<longleftrightarrow> \<not> is_push (fst x) \<and> no_push tr" "no_push (tr @ tr2) \<longleftrightarrow> no_push tr \<and> no_push tr2"
  by (auto simp: no_push_def)

lemma download_keeps:
  "keepsA (\<lambda>s. no_push (snd s)) (download_model (recorded H) opts work_dir)"
  unfolding download_model_def Let_def
  by (intro keeps_intros keepsA_recorded keepsA_run_command) (simp_all add: is_push_def)

lemma keepsA_git_checked:
  "keepsA (\<lambda>s. checked opts (snd s)) (git (recorded H) d args capture allow)"
  "keepsA (\<lambda>s. checked opts (snd s)) (run_plain (recorded H) args)"
  "keepsA (\<lambda>s. checked opts (snd s)) (run_command (recorded H) args capture allow masked)"
  unfolding git_def run_plain_def by (rule keepsA_run_command [where P = "checked opts"], erule checked_more)+

lemma keepsA_pair: "(\<And>a b. keepsA P (f a b)) \<Longrightarrow> keepsA P (case x of (a, b) \<Rightarrow> f a b)"
  by (cases x) simp

lemma publishing_keeps:
  "keepsA (\<lambda>s. checked opts (snd s)) (collect_artifacts (recorded H) opts' full smap meta)"
  "keepsA (\<lambda>s. checked opts (snd s)) (upload_artifacts (recorded H) opts' artifacts work_dir slug)"
  unfolding collect_artifacts_def upload_artifacts_def list_shards_def create_repo_if_needed_def checkout_revision_def
    commit_and_push_def Let_def
  by (intro keeps_intros keepsA_recorded keepsA_git_checked keepsA_pair)+

lemma tools_checked:
  "validA (\<lambda>s. no_push (snd s)) (run_tools (recorded H) opts full) (\<lambda>_ s. checked opts (snd s)) (\<lambda>s. no_push (snd s))"
proof -
  obtain a b c where tools: "tool_commands opts full = [a, b, c]"
    "a = co_partition_manifest_bin opts # manifest_arguments opts full"
    "b = co_shard_writer_bin opts # writer_arguments opts full" "c = co_shard_validate_bin opts # validator_arguments opts"
    by (simp add: tool_commands_def)
  have np: "\<not> is_push a" "\<not> is_push b" "\<not> is_push c" using tools_no_push [of _ opts full] tools(1) by auto
  let ?P = "\<lambda>cs tr. \<exists>pre. tr = pre @ map (\<lambda>c. (c, Exited 0)) cs \<and> no_push pre"
  let ?E = "\<lambda>s. no_push (snd s)"
  have step: "validA (\<lambda>s. ?P cs (snd s)) (run_plain (recorded H) x) (\<lambda>_ s. ?P (cs @ [x]) (snd s)) ?E"
    if "\<not> is_push x" "\<forall>y \<in> set cs. \<not> is_push y" for cs x
  proof (rule validA_post [OF validA_run_command [where P = "?P cs"]])
    have np: "no_push (pre @ map (\<lambda>c. (c, Exited 0)) cs)" if "no_push pre" for pre
      using that \<open>\<forall>y \<in> set cs. \<not> is_push y\<close> by (auto simp: no_push_def)
    show "?P (cs @ [x]) (snd s)" if "\<exists>tr. snd s = tr @ [(x, Exited 0)] \<and> ?P cs tr" for s :: "'a \<times> command_log"
      using that by fastforce
    show "no_push (snd s)" if "?P cs (snd s) \<or> (\<exists>tr status. snd s = tr @ [(x, status)] \<and> ?P cs tr)" for s :: "'a \<times> command_log"
      using that np \<open>\<not> is_push x\<close> by auto
  qed
  have s1: "validA (\<lambda>s. no_push (snd s)) (run_plain (recorded H) a) (\<lambda>_ s. ?P [a] (snd s)) ?E"
    using step [of a "[]"] np(1) by simp
  have s2: "validA (\<lambda>s. ?P [a] (snd s)) (run_plain (recorded H) b) (\<lambda>_ s. ?P [a, b] (snd s)) ?E"
    using step [of b "[a]"] np(1,2) by simp
  have s3: "validA (\<lambda>s. ?P [a, b] (snd s)) (run_plain (recorded H) c) (\<lambda>_ s. ?P [a, b, c] (snd s)) ?E"
    using step [of c "[a, b]"] np by simp
  have s4: "validA (\<lambda>s. ?P [a, b, c] (snd s)) (retA ()) (\<lambda>_ s. checked opts (snd s)) ?E"
    by (rule validA_ret) (unfold checked_def, metis append_Nil2 tools(1))
  show ?thesis
    unfolding run_tools_def tools(2-4) [symmetric]
    by (rule validA_bind [OF s1 validA_bind [OF s2 validA_bind [OF s3 s4]]])
qed

lemma prepare_triple:
  "validA (\<lambda>s. no_push (snd s)) (prepare (recorded H) opts) (\<lambda>_ s. checked opts (snd s))
     (\<lambda>s. no_push (snd s) \<or> checked opts (snd s))"
proof -
  let ?E = "\<lambda>s. no_push (snd s) \<or> checked opts (snd s)"
  have before: "validA (\<lambda>s. no_push (snd s)) (bindA m f) R ?E"
    if "keepsA (\<lambda>s. no_push (snd s)) m" "\<And>x. validA (\<lambda>s. no_push (snd s)) (f x) R ?E"
    for m :: "('a \<times> command_log, 'b) action" and f :: "'b \<Rightarrow> ('a \<times> command_log, 'c) action" and R
    by (rule validA_bind [OF validA_keeps [OF that(1)] that(2)]) simp
  have tools: "validA (\<lambda>s. no_push (snd s)) (bindA (run_tools (recorded H) opts full) f) R ?E"
    if "\<And>x. validA (\<lambda>s. checked opts (snd s)) (f x) R ?E" for full and f :: "unit \<Rightarrow> ('a \<times> command_log, 'c) action" and R
    by (rule validA_bind [OF validA_post [OF tools_checked] that]) simp_all
  have after: "validA (\<lambda>s. checked opts (snd s)) m (\<lambda>_ s. checked opts (snd s)) ?E"
    if "keepsA (\<lambda>s. checked opts (snd s)) m" for m :: "('a \<times> command_log, 'b) action"
    by (rule validA_keeps [OF that]) simp
  show ?thesis
    unfolding prepare_def Let_def
    by ((rule before, (intro keeps_intros keepsA_recorded download_keeps; fail))+, rule tools,
        intro after keeps_intros publishing_keeps)
qed

text \<open>C13. Only checked shards are published. Whatever the machine does, every push of a run comes after the
  manifest tool, the shard writer and the validator, run in that order with the arguments of this model,
  have all ended with exit code 0; a run that reports an activation has passed them as well. A failing
  tool stops the run before anything is uploaded.\<close>

theorem publishes_checked_shards:
  assumes "prepare (recorded H) opts (w, []) = (r, (w', tr))"
    and "(\<exists>out. r = Inr out) \<or> (\<exists>(c, status) \<in> set tr. is_push c)"
  shows "\<exists>full pre post. tr = pre @ map (\<lambda>c. (c, Exited 0)) (tool_commands opts full) @ post \<and>
    (\<forall>(c, status) \<in> set (pre @ map (\<lambda>c. (c, Exited 0)) (tool_commands opts full)). \<not> is_push c)"
proof -
  have "case r of Inl _ \<Rightarrow> no_push tr \<or> checked opts tr | Inr _ \<Rightarrow> checked opts tr"
    using prepare_triple [of H opts, unfolded validA_def, rule_format, of "(w, [])"] assms(1) by (cases r) auto
  then have "checked opts tr" using assms(2) by (auto simp: no_push_def split: sum.splits)
  then obtain full pre post where "tr = pre @ map (\<lambda>c. (c, Exited 0)) (tool_commands opts full) @ post" "no_push pre"
    unfolding checked_def by blast
  then show ?thesis using tools_no_push [of _ opts full] by (intro exI [of _ full] exI [of _ pre] exI [of _ post]) (auto simp: no_push_def)
qed

section \<open>A sample\<close>

text \<open>A machine on which every command succeeds and prints 200.\<close>

definition sample_host :: "unit host" where
  "sample_host = \<lparr>ho_env = [''HF_TOKEN'' \<mapsto> ''secret''], ho_setenv = (\<lambda>_ _. retA ()), ho_log = (\<lambda>_ w. w),
     ho_exec = (\<lambda>capture args. retA (Exited 0, if capture then ''200'' else [])), ho_write = (\<lambda>_ _ _. retA ()),
     ho_read = (\<lambda>_ _. []), ho_exists = (\<lambda>_ _. True), ho_create_directories = (\<lambda>_. retA ()),
     ho_regular_files = (\<lambda>_. retA [''partition-1.dli.gguf'']), ho_copy_file = (\<lambda>_ _. retA ()),
     ho_copy_directory = (\<lambda>_ _. retA ()), ho_remove_all = (\<lambda>_. retA ()),
     ho_gguf = (\<lambda>_ _. Some [''general.architecture'' \<mapsto> GString ''llama'', ''llama.block_count'' \<mapsto> GUInt 4])\<rparr>"

definition sample_arguments :: "string list" where
  "sample_arguments = [''prepare'', ''--model-id'', ''tiny'', ''--local-model-path'', ''tiny.gguf'', ''--artifact-repo'', ''me/tiny'']"

definition sample_controller_options :: controller_options where
  "sample_controller_options = default_controller_options\<lparr>co_model_id := ''tiny'', co_model_name := ''tiny'', co_model_slug := ''tiny'',
     co_local_model_path := ''tiny.gguf'', co_artifact_repo := ''me/tiny''\<rparr>"

lemma sample_steps:
  "ho_setenv (recorded sample_host) k v s = (Inr (), s)" "ho_log (recorded sample_host) x s = s"
  "ho_write (recorded sample_host) p c m s = (Inr (), s)" "ho_create_directories (recorded sample_host) p s = (Inr (), s)"
  "ho_regular_files (recorded sample_host) p s = (Inr [''partition-1.dli.gguf''], s)"
  "ho_copy_file (recorded sample_host) a b s = (Inr (), s)" "ho_copy_directory (recorded sample_host) a b s = (Inr (), s)"
  "ho_remove_all (recorded sample_host) p s = (Inr (), s)" "ho_exists (recorded sample_host) p s"
  "ho_gguf (recorded sample_host) p s = Some [''general.architecture'' \<mapsto> GString ''llama'', ''llama.block_count'' \<mapsto> GUInt 4]"
  "first_token (recorded sample_host) ''HF_UPLOAD_TOKEN'' ''HF_TOKEN'' = ''secret''"
  by (cases s; simp add: recorded_def sample_host_def untraced_def first_token_def getenv_string_def)+

lemma sample_controller_run:
  "run_command (recorded sample_host) (a # args) capture allow masked s =
     (Inr (0, if capture then ''200'' else []), (fst s, snd s @ [(a # args, Exited 0)]))"
  by (cases s) (simp add: run_command_def Let_def bindA_apply recorded_def sample_host_def traced_exec_def exit_code_of_def)

lemma sample_facts:
  "trim_space_copy ''200'' = ''200''" "split_repo_id ''me/tiny'' = Inr (''me'', ''tiny'')"
  "inspect_gguf f (Some [''general.architecture'' \<mapsto> GString ''llama'', ''llama.block_count'' \<mapsto> GUInt 4]) =
     Inr \<lparr>gm_architecture = ''llama'', gm_name = [], gm_block_count = 4\<rparr>"
  by (code_simp, code_simp, simp add: inspect_gguf_def block_count_keys_def string_key_or_empty_def)

lemma sample_pushes:
  "\<exists>out tr. prepare (recorded sample_host) sample_controller_options ((), []) = (Inr out, ((), tr)) \<and>
     ([''git'', ''-C'', path_join (co_work_dir sample_controller_options) ''hf-repo'', ''push'', ''origin'', ''HEAD:main''], Exited 0)
       \<in> set tr"
proof -
  obtain yaml where plan: "planned_stage_map sample_controller_options ''tiny.gguf'' 4 = Inr yaml"
    using generated_text [OF split_layers_ranges [of 4 4, simplified]]
    by (force simp: planned_stage_map_def sample_controller_options_def default_controller_options_def)
  have opts: "co_local_model_path sample_controller_options = ''tiny.gguf''" "co_no_upload sample_controller_options = False"
    "co_num_layers sample_controller_options = 0" "co_artifact_repo sample_controller_options = ''me/tiny''"
    "co_artifact_revision sample_controller_options = ''main''"
    by (simp_all add: sample_controller_options_def default_controller_options_def)
  show ?thesis
    by (simp add: prepare_def download_model_def run_tools_def run_plain_def git_def collect_artifacts_def list_shards_def
      upload_artifacts_def create_repo_if_needed_def checkout_revision_def commit_and_push_def Let_def
      bindA_apply sample_steps sample_controller_run sample_facts plan opts)
qed

theorem publishes_checked_shards_witness:
  "\<exists>out tr full pre post. prepare (recorded sample_host) sample_controller_options ((), []) = (Inr out, ((), tr)) \<and>
     tr = pre @ map (\<lambda>c. (c, Exited 0)) (tool_commands sample_controller_options full) @ post \<and>
     (\<exists>(c, status) \<in> set post. is_push c)"
proof -
  obtain out tr c status where run: "prepare (recorded sample_host) sample_controller_options ((), []) = (Inr out, ((), tr))"
      "(c, status) \<in> set tr" "is_push c"
    using sample_pushes by (force simp: is_push_def)
  from publishes_checked_shards [OF run(1)] obtain full pre post where
    s: "tr = (pre @ map (\<lambda>c. (c, Exited 0)) (tool_commands sample_controller_options full)) @ post"
      "\<forall>(c, status) \<in> set (pre @ map (\<lambda>c. (c, Exited 0)) (tool_commands sample_controller_options full)). \<not> is_push c"
    by auto
  then have "(c, status) \<in> set post" using run(2,3) by fastforce
  then show ?thesis using run s(1) by fastforce
qed


end
