(* ===== verification/Proc_Readers.thy ===== *)
theory Proc_Readers
  imports Entry_Points Partial_Runtime
begin

text \<open>
  The counters a stage reports about its process (\<open>llama_partial_runtime.cpp\<close>): the readers of
  \<open>/proc/self/status\<close>, \<open>stat\<close>, \<open>io\<close> and \<open>/proc/stat\<close> over the text of the file (\<open>None\<close> when it
  cannot be opened), and the snapshot taken before and after a request.
\<close>

section \<open>Reading numbers from a stream\<close>

text \<open>\<open>stream >> value\<close> for an unsigned 64-bit value: what is stored, whether the stream is still good, the
  rest of the text.\<close>

definition stream_u64 :: "string \<Rightarrow> nat \<times> bool \<times> string" where
  "stream_u64 s =
     (let r = dropWhile is_space s;
          neg = (r \<noteq> [] \<and> hd r = CHR ''-'');
          r = (if r \<noteq> [] \<and> (hd r = CHR ''-'' \<or> hd r = CHR ''+'') then tl r else r);
          ds = takeWhile is_digit r; rest = dropWhile is_digit r; n = read_nat ds
      in if ds = [] then (0, False, rest)
         else if n \<ge> 2 ^ 64 then (2 ^ 64 - 1, False, rest)
         else (if neg then (2 ^ 64 - n) mod 2 ^ 64 else n, True, rest))"

definition skip_line :: "string \<Rightarrow> string" where
  "skip_line s = tl (dropWhile (\<lambda>c. c \<noteq> CHR 0x0A) s)"

lemma skip_line_length: "length (skip_line s) \<le> length s"
  using length_dropWhile_le [of "\<lambda>c. c \<noteq> CHR 0x0A" s] by (simp add: skip_line_def)

lemma stream_u64_length: "stream_u64 s = (n, ok, r) \<Longrightarrow> length r \<le> length s"
proof -
  assume s: "stream_u64 s = (n, ok, r)"
  have "length (dropWhile is_digit t) \<le> length s" if "t = dropWhile is_space s \<or> t = tl (dropWhile is_space s)" for t
    using that length_dropWhile_le [of is_digit t] length_dropWhile_le [of is_space s] by auto
  then show ?thesis using s by (auto simp: stream_u64_def Let_def split: if_splits)
qed

lemma stream_u64_range: "fst (stream_u64 s) < 2 ^ 64"
  by (simp add: stream_u64_def Let_def)

section \<open>The readers\<close>

text \<open>\<open>VmRSS\<close> in kilobytes, rounded up to megabytes.\<close>

function rss_loop :: "string \<Rightarrow> nat" where
  "rss_loop s =
     (case next_word s of (key, r) \<Rightarrow>
        if key = [] then 0
        else if key = ''VmRSS:'' then (case stream_u64 r of (kb, _, _) \<Rightarrow> (kb + 1023) mod 2 ^ 64 div 1024)
        else rss_loop (skip_line r))"
  by auto
termination
proof (relation "measure length")
  fix s key r assume "(key, r) = next_word s" "key \<noteq> []"
  then have "length r < length s" by (metis next_word_shorter)
  then show "(skip_line r, s) \<in> measure length" using skip_line_length [of r] by simp
qed simp

declare rss_loop.simps [simp del]

definition current_rss_mb :: "string option \<Rightarrow> nat" where
  "current_rss_mb status = (case status of None \<Rightarrow> 0 | Some content \<Rightarrow> rss_loop content)"

text \<open>What follows the last closing parenthesis, if there is one.\<close>

definition after_last_paren :: "string \<Rightarrow> string option" where
  "after_last_paren s =
     (if CHR '')'' \<in> set s then Some (rev (takeWhile (\<lambda>c. c \<noteq> CHR '')'') (rev s))) else None)"

text \<open>The n-th word as a number, zero when there is none or it is no number.\<close>

definition word_number :: "string list \<Rightarrow> nat \<Rightarrow> nat" where
  "word_number ws n = (if n \<le> length ws then or_default 0 (std_stoull (ws ! (n - 1))) else 0)"

definition read_self_cpu_jiffies :: "string option \<Rightarrow> nat" where
  "read_self_cpu_jiffies stat =
     (case stat of
        None \<Rightarrow> 0
      | Some content \<Rightarrow>
          (case after_last_paren content of
             None \<Rightarrow> 0
           | Some rest \<Rightarrow> (let ws = stream_words rest in (word_number ws 12 + word_number ws 13) mod 2 ^ 64)))"

text \<open>Up to so many numbers.\<close>

fun read_fields :: "nat \<Rightarrow> string \<Rightarrow> nat list" where
  "read_fields 0 s = []"
| "read_fields (Suc n) s =
     (case stream_u64 s of (v, ok, r) \<Rightarrow> if ok then v # read_fields n r else [])"

definition read_proc_stat_totals :: "string option \<Rightarrow> nat \<times> nat" where
  "read_proc_stat_totals stat =
     (case stat of
        None \<Rightarrow> (0, 0)
      | Some content \<Rightarrow>
          (case next_word content of (label, r) \<Rightarrow>
             if label \<noteq> ''cpu'' then (0, 0)
             else let vs = read_fields 10 r
                  in (sum_list vs mod 2 ^ 64,
                      if length vs \<ge> 4 then (vs ! 3 + (if length vs \<ge> 5 then vs ! 4 else 0)) mod 2 ^ 64 else 0)))"

record status_counters =
  st_threads :: nat
  st_voluntary :: nat
  st_involuntary :: nat

definition status_line :: "string \<Rightarrow> status_counters \<Rightarrow> status_counters" where
  "status_line line st =
     (if starts_with line ''Threads:'' then st\<lparr>st_threads := or_default (st_threads st) (std_stoull (drop 8 line))\<rparr>
      else if starts_with line ''voluntary_ctxt_switches:''
      then st\<lparr>st_voluntary := or_default (st_voluntary st) (std_stoull (drop 24 line))\<rparr>
      else if starts_with line ''nonvoluntary_ctxt_switches:''
      then st\<lparr>st_involuntary := or_default (st_involuntary st) (std_stoull (drop 27 line))\<rparr>
      else st)"

definition read_self_status_counters :: "string option \<Rightarrow> status_counters" where
  "read_self_status_counters status =
     (let none = \<lparr>st_threads = 0, st_voluntary = 0, st_involuntary = 0\<rparr>
      in case status of None \<Rightarrow> none | Some content \<Rightarrow> fold status_line (getlines content) none)"

record io_counters =
  io_read_bytes :: nat
  io_write_bytes :: nat
  io_read_count :: nat
  io_write_count :: nat

definition io_field :: "string \<Rightarrow> nat \<Rightarrow> io_counters \<Rightarrow> io_counters" where
  "io_field key v io =
     (if key = ''read_bytes:'' then io\<lparr>io_read_bytes := v\<rparr>
      else if key = ''write_bytes:'' then io\<lparr>io_write_bytes := v\<rparr>
      else if key = ''syscr:'' then io\<lparr>io_read_count := v\<rparr>
      else if key = ''syscw:'' then io\<lparr>io_write_count := v\<rparr>
      else io)"

function io_loop :: "string \<Rightarrow> io_counters \<Rightarrow> io_counters" where
  "io_loop s io =
     (case next_word s of (key, r) \<Rightarrow>
        if key = [] then io
        else (case stream_u64 r of (v, ok, r') \<Rightarrow> if ok then io_loop r' (io_field key v io) else io))"
  by auto
termination
proof (relation "measure (\<lambda>(s, io). length s)")
  fix s key r v ok_r ok r' and io :: io_counters
  assume "(key, r) = next_word s" "key \<noteq> []" "(v, ok_r) = stream_u64 r" "(ok, r') = ok_r"
  then have "length r < length s" "length r' \<le> length r"
    by (metis next_word_shorter) (metis \<open>(v, ok_r) = stream_u64 r\<close> \<open>(ok, r') = ok_r\<close> stream_u64_length)
  then show "((r', io_field key v io), (s, io)) \<in> measure (\<lambda>(s, io). length s)" by simp
qed simp

declare io_loop.simps [simp del]

definition read_self_io_counters :: "string option \<Rightarrow> io_counters" where
  "read_self_io_counters io_file =
     (let none = \<lparr>io_read_bytes = 0, io_write_bytes = 0, io_read_count = 0, io_write_count = 0\<rparr>
      in case io_file of None \<Rightarrow> none | Some content \<Rightarrow> io_loop content none)"

definition clock_ticks_per_second :: "int \<Rightarrow> nat" where
  "clock_ticks_per_second ticks = (if ticks > 0 then nat ticks else 100)"

section \<open>The snapshot\<close>

record proc_files =
  pf_self_stat :: "string option"
  pf_system_stat :: "string option"
  pf_self_status :: "string option"
  pf_self_io :: "string option"

definition capture_resource_snapshot :: "proc_files \<Rightarrow> resource_snapshot" where
  "capture_resource_snapshot files =
     (let totals = read_proc_stat_totals (pf_system_stat files);
          st = read_self_status_counters (pf_self_status files);
          io = read_self_io_counters (pf_self_io files)
      in \<lparr>rsn_valid = True, rsn_proc_cpu_jiffies = read_self_cpu_jiffies (pf_self_stat files),
          rsn_sys_cpu_total_jiffies = fst totals, rsn_sys_cpu_idle_jiffies = snd totals,
          rsn_ctx_voluntary = st_voluntary st, rsn_ctx_involuntary = st_involuntary st,
          rsn_io_read_bytes = io_read_bytes io, rsn_io_write_bytes = io_write_bytes io,
          rsn_io_read_count = io_read_count io, rsn_io_write_count = io_write_count io\<rparr>)"

section \<open>Machine range\<close>

definition u64_range :: "nat \<Rightarrow> bool" where
  "u64_range n \<longleftrightarrow> n < 2 ^ 64"

lemma stoull_range: "std_stoull s = Some n \<Longrightarrow> u64_range n"
  by (auto simp: std_stoull_def u64_range_def Let_def split: if_splits)

lemma status_range:
  assumes "u64_range (st_threads st)" "u64_range (st_voluntary st)" "u64_range (st_involuntary st)"
  shows "u64_range (st_threads (fold status_line ls st)) \<and> u64_range (st_voluntary (fold status_line ls st)) \<and>
    u64_range (st_involuntary (fold status_line ls st))"
  using assms
proof (induction ls arbitrary: st)
  case (Cons l ls)
  have "u64_range (or_default d (std_stoull x))" if "u64_range d" for d x
    using that by (cases "std_stoull x") (auto dest: stoull_range simp: or_default_def)
  then show ?case using Cons by (simp add: status_line_def)
qed simp

lemma io_range:
  "\<lbrakk>u64_range (io_read_bytes io); u64_range (io_write_bytes io); u64_range (io_read_count io); u64_range (io_write_count io)\<rbrakk> \<Longrightarrow>
   u64_range (io_read_bytes (io_loop s io)) \<and> u64_range (io_write_bytes (io_loop s io)) \<and>
   u64_range (io_read_count (io_loop s io)) \<and> u64_range (io_write_count (io_loop s io))"
proof (induction s io rule: io_loop.induct)
  case (1 s io)
  obtain key r v ok r' where w: "next_word s = (key, r)" "stream_u64 r = (v, ok, r')" by (metis surj_pair)
  have "u64_range v" using stream_u64_range [of r] by (simp add: w(2) u64_range_def)
  then show ?case
    using 1 w by (subst (1 2 3 4) io_loop.simps) (simp add: io_field_def)
qed


section \<open>The process name is no obstacle\<close>

lemma last_paren: "CHR '')'' \<notin> set rest \<Longrightarrow> after_last_paren (pre @ CHR '')'' # rest) = Some rest"
proof -
  assume "CHR '')'' \<notin> set rest"
  then have "takeWhile (\<lambda>c. c \<noteq> CHR '')'') (rev rest @ CHR '')'' # rev pre) = rev rest"
    by (subst takeWhile_append2) auto
  then show ?thesis by (simp add: after_last_paren_def)
qed

text \<open>The processor time of a stage is read correctly whatever its command name is, spaces and parentheses
  included.\<close>

lemma cpu_time_read:
  assumes "CHR '')'' \<notin> set rest" "stream_words rest = ws" "13 \<le> length ws"
    and "std_stoull (ws ! 11) = Some u" "std_stoull (ws ! 12) = Some v"
  shows "read_self_cpu_jiffies (Some (pid @ '' ('' @ comm @ '')'' @ rest)) = (u + v) mod 2 ^ 64"
  using last_paren [OF assms(1), of "pid @ '' ('' @ comm"] assms(2-5)
  by (simp add: read_self_cpu_jiffies_def word_number_def or_default_def)

end
