(* ===== verification/Report_Tools.thy ===== *)
theory Report_Tools
  imports Model_Controller
begin

text \<open>
  The two tools that only report: \<open>dli-partition-plan\<close> shows what a model would give each partition
  (\<open>partition_plan_tool.cpp\<close>), \<open>dli-gguf-info\<close> the size parameters of a model (\<open>gguf_info_tool.cpp\<close>). The
  exit code comes with what is printed on the standard output.
\<close>

section \<open>The plan\<close>

record plan_options =
  po_config_path :: string
  po_model_path :: string

fun plan_args_loop :: "plan_options \<Rightarrow> string list \<Rightarrow> plan_options cli" where
  "plan_args_loop opts [] = CliOptions opts"
| "plan_args_loop opts (arg # rest) =
     (if arg = ''--help'' \<or> arg = ''-h'' then CliHelp
      else if arg = ''--config''
      then (case rest of [] \<Rightarrow> CliError ''--config requires a value'' | v # r \<Rightarrow> plan_args_loop (opts\<lparr>po_config_path := v\<rparr>) r)
      else if arg = ''--model''
      then (case rest of [] \<Rightarrow> CliError ''--model requires a value'' | v # r \<Rightarrow> plan_args_loop (opts\<lparr>po_model_path := v\<rparr>) r)
      else CliError (''unknown argument: '' @ arg))"

definition parse_plan_args :: "string option \<Rightarrow> string option \<Rightarrow> string list \<Rightarrow> plan_options cli" where
  "parse_plan_args env_config env_model args =
     (case plan_args_loop \<lparr>po_config_path = env_or env_config ''configs/stage_map.yaml'', po_model_path = env_or env_model []\<rparr> args of
        CliOptions opts \<Rightarrow>
          if po_model_path opts = [] then CliError ''--model is required or set DLI_TEST_GGUF_MODEL_PATH''
          else CliOptions opts
      | other \<Rightarrow> other)"

definition plan_entry_json :: "partition_tensor_assignment \<Rightarrow> string" where
  "plan_entry_json a =
     ''{'' @ json_key ''partition_id'' @ json_str (assigned_partition_id a) @ '',''
     @ json_key ''tensor_count'' @ show_int (int (length (tensor_names a))) @ '',''
     @ json_key ''missing_required_names'' @ string_vector_json (missing_required_names a) @ '',''
     @ json_key ''missing_required_prefixes'' @ string_vector_json (missing_required_prefixes a) @ ''}''"

definition plan_report_json :: "plan_options \<Rightarrow> gateway_config \<Rightarrow> gguf_inspection \<Rightarrow> string" where
  "plan_report_json opts cfg inspection =
     ''{'' @ json_key ''ok'' @ ''true,''
     @ json_key ''config_path'' @ json_str (po_config_path opts) @ '',''
     @ json_key ''model_path'' @ json_str (po_model_path opts) @ '',''
     @ json_key ''model_name'' @ json_str (gc_model_name cfg) @ '',''
     @ json_key ''num_layers'' @ show_int (gc_num_layers cfg) @ '',''
     @ json_key ''gguf_tensor_count'' @ show_int (int (length (inspected_tensors inspection))) @ '',''
     @ json_key ''partition_count'' @ show_int (int (length (gc_partitions cfg))) @ '',''
     @ json_key ''partitions'' @ ''['' @
       comma_texts (map (\<lambda>p. plan_entry_json (assign_tensors_to_partition inspection (node_plan p))) (gc_partitions cfg)) @ '']}''"

definition run_plan_tool ::
    "('c, 't) gguf_lib \<Rightarrow> (string \<Rightarrow> string option) \<Rightarrow> (string \<Rightarrow> 'c option) \<Rightarrow> plan_options cli \<Rightarrow> nat \<times> string" where
  "run_plan_tool L files models cli =
     (case cli of
        CliHelp \<Rightarrow> (0, [])
      | CliError e \<Rightarrow> (1, [])
      | CliOptions opts \<Rightarrow>
          (case bindR (load_gateway_config_from_file (files (po_config_path opts)) (po_config_path opts)) (\<lambda>cfg.
             bindR (inspect_gguf_tensors L (po_model_path opts) (models (po_model_path opts))) (\<lambda>inspection.
             Inr (plan_report_json opts cfg inspection @ newline))) of
             Inl e \<Rightarrow> (1, []) | Inr out \<Rightarrow> (0, out)))"

section \<open>The parameters\<close>

fun info_args_loop :: "string \<Rightarrow> string list \<Rightarrow> string cli" where
  "info_args_loop model [] = CliOptions model"
| "info_args_loop model (arg # rest) =
     (if arg = ''--help'' \<or> arg = ''-h'' then CliHelp
      else if arg = ''--model''
      then (case rest of [] \<Rightarrow> CliError ''--model requires a value'' | v # r \<Rightarrow> info_args_loop v r)
      else CliError (''unknown argument: '' @ arg))"

definition parse_info_args :: "string list \<Rightarrow> string cli" where
  "parse_info_args args =
     (case info_args_loop [] args of
        CliOptions model \<Rightarrow> if model = [] then CliError ''--model is required'' else CliOptions model
      | other \<Rightarrow> other)"

text \<open>A parameter under the four architecture prefixes, in the order of the code.\<close>

definition architecture_keys :: "string \<Rightarrow> string list" where
  "architecture_keys name = map (\<lambda>prefix. prefix @ name) [''llama.'', ''mistral.'', ''qwen2.'', ''gptneox.'']"

definition info_json :: "string \<Rightarrow> gguf_context \<Rightarrow> string result" where
  "info_json model ctx =
     bindR (int_key_or_default ctx (architecture_keys ''block_count'') (- 1)) (\<lambda>blocks.
     bindR (int_key_or_default ctx (architecture_keys ''context_length'') (- 1)) (\<lambda>context_length.
     bindR (int_key_or_default ctx (architecture_keys ''embedding_length'') (- 1)) (\<lambda>embedding_length.
     bindR (int_key_or_default ctx (architecture_keys ''attention.head_count'') (- 1)) (\<lambda>heads.
     bindR (int_key_or_default ctx (architecture_keys ''attention.head_count_kv'') (- 1)) (\<lambda>kv_heads.
     Inr (''{'' @ json_key ''ok'' @ ''true,''
       @ json_key ''model_path'' @ json_str model @ '',''
       @ json_key ''architecture'' @ json_str (string_key_or_empty ctx ''general.architecture'') @ '',''
       @ json_key ''name'' @ json_str (string_key_or_empty ctx ''general.name'') @ '',''
       @ json_key ''block_count'' @ show_int blocks @ '',''
       @ json_key ''context_length'' @ show_int context_length @ '',''
       @ json_key ''embedding_length'' @ show_int embedding_length @ '',''
       @ json_key ''head_count'' @ show_int heads @ '',''
       @ json_key ''head_count_kv'' @ show_int kv_heads @ ''}'' @ newline))))))"

definition run_info_tool :: "(string \<Rightarrow> gguf_context option) \<Rightarrow> string cli \<Rightarrow> nat \<times> string" where
  "run_info_tool models cli =
     (case cli of
        CliHelp \<Rightarrow> (0, [])
      | CliError e \<Rightarrow> (1, [])
      | CliOptions model \<Rightarrow>
          (case (case models model of
                   None \<Rightarrow> Inl (''failed to open GGUF file: '' @ model)
                 | Some ctx \<Rightarrow> info_json model ctx) of
             Inl e \<Rightarrow> (1, []) | Inr out \<Rightarrow> (0, out)))"

text \<open>The controller reads the layer count the info tool reports.\<close>

lemma block_count_reported:
  "inspect_gguf path (Some ctx) = Inr info \<longleftrightarrow>
     int_key_or_default ctx (architecture_keys ''block_count'') (- 1) = Inr (gm_block_count info) \<and>
     gm_architecture info = string_key_or_empty ctx ''general.architecture'' \<and> gm_name info = string_key_or_empty ctx ''general.name''"
  by (cases info) (auto simp: inspect_gguf_def block_count_keys_def architecture_keys_def result_simps)

end
