(* ===== verification/Controller_Pipeline.thy ===== *)
theory Controller_Pipeline
  imports Model_Controller
begin

text \<open>
  The three tools one after the other, as the controller runs them: each takes its arguments from the
  controller and its files from the tool before it. The files of a directory are the list of what was
  written there.
\<close>

section \<open>Files of a directory\<close>

definition directory_files :: "string \<Rightarrow> (string \<times> string) list \<Rightarrow> string \<Rightarrow> string option" where
  "directory_files dir written path = map_of (map (\<lambda>(n, content). (path_join dir n, content)) written) path"

definition directory_listing :: "string \<Rightarrow> (string \<times> string) list \<Rightarrow> string \<Rightarrow> string list option" where
  "directory_listing dir written d = (if d = dir then Some (map fst written) else None)"

definition reopened_shards :: "('c, 't) gguf_lib \<Rightarrow> (string \<times> 'c) list \<Rightarrow> string \<Rightarrow> 'c option" where
  "reopened_shards L written path = Option.bind (map_of written path) (gf_reopened L)"

lemma map_of_unique: "\<lbrakk>(k, v) \<in> set xs; \<And>v'. (k, v') \<in> set xs \<Longrightarrow> v' = v\<rbrakk> \<Longrightarrow> map_of xs k = Some v"
  by (metis map_of_SomeD weak_map_of_SomeI)

lemma path_join_inj: "\<lbrakk>\<not> is_prefix ''/'' a; \<not> is_prefix ''/'' b\<rbrakk> \<Longrightarrow> path_join d a = path_join d b \<longleftrightarrow> a = b"
  by (simp add: path_join_def)

lemma path_join_nonempty: "name \<noteq> [] \<Longrightarrow> path_join d name \<noteq> []"
  by (simp add: path_join_def)

lemma path_join_last: "name \<noteq> [] \<Longrightarrow> last (path_join d name) = last name"
  by (simp add: path_join_def)

section \<open>The manifests\<close>

text \<open>Directory mode takes the files named \<open>partition-*.manifest.json\<close>.\<close>

definition numbered :: "partition_node \<Rightarrow> bool" where
  "numbered p \<longleftrightarrow> is_prefix ''partition-'' (partition_id p)"

lemma numbered_relative: "numbered p \<Longrightarrow> \<not> is_prefix ''/'' (partition_id p @ s)"
  by (cases "partition_id p") (auto simp: numbered_def)

lemma drop_suffix: "drop (length (a @ b) - length b) (a @ b) = b"
  by simp

lemma manifest_file_last: "is_manifest_file x \<Longrightarrow> last x = CHR ''n''"
proof -
  assume x: "is_manifest_file x"
  define k where "k = length x - length ''.manifest.json''"
  have d: "drop k x = ''.manifest.json''" using x by (simp add: is_manifest_file_def k_def)
  have "last (take k x @ drop k x) = CHR ''n''" unfolding d by simp
  then show "last x = CHR ''n''" by (simp only: append_take_drop_id)
qed

lemma manifest_file_kinds:
  assumes "numbered p"
  shows "is_manifest_file (manifest_file_name p)" "\<not> is_manifest_file (tensor_list_file_name p)"
    "\<not> is_manifest_file ''manifest.json''"
proof -
  have s: "starts_with (partition_id p @ s) ''partition-''" for s
    using assms by (auto simp: numbered_def starts_with_def is_prefix_iff)
  show "is_manifest_file (manifest_file_name p)"
    using s by (simp add: is_manifest_file_def manifest_file_name_def)
  have "last (tensor_list_file_name p) = CHR ''t''" by (simp add: tensor_list_file_name_def)
  then show "\<not> is_manifest_file (tensor_list_file_name p)" using manifest_file_last by fastforce
  show "\<not> is_manifest_file ''manifest.json''" by code_simp
qed

lemma manifests_of_directory:
  assumes "run_manifest_tool mopts (Inr gc) (Inr insp) = (0, written)" "\<forall>p \<in> set (gc_partitions gc). numbered p"
  shows "filter is_manifest_file (map fst written) = map manifest_file_name (gc_partitions gc)"
proof -
  have w: "map fst written = concat (map (\<lambda>p. [manifest_file_name p, tensor_list_file_name p]) (gc_partitions gc)) @ [''manifest.json'']"
    using assms(1) by (auto simp: run_manifest_tool_def assign_tensors_to_partitions_def Let_def zip_map2 zip_same_conv_map map_concat comp_def
      split: if_splits)
  have "filter is_manifest_file (concat (map (\<lambda>p. [manifest_file_name p, tensor_list_file_name p]) ps)) = map manifest_file_name ps"
    if "\<forall>p \<in> set ps. numbered p" for ps
    using that by (induction ps) (simp_all add: manifest_file_kinds)
  moreover have "\<not> is_manifest_file ''manifest.json''" by code_simp
  ultimately show ?thesis using assms(2) by (simp add: w)
qed

lemma manifest_found:
  assumes tool: "run_manifest_tool mopts (Inr gc) (Inr insp) = (0, written)" "\<not> mo_allow_missing mopts"
    and ids: "\<forall>p \<in> set (gc_partitions gc). numbered p" "distinct (map partition_id (gc_partitions gc))" "p \<in> set (gc_partitions gc)"
  shows "directory_files dir written (path_join dir (manifest_file_name p)) =
    Some (partition_manifest_json p (partition_assignment insp p) @ newline)"
  unfolding directory_files_def
proof (rule map_of_unique)
  let ?content = "\<lambda>p. partition_manifest_json p (partition_assignment insp p) @ newline"
  show "(path_join dir (manifest_file_name p), ?content p) \<in> set (map (\<lambda>(n, c). (path_join dir n, c)) written)"
    using manifest_file_content [OF tool ids(3)] by force
  fix c assume "(path_join dir (manifest_file_name p), c) \<in> set (map (\<lambda>(n, c). (path_join dir n, c)) written)"
  then obtain n where n: "(n, c) \<in> set written" "path_join dir n = path_join dir (manifest_file_name p)" by auto
  have cases: "(\<exists>q \<in> set (gc_partitions gc). n = manifest_file_name q \<and> c = ?content q) \<or>
      (\<exists>q \<in> set (gc_partitions gc). n = tensor_list_file_name q) \<or> n = ''manifest.json''"
    using tool(1) n(1) by (auto simp: run_manifest_tool_def assign_tensors_to_partitions_def partition_assignment_def Let_def zip_map2
      zip_same_conv_map split: if_splits)
  then have "\<not> is_prefix ''/'' n"
    using ids(1) by (auto simp: manifest_file_name_def tensor_list_file_name_def numbered_relative)
  then have "n = manifest_file_name p"
    using n(2) ids(1,3) by (simp add: path_join_inj manifest_file_name_def numbered_relative)
  then have "is_manifest_file n" using ids(1,3) by (simp add: manifest_file_kinds)
  moreover have "\<not> is_manifest_file ''manifest.json''" by code_simp
  ultimately obtain q where q: "q \<in> set (gc_partitions gc)" "n = manifest_file_name q" "c = ?content q"
    using cases ids(1) manifest_file_kinds by auto
  have "partition_id q = partition_id p" using q(2) \<open>n = manifest_file_name p\<close> by (simp add: manifest_file_name_def)
  then have "q = p" using ids(2,3) q(1) by (metis distinct_map inj_onD)
  then show "c = ?content p" using q(3) by simp
qed

lemma sort_by_name: "sort (map f xs) = map f (sort_key f xs)" for f :: "'a \<Rightarrow> string"
  by (rule properties_for_sort) simp_all

lemma manifests_listed:
  assumes "run_manifest_tool mopts (Inr gc) (Inr insp) = (0, written)" "\<forall>p \<in> set (gc_partitions gc). numbered p"
    and "gc_partitions gc \<noteq> []"
  shows "list_partition_manifest_files (directory_listing dir written) dir =
    Inr (map (\<lambda>p. path_join dir (manifest_file_name p)) (sort_key manifest_file_name (gc_partitions gc)))"
proof -
  have "sort_key manifest_file_name (gc_partitions gc) \<noteq> []" using assms(3) by (metis length_0_conv length_sort)
  then show ?thesis
    by (simp add: list_partition_manifest_files_def directory_listing_def manifests_of_directory [OF assms(1,2)] sort_by_name Let_def
      comp_def)
qed

section \<open>Arguments\<close>

lemma dirs_nonempty: "manifest_dir opts \<noteq> []" "shard_dir opts \<noteq> []"
proof -
  show "manifest_dir opts \<noteq> []" by (simp add: manifest_dir_def path_join_nonempty)
  show "shard_dir opts \<noteq> []" by (auto simp: shard_dir_def path_join_def)
qed

lemma manifest_arguments_parsed:
  "full \<noteq> [] \<Longrightarrow> parse_manifest_args e1 e2 e3 (manifest_arguments opts full) =
     CliOptions \<lparr>mo_config_path = stage_map_path opts, mo_model_path = full, mo_output_dir = manifest_dir opts, mo_allow_missing = False\<rparr>"
  using dirs_nonempty by (simp add: parse_manifest_args_def manifest_arguments_def)

lemma writer_arguments_parsed:
  "\<lbrakk>full \<noteq> []; co_model_name opts \<noteq> []\<rbrakk> \<Longrightarrow> parse_writer_args e (writer_arguments opts full) =
     CliOptions \<lparr>wo_model_path = full, wo_manifest_path = [], wo_manifest_dir = manifest_dir opts, wo_output_path = [],
       wo_output_dir = shard_dir opts, wo_source_model = co_model_name opts\<rparr>"
  using dirs_nonempty by (simp add: parse_writer_args_def writer_arguments_def)

lemma validator_arguments_parsed:
  "parse_validator_args e (validator_arguments opts) =
     CliOptions \<lparr>vo_config_path = stage_map_path opts, vo_manifest_path = [], vo_manifest_dir = manifest_dir opts,
       vo_shard_path = [], vo_shard_dir = shard_dir opts\<rparr>"
  using dirs_nonempty by (simp add: parse_validator_args_def validator_arguments_def Let_def)

section \<open>The loops\<close>

lemma shards_written:
  assumes "\<forall>p \<in> set ps. load_partition_manifest (file p) (files (file p)) = Inr (m p) \<and>
    write_one_shard L (wo_model_path opts) model (Inr (m p)) (wo_source_model opts) = Inr (shard_of p)"
  shows "write_shards L opts model files (map file ps) =
    (map (\<lambda>p. (path_join (wo_output_dir opts) (mn_partition_id (m p) @ ''.dli.gguf''), shard_of p)) ps, Inr ())"
  using assms by (induction ps) simp_all

text \<open>A loop of the writer that comes to its end has written a shard for every manifest, in their order.\<close>

fun_cases write_shards_Nil: "write_shards L opts model files [] = (written, r)"
fun_cases write_shards_Cons: "write_shards L opts model files (f # rest) = (written, r)"

lemma writer_covers:
  "write_shards L opts model files ms = (written, Inr ()) \<Longrightarrow>
   list_all2 (\<lambda>file (path, d). \<exists>m. load_partition_manifest file (files file) = Inr m \<and>
     write_one_shard L (wo_model_path opts) model (Inr m) (wo_source_model opts) = Inr d \<and>
     path = path_join (wo_output_dir opts) (mn_partition_id m @ ''.dli.gguf'')) ms written"
proof (induction ms arbitrary: written)
  case (Cons f ms)
  from Cons.prems show ?case
    by (elim write_shards_Cons) (auto simp: Let_def bindR_Inr split: sum.split_asm prod.split_asm dest: Cons.IH)
qed (auto elim: write_shards_Nil)

lemma foldR_checks: "\<forall>x \<in> set xs. f x () = Inr () \<Longrightarrow> foldR f xs () = Inr ()"
  by (induction xs) simp_all

section \<open>Each partition\<close>

text \<open>The file system after the manifest tool has run in the controller's directories.\<close>

definition controller_files :: "controller_options \<Rightarrow> string \<Rightarrow> (string \<times> string) list \<Rightarrow> string \<Rightarrow> string option" where
  "controller_files opts yaml manifests path =
     (if path = stage_map_path opts then Some yaml else directory_files (manifest_dir opts) manifests path)"

lemma manifest_path_other: "path_join dir (manifest_file_name p) \<noteq> stage_map_path opts"
proof -
  have "last (path_join dir (manifest_file_name p)) = CHR ''n''" "last (stage_map_path opts) = CHR ''l''"
    by (simp_all add: path_join_last manifest_file_name_def stage_map_path_def)
  then show ?thesis by auto
qed

lemma partition_manifest_loaded:
  assumes tool: "run_manifest_tool mopts (Inr gc) (Inr insp) = (0, written)" "\<not> mo_allow_missing mopts"
    and ids: "\<forall>p \<in> set (gc_partitions gc). numbered p" "distinct (map partition_id (gc_partitions gc))" "p \<in> set (gc_partitions gc)"
    and ok: "manifest_ok p (partition_assignment insp p)"
  shows "load_partition_manifest (path_join (manifest_dir opts) (manifest_file_name p))
      (controller_files opts yaml written (path_join (manifest_dir opts) (manifest_file_name p))) =
    Inr (manifest_of p (partition_assignment insp p))"
  using manifest_read [OF ok]
  by (simp add: controller_files_def manifest_path_other manifest_found [OF tool ids] load_partition_manifest_def)

definition partition_shard :: "('c, 't) gguf_lib \<Rightarrow> string \<Rightarrow> 'c \<Rightarrow> gguf_inspection \<Rightarrow> string \<Rightarrow> partition_node \<Rightarrow> 'c" where
  "partition_shard L source_path src insp sm p =
     projr (write_one_shard L source_path (Some src) (Inr (manifest_of p (partition_assignment insp p))) sm)"

lemma partition_shard_written:
  assumes model: "gguf_laws L" "distinct (context_names L src)" "inspect_gguf_tensors L source_path (Some src) = Inr insp"
      "read_i32_metadata_or_default (gf_values L src) hidden_size_keys (- 1) = Inr h"
  shows "write_one_shard L source_path (Some src) (Inr (manifest_of p (partition_assignment insp p))) sm =
      Inr (partition_shard L source_path src insp sm p) \<and>
    (\<exists>r. gf_reopened L (partition_shard L source_path src insp sm p) = Some r \<and>
      gf_values L r = stamped (manifest_of p (partition_assignment insp p)) h sm (gf_values L src) \<and>
      context_names L r = tensor_names (partition_assignment insp p))"
proof -
  have insp: "map tensor_name (inspected_tensors insp) = context_names L src"
    using model(3) by (auto simp: inspect_gguf_tensors_def context_names_def)
  have "distinct (mn_tensor_names (manifest_of p (partition_assignment insp p)))"
    "set (mn_tensor_names (manifest_of p (partition_assignment insp p))) \<subseteq> set (context_names L src)"
    using model(2) by (auto simp: manifest_of_def partition_assignment_def assign_tensors_to_partition_def insp)
  from shard_written [OF model(1) refl model(4) this, of source_path sm] show ?thesis
    by (auto simp: partition_shard_def manifest_of_names)
qed

text \<open>Reopened under its path, the shard of a partition passes the validator.\<close>

lemma partition_shard_valid:
  assumes ids: "\<forall>p \<in> set ps. numbered p" "distinct (map partition_id (gc_partitions gc))" "set ps = set (gc_partitions gc)" "p \<in> set ps"
    and complete: "\<not> has_missing_tensors (partition_assignment insp p)"
    and model: "gguf_laws L" "distinct (context_names L src)" "inspect_gguf_tensors L full (Some src) = Inr insp"
      "read_i32_metadata_or_default (gf_values L src) hidden_size_keys (- 1) = Inr h"
      "gf_values L src ''general.architecture'' \<noteq> None" "gf_values L src k \<noteq> None" "is_prefix ''tokenizer.ggml.'' k"
    and shard: "\<And>p. shard p = path_join dir (partition_id p @ ''.dli.gguf'')"
  shows "validate_one_shard L gc (Inr (manifest_of p (partition_assignment insp p))) (shard p)
    (reopened_shards L (map (\<lambda>p. (shard p, partition_shard L full src insp sm p)) ps) (shard p)) = Inr ()"
proof -
  let ?cut = "partition_shard L full src insp sm"
  let ?shards = "map (\<lambda>p. (shard p, ?cut p)) ps"
  have "map_of ?shards (shard p) = Some (?cut p)"
  proof (rule map_of_unique)
    show "(shard p, ?cut p) \<in> set ?shards" using ids(4) by auto
    fix c assume "(shard p, c) \<in> set ?shards"
    then obtain q where q: "q \<in> set ps" "shard p = shard q" "c = ?cut q" by auto
    then have "partition_id p = partition_id q" using ids(1,4) by (simp add: shard path_join_inj numbered_relative)
    then have "p = q" using ids(2-4) q(1) by (auto simp: distinct_map dest: inj_onD)
    then show "c = ?cut p" using q(3) by simp
  qed
  moreover obtain r where r: "gf_reopened L (?cut p) = Some r"
      "gf_values L r = stamped (manifest_of p (partition_assignment insp p)) h sm (gf_values L src)"
      "context_names L r = tensor_names (partition_assignment insp p)"
    using partition_shard_written [OF model(1-4)] by blast
  moreover have "validate_one_shard L gc (Inr (manifest_of p (partition_assignment insp p))) (shard p) (Some r) = Inr ()"
    using ids(3,4) complete
    by (intro written_shard_valid [OF model(1) ids(2) _ partition_assignment_def [unfolded node_plan_def] _ refl r(2,3) model(5-7)])
      simp_all
  ultimately show ?thesis by (simp add: reopened_shards_def)
qed

section \<open>The three tools\<close>

lemma tools_on_map:
  assumes tool: "run_manifest_tool mopts (Inr gc) (Inr insp) = (0, manifests)" "\<not> mo_allow_missing mopts"
    and map: "load_gateway_config_from_file (Some yaml) (stage_map_path opts) = Inr gc" "gc_partitions gc \<noteq> []"
    and ids: "\<forall>p \<in> set (gc_partitions gc). numbered p" "distinct (map partition_id (gc_partitions gc))"
    and ok: "\<forall>p \<in> set (gc_partitions gc). manifest_ok p (partition_assignment insp p)"
    and model: "gguf_laws L" "distinct (context_names L src)" "inspect_gguf_tensors L full (Some src) = Inr insp"
      "read_i32_metadata_or_default (gf_values L src) hidden_size_keys (- 1) = Inr h"
      "gf_values L src ''general.architecture'' \<noteq> None" "gf_values L src k \<noteq> None" "is_prefix ''tokenizer.ggml.'' k"
    and args: "full \<noteq> []" "co_model_name opts \<noteq> []"
  defines "files \<equiv> controller_files opts yaml manifests"
    and "listing \<equiv> directory_listing (manifest_dir opts) manifests"
  shows "\<exists>shards. run_shard_writer L (Some src) files listing (parse_writer_args e (writer_arguments opts full)) = (shards, 0) \<and>
    map fst shards = map (\<lambda>p. path_join (shard_dir opts) (partition_id p @ ''.dli.gguf''))
      (sort_key manifest_file_name (gc_partitions gc)) \<and>
    run_shard_validator L files listing (reopened_shards L shards) (parse_validator_args e' (validator_arguments opts)) = 0"
proof -
  let ?ps = "sort_key manifest_file_name (gc_partitions gc)"
  let ?file = "\<lambda>p. path_join (manifest_dir opts) (manifest_file_name p)"
  let ?m = "\<lambda>p. manifest_of p (partition_assignment insp p)"
  let ?cut = "partition_shard L full src insp (co_model_name opts)"
  let ?shard = "\<lambda>p. path_join (shard_dir opts) (partition_id p @ ''.dli.gguf'')"
  let ?shards = "map (\<lambda>p. (?shard p, ?cut p)) ?ps"
  have listed: "list_partition_manifest_files listing (manifest_dir opts) = Inr (map ?file ?ps)"
    unfolding listing_def by (rule manifests_listed [OF tool(1) ids(1) map(2)])
  have loaded: "load_partition_manifest (?file p) (files (?file p)) = Inr (?m p)" if "p \<in> set ?ps" for p
    unfolding files_def using that ok by (intro partition_manifest_loaded [OF tool ids]) simp_all
  note cut = partition_shard_written [OF model(1-4)]
  have "write_shards L \<lparr>wo_model_path = full, wo_manifest_path = [], wo_manifest_dir = manifest_dir opts, wo_output_path = [],
      wo_output_dir = shard_dir opts, wo_source_model = co_model_name opts\<rparr> (Some src) files (map ?file ?ps) = (?shards, Inr ())"
    using loaded cut by (subst shards_written [where m = ?m and shard_of = ?cut]) (simp_all add: manifest_of_def)
  then have writer: "run_shard_writer L (Some src) files listing (parse_writer_args e (writer_arguments opts full)) = (?shards, 0)"
    by (simp add: run_shard_writer_def writer_arguments_parsed [OF args] listed)
  have valid: "validate_one_shard L gc (Inr (?m p)) (?shard p) (reopened_shards L ?shards (?shard p)) = Inr ()" if "p \<in> set ?ps" for p
    using partition_shard_valid [of ?ps gc p insp L src full h k ?shard "shard_dir opts" "co_model_name opts"] that ids model
      manifest_file_content [OF tool, of p] by simp
  have yaml: "files (stage_map_path opts) = Some yaml" by (simp add: files_def controller_files_def)
  have each: "\<forall>x \<in> set (map ?file ?ps). (\<lambda>file (_ :: unit). bindR (load_partition_manifest file (files file)) (\<lambda>m.
      validate_one_shard L gc (load_partition_manifest file (files file)) (path_join (shard_dir opts) (mn_partition_id m @ ''.dli.gguf''))
        (reopened_shards L ?shards (path_join (shard_dir opts) (mn_partition_id m @ ''.dli.gguf''))))) x () = Inr ()"
    using loaded valid by (simp add: manifest_of_def)
  have "run_shard_validator L files listing (reopened_shards L ?shards) (parse_validator_args e' (validator_arguments opts)) = 0"
    using map(1) foldR_checks [OF each]
    by (simp add: run_shard_validator_def validator_arguments_parsed yaml listed Let_def)
  then show ?thesis using writer by (intro exI [of _ ?shards]) (simp add: comp_def)
qed

section \<open>From the plan\<close>

definition planned_node :: "controller_options \<Rightarrow> int list list \<Rightarrow> nat \<Rightarrow> partition_node" where
  "planned_node opts ranges =
     entry_node (chosen_slug opts) (co_stage_service_prefix opts) (co_num_stages opts)
       (parse_physical_nodes (co_physical_nodes opts) (co_num_stages opts))
       (strip_trailing_slashes (co_container_model_root opts)) ranges"

definition planned_texts_ok :: "controller_options \<Rightarrow> string \<Rightarrow> bool" where
  "planned_texts_ok opts full \<longleftrightarrow>
     map_texts_ok (co_model_name opts) (chosen_slug opts) (full_file_name opts full) (co_gateway_service_name opts)
       (co_stage_service_prefix opts) (co_container_model_root opts)
       (parse_physical_nodes (co_physical_nodes opts) (co_num_stages opts))"

lemma nodes_counted: "length (parse_physical_nodes raw k) = nat k"
  by (simp add: parse_physical_nodes_def Let_def)

lemma planned_map_loaded:
  assumes "planned_stage_map opts full n = Inr yaml" "n < 2 ^ 31 - 1" "planned_texts_ok opts full"
    and "split_layers n (co_num_stages opts) = Inr ranges"
  shows "\<exists>gc. load_gateway_config_from_file (Some yaml) path = Inr gc \<and>
    gc_partitions gc = map (planned_node opts ranges) [0..<nat (co_num_stages opts)]"
proof -
  note loaded = generated_map_loaded [OF assms(4,2) nodes_counted assms(3) [unfolded planned_texts_ok_def], of path]
  show ?thesis
    using loaded assms(1) unfolding planned_stage_map_def generated_text [OF assms(4)]
    by (auto simp: planned_node_def [abs_def] dest!: arg_cong [where f = gc_partitions])
qed

lemma stage_numbers: "{1..k} = (\<lambda>i. int i + 1) ` {0..<nat k}"
proof (intro set_eqI iffI)
  fix x assume "x \<in> {1..k}"
  then have "x = int (nat (x - 1)) + 1" "nat (x - 1) \<in> {0..<nat k}" by auto
  then show "x \<in> (\<lambda>i. int i + 1) ` {0..<nat k}" by blast
qed auto

lemma planned_ids:
  assumes "k \<le> n" "n < 2 ^ 31 - 1"
  shows "\<forall>p \<in> set (map (planned_node opts ranges) [0..<nat k]). numbered p"
    "distinct (map partition_id (map (planned_node opts ranges) [0..<nat k]))"
proof -
  show "\<forall>p \<in> set (map (planned_node opts ranges) [0..<nat k]). numbered p"
    by (simp add: numbered_def planned_node_def entry_node_def Let_def)
  have "i = j" if "i < nat k" "j < nat k" "show_int (int i + 1) = show_int (int j + 1)" for i j
    using std_stoi_show_int [of "int i + 1"] std_stoi_show_int [of "int j + 1"] that assms by simp
  then show "distinct (map partition_id (map (planned_node opts ranges) [0..<nat k]))"
    by (auto simp: distinct_map inj_on_def planned_node_def entry_node_def Let_def)
qed

text \<open>C11. The tools the controller runs after planning all succeed on a complete model. Whatever the
  number of stages: when the stage map is planned from plain texts and the model has every tensor of
  every partition, the manifest tool, the writer and the validator, each started with the arguments the
  controller gives it and on the files the tool before it wrote, all exit with 0, and the writer leaves
  one shard per partition under its id. What a tool reads is found in the directory as the tool before
  it wrote it, by the names of the files alone.\<close>

theorem controller_tools_succeed:
  assumes plan: "planned_stage_map opts full n = Inr yaml" "n < 2 ^ 31 - 1" "planned_texts_ok opts full" "full \<noteq> []"
    and model: "gguf_laws L" "distinct (context_names L src)" "inspect_gguf_tensors L full (Some src) = Inr insp"
      "read_i32_metadata_or_default (gf_values L src) hidden_size_keys (- 1) = Inr h"
      "gf_values L src ''general.architecture'' \<noteq> None" "gf_values L src k \<noteq> None" "is_prefix ''tokenizer.ggml.'' k"
    and complete: "\<forall>gc p. load_gateway_config_from_file (Some yaml) (stage_map_path opts) = Inr gc \<and> p \<in> set (gc_partitions gc) \<longrightarrow>
      manifest_ok p (partition_assignment insp p) \<and> \<not> has_missing_tensors (partition_assignment insp p)"
  shows "\<exists>mopts manifests shards.
    parse_manifest_args env_config env_model env_output (manifest_arguments opts full) = CliOptions mopts \<and>
    run_manifest_tool mopts (load_gateway_config_from_file (Some yaml) (stage_map_path opts)) (Inr insp) = (0, manifests) \<and>
    run_shard_writer L (Some src) (controller_files opts yaml manifests) (directory_listing (manifest_dir opts) manifests)
      (parse_writer_args env_writer (writer_arguments opts full)) = (shards, 0) \<and>
    set (map fst shards) = (\<lambda>i. path_join (shard_dir opts) (''partition-'' @ show_int i @ ''.dli.gguf'')) ` {1..co_num_stages opts} \<and>
    run_shard_validator L (controller_files opts yaml manifests) (directory_listing (manifest_dir opts) manifests)
      (reopened_shards L shards) (parse_validator_args env_validator (validator_arguments opts)) = 0"
proof -
  obtain ranges where split: "split_layers n (co_num_stages opts) = Inr ranges"
    using plan(1) by (auto simp: planned_stage_map_def generate_stage_map_def result_simps)
  have k: "0 < co_num_stages opts" "co_num_stages opts \<le> n" using split by (auto simp: split_layers_def split: if_splits)
  obtain gc where gc: "load_gateway_config_from_file (Some yaml) (stage_map_path opts) = Inr gc"
      "gc_partitions gc = map (planned_node opts ranges) [0..<nat (co_num_stages opts)]"
    using planned_map_loaded [OF plan(1-3) split] by blast
  let ?mopts = "\<lparr>mo_config_path = stage_map_path opts, mo_model_path = full, mo_output_dir = manifest_dir opts, mo_allow_missing = False\<rparr>"
  have "assign_tensors_to_partitions insp (map node_plan ps) = map (partition_assignment insp) ps" for ps
    by (simp add: assign_tensors_to_partitions_def partition_assignment_def)
  then obtain manifests where tool: "run_manifest_tool ?mopts (Inr gc) (Inr insp) = (0, manifests)"
    using complete gc(1) by (simp add: run_manifest_tool_def Let_def list_ex_iff)
  have ids: "\<forall>p \<in> set (gc_partitions gc). numbered p" "distinct (map partition_id (gc_partitions gc))"
    unfolding gc(2) by (rule planned_ids [OF k(2) plan(2)])+
  have "co_model_name opts \<noteq> []" using plan(3) by (simp add: planned_texts_ok_def map_texts_ok_def yaml_value_def)
  moreover have "gc_partitions gc \<noteq> []" using k(1) by (simp add: gc(2))
  moreover have "\<forall>p \<in> set (gc_partitions gc). manifest_ok p (partition_assignment insp p)" using complete gc(1) by blast
  ultimately obtain shards where shards:
      "run_shard_writer L (Some src) (controller_files opts yaml manifests) (directory_listing (manifest_dir opts) manifests)
        (parse_writer_args env_writer (writer_arguments opts full)) = (shards, 0)"
      "map fst shards = map (\<lambda>p. path_join (shard_dir opts) (partition_id p @ ''.dli.gguf''))
        (sort_key manifest_file_name (gc_partitions gc))"
      "run_shard_validator L (controller_files opts yaml manifests) (directory_listing (manifest_dir opts) manifests)
        (reopened_shards L shards) (parse_validator_args env_validator (validator_arguments opts)) = 0"
    using tools_on_map [OF tool _ gc(1) _ ids _ model plan(4), of env_writer env_validator] by auto
  have "{1..co_num_stages opts} = (\<lambda>i. int i + 1) ` {0..<nat (co_num_stages opts)}"
    by (rule stage_numbers)
  then have "set (map fst shards) = (\<lambda>i. path_join (shard_dir opts) (''partition-'' @ show_int i @ ''.dli.gguf'')) ` {1..co_num_stages opts}"
    by (simp add: shards(2) gc(2) image_image planned_node_def entry_node_def Let_def)
  then show ?thesis using shards(1,3) tool gc(1) manifest_arguments_parsed [OF plan(4)] by auto
qed

definition sample_plan_options :: controller_options where
  "sample_plan_options = default_controller_options\<lparr>co_model_name := ''m'', co_model_slug := ''m'',
     co_source_file := ''m.gguf'', co_num_stages := 1\<rparr>"

lemma sample_plan_texts: "planned_texts_ok sample_plan_options ''m.gguf''"
  by code_simp

lemma sample_plan_ready:
  "manifest_ok (planned_node sample_plan_options [[0]] 0) (partition_assignment sample_inspection (planned_node sample_plan_options [[0]] 0))"
  "\<not> has_missing_tensors (partition_assignment sample_inspection (planned_node sample_plan_options [[0]] 0))"
  by code_simp+

theorem controller_tools_succeed_witness:
  "\<exists>yaml mopts manifests shards. planned_stage_map sample_plan_options ''m.gguf'' 1 = Inr yaml \<and>
    run_manifest_tool mopts (load_gateway_config_from_file (Some yaml) (stage_map_path sample_plan_options)) (Inr sample_inspection) =
      (0, manifests) \<and>
    run_shard_writer sample_lib (Some sample_source) (controller_files sample_plan_options yaml manifests)
      (directory_listing (manifest_dir sample_plan_options) manifests)
      (parse_writer_args None (writer_arguments sample_plan_options ''m.gguf'')) = (shards, 0) \<and>
    map fst shards \<noteq> []"
proof -
  have split: "split_layers 1 (co_num_stages sample_plan_options) = Inr [[0]]" by code_simp
  have one: "nat (co_num_stages sample_plan_options) = 1" "co_num_stages sample_plan_options = 1" by (simp_all add: sample_plan_options_def)
  obtain yaml where yaml: "planned_stage_map sample_plan_options ''m.gguf'' 1 = Inr yaml"
    unfolding planned_stage_map_def generated_text [OF split] by blast
  have ready: "\<forall>gc p. load_gateway_config_from_file (Some yaml) (stage_map_path sample_plan_options) = Inr gc \<and> p \<in> set (gc_partitions gc) \<longrightarrow>
      manifest_ok p (partition_assignment sample_inspection p) \<and> \<not> has_missing_tensors (partition_assignment sample_inspection p)"
    using planned_map_loaded [OF yaml _ sample_plan_texts split, of "stage_map_path sample_plan_options"] sample_plan_ready
    by (auto simp: one(1))
  have "(1 :: int) < 2 ^ 31 - 1" "''m.gguf'' \<noteq> []" by simp_all
  from controller_tools_succeed [where env_config = None and env_model = None and env_output = None and env_writer = None and
      env_validator = None, OF yaml this(1) sample_plan_texts this(2) sample_lib_laws sample_source_facts(1,2,6,3,5,4) ready]
  obtain mopts manifests shards where r:
      "run_manifest_tool mopts (load_gateway_config_from_file (Some yaml) (stage_map_path sample_plan_options)) (Inr sample_inspection) =
        (0, manifests)"
      "run_shard_writer sample_lib (Some sample_source) (controller_files sample_plan_options yaml manifests)
        (directory_listing (manifest_dir sample_plan_options) manifests)
        (parse_writer_args None (writer_arguments sample_plan_options ''m.gguf'')) = (shards, 0)"
      "set (map fst shards) = (\<lambda>i. path_join (shard_dir sample_plan_options) (''partition-'' @ show_int i @ ''.dli.gguf'')) `
        {1..co_num_stages sample_plan_options}"
    by blast
  have "map fst shards \<noteq> []" using arg_cong [OF r(3), of card] by (simp add: one(2)) auto
  then show ?thesis using yaml r(1,2) by blast
qed

end
