(* ===== verification/Serving_Node.thy ===== *)
theory Serving_Node
  imports Stage_Server Pipeline Stage_Client
begin

text \<open>
  A stage as the gateway sees it: frames in, frames out, with the runtime of its shard behind the
  handler. What a completed call tells: the executor ran on the tensor the frame carried, and the
  reply carries its output and the request on.
\<close>

section \<open>A node\<close>

text \<open>The configuration, the environment and the runtime of a stage, with what its calls draw and measure.\<close>

record ('w, 'g) stage_node =
  sn_cfg :: stage_config
  sn_env :: "('w, 'g) runtime_env"
  sn_rt :: "'w loaded_runtime"
  sn_fresh :: 'g
  sn_entropy :: "32 word"
  sn_me :: measurement
  sn_chaining :: "string option"

definition node_forward :: "('w, 'g) stage_node \<Rightarrow> runtime_request \<Rightarrow> ('g session_table, runtime_response) action" where
  "node_forward nd = forward (sn_env nd) (sn_rt nd) (sn_fresh nd) (sn_entropy nd) (sn_me nd)"

definition frame_post :: "byte list \<Rightarrow> http_request" where
  "frame_post body = \<lparr>hr_method = ''POST'', hr_path = ''/forward-binary'', hr_headers = Map.empty, hr_body = body\<rparr>"

definition node_answer ::
    "fpu \<Rightarrow> number_io \<Rightarrow> ('w, 'g) stage_node \<Rightarrow> byte list \<Rightarrow> 'g session_table \<Rightarrow> http_response \<times> 'g session_table" where
  "node_answer F io nd body ss =
     (case handle_forward_binary F io (sn_chaining nd) (sn_cfg nd) (node_forward nd) (\<lambda>_. throwA ''no next stage'')
             f64_zero (frame_post body) (ss, ()) of
        (response, (ss', _)) \<Rightarrow> (response, ss'))"

definition reply_frame :: "number_io \<Rightarrow> ('w, 'g) stage_node \<Rightarrow> runtime_request \<Rightarrow> runtime_response \<Rightarrow> dli_frame" where
  "reply_frame io nd rq rs = \<lparr>metadata_json = runtime_response_metadata_json io rs (sn_cfg nd) rq,
     tensor_bytes = bytes (rs_output_tensor rs)\<rparr>"

lemma node_answer_outcome:
  assumes "frame_fits frame" "make_runtime_request io frame (sc_stage_id (sn_cfg nd)) = Inr rq"
    and "\<not> stage_chaining_enabled (sn_chaining nd) rq" "node_forward nd rq ss = (x, ss')"
  shows "\<exists>response. node_answer F io nd (frame_bytes frame) ss = (response, ss') \<and>
    (case x of Inl e \<Rightarrow> \<not> http_success (hp_status_code response)
     | Inr rs \<Rightarrow> if frame_fits (reply_frame io nd rq rs)
         then hp_status_code response = 200 \<and> hp_body response = frame_bytes (reply_frame io nd rq rs)
         else \<not> http_success (hp_status_code response))"
proof -
  note run = node_answer_def handle_forward_binary_def frame_post_def decode_frame_bytes [OF assms(1)] assms(2-4)
    catchA_def bindA_apply on_runtime_def make_json_response_def make_binary_response_def http_success_def
  show ?thesis
  proof (cases x)
    case (Inl e)
    then show ?thesis by (simp add: run)
  next
    case (Inr rs)
    show ?thesis
      by (rule encode_frame_cases [of "reply_frame io nd rq rs"])
        (simp_all add: run Inr Let_def reply_frame_def [symmetric])
  qed
qed

section \<open>Its sessions\<close>

text \<open>The key of a request's session, by its id.\<close>

definition key_of :: "string \<Rightarrow> string" where
  "key_of rid = (if rid = [] then ''__default__'' else rid)"

text \<open>A node serves a shard of the model on a platform.\<close>

definition serves_shard ::
    "('w, 'g) platform \<Rightarrow> hyperparams \<Rightarrow> number_io \<Rightarrow> ('w, 'g) stage_node \<Rightarrow> 'w stage_shard \<Rightarrow> bool" where
  "serves_shard pl hp io nd sh \<longleftrightarrow>
     re_platform (sn_env nd) = pl \<and> iteration_ok (sn_env nd) \<and> lr_hparams (sn_rt nd) = hp \<and>
     lr_tensor_ctx (sn_rt nd) = Some (shard_ctx sh) \<and> sh_layers (lr_shard_metadata (sn_rt nd)) = shard_layers sh \<and>
     sh_shard_loaded (lr_shard_metadata (sn_rt nd)) \<and> sh_hidden_size (lr_shard_metadata (sn_rt nd)) = hidden_size hp \<and>
     \<not> env_bool (sn_chaining nd) False \<and>
     (\<forall>status rq out step cache (ss :: 'g session_table). metrics_printable io
        (populate_resource_metrics (fp pl) (sn_rt nd) ss (sn_me nd) (step_metrics status rq out step cache (sn_me nd))))"

text \<open>What a reply has in common on every branch.\<close>

definition replies :: "number_io \<Rightarrow> runtime_response \<Rightarrow> int \<Rightarrow> tensor_buffer \<Rightarrow> bool" where
  "replies io rs token out \<longleftrightarrow> rs_next_token_id rs = token \<and> rs_output_tensor rs = out \<and> metrics_printable io (rs_metrics rs) \<and>
     (\<exists>mm sh n. rs_backend_metadata_json rs = backend_metadata_json mm sh n)"

text \<open>The table after a step.\<close>

definition advanced :: "('w, 'g) stage_node \<Rightarrow> string \<Rightarrow> int \<Rightarrow> 'g executor \<Rightarrow> 'g session_table \<Rightarrow> bool" where
  "advanced nd rid position ex ss \<longleftrightarrow> sessions_ok (sn_env nd) (sn_rt nd) ss \<and>
     (\<exists>s. map_of ss (key_of rid) = Some s \<and> rs_executor s = ex \<and> kc_seq_len (rs_kv_cache s) = position)"

lemma branch_outcome:
  assumes node: "serves_shard pl hp io nd sh" "check_hyperparams hp = Inr ()" "sessions_ok (sn_env nd) (sn_rt nd) ss"
    and branch: "node_forward nd rq ss = session_branch (sn_env nd) (sn_rt nd) (sn_fresh nd) rq run
        (\<lambda>key out step. finish_response (sn_env nd) (sn_rt nd) (sn_me nd) status rq key final (tok out) (ten out) step) ss"
    and run: "\<And>step. ks_seq_before step = int before \<Longrightarrow> run step = exec"
    and rq: "rq_kv_cache_enabled rq" "kv_advance rq = Some n"
      "kc_seq_len (rs_kv_cache (request_session (sn_fresh nd) rq ss)) = int before"
    and ex: "exec (rs_executor (request_session (sn_fresh nd) rq ss)) = (r, ex)"
  shows "\<exists>x ss'. node_forward nd rq ss = (x, ss') \<and> advanced nd (rq_request_id rq) (i32_wrap (int before + n)) ex ss' \<and>
    (case r of Inl e \<Rightarrow> x = Inl e | Inr out \<Rightarrow> \<exists>rs. x = Inr rs \<and> replies io rs (tok out) (ten out))"
proof -
  note n = node(1) [unfolded serves_shard_def]
  let ?s = "request_session (sn_fresh nd) rq ss"
  let ?finish = "\<lambda>key out step. finish_response (sn_env nd) (sn_rt nd) (sn_me nd) status rq key final (tok out) (ten out) step"
  obtain step kv where upd: "update_kv_cache_for_request (sn_rt nd) rq (rs_kv_cache ?s) = (step, kv)" by (rule prod.exhaust)
  then have step: "ks_seq_before step = int before" and kv: "kc_seq_len kv = i32_wrap (int before + n)"
    using rq by (auto simp: update_kv_cache_for_request_def Let_def)
  have hp: "check_hyperparams (lr_hparams (sn_rt nd)) = Inr ()" and ctx: "lr_tensor_ctx (sn_rt nd) = Some (shard_ctx sh)"
    and it: "iteration_ok (sn_env nd)" using n node(2) by simp_all
  have exec: "run step (rs_executor ?s) = (r, ex)" using ex run [OF step] by simp
  obtain t where t: "node_forward nd rq ss =
      (case r of Inl e \<Rightarrow> Inl e | Inr out \<Rightarrow> Inr (?finish (session_key rq) out step t), t)"
    "map_of t (session_key rq) = Some (?s\<lparr>rs_kv_cache := kv, rs_executor := ex\<rparr>)"
    unfolding branch using session_branch_result [where run = run, OF it node(3) hp ctx upd refl exec] by blast
  have "sessions_ok (sn_env nd) (sn_rt nd) t"
    using forward_sessions_kept [OF it node(3), of "sn_fresh nd" "sn_entropy nd" "sn_me nd" rq] t(1)
    by (simp add: node_forward_def)
  then have "advanced nd (rq_request_id rq) (i32_wrap (int before + n)) ex t"
    using t(2) kv by (simp add: advanced_def session_key_def key_of_def)
  moreover have "replies io (?finish (session_key rq) out step t) (tok out) (ten out)" for out
    using n by (auto simp: replies_def finish_response_def)
  ultimately show ?thesis using t(1) by (auto split: sum.split)
qed

end
