(* ===== verification/Serving_Pass.thy ===== *)
theory Serving_Pass
  imports Serving_Node
begin

text \<open>
  The request on its way through the stages: what every stage passes on, and what each kind of
  stage does with the tensor that reaches it.
\<close>

section \<open>The request\<close>

text \<open>The fields a request keeps on its way.\<close>

definition same_request :: "runtime_request \<Rightarrow> runtime_request \<Rightarrow> bool" where
  "same_request a b \<longleftrightarrow>
     (rq_request_id a, rq_token_index a, rq_generation_mode a) = (rq_request_id b, rq_token_index b, rq_generation_mode b) \<and>
     (rq_kv_cache_enabled a, rq_native_stage_chaining_enabled a) = (rq_kv_cache_enabled b, rq_native_stage_chaining_enabled b) \<and>
     (rq_activation_precision a, rq_transport_mode a, rq_metadata_level a) =
       (rq_activation_precision b, rq_transport_mode b, rq_metadata_level b) \<and>
     (rq_has_temperature a, rq_temperature a, rq_has_top_k a, rq_top_k a) =
       (rq_has_temperature b, rq_temperature b, rq_has_top_k b, rq_top_k b) \<and>
     (rq_has_top_p a, rq_top_p a, rq_has_seed a, rq_seed a) = (rq_has_top_p b, rq_top_p b, rq_has_seed b, rq_seed b)"

text \<open>A request that can be passed on: its texts can be written, and printing and reading its
  controls gives them back.\<close>

definition controls_settle :: "number_io \<Rightarrow> runtime_request \<Rightarrow> bool" where
  "controls_settle io rq \<longleftrightarrow> controls_ok io rq \<and>
     rq_temperature rq = (if rq_has_temperature rq then the (stod io (stream_f64 io (rq_temperature rq))) else f64_zero) \<and>
     rq_top_k rq = (if rq_has_top_k rq then rq_top_k rq else 0) \<and>
     rq_top_p rq = (if rq_has_top_p rq then the (stod io (stream_f64 io (rq_top_p rq))) else f64_zero) \<and>
     rq_seed rq = (if rq_has_seed rq then i64_of_f64 io (the (stod io (show_int (rq_seed rq)))) else 0)"

definition passable :: "number_io \<Rightarrow> runtime_request \<Rightarrow> bool" where
  "passable io rq \<longleftrightarrow>
     list_all escape_safe [rq_request_id rq, rq_generation_mode rq, rq_transport_mode rq, rq_activation_precision rq,
       rq_metadata_level rq] \<and>
     int32_range (rq_token_index rq) \<and> rq_kv_cache_enabled rq \<and> \<not> rq_native_stage_chaining_enabled rq \<and>
     rq_activation_precision rq \<noteq> ''fp16'' \<and> rq_activation_precision rq \<noteq> ''float16'' \<and> controls_settle io rq"

lemma same_request_passable: "same_request a b \<Longrightarrow> passable io a = passable io b"
  by (simp add: same_request_def passable_def controls_settle_def controls_ok_def)

lemma same_request_trans: "same_request a b \<Longrightarrow> same_request b c \<Longrightarrow> same_request a c"
  by (simp add: same_request_def)

lemma same_request_sampling: "same_request a b \<Longrightarrow> request_sampling F a = request_sampling F b"
  by (simp add: same_request_def request_sampling_def)

text \<open>The reply is the request for the next stage, on the output tensor.\<close>

definition tensor_writable :: "tensor_metadata \<Rightarrow> bool" where
  "tensor_writable tm \<longleftrightarrow> escape_safe (dtype tm) \<and> escape_safe (byte_order tm) \<and> list_all int64_range (shape tm)"

lemma reply_passes_request:
  assumes "passable io rq" "replies io rs token out" "int32_range token" "tensor_writable (response_tensor_metadata rs rq)"
  shows "parse_request_metadata io (metadata_json (reply_frame io nd rq rs)) = Inr (forwarded_metadata io rs rq)"
    and "\<exists>rq'. make_runtime_request io (reply_frame io nd rq rs) sid = Inr rq' \<and> same_request rq rq' \<and>
      rq_input_tensor rq' = \<lparr>metadata = response_tensor_metadata rs rq, bytes = bytes out\<rparr>"
proof -
  obtain mm sh n where rs: "rs_next_token_id rs = token" "rs_output_tensor rs = out" "metrics_printable io (rs_metrics rs)"
    "rs_backend_metadata_json rs = backend_metadata_json mm sh n" using assms(2) by (auto simp: replies_def)
  have "response_sendable io rs rq"
    using assms rs by (simp add: response_sendable_def passable_def controls_settle_def tensor_writable_def)
  from response_metadata_read [OF this rs(4), of "sn_cfg nd"]
  show read: "parse_request_metadata io (metadata_json (reply_frame io nd rq rs)) = Inr (forwarded_metadata io rs rq)"
    by (simp add: reply_frame_def)
  show "\<exists>rq'. make_runtime_request io (reply_frame io nd rq rs) sid = Inr rq' \<and> same_request rq rq' \<and>
      rq_input_tensor rq' = \<lparr>metadata = response_tensor_metadata rs rq, bytes = bytes out\<rparr>"
    using assms(1) rs(2) unfolding make_runtime_request_def read
    by (simp add: forwarded_metadata_def same_request_def passable_def
      controls_settle_def reply_frame_def)
qed

section \<open>Tensors between stages\<close>

lemma positive_shape:
  assumes "shape (metadata t) \<noteq> []" "\<forall>d \<in> set (shape (metadata t)). d > 0" "dtype_size_bytes (dtype (metadata t)) = Inr k"
    and "prod_list (shape (metadata t)) * k < 2 ^ 63" "int (length (bytes t)) = prod_list (shape (metadata t)) * k"
  shows "validate_tensor_byte_size t = Inr ()"
proof -
  have pos: "0 < prod_list (shape (metadata t))" using prod_list_pos assms(2) by blast
  have k: "1 \<le> k" using dtype_size_pos [OF assms(3)] by auto
  have "prod_list (shape (metadata t)) \<le> prod_list (shape (metadata t)) * k" using pos k by simp
  then have "prod_list (shape (metadata t)) < 2 ^ 63" using assms(4) by linarith
  then have "product_shape (shape (metadata t)) = Inr (prod_list (shape (metadata t)))"
    using product_shape_Inr [of "shape (metadata t)"] assms(1,2) pos by (auto simp: i64_wrap_id)
  moreover have "u64_wrap (prod_list (shape (metadata t)) * k) = prod_list (shape (metadata t)) * k"
    using pos k assms(4) by (intro u64_wrap_id) auto
  ultimately show ?thesis using assms pos by (auto simp: validate_tensor_byte_size_Inr)
qed

lemma rows_valid:
  assumes "check_hyperparams hp = Inr ()" "rows_fit hp rows"
  shows "infer_dli2_payload_kind (rows_tensor hp rows) = Inr HiddenStates"
    "validate_hidden_states_tensor (rows_tensor hp rows) (hidden_size hp) True = Inr ()"
    "i32_wrap (dli2_sequence_length (rows_tensor hp rows)) = int (length rows)"
    "tensor_writable (metadata (rows_tensor hp rows))"
proof -
  have h: "hidden_size hp = int (hp_hidden hp)" "0 < hidden_size hp" using hidden_size_nat [OF assms(1)] by auto
  have r: "is_rows hp rows" "rows \<noteq> []" "int (length rows) < 2 ^ 31" "int (length rows) * hidden_size hp < 2 ^ 61"
    using assms(2) by (auto simp: rows_fit_def)
  have "length (concat (map f32_block xs)) = 4 * length xs" for xs by (induction xs) simp_all
  then have len: "length (bytes (rows_tensor hp rows)) = 4 * (length rows * hp_hidden hp)"
    using length_concat_rows [OF r(1)] by (simp add: rows_tensor_def)
  have "validate_tensor_byte_size (rows_tensor hp rows) = Inr ()"
    by (rule positive_shape [where k = 4]) (use r h len in \<open>auto simp: rows_tensor_def dtype_size_bytes_def dtype_names mult.commute\<close>)
  then show "validate_hidden_states_tensor (rows_tensor hp rows) (hidden_size hp) True = Inr ()"
    by (simp add: validate_hidden_states_tensor_def validate_little_endian_def rows_tensor_def)
  show "infer_dli2_payload_kind (rows_tensor hp rows) = Inr HiddenStates"
    by (simp add: infer_dli2_payload_kind_def rows_tensor_def dtype_names)
  show "i32_wrap (dli2_sequence_length (rows_tensor hp rows)) = int (length rows)"
    using r by (simp add: dli2_sequence_length_def rows_tensor_def i32_wrap_id)
  have "hidden_size hp \<le> int (length rows) * hidden_size hp" using r(2) h by (cases rows) auto
  then have "hidden_size hp < 2 ^ 61" using r(4) by (rule order_le_less_trans)
  then show "tensor_writable (metadata (rows_tensor hp rows))" using r h
    by (auto simp: tensor_writable_def rows_tensor_def dtype_names int64_range_def unicode_escaped_def)
qed

lemma tokens_valid:
  assumes "tokens \<noteq> []" "int (length tokens) < 2 ^ 31"
  shows "infer_dli2_payload_kind (token_tensor tokens) = Inr TokenIds"
    "validate_token_ids_tensor (token_tensor tokens) = Inr ()"
    "i32_wrap (dli2_sequence_length (token_tensor tokens)) = int (length tokens)"
proof -
  have "length (concat (map i64_block xs)) = 8 * length xs" for xs by (induction xs) simp_all
  then have len: "length (int64_tokens_to_bytes tokens) = 8 * length tokens" by (simp add: int64_tokens_to_bytes_eq)
  have "validate_tensor_byte_size (token_tensor tokens) = Inr ()"
    by (rule positive_shape [where k = 8])
      (use assms in \<open>auto simp: token_tensor_def dtype_size_bytes_def dtype_names len\<close>)
  then show "validate_token_ids_tensor (token_tensor tokens) = Inr ()"
    by (simp add: validate_token_ids_tensor_def validate_little_endian_def token_tensor_def dtype_names)
  show "infer_dli2_payload_kind (token_tensor tokens) = Inr TokenIds"
    by (simp add: infer_dli2_payload_kind_def token_tensor_def dtype_names)
  show "i32_wrap (dli2_sequence_length (token_tensor tokens)) = int (length tokens)"
    using assms by (simp add: dli2_sequence_length_def token_tensor_def i32_wrap_id)
qed

section \<open>A stage's step\<close>

text \<open>The executor a request finds on a node, and the session table it has to find there: the session
  of the request stands at the position reached, or there is none and the request is the first.\<close>

definition node_executor :: "('w, 'g) stage_node \<Rightarrow> runtime_request \<Rightarrow> 'g session_table \<Rightarrow> 'g executor" where
  "node_executor nd rq ss = rs_executor (request_session (sn_fresh nd) rq ss)"

definition stands_at :: "('w, 'g) stage_node \<Rightarrow> runtime_request \<Rightarrow> nat \<Rightarrow> 'g session_table \<Rightarrow> bool" where
  "stands_at nd rq before ss \<longleftrightarrow> sessions_ok (sn_env nd) (sn_rt nd) ss \<and>
     kc_seq_len (rs_kv_cache (request_session (sn_fresh nd) rq ss)) = int before"

lemma same_request_session: "same_request a b \<Longrightarrow> request_session fresh a ss = request_session fresh b ss"
  by (simp add: request_session_def opened_table_def session_key_def same_request_def)

lemma same_request_node:
  assumes "same_request a b"
  shows "node_executor nd a ss = node_executor nd b ss" "stands_at nd a before ss = stands_at nd b before ss"
  by (simp_all add: node_executor_def stands_at_def same_request_session [OF assms])

text \<open>Does the mode of the request fit the number of positions?\<close>

definition mode_fits :: "runtime_request \<Rightarrow> nat \<Rightarrow> bool" where
  "mode_fits rq n \<longleftrightarrow> 0 < n \<and> (rq_generation_mode rq = ''prefill'' \<or> rq_generation_mode rq = ''decode'' \<and> n = 1)"

lemma mode_fits_advance:
  "\<lbrakk>mode_fits rq n; i32_wrap (dli2_sequence_length (rq_input_tensor rq)) = int n\<rbrakk> \<Longrightarrow> kv_advance rq = Some (int n)"
  by (auto simp: mode_fits_def kv_advance_def Let_def)

definition is_source :: "('w, 'g) stage_node \<Rightarrow> bool" where
  "is_source nd \<longleftrightarrow> sh_owns_embedding (lr_shard_metadata (sn_rt nd))"

definition is_intermediate :: "('w, 'g) stage_node \<Rightarrow> bool" where
  "is_intermediate nd \<longleftrightarrow> \<not> sh_owns_embedding (lr_shard_metadata (sn_rt nd)) \<and>
     \<not> sh_owns_lm_head (lr_shard_metadata (sn_rt nd)) \<and> sh_next_stage_url (lr_shard_metadata (sn_rt nd)) \<noteq> []"

definition is_terminal :: "('w, 'g) stage_node \<Rightarrow> bool" where
  "is_terminal nd \<longleftrightarrow> \<not> sh_owns_embedding (lr_shard_metadata (sn_rt nd)) \<and>
     sh_owns_lm_head (lr_shard_metadata (sn_rt nd)) \<and> sh_owns_norm (lr_shard_metadata (sn_rt nd))"

text \<open>What a step on a node comes to: the table advanced, and the reply to the executor's result.\<close>

definition step_done ::
    "number_io \<Rightarrow> ('w, 'g) stage_node \<Rightarrow> runtime_request \<Rightarrow> nat \<Rightarrow> 'g session_table \<Rightarrow>
     ('g executor \<Rightarrow> 'a result \<times> 'g executor) \<Rightarrow> ('a \<Rightarrow> int) \<Rightarrow> ('a \<Rightarrow> tensor_buffer) \<Rightarrow> bool" where
  "step_done io nd rq position ss exec tok ten \<longleftrightarrow>
     (\<exists>x ss'. node_forward nd rq ss = (x, ss') \<and>
        advanced nd (rq_request_id rq) (int position) (snd (exec (node_executor nd rq ss))) ss' \<and>
        (case fst (exec (node_executor nd rq ss)) of
           Inl e \<Rightarrow> x = Inl e
         | Inr out \<Rightarrow> \<exists>rs. x = Inr rs \<and> replies io rs (tok out) (ten out)))"

lemma step_branch:
  assumes node: "serves_shard pl hp io nd sh" "check_hyperparams hp = Inr ()" "stands_at nd rq before ss"
    and branch: "node_forward nd rq ss = session_branch (sn_env nd) (sn_rt nd) (sn_fresh nd) rq run
        (\<lambda>key out step. finish_response (sn_env nd) (sn_rt nd) (sn_me nd) status rq key final (tok out) (ten out) step) ss"
    and run: "\<And>step. ks_seq_before step = int before \<Longrightarrow> run step = exec"
    and rq: "rq_kv_cache_enabled rq" "mode_fits rq n" "i32_wrap (dli2_sequence_length (rq_input_tensor rq)) = int n"
    and fits: "before + n < 2 ^ 31"
  shows "step_done io nd rq (before + n) ss exec tok ten"
proof -
  obtain r ex where ex: "exec (node_executor nd rq ss) = (r, ex)" by (rule prod.exhaust)
  have "i32_wrap (int before + int n) = int (before + n)" using fits by (simp add: i32_wrap_def)
  moreover have "sessions_ok (sn_env nd) (sn_rt nd) ss"
    "kc_seq_len (rs_kv_cache (request_session (sn_fresh nd) rq ss)) = int before"
    using node(3) by (simp_all add: stands_at_def)
  ultimately show ?thesis
    using branch_outcome [OF node(1,2) _ branch run rq(1) mode_fits_advance [OF rq(2,3)] _ ex [unfolded node_executor_def]]
    by (simp add: step_done_def ex)
qed

text \<open>The three kinds of stages.\<close>

lemma source_step:
  assumes node: "serves_shard pl hp io nd sh" "check_hyperparams hp = Inr ()" "stands_at nd rq before ss" "is_source nd"
    and rq: "rq_kv_cache_enabled rq" "rq_input_tensor rq = token_tensor tokens" "mode_fits rq (length tokens)"
    and fits: "before + length tokens < 2 ^ 31"
  shows "step_done io nd rq (before + length tokens) ss
    (execute_source pl (shard_ctx sh) hp (token_tensor tokens) (shard_layers sh) before (rq_activation_precision rq))
    (\<lambda>_. - 1) (\<lambda>out. out)"
proof -
  have t: "tokens \<noteq> []" "int (length tokens) < 2 ^ 31" using rq(3) fits by (auto simp: mode_fits_def)
  note valid = tokens_valid [OF t]
  have "node_forward nd rq ss = forward_source_partition (sn_env nd) (sn_rt nd) (sn_fresh nd) (sn_me nd) rq ss"
    using node valid by (simp add: node_forward_def forward_def Let_def serves_shard_def is_source_def rq(2)
      validate_runtime_request_matches_partition_def)
  from step_branch [OF node(1-3) this [unfolded forward_branches(1)] _ rq(1,3) _ fits] valid(3) show ?thesis
    using node(1) by (simp add: serves_shard_def runtime_ctx_def rq(2))
qed

lemma hidden_state_request:
  assumes "serves_shard pl hp io nd sh" "check_hyperparams hp = Inr ()" "rows_fit hp rows"
    and "\<not> sh_owns_embedding (lr_shard_metadata (sn_rt nd))" "rq_input_tensor rq = rows_tensor hp rows"
  shows "validate_runtime_request_matches_partition rq (lr_shard_metadata (sn_rt nd)) = Inr ()"
  using assms rows_valid [OF assms(2,3)]
  by (simp add: validate_runtime_request_matches_partition_def serves_shard_def)

lemma intermediate_step:
  assumes node: "serves_shard pl hp io nd sh" "check_hyperparams hp = Inr ()" "stands_at nd rq before ss" "is_intermediate nd"
    and rq: "rq_kv_cache_enabled rq" "rq_input_tensor rq = rows_tensor hp rows" "mode_fits rq (length rows)"
    and fits: "before + length rows < 2 ^ 31" "rows_fit hp rows"
  shows "step_done io nd rq (before + length rows) ss
    (execute_intermediate pl (shard_ctx sh) hp (rows_tensor hp rows) (shard_layers sh) before (rq_activation_precision rq))
    (\<lambda>_. - 1) (\<lambda>out. out)"
proof -
  have "\<not> sh_owns_embedding (lr_shard_metadata (sn_rt nd))" using node(4) by (simp add: is_intermediate_def)
  note valid = hidden_state_request [OF node(1,2) fits(2) this rq(2)]
  have "node_forward nd rq ss = forward_intermediate_partition (sn_env nd) (sn_rt nd) (sn_fresh nd) (sn_me nd) rq ss"
    using node(1,4) valid by (simp add: node_forward_def forward_def Let_def serves_shard_def is_intermediate_def)
  from step_branch [OF node(1-3) this [unfolded forward_branches(2)] _ rq(1,3) _ fits(1)] rows_valid(3) [OF node(2) fits(2)]
  show ?thesis using node(1) by (simp add: serves_shard_def runtime_ctx_def rq(2))
qed

lemma terminal_step:
  assumes node: "serves_shard pl hp io nd sh" "check_hyperparams hp = Inr ()" "stands_at nd rq before ss" "is_terminal nd"
    and rq: "rq_kv_cache_enabled rq" "rq_input_tensor rq = rows_tensor hp rows" "mode_fits rq (length rows)"
    and fits: "before + length rows < 2 ^ 31" "rows_fit hp rows"
  shows "step_done io nd rq (before + length rows) ss
    (execute_terminal pl (shard_ctx sh) hp (sn_entropy nd) (rows_tensor hp rows) (shard_layers sh) before True True
      (request_sampling (fp pl) rq))
    (\<lambda>token. token) (\<lambda>_. empty_tensor)"
proof -
  have "\<not> sh_owns_embedding (lr_shard_metadata (sn_rt nd))" using node(4) by (simp add: is_terminal_def)
  note valid = hidden_state_request [OF node(1,2) fits(2) this rq(2)]
  have "node_forward nd rq ss =
      forward_terminal_partition (sn_env nd) (sn_rt nd) (sn_fresh nd) (sn_entropy nd) (sn_me nd) rq ss"
    using node(1,4) valid by (simp add: node_forward_def forward_def Let_def serves_shard_def is_terminal_def)
  from step_branch [OF node(1-3) this [unfolded forward_branches(3)] _ rq(1,3) _ fits(1)] rows_valid(3) [OF node(2) fits(2)]
  show ?thesis using node(1,4) by (simp add: serves_shard_def runtime_ctx_def is_terminal_def rq(2))
qed

end
