(* ===== verification/Serving.thy ===== *)
theory Serving
  imports Serving_Pass
begin

text \<open>
  The gateway and its stages together: the generation loop sends frames to the handlers of the
  stages, each with the shard of a node of the partition graph, over a network that delivers.
\<close>

section \<open>A network that delivers\<close>

text \<open>The session tables of the stages by URL; a frame is encoded, answered by the stage's handler and
  its response read by the gateway's client.\<close>

type_synonym 'g tables = "string \<Rightarrow> 'g session_table"

definition stage_sender ::
    "fpu \<Rightarrow> number_io \<Rightarrow> f64 \<Rightarrow> (string \<Rightarrow> ('w, 'g) stage_node) \<Rightarrow> 'g tables sender" where
  "stage_sender F io elapsed nodes url frame =
     bindA (liftA (encode_frame frame)) (\<lambda>body.
     bindA (\<lambda>tables. case node_answer F io (nodes url) body (tables url) of
              (response, ss) \<Rightarrow> (Inr response, tables(url := ss))) (\<lambda>response.
     liftA (client_result body
       \<lparr>cr_status_code = hp_status_code response, cr_reason = hp_reason response, cr_headers = Map.empty,
        cr_body = hp_body response\<rparr> elapsed)))"

text \<open>A frame a stage reads as the request, on a tensor.\<close>

definition frame_carries :: "number_io \<Rightarrow> runtime_request \<Rightarrow> tensor_buffer \<Rightarrow> dli_frame \<Rightarrow> bool" where
  "frame_carries io rq0 tensor frame \<longleftrightarrow>
     (\<forall>sid. \<exists>rq. make_runtime_request io frame sid = Inr rq \<and> same_request rq0 rq \<and> rq_input_tensor rq = tensor)"

text \<open>A reply to the request that does not fit a frame.\<close>

definition reply_too_large :: "number_io \<Rightarrow> (string \<Rightarrow> ('w, 'g) stage_node) \<Rightarrow> string \<Rightarrow> string list \<Rightarrow> bool" where
  "reply_too_large io nodes rid urls \<longleftrightarrow>
     (\<exists>url \<in> set urls. \<exists>rq ss rs ss'. rq_request_id rq = rid \<and> node_forward (nodes url) rq ss = (Inr rs, ss') \<and>
        \<not> frame_fits (reply_frame io (nodes url) rq rs))"

lemma http_ok_success: "http_ok res = http_success (http_status res)"
  by (simp add: http_ok_def http_success_def)

lemma sender_outcome:
  assumes "serves_shard pl hp io (nodes url) sh" "passable io rq0" "same_request rq0 rq" "frame_fits frame"
    and "make_runtime_request io frame (sc_stage_id (sn_cfg (nodes url))) = Inr rq"
    and "node_forward (nodes url) rq (tables url) = (x, ss')"
  obtains res where "stage_sender F io elapsed nodes url frame tables = (Inr res, tables(url := ss'))"
    and "case x of Inl e \<Rightarrow> \<not> http_ok res
      | Inr rs \<Rightarrow> http_ok res \<and> response_frame res = reply_frame io (nodes url) rq rs \<and>
            frame_fits (reply_frame io (nodes url) rq rs) \<or>
          \<not> http_ok res \<and> reply_too_large io nodes (rq_request_id rq0) [url]"
proof -
  have "\<not> stage_chaining_enabled (sn_chaining (nodes url)) rq"
    using assms(1,2) same_request_passable [OF assms(3)]
    by (simp add: stage_chaining_enabled_def serves_shard_def passable_def)
  from node_answer_outcome [OF assms(4,5) this assms(6)] obtain response where
    answer: "node_answer F io (nodes url) (frame_bytes frame) (tables url) = (response, ss')"
    and out: "case x of Inl e \<Rightarrow> \<not> http_success (hp_status_code response)
     | Inr rs \<Rightarrow> if frame_fits (reply_frame io (nodes url) rq rs)
         then hp_status_code response = 200 \<and> hp_body response = frame_bytes (reply_frame io (nodes url) rq rs)
         else \<not> http_success (hp_status_code response)" by blast
  have enc: "encode_frame frame = Inr (frame_bytes frame)" using assms(4) by (simp add: encode_frame_Inr)
  have large: "reply_too_large io nodes (rq_request_id rq0) [url]" if "x = Inr rs" "\<not> frame_fits (reply_frame io (nodes url) rq rs)" for rs
    using that assms(3,6) by (auto simp: reply_too_large_def same_request_def)
  show ?thesis
  proof (cases "http_success (hp_status_code response)")
    case False
    obtain res where "stage_sender F io elapsed nodes url frame tables = (Inr res, tables(url := ss'))" "\<not> http_ok res"
      using False by (simp add: stage_sender_def bindA_apply enc answer client_result_def Let_def http_ok_success)
    moreover have "case x of Inl e \<Rightarrow> True | Inr rs \<Rightarrow> reply_too_large io nodes (rq_request_id rq0) [url]"
      using out False large by (auto simp: http_success_def split: sum.splits if_splits)
    ultimately show ?thesis using that by (auto split: sum.splits)
  next
    case True
    with out obtain rs where rs: "x = Inr rs" "frame_fits (reply_frame io (nodes url) rq rs)"
      "hp_status_code response = 200" "hp_body response = frame_bytes (reply_frame io (nodes url) rq rs)"
      by (auto split: sum.splits if_splits)
    then obtain res where "stage_sender F io elapsed nodes url frame tables = (Inr res, tables(url := ss'))" "http_ok res"
        "response_frame res = reply_frame io (nodes url) rq rs"
      using decode_frame_bytes [OF rs(2)]
      by (simp add: stage_sender_def bindA_apply enc answer client_result_def Let_def http_ok_success http_success_def)
    then show ?thesis using that rs(1,2) by auto
  qed
qed

text \<open>One call, from the frame that carries the request to the reply that carries it on.\<close>

lemma stage_call:
  assumes "serves_shard pl hp io (nodes url) sh" "passable io rq0" "frame_fits frame" "frame_carries io rq0 tensor frame"
    and step: "\<And>rq. \<lbrakk>same_request rq0 rq; rq_input_tensor rq = tensor\<rbrakk>
      \<Longrightarrow> step_done io (nodes url) rq position (tables url) exec tok ten"
    and exec: "exec (node_executor (nodes url) rq0 (tables url)) = (r, ex)"
  obtains res ss' where "stage_sender F io elapsed nodes url frame tables = (Inr res, tables(url := ss'))"
    and "advanced (nodes url) (rq_request_id rq0) (int position) ex ss'"
    and "case r of Inl e \<Rightarrow> \<not> http_ok res
      | Inr out \<Rightarrow> \<not> http_ok res \<and> reply_too_large io nodes (rq_request_id rq0) [url] \<or>
          (\<exists>rq rs. same_request rq0 rq \<and> rq_input_tensor rq = tensor \<and> replies io rs (tok out) (ten out) \<and> http_ok res \<and>
             response_frame res = reply_frame io (nodes url) rq rs \<and> frame_fits (response_frame res))"
proof -
  obtain rq where rq: "make_runtime_request io frame (sc_stage_id (sn_cfg (nodes url))) = Inr rq" "same_request rq0 rq"
    "rq_input_tensor rq = tensor" using assms(4) unfolding frame_carries_def by blast
  have same: "node_executor (nodes url) rq (tables url) = node_executor (nodes url) rq0 (tables url)"
    using same_request_node(1) [OF rq(2)] by metis
  have rid: "rq_request_id rq = rq_request_id rq0" using rq(2) by (simp add: same_request_def)
  from step [OF rq(2,3)] obtain x ss' where x: "node_forward (nodes url) rq (tables url) = (x, ss')"
    "advanced (nodes url) (rq_request_id rq0) (int position) ex ss'"
    "case r of Inl e \<Rightarrow> x = Inl e | Inr out \<Rightarrow> \<exists>rs. x = Inr rs \<and> replies io rs (tok out) (ten out)"
    by (auto simp: step_done_def same exec rid)
  obtain res where res: "stage_sender F io elapsed nodes url frame tables = (Inr res, tables(url := ss'))"
    "case x of Inl e \<Rightarrow> \<not> http_ok res
      | Inr rs \<Rightarrow> http_ok res \<and> response_frame res = reply_frame io (nodes url) rq rs \<and>
            frame_fits (reply_frame io (nodes url) rq rs) \<or>
          \<not> http_ok res \<and> reply_too_large io nodes (rq_request_id rq0) [url]"
    by (rule sender_outcome [where elapsed = elapsed and nodes = nodes and url = url and tables = tables,
          OF assms(1,2) rq(2) assms(3) rq(1) x(1)])
  show ?thesis
  proof (cases r)
    case (Inl e)
    then show ?thesis using that [OF res(1) x(2)] x(3) res(2) by simp
  next
    case (Inr out)
    then obtain rs where rs: "x = Inr rs" "replies io rs (tok out) (ten out)" using x(3) by auto
    have "http_ok res \<and> response_frame res = reply_frame io (nodes url) rq rs \<and> frame_fits (response_frame res) \<or>
        \<not> http_ok res \<and> reply_too_large io nodes (rq_request_id rq0) [url]" using res(2) by (auto simp: rs(1))
    then have "\<not> http_ok res \<and> reply_too_large io nodes (rq_request_id rq0) [url] \<or>
          (\<exists>rq rs. same_request rq0 rq \<and> rq_input_tensor rq = tensor \<and> replies io rs (tok out) (ten out) \<and> http_ok res \<and>
             response_frame res = reply_frame io (nodes url) rq rs \<and> frame_fits (response_frame res))"
      using rs(2) rq(2,3) by blast
    then show ?thesis using that [OF res(1) x(2)] Inr by simp
  qed
qed

lemma reply_carries:
  assumes "passable io rq0" "same_request rq0 rq" "replies io rs (- 1) out" "tensor_writable (metadata out)"
    "shape (metadata out) \<noteq> []"
  shows "frame_carries io rq0 out (reply_frame io nd rq rs)"
proof -
  have out: "response_tensor_metadata rs rq = metadata out"
    using assms(3,5) by (simp add: response_tensor_metadata_def replies_def)
  have "passable io rq" using assms(1) same_request_passable [OF assms(2)] by simp
  from reply_passes_request(2) [OF this assms(3), of nd] assms(4) show ?thesis
    unfolding frame_carries_def out using same_request_trans [OF assms(2)] by (fastforce simp: int32_range_def)
qed

section \<open>The walk through the graph\<close>

lemma walk_step:
  assumes "stage_url_for_partition cfg i = Inr url" "send url frame n = (Inr res, n')"
  shows "\<not> http_ok res \<Longrightarrow> isl (fst (walk_partitions F io cfg send ti mode (i # is) frame (result, n)))"
    and "http_ok res \<Longrightarrow> \<exists>result'. walk_partitions F io cfg send ti mode (i # is) frame (result, n) =
      (if is_terminal_partition (partitions cfg ! i) then (Inr res, (result', n'))
       else walk_partitions F io cfg send ti mode is (response_frame res) (result', n'))"
  using assms by (auto simp: bindA_apply on_network_def on_result_def checkR_def Let_def)

text \<open>From a hidden state to the token: the stages in the middle, then the last one.\<close>

definition tail_token ::
    "('w, 'g) platform \<Rightarrow> hyperparams \<Rightarrow> string \<Rightarrow> 32 word \<Rightarrow> sampling_params \<Rightarrow> 'w stage_shard list \<Rightarrow> 'w stage_shard \<Rightarrow>
     nat \<Rightarrow> tensor_buffer \<Rightarrow> 'g executor list \<Rightarrow> 'g executor \<Rightarrow> int result \<times> 'g executor list \<times> 'g executor" where
  "tail_token pl hp precision entropy sampling middle final before tensor ss t =
     (case intermediate_stages pl hp precision before middle tensor ss of
        (Inl e, ss') \<Rightarrow> (Inl e, ss', t)
      | (Inr tensor', ss') \<Rightarrow>
          (case execute_terminal pl (shard_ctx final) hp entropy tensor' (shard_layers final) before True True sampling t of
             (r, t') \<Rightarrow> (r, ss', t')))"

lemma distributed_tail:
  "distributed_token pl hp precision entropy sampling first middle final before tokens s ss t =
     (case execute_source pl (shard_ctx first) hp (token_tensor tokens) (shard_layers first) before precision s of
        (Inl e, s') \<Rightarrow> (Inl e, s', ss, t)
      | (Inr tensor, s') \<Rightarrow> (case tail_token pl hp precision entropy sampling middle final before tensor ss t of
          (r, ss', t') \<Rightarrow> (r, s', ss', t')))"
  by (simp add: distributed_token_def tail_token_def split: prod.split sum.split)

lemma tail_token_Cons:
  "tail_token pl hp precision entropy sampling (sh # shs) final before tensor (s # ss) t =
     (case execute_intermediate pl (shard_ctx sh) hp tensor (shard_layers sh) before precision s of
        (Inl e, s') \<Rightarrow> (Inl e, s' # ss, t)
      | (Inr tensor', s') \<Rightarrow> (case tail_token pl hp precision entropy sampling shs final before tensor' ss t of
          (r, ss', t') \<Rightarrow> (r, s' # ss', t')))"
  by (simp add: tail_token_def split: prod.split sum.split)

text \<open>The stages that serve the partitions of the graph: those in the middle from index \<open>k\<close> on, and the last.\<close>

primrec middle_stages ::
    "('w, 'g) platform \<Rightarrow> hyperparams \<Rightarrow> number_io \<Rightarrow> generation_loop_config \<Rightarrow> (string \<Rightarrow> ('w, 'g) stage_node) \<Rightarrow>
     nat \<Rightarrow> ('w stage_shard \<times> string) list \<Rightarrow> bool" where
  "middle_stages pl hp io cfg nodes k [] = True"
| "middle_stages pl hp io cfg nodes k (st # sts) =
     (stage_url_for_partition cfg k = Inr (snd st) \<and> \<not> is_terminal_partition (partitions cfg ! k) \<and>
      serves_shard pl hp io (nodes (snd st)) (fst st) \<and> is_intermediate (nodes (snd st)) \<and>
      middle_stages pl hp io cfg nodes (Suc k) sts)"

definition last_stage ::
    "('w, 'g) platform \<Rightarrow> hyperparams \<Rightarrow> number_io \<Rightarrow> generation_loop_config \<Rightarrow> (string \<Rightarrow> ('w, 'g) stage_node) \<Rightarrow>
     nat \<Rightarrow> 'w stage_shard \<Rightarrow> string \<Rightarrow> bool" where
  "last_stage pl hp io cfg nodes k sh url \<longleftrightarrow>
     stage_url_for_partition cfg k = Inr url \<and> is_terminal_partition (partitions cfg ! k) \<and>
     serves_shard pl hp io (nodes url) sh \<and> is_terminal (nodes url)"

text \<open>The tables of the stages stand where the request expects them.\<close>

definition tables_stand ::
    "(string \<Rightarrow> ('w, 'g) stage_node) \<Rightarrow> runtime_request \<Rightarrow> nat \<Rightarrow> 'g tables \<Rightarrow> string list \<Rightarrow> bool" where
  "tables_stand nodes rq0 before tables urls \<longleftrightarrow> (\<forall>url \<in> set urls. stands_at (nodes url) rq0 before (tables url))"

text \<open>How a pass relates to a chain of executors: it completes with the token, every table advanced, or
  it fails, and then the chain does, or a reply was too large for a frame.\<close>

definition pass_outcome ::
    "number_io \<Rightarrow> (string \<Rightarrow> ('w, 'g) stage_node) \<Rightarrow> runtime_request \<Rightarrow> nat \<Rightarrow> string list \<Rightarrow> 'g tables \<Rightarrow> int result \<Rightarrow>
     'g executor list \<Rightarrow> stage_client_result result \<times> 'g tables loop_state \<Rightarrow> bool" where
  "pass_outcome io nodes rq0 position urls tables r exs w \<longleftrightarrow>
     (case w of
        (Inl _, _) \<Rightarrow> isl r \<or> reply_too_large io nodes (rq_request_id rq0) urls
      | (Inr res, (_, tables')) \<Rightarrow>
          \<not> isl r \<and> next_token_id_from_terminal_response io res = r \<and>
          list_all2 (\<lambda>url ex. advanced (nodes url) (rq_request_id rq0) (int position) ex (tables' url)) urls exs \<and>
          (\<forall>url. url \<in> set urls \<or> tables' url = tables url))"

lemma too_large_mono: "reply_too_large io nodes rid us \<Longrightarrow> set us \<subseteq> set vs \<Longrightarrow> reply_too_large io nodes rid vs"
  unfolding reply_too_large_def by blast

lemma pass_outcome_fails: "isl (fst w) \<Longrightarrow> isl r \<or> reply_too_large io nodes (rq_request_id rq0) urls \<Longrightarrow>
   pass_outcome io nodes rq0 position urls tables r exs w"
  by (auto simp: pass_outcome_def split: prod.splits sum.splits)

lemma pass_outcome_Cons:
  assumes "pass_outcome io nodes rq0 position urls (tables(url := ss')) r exs w" "url \<notin> set urls"
    and "advanced (nodes url) (rq_request_id rq0) (int position) ex ss'"
  shows "pass_outcome io nodes rq0 position (url # urls) tables r (ex # exs) w"
  using assms by (auto simp: pass_outcome_def fun_upd_def dest: too_large_mono [where vs = "url # urls"] split: prod.splits sum.splits if_splits)

lemma reply_token:
  assumes "passable io rq" "replies io rs token empty_tensor" "0 \<le> token" "token < 2 ^ 31" "tensor_writable (metadata (rq_input_tensor rq))"
    "response_frame res = reply_frame io nd rq rs"
  shows "next_token_id_from_terminal_response io res = Inr token"
proof -
  have "int32_range token" using assms(3,4) by (simp add: int32_range_def)
  have tm: "response_tensor_metadata rs rq = metadata (rq_input_tensor rq)"
    using assms(2) by (simp add: replies_def response_tensor_metadata_def empty_tensor_def default_tensor_metadata_def)
  note read = reply_passes_request(1) [OF assms(1,2) \<open>int32_range token\<close>, of nd, unfolded tm, OF assms(5)]
  moreover have "metadata_json (reply_frame io nd rq rs) \<noteq> []"
    by (simp add: reply_frame_def runtime_response_metadata_json_def response_head_json_def Let_def)
  ultimately show ?thesis using assms(2,3)
    by (simp add: next_token_id_from_terminal_response_def assms(6) forwarded_metadata_def replies_def)
qed

lemma same_request_step:
  assumes "same_request rq0 rq"
  shows "stands_at nd rq0 before ss = stands_at nd rq before ss" "mode_fits rq0 n = mode_fits rq n"
    "rq_kv_cache_enabled rq0 = rq_kv_cache_enabled rq" "rq_activation_precision rq0 = rq_activation_precision rq"
    "request_sampling F rq0 = request_sampling F rq"
  using assms same_request_node(2) [OF assms, of nd before ss] same_request_sampling [OF assms, of F]
  by (simp_all add: same_request_def mode_fits_def)

definition head_tokens_fit ::
    "('w, 'g) platform \<Rightarrow> hyperparams \<Rightarrow> 32 word \<Rightarrow> sampling_params \<Rightarrow> 'w stage_shard \<Rightarrow> bool" where
  "head_tokens_fit pl hp entropy sampling final \<longleftrightarrow>
     (\<forall>tensor before (ex :: 'g executor) t ex'. execute_terminal pl (shard_ctx final) hp entropy tensor (shard_layers final) before
        True True sampling ex = (Inr t, ex') \<longrightarrow> 0 \<le> t \<and> t < 2 ^ 31)"

lemma walk_last:
  assumes hp: "check_hyperparams hp = Inr ()" and rq0: "passable io rq0" and ready: "last_stage pl hp io cfg nodes k final url" "stands_at (nodes url) rq0 before (tables url)"
    and frame: "frame_fits frame" "frame_carries io rq0 (rows_tensor hp rows) frame"
    and rows: "rows_fit hp rows" "mode_fits rq0 (length rows)" "before + length rows < 2 ^ 31"
    and head: "head_tokens_fit pl hp (sn_entropy (nodes url)) (request_sampling (fp pl) rq0) final"
    and exec: "execute_terminal pl (shard_ctx final) hp (sn_entropy (nodes url)) (rows_tensor hp rows) (shard_layers final) before
      True True (request_sampling (fp pl) rq0) (node_executor (nodes url) rq0 (tables url)) = (r, ex)"
  shows "pass_outcome io nodes rq0 (before + length rows) [url] tables r [ex]
    (walk_partitions F io cfg (stage_sender F io elapsed nodes) ti mode (k # is) frame (result, tables))"
proof -
  note ready = ready(1) [unfolded last_stage_def] ready(2)
  let ?exec = "execute_terminal pl (shard_ctx final) hp (sn_entropy (nodes url)) (rows_tensor hp rows) (shard_layers final) before
      True True (request_sampling (fp pl) rq0)"
  have step: "step_done io (nodes url) rq (before + length rows) (tables url) ?exec (\<lambda>token. token) (\<lambda>_. empty_tensor)"
    if "same_request rq0 rq" "rq_input_tensor rq = rows_tensor hp rows" for rq
    using terminal_step [of pl hp io "nodes url" final rq before "tables url" rows] ready hp rows rq0 that
    by (simp add: same_request_step [OF that(1)] passable_def)
  obtain res ss' where call: "stage_sender F io elapsed nodes url frame tables = (Inr res, tables(url := ss'))"
    "advanced (nodes url) (rq_request_id rq0) (int (before + length rows)) ex ss'"
    "case r of Inl e \<Rightarrow> \<not> http_ok res
      | Inr out \<Rightarrow> \<not> http_ok res \<and> reply_too_large io nodes (rq_request_id rq0) [url] \<or>
          (\<exists>rq rs. same_request rq0 rq \<and> rq_input_tensor rq = rows_tensor hp rows \<and> replies io rs out empty_tensor \<and> http_ok res \<and>
             response_frame res = reply_frame io (nodes url) rq rs \<and> frame_fits (response_frame res))"
    by (rule stage_call [where elapsed = elapsed and nodes = nodes and url = url and tables = tables, OF _ rq0 frame step exec])
      (use ready in auto)
  note walk = walk_step [where send = "stage_sender F io elapsed nodes", OF _ call(1)]
  show ?thesis
  proof (cases "http_ok res")
    case False
    then show ?thesis using walk(1) [of cfg k F io ti mode "is" result] ready call(3)
      by (intro pass_outcome_fails) (auto split: sum.splits)
  next
    case True
    then obtain t rq rs where t: "r = Inr t" "same_request rq0 rq" "rq_input_tensor rq = rows_tensor hp rows"
      "replies io rs t empty_tensor" "response_frame res = reply_frame io (nodes url) rq rs"
      using call(3) by (auto split: sum.splits)
    have "0 \<le> t" "t < 2 ^ 31" using head exec unfolding head_tokens_fit_def t(1) by blast+
    with reply_token [OF _ t(4) _ _ _ t(5)] same_request_passable [OF t(2)] rq0 rows_valid(4) [OF hp rows(1)] t(3)
    have "next_token_id_from_terminal_response io res = Inr t" by simp
    moreover obtain result' where "walk_partitions F io cfg (stage_sender F io elapsed nodes) ti mode (k # is) frame (result, tables) =
        (Inr res, (result', tables(url := ss')))" using walk(2) [of cfg k F io ti mode "is" result] ready True by auto
    ultimately show ?thesis using call(2) by (simp add: pass_outcome_def t(1))
  qed
qed

lemma walk_tail:
  assumes hp: "check_hyperparams hp = Inr ()" and rq0: "passable io rq0"
    and head: "head_tokens_fit pl hp (sn_entropy (nodes url)) (request_sampling (fp pl) rq0) final"
    and ready: "middle_stages pl hp io cfg nodes k sts" "last_stage pl hp io cfg nodes (k + length sts) final url"
      "distinct (map snd sts @ [url])" "tables_stand nodes rq0 before tables (map snd sts @ [url])"
    and frame: "frame_fits frame" "frame_carries io rq0 (rows_tensor hp rows) frame"
    and rows: "rows_fit hp rows" "mode_fits rq0 (length rows)" "before + length rows < 2 ^ 31"
    and tail: "tail_token pl hp (rq_activation_precision rq0) (sn_entropy (nodes url)) (request_sampling (fp pl) rq0) (map fst sts)
        final before (rows_tensor hp rows) (map (\<lambda>st. node_executor (nodes (snd st)) rq0 (tables (snd st))) sts)
        (node_executor (nodes url) rq0 (tables url)) = (r, exs, ex)"
  shows "pass_outcome io nodes rq0 (before + length rows) (map snd sts @ [url]) tables r (exs @ [ex])
    (walk_partitions F io cfg (stage_sender F io elapsed nodes) ti mode [k..<Suc (k + length sts)] frame (result, tables))"
  using ready frame rows tail
proof (induction sts arbitrary: k frame rows tables exs result)
  case Nil
  have "execute_terminal pl (shard_ctx final) hp (sn_entropy (nodes url)) (rows_tensor hp rows) (shard_layers final) before
      True True (request_sampling (fp pl) rq0) (node_executor (nodes url) rq0 (tables url)) = (r, ex)" "exs = []"
    using Nil.prems(10) by (auto simp: tail_token_def split: prod.splits)
  with walk_last [where nodes = nodes and url = url and tables = tables and rows = rows, OF hp rq0 _ _ Nil.prems(5-9) head this(1)] Nil.prems(2,4) show ?case
    by (simp add: tables_stand_def)
next
  case (Cons st sts)
  obtain sh u where st: "st = (sh, u)" by (rule prod.exhaust)
  note ready = Cons.prems(1) [unfolded st middle_stages.simps fst_conv snd_conv]
  have stands: "stands_at (nodes u) rq0 before (tables u)" using Cons.prems(4) by (simp add: tables_stand_def st)
  have prec: "rq_activation_precision rq0 \<noteq> ''fp16''" "rq_activation_precision rq0 \<noteq> ''float16''"
    using rq0 by (simp_all add: passable_def)
  let ?exec = "execute_intermediate pl (shard_ctx sh) hp (rows_tensor hp rows) (shard_layers sh) before (rq_activation_precision rq0)"
  let ?urls = "map snd sts @ [url]"
  obtain r1 ex1 where exec: "?exec (node_executor (nodes u) rq0 (tables u)) = (r1, ex1)" by (rule prod.exhaust)
  have step: "step_done io (nodes u) rq (before + length rows) (tables u) ?exec (\<lambda>_. - 1) (\<lambda>out. out)"
    if "same_request rq0 rq" "rq_input_tensor rq = rows_tensor hp rows" for rq
    using intermediate_step [of pl hp io "nodes u" sh rq before "tables u" rows] ready stands hp Cons.prems(7-9) rq0 that
    by (simp add: same_request_step [OF that(1)] passable_def)
  obtain res ss' where call: "stage_sender F io elapsed nodes u frame tables = (Inr res, tables(u := ss'))"
    "advanced (nodes u) (rq_request_id rq0) (int (before + length rows)) ex1 ss'"
    "case r1 of Inl e \<Rightarrow> \<not> http_ok res
      | Inr out \<Rightarrow> \<not> http_ok res \<and> reply_too_large io nodes (rq_request_id rq0) [u] \<or>
          (\<exists>rq rs. same_request rq0 rq \<and> rq_input_tensor rq = rows_tensor hp rows \<and> replies io rs (- 1) out \<and> http_ok res \<and>
             response_frame res = reply_frame io (nodes u) rq rs \<and> frame_fits (response_frame res))"
    by (rule stage_call [where elapsed = elapsed and nodes = nodes and url = u and tables = tables,
          OF _ rq0 Cons.prems(5,6) step exec]) (use ready in auto)
  have "is": "[k..<Suc (k + length (st # sts))] = k # [Suc k..<Suc (Suc k + length sts)]" by (simp add: upt_conv_Cons del: upt_Suc)
  note walk = walk_step [where send = "stage_sender F io elapsed nodes", OF _ call(1)]
  note tail = Cons.prems(10) [unfolded st, simplified, unfolded tail_token_Cons exec]
  show ?case
  proof (cases "http_ok res")
    case False
    have "isl r \<or> reply_too_large io nodes (rq_request_id rq0) (map snd (st # sts) @ [url])"
      using call(3) tail False too_large_mono [of io nodes "rq_request_id rq0" "[u]" "map snd (st # sts) @ [url]"]
      by (auto simp: st split: sum.splits)
    then show ?thesis using walk(1) [OF _ False, of cfg k F io ti mode "[Suc k..<Suc (Suc k + length sts)]" result] ready
      unfolding "is" by (intro pass_outcome_fails) simp_all
  next
    case True
    then obtain out rq rs where out: "r1 = Inr out" "same_request rq0 rq" "rq_input_tensor rq = rows_tensor hp rows"
      "replies io rs (- 1) out" "response_frame res = reply_frame io (nodes u) rq rs" "frame_fits (response_frame res)"
      using call(3) by (auto split: sum.splits)
    obtain rows' where rows': "out = rows_tensor hp rows'" "rows_fit hp rows'" "length rows' = length rows"
      using exec [unfolded intermediate_rows [OF hp Cons.prems(7) prec]] fold_rows_fit [OF Cons.prems(7)]
      unfolding out(1) by (fastforce split: prod.splits sum.splits)
    have carries: "frame_carries io rq0 (rows_tensor hp rows') (response_frame res)"
      unfolding out(5) rows'(1) [symmetric]
      by (rule reply_carries [OF rq0 out(2,4)]) (use rows_valid(4) [OF hp rows'(2)] rows'(1) in \<open>simp_all add: rows_tensor_def\<close>)
    let ?tables = "tables(u := ss')"
    have fresh: "u \<notin> set ?urls" "u \<notin> snd ` set sts" using Cons.prems(3) by (auto simp: st)
    have others: "map (\<lambda>st. node_executor (nodes (snd st)) rq0 (?tables (snd st))) sts =
        map (\<lambda>st. node_executor (nodes (snd st)) rq0 (tables (snd st))) sts"
      using fresh(2) by (intro map_cong) auto
    obtain exs' where exs': "exs = ex1 # exs'" and tail': "tail_token pl hp (rq_activation_precision rq0) (sn_entropy (nodes url))
        (request_sampling (fp pl) rq0) (map fst sts) final before (rows_tensor hp rows')
        (map (\<lambda>st. node_executor (nodes (snd st)) rq0 (?tables (snd st))) sts)
        (node_executor (nodes url) rq0 (?tables url)) = (r, exs', ex)"
      using tail fresh(1) unfolding others by (auto simp: out(1) rows'(1) split: prod.splits)
    obtain result' where onward: "walk_partitions F io cfg (stage_sender F io elapsed nodes) ti mode [k..<Suc (k + length (st # sts))]
        frame (result, tables) = walk_partitions F io cfg (stage_sender F io elapsed nodes) ti mode
        [Suc k..<Suc (Suc k + length sts)] (response_frame res) (result', ?tables)"
      using walk(2) [OF _ True, of cfg k F io ti mode "[Suc k..<Suc (Suc k + length sts)]" result] ready unfolding "is" by auto
    have "tables_stand nodes rq0 before ?tables ?urls"
      using Cons.prems(4) fresh(1) by (auto simp: tables_stand_def)
    moreover have "middle_stages pl hp io cfg nodes (Suc k) sts" "last_stage pl hp io cfg nodes (Suc k + length sts) final url"
      using ready Cons.prems(2) by simp_all
    moreover have "distinct ?urls" "mode_fits rq0 (length rows')" "before + length rows' < 2 ^ 31"
      using Cons.prems(3,8,9) rows'(3) by simp_all
    ultimately have "pass_outcome io nodes rq0 (before + length rows') ?urls ?tables r (exs' @ [ex])
        (walk_partitions F io cfg (stage_sender F io elapsed nodes) ti mode [Suc k..<Suc (Suc k + length sts)]
          (response_frame res) (result', ?tables))"
      using Cons.IH [where tables = ?tables and k = "Suc k" and result = result', OF _ _ _ _ out(6) carries rows'(2) _ _ tail'] by blast
    from pass_outcome_Cons [OF this [unfolded rows'(3)] fresh(1) call(2)] show ?thesis unfolding onward exs' by (simp add: st)
  qed
qed

end
