(* ===== verification/Serving_Run.thy ===== *)
theory Serving_Run
  imports Serving
begin

text \<open>
  A pass of the gateway against the whole model on one machine, and the generation loop made of such
  passes.
\<close>

section \<open>One pass\<close>

text \<open>The request a stage reads from the gateway's frame.\<close>

definition gateway_request :: "number_io \<Rightarrow> generation_loop_config \<Rightarrow> string \<Rightarrow> int \<Rightarrow> string \<Rightarrow> int list \<Rightarrow> runtime_request" where
  "gateway_request io cfg rid ti mode toks =
     projr (make_runtime_request io (step_frame io cfg rid ti mode [1, int (length toks)] toks) 0)"

lemma step_frame_carries:
  assumes "sendable io cfg rid ti mode ''int64'' [1, int (length toks)]" "readable io cfg"
  shows "frame_carries io (gateway_request io cfg rid ti mode toks) (token_tensor toks)
      (step_frame io cfg rid ti mode [1, int (length toks)] toks)"
    "rq_request_id (gateway_request io cfg rid ti mode toks) = rid"
    "rq_token_index (gateway_request io cfg rid ti mode toks) = ti"
    "rq_generation_mode (gateway_request io cfg rid ti mode toks) = mode"
    "rq_activation_precision (gateway_request io cfg rid ti mode toks) = activation_precision cfg"
  by (simp_all add: frame_carries_def gateway_request_def make_runtime_request_def step_frame_def
      gateway_metadata_read [OF assms] sent_metadata_def same_request_def token_tensor_def)

text \<open>The deployment: every partition of the graph has a stage that serves its shard, at the URL the
  gateway routes to.\<close>

definition deployed ::
    "('w, 'g) platform \<Rightarrow> hyperparams \<Rightarrow> number_io \<Rightarrow> generation_loop_config \<Rightarrow> (string \<Rightarrow> ('w, 'g) stage_node) \<Rightarrow>
     'w stage_shard \<Rightarrow> ('w stage_shard \<times> string) list \<Rightarrow> 'w stage_shard \<Rightarrow> string \<Rightarrow> bool" where
  "deployed pl hp io cfg nodes first sts final url \<longleftrightarrow>
     \<not> native_stage_chaining_enabled cfg \<and> length (partitions cfg) = Suc (Suc (length sts)) \<and>
     distinct (first_stage_url cfg # map snd sts @ [url]) \<and> \<not> is_terminal_partition (partitions cfg ! 0) \<and>
     serves_shard pl hp io (nodes (first_stage_url cfg)) first \<and> is_source (nodes (first_stage_url cfg)) \<and>
     middle_stages pl hp io cfg nodes 1 sts \<and> last_stage pl hp io cfg nodes (Suc (length sts)) final url"

lemma source_tensor:
  assumes prec: "prec \<noteq> ''fp16''" "prec \<noteq> ''float16''"
    and tokens: "tokens \<noteq> []" "int (length tokens) < 2 ^ 31" "int (length tokens) * hidden_size hp < 2 ^ 61"
      "\<forall>t \<in> set tokens. - (2 ^ 63) \<le> t \<and> t < 2 ^ 63"
    and run: "execute_source pl ctx hp (token_tensor tokens) ls before prec s = (Inr out, s')"
  obtains rows where "out = rows_tensor hp rows" "rows_fit hp rows" "length rows = length tokens"
proof -
  have "tensor_to_token_ids (token_tensor tokens) = Inr tokens"
    using token_ids_codec [of tokens] tokens(1,2,4) by (simp add: token_tensor_def)
  then obtain hidden where hidden: "embed_tokens pl ctx hp tokens = Inr hidden"
    using run by (auto simp: execute_source_def bindA_apply split: sum.splits)
  have "length hidden = length tokens * hp_hidden hp" using embed_tokens_length [OF hidden] by simp
  note rows = rows_of [OF this]
  note src = source_rows [OF prec tokens hidden]
  show ?thesis
    using run [unfolded src(1)] fold_rows_fit [OF src(2)] rows that by (fastforce split: prod.splits sum.splits)
qed

lemma pass_distributed:
  assumes hp: "check_hyperparams hp = Inr ()" and send: "sendable io cfg rid ti mode ''int64'' [1, int (length tokens)]" "readable io cfg"
    and rq0: "rq0 = gateway_request io cfg rid ti mode tokens" "passable io rq0" "mode_fits rq0 (length tokens)"
    and deployed: "deployed pl hp io cfg nodes first sts final url"
    and stands: "tables_stand nodes rq0 before tables (first_stage_url cfg # map snd sts @ [url])"
    and frame: "frame_fits (step_frame io cfg rid ti mode [1, int (length tokens)] tokens)"
    and tokens: "before + length tokens < 2 ^ 31" "int (length tokens) * hidden_size hp < 2 ^ 61"
      "\<forall>t \<in> set tokens. - (2 ^ 63) \<le> t \<and> t < 2 ^ 63"
    and head: "head_tokens_fit pl hp (sn_entropy (nodes url)) (request_sampling (fp pl) rq0) final"
    and d: "distributed_token pl hp (rq_activation_precision rq0) (sn_entropy (nodes url)) (request_sampling (fp pl) rq0)
        first (map fst sts) final before tokens (node_executor (nodes (first_stage_url cfg)) rq0 (tables (first_stage_url cfg)))
        (map (\<lambda>st. node_executor (nodes (snd st)) rq0 (tables (snd st))) sts) (node_executor (nodes url) rq0 (tables url))
        = (r, s', ss', t')"
  shows "pass_outcome io nodes rq0 (before + length tokens) (first_stage_url cfg # map snd sts @ [url]) tables r (s' # ss' @ [t'])
    (forward_through_partition_graph F io cfg (stage_sender F io elapsed nodes)
      (step_frame io cfg rid ti mode [1, int (length tokens)] tokens) ti mode (result, tables))"
proof -
  note dep = deployed [unfolded deployed_def]
  let ?u = "first_stage_url cfg" and ?frame = "step_frame io cfg rid ti mode [1, int (length tokens)] tokens"
  let ?send = "stage_sender F io elapsed nodes" and ?rest = "map snd sts @ [url]" and ?n = "length sts"
  let ?exec = "execute_source pl (shard_ctx first) hp (token_tensor tokens) (shard_layers first) before (rq_activation_precision rq0)"
  have prec: "rq_activation_precision rq0 \<noteq> ''fp16''" "rq_activation_precision rq0 \<noteq> ''float16''"
    using rq0(2) by (simp_all add: passable_def)
  have toks: "tokens \<noteq> []" "int (length tokens) < 2 ^ 31" using rq0(3) tokens(1) by (auto simp: mode_fits_def)
  note carries = step_frame_carries(1) [OF send, folded rq0(1)]
  obtain r1 ex1 where exec: "?exec (node_executor (nodes ?u) rq0 (tables ?u)) = (r1, ex1)" by (rule prod.exhaust)
  have step: "step_done io (nodes ?u) rq (before + length tokens) (tables ?u) ?exec (\<lambda>_. - 1) (\<lambda>out. out)"
    if "same_request rq0 rq" "rq_input_tensor rq = token_tensor tokens" for rq
    using source_step [of pl hp io "nodes ?u" first rq before "tables ?u" tokens] dep stands hp tokens(1) rq0(2,3) that
    by (simp add: same_request_step [OF that(1)] passable_def tables_stand_def)
  obtain res ss where call: "?send ?u ?frame tables = (Inr res, tables(?u := ss))"
    "advanced (nodes ?u) (rq_request_id rq0) (int (before + length tokens)) ex1 ss"
    "case r1 of Inl e \<Rightarrow> \<not> http_ok res
      | Inr out \<Rightarrow> \<not> http_ok res \<and> reply_too_large io nodes (rq_request_id rq0) [?u] \<or>
          (\<exists>rq rs. same_request rq0 rq \<and> rq_input_tensor rq = token_tensor tokens \<and> replies io rs (- 1) out \<and> http_ok res \<and>
             response_frame res = reply_frame io (nodes ?u) rq rs \<and> frame_fits (response_frame res))"
    by (rule stage_call [where elapsed = elapsed and nodes = nodes and url = ?u and tables = tables,
          OF _ rq0(2) frame carries step exec]) (use dep in auto)
  have forward: "forward_through_partition_graph F io cfg ?send ?frame ti mode (result, tables) =
      walk_partitions F io cfg ?send ti mode (0 # [1..<Suc (1 + ?n)]) ?frame (result, tables)"
  proof -
    have "partitions cfg \<noteq> []" "\<not> native_stage_chaining_enabled cfg" "[0..<length (partitions cfg)] = 0 # [1..<Suc (1 + ?n)]"
      using dep by (auto simp: upt_conv_Cons simp del: upt_Suc)
    then show ?thesis by (simp only: forward_through_partition_graph_def if_False)
  qed
  have url0: "stage_url_for_partition cfg 0 = Inr ?u" by (simp add: stage_url_for_partition_def)
  note walk = walk_step [where send = ?send, OF url0 call(1)]
  note tail = d [unfolded distributed_tail exec]
  show ?thesis
  proof (cases "http_ok res")
    case False
    have "isl r \<or> reply_too_large io nodes (rq_request_id rq0) (?u # ?rest)"
      using call(3) tail False too_large_mono [of io nodes "rq_request_id rq0" "[?u]" "?u # ?rest"] by (auto split: sum.splits)
    then show ?thesis using walk(1) [OF False, of F io ti mode "[1..<Suc (1 + ?n)]" result]
      unfolding forward by (intro pass_outcome_fails) simp_all
  next
    case True
    then obtain out rq rs where out: "r1 = Inr out" "same_request rq0 rq" "rq_input_tensor rq = token_tensor tokens"
      "replies io rs (- 1) out" "response_frame res = reply_frame io (nodes ?u) rq rs" "frame_fits (response_frame res)"
      using call(3) by (auto split: sum.splits)
    obtain rows where rows: "out = rows_tensor hp rows" "rows_fit hp rows" "length rows = length tokens"
      using source_tensor [OF prec toks tokens(2,3) exec [unfolded out(1)]] by metis
    have next_carries: "frame_carries io rq0 (rows_tensor hp rows) (response_frame res)"
      unfolding out(5) rows(1) [symmetric]
      by (rule reply_carries [OF rq0(2) out(2,4)]) (use rows_valid(4) [OF hp rows(2)] rows(1) in \<open>simp_all add: rows_tensor_def\<close>)
    let ?tables = "tables(?u := ss)"
    have fresh: "?u \<notin> set ?rest" "?u \<notin> snd ` set sts" "?u \<noteq> url" "distinct ?rest" using dep by auto
    have others: "map (\<lambda>st. node_executor (nodes (snd st)) rq0 (?tables (snd st))) sts =
        map (\<lambda>st. node_executor (nodes (snd st)) rq0 (tables (snd st))) sts"
      using fresh(2) by (intro map_cong refl) force
    have tail': "tail_token pl hp (rq_activation_precision rq0) (sn_entropy (nodes url))
        (request_sampling (fp pl) rq0) (map fst sts) final before (rows_tensor hp rows)
        (map (\<lambda>st. node_executor (nodes (snd st)) rq0 (?tables (snd st))) sts)
        (node_executor (nodes url) rq0 (?tables url)) = (r, ss', t')" and s': "s' = ex1"
      using tail fresh(3) unfolding others by (auto simp: out(1) rows(1) split: prod.splits)
    have ready: "middle_stages pl hp io cfg nodes 1 sts" "last_stage pl hp io cfg nodes (1 + ?n) final url"
      using dep by simp_all
    have stand: "tables_stand nodes rq0 before ?tables ?rest"
      using stands fresh(1) unfolding tables_stand_def by (metis fun_upd_other list.set_intros(2))
    have n: "mode_fits rq0 (length rows)" "before + length rows < 2 ^ 31" using rq0(3) tokens(1) rows(3) by simp_all
    obtain result' where onward: "walk_partitions F io cfg ?send ti mode (0 # [1..<Suc (1 + ?n)]) ?frame (result, tables) =
        walk_partitions F io cfg ?send ti mode [1..<Suc (1 + ?n)] (response_frame res) (result', ?tables)"
      using walk(2) [OF True, of F io ti mode "[1..<Suc (1 + ?n)]" result] dep by auto
    note rest = walk_tail [where tables = ?tables and k = 1 and nodes = nodes and elapsed = elapsed and result = result'
        and F = F and ti = ti and mode = mode, OF hp rq0(2) head ready(1,2) fresh(4) stand out(6) next_carries rows(2) n tail']
    from pass_outcome_Cons [OF rest [unfolded rows(3)] fresh(1) call(2)] show ?thesis
      unfolding forward onward s' by simp
  qed
qed

end
