(* ===== verification/Served_Generation.thy ===== *)
theory Served_Generation
  imports Serving_Run
begin

text \<open>
  The generation loop over the stages of a deployment against token by token generation on one
  machine that holds the whole model.
\<close>

section \<open>A deployment of a model\<close>

text \<open>The gateway's configuration, the stages by URL, and the model they serve: the shard of the first
  partition, of those in the middle with their URLs, and of the last with its URL.\<close>

record ('w, 'g) deployment =
  dp_platform :: "('w, 'g) platform"
  dp_hparams :: hyperparams
  dp_io :: number_io
  dp_config :: generation_loop_config
  dp_nodes :: "string \<Rightarrow> ('w, 'g) stage_node"
  dp_model :: "'w tensor_context"
  dp_first :: "'w stage_shard"
  dp_middle :: "('w stage_shard \<times> string) list"
  dp_last :: "'w stage_shard"
  dp_last_url :: string

definition dp_urls :: "('w, 'g) deployment \<Rightarrow> string list" where
  "dp_urls d = first_stage_url (dp_config d) # map snd (dp_middle d) @ [dp_last_url d]"

definition dp_layers :: "('w, 'g) deployment \<Rightarrow> int list" where
  "dp_layers d = concat (map shard_layers (dp_first d # map fst (dp_middle d) @ [dp_last d]))"

definition dp_terminal :: "('w, 'g) deployment \<Rightarrow> ('w, 'g) stage_node" where
  "dp_terminal d = dp_nodes d (dp_last_url d)"

text \<open>The controls as the terminal stage applies them.\<close>

definition gateway_sampling :: "fpu \<Rightarrow> number_io \<Rightarrow> generation_loop_config \<Rightarrow> sampling_params" where
  "gateway_sampling F io cfg =
     (let t = the (stod io (stream_f64 io (gl_temperature cfg)))
      in \<lparr>sampling_enabled = f64_lt f64_zero t, temperature = f32_of_f64 F t, top_k = gl_top_k cfg,
          top_p = (if gl_has_top_p cfg then f32_of_f64 F (the (stod io (to_string_f64 io (gl_top_p cfg))))
                   else top_p default_sampling),
          has_seed = gl_has_seed cfg,
          seed = (if gl_has_seed cfg then i64_of_f64 io (the (stod io (show_int (gl_seed cfg)))) else 0)\<rparr>)"

definition dp_sampling :: "('w, 'g) deployment \<Rightarrow> sampling_params" where
  "dp_sampling d = gateway_sampling (fp (dp_platform d)) (dp_io d) (dp_config d)"

lemma request_sampling_gateway:
  assumes "sendable io cfg rid ti mode ''int64'' [1, int (length toks)]" "readable io cfg"
  shows "request_sampling F (gateway_request io cfg rid ti mode toks) = gateway_sampling F io cfg"
  by (simp add: gateway_request_def make_runtime_request_def step_frame_def gateway_metadata_read [OF assms]
      sent_metadata_def request_sampling_def gateway_sampling_def Let_def)

definition serves_model :: "('w, 'g) deployment \<Rightarrow> bool" where
  "serves_model d \<longleftrightarrow> check_hyperparams (dp_hparams d) = Inr () \<and>
     deployed (dp_platform d) (dp_hparams d) (dp_io d) (dp_config d) (dp_nodes d) (dp_first d) (dp_middle d) (dp_last d)
       (dp_last_url d) \<and>
     shards_of_model (dp_model d) (dp_first d) (map fst (dp_middle d)) (dp_last d) \<and>
     head_tokens_fit (dp_platform d) (dp_hparams d) (sn_entropy (dp_terminal d)) (dp_sampling d) (dp_last d)"

text \<open>A step the gateway can describe: its metadata can be written and read, the stages can pass it
  on, and its frame is within the limits.\<close>

definition step_writable :: "('w, 'g) deployment \<Rightarrow> string \<Rightarrow> int \<Rightarrow> string \<Rightarrow> nat \<Rightarrow> bool" where
  "step_writable d rid ti mode n \<longleftrightarrow>
     sendable (dp_io d) (dp_config d) rid ti mode ''int64'' [1, int n] \<and> readable (dp_io d) (dp_config d) \<and>
     (\<forall>toks. length toks = n \<longrightarrow> passable (dp_io d) (gateway_request (dp_io d) (dp_config d) rid ti mode toks) \<and>
        frame_fits (step_frame (dp_io d) (dp_config d) rid ti mode [1, int n] toks))"

section \<open>One machine\<close>

text \<open>The tokens generated so far, the positions in the caches and the executor, after \<open>k\<close> tokens: the
  first is computed from the prompt, every other from the one before it.\<close>

primrec single_machine ::
    "('w, 'g) deployment \<Rightarrow> int list \<Rightarrow> nat \<Rightarrow> (int list \<times> nat \<times> 'g executor) result" where
  "single_machine d prompt 0 = Inr ([], 0, new_executor (sn_fresh (dp_terminal d)))"
| "single_machine d prompt (Suc k) =
     bindR (single_machine d prompt k) (\<lambda>(ids, before, m).
       let input = (if ids = [] then prompt else [last ids])
       in case monolithic_token (dp_platform d) (dp_model d) (dp_hparams d) (sn_entropy (dp_terminal d)) (dp_sampling d)
                 (dp_layers d) before input m of
            (Inl e, _) \<Rightarrow> Inl e
          | (Inr t, m') \<Rightarrow> Inr (ids @ [t], before + length input, m'))"

section \<open>One pass\<close>

text \<open>The stages' sessions hold what the single machine holds.\<close>

definition sessions_agree :: "('w, 'g) deployment \<Rightarrow> string \<Rightarrow> nat \<Rightarrow> 'g executor \<Rightarrow> 'g tables \<Rightarrow> bool" where
  "sessions_agree d rid before m tables \<longleftrightarrow>
     (\<exists>s ss t. list_all2 (\<lambda>url ex. advanced (dp_nodes d url) rid (int before) ex (tables url)) (dp_urls d) (s # ss @ [t]) \<and>
        chain_matches (dp_platform d) (dp_hparams d) (dp_first d) (map fst (dp_middle d)) (dp_last d) s ss t m \<and> rng t = rng m)"

definition pass_result ::
    "('w, 'g) deployment \<Rightarrow> string \<Rightarrow> nat \<Rightarrow> 'g executor \<Rightarrow> int result \<Rightarrow>
     stage_client_result result \<times> 'g tables loop_state \<Rightarrow> bool" where
  "pass_result d rid position m q w \<longleftrightarrow> (case w of
      (Inl _, _) \<Rightarrow> isl q \<or> reply_too_large (dp_io d) (dp_nodes d) rid (dp_urls d)
    | (Inr res, (_, tables)) \<Rightarrow> (\<exists>t. q = Inr t \<and> 0 \<le> t \<and> t < 2 ^ 31 \<and>
        next_token_id_from_terminal_response (dp_io d) res = Inr t) \<and> sessions_agree d rid position m tables)"

definition dp_forward ::
    "fpu \<Rightarrow> f64 \<Rightarrow> ('w, 'g) deployment \<Rightarrow> string \<Rightarrow> int \<Rightarrow> string \<Rightarrow> int list \<Rightarrow> ('g tables loop_state, stage_client_result) action" where
  "dp_forward F elapsed d rid ti mode toks =
     forward_through_partition_graph F (dp_io d) (dp_config d) (stage_sender F (dp_io d) elapsed (dp_nodes d))
       (step_frame (dp_io d) (dp_config d) rid ti mode [1, int (length toks)] toks) ti mode"

lemma distributed_token_range:
  assumes "head_tokens_fit pl hp entropy sampling final"
    "distributed_token pl hp prec entropy sampling first middle final before tokens s ss t = (Inr token, s', ss', t')"
  shows "0 \<le> token \<and> token < 2 ^ 31"
  using assms unfolding head_tokens_fit_def distributed_token_def by (fastforce split: prod.splits sum.splits)

lemma pass_agrees:
  assumes d: "serves_model d" and w: "step_writable d rid ti mode (length toks)"
    and rq0: "rq0 = gateway_request (dp_io d) (dp_config d) rid ti mode toks" "mode_fits rq0 (length toks)"
    and stands: "tables_stand (dp_nodes d) rq0 before tables (dp_urls d)"
    and toks: "before + length toks < 2 ^ 31" "int (length toks) * hidden_size (dp_hparams d) < 2 ^ 61"
      "\<forall>t \<in> set toks. - (2 ^ 63) \<le> t \<and> t < 2 ^ 63"
    and match: "chain_matches (dp_platform d) (dp_hparams d) (dp_first d) (map fst (dp_middle d)) (dp_last d)
        (node_executor (dp_nodes d (first_stage_url (dp_config d))) rq0 (tables (first_stage_url (dp_config d))))
        (map (\<lambda>st. node_executor (dp_nodes d (snd st)) rq0 (tables (snd st))) (dp_middle d))
        (node_executor (dp_terminal d) rq0 (tables (dp_last_url d))) m"
      "rng (node_executor (dp_terminal d) rq0 (tables (dp_last_url d))) = rng m"
    and mono: "monolithic_token (dp_platform d) (dp_model d) (dp_hparams d) (sn_entropy (dp_terminal d)) (dp_sampling d)
        (dp_layers d) before toks m = (q, m')"
  shows "pass_result d rid (before + length toks) m' q (dp_forward F elapsed d rid ti mode toks (result, tables))"
proof -
  note d = d [unfolded serves_model_def]
  note w = w [unfolded step_writable_def]
  have send: "sendable (dp_io d) (dp_config d) rid ti mode ''int64'' [1, int (length toks)]" "readable (dp_io d) (dp_config d)"
    and pass: "passable (dp_io d) rq0"
    and frame: "frame_fits (step_frame (dp_io d) (dp_config d) rid ti mode [1, int (length toks)] toks)"
    using w rq0(1) by blast+
  have hp: "check_hyperparams (dp_hparams d) = Inr ()" and dep: "deployed (dp_platform d) (dp_hparams d) (dp_io d)
      (dp_config d) (dp_nodes d) (dp_first d) (dp_middle d) (dp_last d) (dp_last_url d)"
    and shards: "shards_of_model (dp_model d) (dp_first d) (map fst (dp_middle d)) (dp_last d)" using d by blast+
  have sampling: "request_sampling (fp (dp_platform d)) rq0 = dp_sampling d"
    unfolding rq0(1) dp_sampling_def by (rule request_sampling_gateway [OF send])
  have head: "head_tokens_fit (dp_platform d) (dp_hparams d) (sn_entropy (dp_nodes d (dp_last_url d)))
      (request_sampling (fp (dp_platform d)) rq0) (dp_last d)" using d by (simp add: sampling dp_terminal_def)
  have rid: "rq_request_id rq0 = rid" using step_frame_carries(2) [OF send] rq0(1) by simp
  have prec: "rq_activation_precision rq0 \<noteq> ''fp16''" "rq_activation_precision rq0 \<noteq> ''float16''"
    using pass by (simp_all add: passable_def)
  have n: "toks \<noteq> []" "int (length toks) < 2 ^ 31" using rq0(2) toks(1) by (auto simp: mode_fits_def)
  obtain r s' ss' t' where run: "distributed_token (dp_platform d) (dp_hparams d) (rq_activation_precision rq0)
      (sn_entropy (dp_nodes d (dp_last_url d))) (request_sampling (fp (dp_platform d)) rq0) (dp_first d) (map fst (dp_middle d))
      (dp_last d) before toks
      (node_executor (dp_nodes d (first_stage_url (dp_config d))) rq0 (tables (first_stage_url (dp_config d))))
      (map (\<lambda>st. node_executor (dp_nodes d (snd st)) rq0 (tables (snd st))) (dp_middle d))
      (node_executor (dp_nodes d (dp_last_url d)) rq0 (tables (dp_last_url d))) = (r, s', ss', t')"
    by (rule prod_cases4)
  have same: "r = q \<and> chain_matches (dp_platform d) (dp_hparams d) (dp_first d) (map fst (dp_middle d)) (dp_last d) s' ss' t' m' \<and>
      (\<forall>token. r = Inr token \<longrightarrow> rng t' = rng m')"
    by (rule distributed_same [OF hp prec shards match [unfolded dp_terminal_def] n toks(2,3) run
          mono [unfolded dp_terminal_def dp_layers_def sampling [symmetric]]])
  have "pass_outcome (dp_io d) (dp_nodes d) rq0 (before + length toks) (dp_urls d) tables r (s' # ss' @ [t'])
      (dp_forward F elapsed d rid ti mode toks (result, tables))"
    unfolding dp_urls_def dp_forward_def
    by (rule pass_distributed [OF hp send rq0(1) pass rq0(2) dep stands [unfolded dp_urls_def] frame toks head run])
  note outcome = this [unfolded pass_outcome_def rid]
  obtain x result' tables' where w: "dp_forward F elapsed d rid ti mode toks (result, tables) = (x, (result', tables'))"
    by (rule prod_cases3)
  show ?thesis
  proof (cases x)
    case (Inl e)
    then show ?thesis using outcome same unfolding w by (simp add: pass_result_def)
  next
    case (Inr res)
    then obtain token where ok: "q = Inr token" "next_token_id_from_terminal_response (dp_io d) res = q"
      "list_all2 (\<lambda>url ex. advanced (dp_nodes d url) rid (int (before + length toks)) ex (tables' url)) (dp_urls d) (s' # ss' @ [t'])"
      using outcome same unfolding w by (cases q) simp_all
    then have r: "r = Inr token" using same by simp
    have "0 \<le> token \<and> token < 2 ^ 31" by (rule distributed_token_range [OF head run [unfolded r]])
    moreover have "rng t' = rng m'" using same r by simp
    ultimately show ?thesis using same ok unfolding w Inr pass_result_def sessions_agree_def by auto
  qed
qed

text \<open>The first request of a run finds new sessions, whatever the tables hold.\<close>

lemma prefill_session:
  assumes "rq_generation_mode rq = ''prefill''" "rq_token_index rq = 0"
  shows "request_session fresh rq ss = fresh_session (new_executor fresh)"
proof -
  have "map_of (erase_session (session_key rq) ss) (session_key rq) = None"
    using erase_keys(2) [of "session_key rq" ss] by (simp add: map_of_eq_None_iff)
  then show ?thesis using assms by (simp add: request_session_def opened_table_def)
qed

lemma new_chain_matches:
  assumes "check_hyperparams hp = Inr ()" "length gs = length middle"
  shows "chain_matches pl hp first middle final (new_executor g) (map new_executor gs) (new_executor h) (new_executor i)"
proof -
  have "\<exists>x. (new_executor g # map new_executor gs @ [new_executor h]) ! i = new_executor x"
    if "i < length (new_executor g # map new_executor gs @ [new_executor h])" for i
  proof -
    have "new_executor g # map new_executor gs @ [new_executor h] = map new_executor (g # gs @ [h])" by simp
    then show ?thesis using that by (metis length_map nth_map)
  qed
  then show ?thesis using assms by (fastforce simp: chain_matches_def)
qed

lemma prefill_agrees:
  assumes d: "serves_model d" and w: "step_writable d rid 0 ''prefill'' (length toks)" and ne: "toks \<noteq> []"
    and tables: "\<forall>url \<in> set (dp_urls d). sessions_ok (sn_env (dp_nodes d url)) (sn_rt (dp_nodes d url)) (tables url)"
    and toks: "length toks < 2 ^ 31" "int (length toks) * hidden_size (dp_hparams d) < 2 ^ 61"
      "\<forall>t \<in> set toks. - (2 ^ 63) \<le> t \<and> t < 2 ^ 63"
    and mono: "monolithic_token (dp_platform d) (dp_model d) (dp_hparams d) (sn_entropy (dp_terminal d)) (dp_sampling d)
        (dp_layers d) 0 toks (new_executor (sn_fresh (dp_terminal d))) = (q, m')"
  shows "pass_result d rid (length toks) m' q (dp_forward F elapsed d rid 0 ''prefill'' toks (result, tables))"
proof -
  define rq0 where "rq0 = gateway_request (dp_io d) (dp_config d) rid 0 ''prefill'' toks"
  have send: "sendable (dp_io d) (dp_config d) rid 0 ''prefill'' ''int64'' [1, int (length toks)]" "readable (dp_io d) (dp_config d)"
    using w by (simp_all add: step_writable_def)
  note fields = step_frame_carries(2-4) [OF send, folded rq0_def]
  note new = prefill_session [OF fields(3,2)]
  have exec: "node_executor nd rq0 ss = new_executor (sn_fresh nd)" for nd ss
    by (simp add: node_executor_def new fresh_session_def)
  have "tables_stand (dp_nodes d) rq0 0 tables (dp_urls d)"
    using tables by (simp add: tables_stand_def stands_at_def new fresh_session_def)
  moreover have "mode_fits rq0 (length toks)" using ne fields(3) by (simp add: mode_fits_def)
  moreover have "chain_matches (dp_platform d) (dp_hparams d) (dp_first d) (map fst (dp_middle d)) (dp_last d)
      (new_executor (sn_fresh (dp_nodes d (first_stage_url (dp_config d)))))
      (map new_executor (map (\<lambda>st. sn_fresh (dp_nodes d (snd st))) (dp_middle d)))
      (new_executor (sn_fresh (dp_terminal d))) (new_executor (sn_fresh (dp_terminal d)))"
    using d by (intro new_chain_matches) (simp_all add: serves_model_def)
  ultimately show ?thesis
    using pass_agrees [OF d w rq0_def, of 0 tables "new_executor (sn_fresh (dp_terminal d))" q m' F elapsed result] toks mono
    by (simp add: exec comp_def)
qed

text \<open>A later request finds the sessions the one before has left.\<close>

lemma advanced_stands:
  assumes "advanced nd rid (int before) ex ss" "rq_request_id rq = rid" "rq_generation_mode rq = ''decode''"
  shows "stands_at nd rq before ss \<and> node_executor nd rq ss = ex"
  using assms by (auto simp: advanced_def stands_at_def node_executor_def request_session_def opened_table_def session_key_def
      key_of_def)

lemma decode_agrees:
  assumes d: "serves_model d" and w: "step_writable d rid ti ''decode'' 1"
    and agree: "sessions_agree d rid before m tables"
    and toks: "before + 1 < 2 ^ 31" "hidden_size (dp_hparams d) < 2 ^ 61" "- (2 ^ 63) \<le> t" "t < 2 ^ 63"
    and mono: "monolithic_token (dp_platform d) (dp_model d) (dp_hparams d) (sn_entropy (dp_terminal d)) (dp_sampling d)
        (dp_layers d) before [t] m = (q, m')"
  shows "pass_result d rid (before + 1) m' q (dp_forward F elapsed d rid ti ''decode'' [t] (result, tables))"
proof -
  define rq0 where "rq0 = gateway_request (dp_io d) (dp_config d) rid ti ''decode'' [t]"
  have w': "step_writable d rid ti ''decode'' (length [t])" using w by simp
  then have send: "sendable (dp_io d) (dp_config d) rid ti ''decode'' ''int64'' [1, int (length [t])]" "readable (dp_io d) (dp_config d)"
    by (simp_all add: step_writable_def)
  note fields = step_frame_carries(2-4) [OF send, folded rq0_def]
  obtain s ss u where exs: "list_all2 (\<lambda>url ex. advanced (dp_nodes d url) rid (int before) ex (tables url)) (dp_urls d) (s # ss @ [u])"
    "chain_matches (dp_platform d) (dp_hparams d) (dp_first d) (map fst (dp_middle d)) (dp_last d) s ss u m" "rng u = rng m"
    using agree unfolding sessions_agree_def by blast
  have found: "list_all2 (\<lambda>url ex. stands_at (dp_nodes d url) rq0 before (tables url) \<and>
      node_executor (dp_nodes d url) rq0 (tables url) = ex) (dp_urls d) (s # ss @ [u])"
    by (rule list_all2_mono [OF exs(1)]) (use advanced_stands fields in blast)
  have "tables_stand (dp_nodes d) rq0 before tables (dp_urls d)"
    using found by (auto simp: tables_stand_def list_all2_conv_all_nth in_set_conv_nth)
  moreover have "mode_fits rq0 (length [t])" using fields(3) by (simp add: mode_fits_def)
  moreover have "s = node_executor (dp_nodes d (first_stage_url (dp_config d))) rq0 (tables (first_stage_url (dp_config d)))"
    "ss = map (\<lambda>st. node_executor (dp_nodes d (snd st)) rq0 (tables (snd st))) (dp_middle d)"
    "u = node_executor (dp_terminal d) rq0 (tables (dp_last_url d))"
  proof -
    have "length (map snd (dp_middle d)) = length ss" using list_all2_lengthD [OF found] by (simp add: dp_urls_def)
    with found have mid: "list_all2 (\<lambda>url ex. stands_at (dp_nodes d url) rq0 before (tables url) \<and>
        node_executor (dp_nodes d url) rq0 (tables url) = ex) (map snd (dp_middle d)) ss"
      and ends: "node_executor (dp_nodes d (first_stage_url (dp_config d))) rq0 (tables (first_stage_url (dp_config d))) = s"
        "node_executor (dp_terminal d) rq0 (tables (dp_last_url d)) = u"
      by (auto simp: dp_urls_def dp_terminal_def list_all2_append)
    show "ss = map (\<lambda>st. node_executor (dp_nodes d (snd st)) rq0 (tables (snd st))) (dp_middle d)"
      using mid by (intro nth_equalityI) (auto simp: list_all2_conv_all_nth)
    show "s = node_executor (dp_nodes d (first_stage_url (dp_config d))) rq0 (tables (first_stage_url (dp_config d)))"
      "u = node_executor (dp_terminal d) rq0 (tables (dp_last_url d))" using ends by simp_all
  qed
  ultimately show ?thesis
    using pass_agrees [OF d w' rq0_def, of before tables m q m' F elapsed result] toks mono exs(2,3) by simp
qed

section \<open>The run\<close>

lemma single_machine_length:
  "single_machine d prompt k = Inr (ids, before, m) \<Longrightarrow>
     length ids = k \<and> before = (if k = 0 then 0 else length prompt + (k - 1))"
proof (induction k arbitrary: ids before m)
  case (Suc k)
  obtain ids' before' m1 where prev: "single_machine d prompt k = Inr (ids', before', m1)"
    using Suc.prems by (cases "single_machine d prompt k") auto
  obtain q m2 where q: "monolithic_token (dp_platform d) (dp_model d) (dp_hparams d) (sn_entropy (dp_terminal d)) (dp_sampling d)
      (dp_layers d) before' (if ids' = [] then prompt else [last ids']) m1 = (q, m2)" by (rule prod.exhaust)
  then obtain t where "ids = ids' @ [t]" "before = before' + length (if ids' = [] then prompt else [last ids'])"
    using Suc.prems by (cases q) (auto simp: prev Let_def)
  with Suc.IH [OF prev] show ?case by (cases k) auto
qed simp

lemma forward_keeps_ids:
  "gr_generated_token_ids (fst (snd (forward_through_partition_graph F io cfg send frame ti mode s))) =
   gr_generated_token_ids (fst s)"
  using keepsA_forward [where K = "\<lambda>c. fst c = gr_generated_token_ids (fst s)", of F io cfg send frame ti mode]
  by (cases s) (auto simp: keepsA_def run_core_def)

text \<open>What the run has reported is what one machine generates; a run that is stuck is one that the
  machine, or the limit of a frame, would stop too.\<close>

definition reports :: "('w, 'g) deployment \<Rightarrow> int list \<Rightarrow> int list \<Rightarrow> bool" where
  "reports d prompt ids \<longleftrightarrow> (\<exists>before m. single_machine d prompt (length ids) = Inr (ids, before, m))"

definition stuck :: "('w, 'g) deployment \<Rightarrow> string \<Rightarrow> int list \<Rightarrow> int list \<Rightarrow> bool" where
  "stuck d rid prompt ids \<longleftrightarrow> reports d prompt ids \<and>
     (isl (single_machine d prompt (Suc (length ids))) \<or> reply_too_large (dp_io d) (dp_nodes d) rid (dp_urls d))"

definition run_at :: "('w, 'g) deployment \<Rightarrow> string \<Rightarrow> int list \<Rightarrow> nat \<Rightarrow> int \<Rightarrow> 'g tables loop_state \<Rightarrow> bool" where
  "run_at d rid prompt k t s \<longleftrightarrow> 0 < k \<and> 0 \<le> t \<and> t < 2 ^ 31 \<and>
     (\<exists>before m. single_machine d prompt k = Inr (gr_generated_token_ids (fst s), before, m) \<and>
        sessions_agree d rid before m (snd s) \<and> last (gr_generated_token_ids (fst s)) = t)"

definition token_due :: "('w, 'g) deployment \<Rightarrow> string \<Rightarrow> int list \<Rightarrow> nat \<Rightarrow> int \<Rightarrow> 'g tables loop_state \<Rightarrow> bool" where
  "token_due d rid prompt k t s \<longleftrightarrow> reports d prompt (gr_generated_token_ids (fst s)) \<and> 0 \<le> t \<and> t < 2 ^ 31 \<and>
     (\<exists>before m. single_machine d prompt (Suc k) = Inr (gr_generated_token_ids (fst s) @ [t], before, m) \<and>
        sessions_agree d rid before m (snd s))"

abbreviation token_read where
  "token_read d rid prompt k res \<equiv>
     (\<lambda>s. \<exists>t. next_token_id_from_terminal_response (dp_io d) res = Inr t \<and> token_due d rid prompt k t s)"

abbreviation reported where
  "reported d prompt \<equiv> (\<lambda>s. reports d prompt (gr_generated_token_ids (fst s)))"

abbreviation run_stuck where
  "run_stuck d rid prompt \<equiv> (\<lambda>s. stuck d rid prompt (gr_generated_token_ids (fst s)))"

lemma run_at_reports: "run_at d rid prompt k t s \<Longrightarrow> reported d prompt s"
  using single_machine_length by (fastforce simp: run_at_def reports_def)

text \<open>A pass of the gateway is a token of the machine.\<close>

lemma pass_is_token:
  assumes ids: "single_machine d prompt (length ids) = Inr (ids, before, m)"
    and input: "input = (if ids = [] then prompt else [last ids])"
    and q: "monolithic_token (dp_platform d) (dp_model d) (dp_hparams d) (sn_entropy (dp_terminal d)) (dp_sampling d)
        (dp_layers d) before input m = (q, m')"
    and result: "pass_result d rid (before + length input) m' q (x, s)" and kept: "gr_generated_token_ids (fst s) = ids"
  shows "case x of Inl e \<Rightarrow> run_stuck d rid prompt s | Inr res \<Rightarrow> token_read d rid prompt (length ids) res s"
proof -
  have step: "single_machine d prompt (Suc (length ids)) =
      (case q of Inl e \<Rightarrow> Inl e | Inr t \<Rightarrow> Inr (ids @ [t], before + length input, m'))"
    using ids q input by (cases q) (simp_all add: Let_def)
  have "reports d prompt ids" using ids unfolding reports_def by blast
  then show ?thesis using result kept step
    by (cases s) (auto simp: pass_result_def stuck_def token_due_def isl_def simp del: single_machine.simps split: sum.splits)
qed

lemma valid_prefill:
  fixes d :: "('w, 'g) deployment"
  assumes d: "serves_model d" and w: "step_writable d rid 0 ''prefill'' (length prompt)" and ne: "prompt \<noteq> []"
    and tables: "\<forall>url \<in> set (dp_urls d). sessions_ok (sn_env (dp_nodes d url)) (sn_rt (dp_nodes d url)) (tables url)"
    and toks: "length prompt < 2 ^ 31" "int (length prompt) * hidden_size (dp_hparams d) < 2 ^ 61"
      "\<forall>t \<in> set prompt. - (2 ^ 63) \<le> t \<and> t < 2 ^ 63"
  shows "validA (\<lambda>s. gr_generated_token_ids (fst s) = [] \<and> snd s = tables) (dp_forward F elapsed d rid 0 ''prefill'' prompt)
    (token_read d rid prompt 0) (run_stuck d rid prompt)"
  unfolding validA_def
proof (intro allI impI)
  fix s :: "'g tables loop_state" assume s: "gr_generated_token_ids (fst s) = [] \<and> snd s = tables"
  obtain q m' where q: "monolithic_token (dp_platform d) (dp_model d) (dp_hparams d) (sn_entropy (dp_terminal d)) (dp_sampling d)
      (dp_layers d) 0 prompt (new_executor (sn_fresh (dp_terminal d))) = (q, m')" by (rule prod.exhaust)
  obtain x s' where x: "dp_forward F elapsed d rid 0 ''prefill'' prompt s = (x, s')" by (rule prod.exhaust)
  have "pass_result d rid (0 + length prompt) m' q (x, s')"
    using prefill_agrees [OF d w ne tables toks q, of F elapsed "fst s"] s x by (cases s) simp
  moreover have "gr_generated_token_ids (fst s') = []"
    using forward_keeps_ids [of F "dp_io d" "dp_config d" _ _ _ _ s] s x unfolding dp_forward_def by (metis snd_conv)
  ultimately have "case x of Inl e \<Rightarrow> run_stuck d rid prompt s' | Inr res \<Rightarrow> token_read d rid prompt (length ([] :: int list)) res s'"
    using pass_is_token [where ids = "[]" and input = prompt, OF _ _ q] by simp
  then show "case dp_forward F elapsed d rid 0 ''prefill'' prompt s of
      (Inl e, s') \<Rightarrow> run_stuck d rid prompt s' | (Inr res, s') \<Rightarrow> token_read d rid prompt 0 res s'"
    by (cases x) (simp_all add: x)
qed

lemma valid_decode:
  fixes d :: "('w, 'g) deployment"
  assumes d: "serves_model d" and w: "step_writable d rid ti ''decode'' 1"
    and fits: "length prompt + k < 2 ^ 31" "hidden_size (dp_hparams d) < 2 ^ 61"
  shows "validA (run_at d rid prompt k t) (dp_forward F elapsed d rid ti ''decode'' [t])
    (token_read d rid prompt k) (run_stuck d rid prompt)"
  unfolding validA_def
proof (intro allI impI)
  fix s :: "'g tables loop_state" assume "run_at d rid prompt k t s"
  then obtain ids before m where s: "gr_generated_token_ids (fst s) = ids" "0 < k" "0 \<le> t" "t < 2 ^ 31" "last ids = t"
    "single_machine d prompt k = Inr (ids, before, m)" "sessions_agree d rid before m (snd s)"
    unfolding run_at_def by blast
  have len: "length ids = k" "before + 1 < 2 ^ 31" using single_machine_length [OF s(6)] fits(1) s(2) by auto
  obtain q m' where q: "monolithic_token (dp_platform d) (dp_model d) (dp_hparams d) (sn_entropy (dp_terminal d)) (dp_sampling d)
      (dp_layers d) before [t] m = (q, m')" by (rule prod.exhaust)
  obtain x s' where x: "dp_forward F elapsed d rid ti ''decode'' [t] s = (x, s')" by (rule prod.exhaust)
  have "pass_result d rid (before + length [t]) m' q (x, s')"
    using decode_agrees [OF d w s(7) len(2) fits(2) _ _ q, of F elapsed "fst s"] s(3,4) x by simp
  moreover have "gr_generated_token_ids (fst s') = ids"
    using forward_keeps_ids [of F "dp_io d" "dp_config d" _ _ _ _ s] s(1) x unfolding dp_forward_def by (metis snd_conv)
  ultimately have "case x of Inl e \<Rightarrow> run_stuck d rid prompt s' | Inr res \<Rightarrow> token_read d rid prompt (length ids) res s'"
    using q s(2,5,6) len(1) by (intro pass_is_token [where input = "[t]"]) auto
  then show "case dp_forward F elapsed d rid ti ''decode'' [t] s of
      (Inl e, s') \<Rightarrow> run_stuck d rid prompt s' | (Inr res, s') \<Rightarrow> token_read d rid prompt k res s'"
    by (cases x) (simp_all add: x len(1))
qed

text \<open>Taking a token, and the loop.\<close>

definition total_tokenizer :: "tokenizer \<Rightarrow> bool" where
  "total_tokenizer tk \<longleftrightarrow> (\<forall>ids. \<not> isl (tk_detokenize tk ids))"

lemma valid_take_reported:
  fixes d :: "('w, 'g) deployment" and cont :: "int \<Rightarrow> ('g tables loop_state, unit) action"
  assumes tk: "total_tokenizer tk"
    and cont: "\<And>t. validA (run_at d rid prompt (Suc k) t) (cont t) (\<lambda>_. reported d prompt) (run_stuck d rid prompt)"
  shows "validA (token_read d rid prompt k res)
     (bindA (liftA (next_token_id_from_terminal_response (dp_io d) res)) (\<lambda>t.
      bindA (on_result (push_token t)) (\<lambda>_.
      bindA (should_stop_after cfg tk t) (\<lambda>stop.
      if stop then on_result (set_reason ''stop_marker'') else cont t))))
     (\<lambda>_. reported d prompt) (run_stuck d rid prompt)"
proof (intro validA_bind)
  show "validA (token_read d rid prompt k res) (liftA (next_token_id_from_terminal_response (dp_io d) res))
      (token_due d rid prompt k) (run_stuck d rid prompt)" by (auto simp: validA_def)
  show "validA (token_due d rid prompt k t) (on_result (push_token t)) (\<lambda>_. run_at d rid prompt (Suc k) t)
      (run_stuck d rid prompt)" for t
    unfolding on_result_def
    by (rule validA_modify) (auto simp: token_due_def run_at_def push_token_def simp del: single_machine.simps split: prod.splits)
  show "validA (run_at d rid prompt (Suc k) t) (should_stop_after cfg tk t) (\<lambda>_. run_at d rid prompt (Suc k) t)
      (run_stuck d rid prompt)" for t
  proof -
    obtain out where "tk_detokenize tk [t] = Inr out"
      using tk unfolding total_tokenizer_def by (cases "tk_detokenize tk [t]") (auto dest: spec [of _ "[t]"])
    then show ?thesis by (auto simp: validA_def should_stop_after_def)
  qed
  have "validA (run_at d rid prompt (Suc k) t) (on_result (set_reason ''stop_marker'')) (\<lambda>_. reported d prompt)
      (run_stuck d rid prompt)" for t
    unfolding on_result_def using run_at_reports
    by (intro validA_modify) (fastforce simp: set_reason_def split: prod.splits)
  then show "validA (run_at d rid prompt (Suc k) t) (if stop then on_result (set_reason ''stop_marker'') else cont t)
      (\<lambda>_. reported d prompt) (run_stuck d rid prompt)" for t stop
    using cont by simp
qed

lemma valid_decode_reported:
  fixes d :: "('w, 'g) deployment"
  assumes d: "serves_model d" and w: "\<forall>i. 0 < i \<and> i < limit \<longrightarrow> step_writable d rid (int i) ''decode'' 1"
    and tk: "total_tokenizer tk" and fits: "length prompt + limit < 2 ^ 31" "hidden_size (dp_hparams d) < 2 ^ 61"
  shows "k \<le> limit \<Longrightarrow> validA (run_at d rid prompt k t)
     (decode_loop F (dp_io d) (dp_config d) tk (stage_sender F (dp_io d) elapsed (dp_nodes d)) rid [k..<limit] t)
     (\<lambda>_. reported d prompt) (run_stuck d rid prompt)"
proof (induction "limit - k" arbitrary: k t)
  case 0
  then show ?case using run_at_reports by (fastforce simp: validA_def)
next
  case (Suc n)
  then have k: "k < limit" by simp
  show ?case
  proof (cases "0 < k")
    case False
    then show ?thesis by (simp add: validA_def run_at_def)
  next
    case True
    have rest: "validA (run_at d rid prompt (Suc k) t')
       (decode_loop F (dp_io d) (dp_config d) tk (stage_sender F (dp_io d) elapsed (dp_nodes d)) rid [Suc k..<limit] t')
       (\<lambda>_. reported d prompt) (run_stuck d rid prompt)" for t'
      by (rule Suc.hyps(1)) (use Suc.hyps(2) k in simp_all)
    have "step_writable d rid (int k) ''decode'' 1" "length prompt + k < 2 ^ 31" using w fits(1) True k by simp_all
    note pass = valid_decode [OF d this fits(2), of t F elapsed, unfolded dp_forward_def, simplified]
    show ?thesis
      unfolding upt_conv_Cons [OF k] decode_loop.simps
      by (rule validA_bind [OF pass valid_take_reported [OF tk rest]])
  qed
qed

lemma valid_generate_reported:
  fixes d :: "('w, 'g) deployment" and tables :: "'g tables"
  assumes d: "serves_model d" and tk: "total_tokenizer tk"
    and prompt: "tk_tokenize tk (format_prompt_for_generation input (apply_chat_template (dp_config d))) = Inr prompt"
    and w: "step_writable d rid 0 ''prefill'' (length prompt)"
      "\<forall>i. 0 < i \<and> i < nat max_new \<longrightarrow> step_writable d rid (int i) ''decode'' 1"
    and ne: "prompt \<noteq> []"
    and tables: "\<forall>url \<in> set (dp_urls d). sessions_ok (sn_env (dp_nodes d url)) (sn_rt (dp_nodes d url)) (tables url)"
    and fits: "length prompt + nat max_new < 2 ^ 31" "int (length prompt) * hidden_size (dp_hparams d) < 2 ^ 61"
      "\<forall>t \<in> set prompt. - (2 ^ 63) \<le> t \<and> t < 2 ^ 63"
  shows "validA (\<lambda>s. gr_generated_token_ids (fst s) = [] \<and> snd s = tables)
     (generate F (dp_io d) (dp_config d) tk (stage_sender F (dp_io d) elapsed (dp_nodes d)) rid input max_new)
     (\<lambda>_. reported d prompt) (run_stuck d rid prompt)"
proof -
  let ?send = "stage_sender F (dp_io d) elapsed (dp_nodes d)" and ?limit = "nat max_new"
  let ?start = "\<lambda>s :: 'g tables loop_state. gr_generated_token_ids (fst s) = [] \<and> snd s = tables"
  have len: "length prompt < 2 ^ 31" using fits(1) by simp
  have "hidden_size (dp_hparams d) \<le> int (length prompt) * hidden_size (dp_hparams d)"
    using ne d hidden_size_nat [of "dp_hparams d"] by (cases prompt) (auto simp: serves_model_def)
  then have hidden: "hidden_size (dp_hparams d) < 2 ^ 61" using fits(2) by (rule order_le_less_trans)
  have nat_max: "nat (max 0 max_new) = ?limit" by simp
  have tokens: "validA ?start (liftA (Inr prompt)) (\<lambda>p s. p = prompt \<and> ?start s) (run_stuck d rid prompt)"
    by (simp add: validA_def)
  have ids: "validA (\<lambda>s. p = prompt \<and> ?start s) (on_result (\<lambda>r. r\<lparr>gr_prompt_token_ids := p\<rparr>))
      (\<lambda>_ s. p = prompt \<and> ?start s) (run_stuck d rid prompt)" for p
    unfolding on_result_def by (rule validA_modify) auto
  note prefill = valid_prefill [OF d w(1) ne tables len fits(2,3), of F elapsed, unfolded dp_forward_def]
  have pass: "validA (\<lambda>s. p = prompt \<and> ?start s) (forward_through_partition_graph F (dp_io d) (dp_config d) ?send
      (step_frame (dp_io d) (dp_config d) rid 0 ''prefill'' [1, int (length p)] p) 0 ''prefill'')
      (token_read d rid prompt 0) (run_stuck d rid prompt)" for p
    using prefill by (cases "p = prompt") (simp_all add: validA_def)
  have reason: "validA (token_read d rid prompt 0 res) (on_result (set_reason ''max_new_tokens''))
      (\<lambda>_. token_read d rid prompt 0 res) (run_stuck d rid prompt)" for res
    unfolding on_result_def by (rule validA_modify) (auto simp: token_due_def set_reason_def simp del: single_machine.simps)
  have loop: "validA (token_read d rid prompt 0 res)
      (if ?limit = 0 then retA ()
       else bindA (liftA (next_token_id_from_terminal_response (dp_io d) res)) (\<lambda>t.
            bindA (on_result (push_token t)) (\<lambda>_.
            bindA (should_stop_after (dp_config d) tk t) (\<lambda>stop.
            if stop then on_result (set_reason ''stop_marker'')
            else decode_loop F (dp_io d) (dp_config d) tk ?send rid [1..<?limit] t))))
      (\<lambda>_. reported d prompt) (run_stuck d rid prompt)" for res
  proof (cases "?limit = 0")
    case True
    then show ?thesis by (auto simp: validA_def token_due_def)
  next
    case False
    have rest: "validA (run_at d rid prompt (Suc 0) t)
        (decode_loop F (dp_io d) (dp_config d) tk ?send rid [1..<?limit] t) (\<lambda>_. reported d prompt) (run_stuck d rid prompt)" for t
      unfolding One_nat_def by (rule valid_decode_reported [OF d w(2) tk fits(1) hidden]) (use False in simp)
    show ?thesis using False by (simp only: if_False) (rule valid_take_reported [OF tk rest])
  qed
  have finish: "validA (reported d prompt)
      (bindA getA (\<lambda>(result, n).
       bindA (liftA (tk_detokenize tk (gr_generated_token_ids result))) (\<lambda>text.
       on_result (\<lambda>r. r\<lparr>gr_generated_text := cleanup_generated_text text,
                        gr_generated_token_count := int (length (gr_generated_token_ids r))\<rparr>))))
      (\<lambda>_. reported d prompt) (run_stuck d rid prompt)"
    using tk by (auto simp: validA_def on_result_def total_tokenizer_def isl_def split: sum.splits)
  show ?thesis
    unfolding generate_def nat_max Let_def prompt
    by (rule validA_bind [OF tokens] validA_bind [OF ids] validA_bind [OF pass] validA_bind [OF reason]
        validA_bind [OF loop] finish)+
qed


section \<open>A sample deployment\<close>

text \<open>The greedy choice is an index of the logits, and there are as many as the output matrix has rows.\<close>

lemma greedy_token_index:
  assumes "xs \<noteq> []"
  shows "greedy_token xs < length xs"
proof -
  have "fst (fold (\<lambda>i (best_id, best_value). if f32_lt best_value (xs ! i) then (i, xs ! i) else (best_id, best_value))
      ls (b, v)) < length xs" if "\<forall>i \<in> set ls. i < length xs" "b < length xs" for ls b v
    using that by (induction ls arbitrary: b v) auto
  then show ?thesis using assms by (simp add: greedy_token_def)
qed

lemma greedy_head_fits:
  assumes "\<not> sampling_enabled sampling \<or> f32_le (temperature sampling) f32_zero"
    and "\<And>w. shard_ctx final ''output.weight'' = Some w \<Longrightarrow> ne1 w \<le> 2 ^ 31"
  shows "head_tokens_fit pl hp entropy sampling final"
  unfolding head_tokens_fit_def
proof (intro allI impI)
  fix tensor before t and ex ex' :: "'b executor"
  assume "execute_terminal pl (shard_ctx final) hp entropy tensor (shard_layers final) before True True sampling ex = (Inr t, ex')"
  then obtain logits x where logits: "matvec pl (shard_ctx final) ''output.weight'' x = Inr logits" "logits \<noteq> []"
    "t = int (greedy_token logits)"
    using assms(1) by (auto simp: execute_terminal_def terminal_head_def sample_lm_head_def sample_from_logits_def bindA_apply Let_def
      split: sum.splits prod.splits if_splits)
  from matvec_Inr [OF logits(1)] assms(2) have "int (length logits) \<le> 2 ^ 31" by metis
  then show "0 \<le> t \<and> t < 2 ^ 31" using greedy_token_index [OF logits(2)] logits(3) by simp
qed

definition served_io :: number_io where
  "served_io = \<lparr>stod = (\<lambda>_. Some 0), stream_f64 = (\<lambda>_. ''0''), to_string_f64 = (\<lambda>_. ''0''), i64_of_f64 = (\<lambda>_. 0), u64_of_f64 = (\<lambda>_. 0)\<rparr>"

definition served_config :: generation_loop_config where
  "served_config = sample_config\<lparr>first_stage_url := ''http://p1:9001'', gl_temperature := 0, gl_has_top_p := False,
     partitions := chain_graph, activation_precision := ''fp32''\<rparr>"

definition served_runtime :: "nat \<Rightarrow> f32 list list loaded_runtime" where
  "served_runtime i = (sample_stage False)\<lparr>lr_tensor_ctx := Some (shard_ctx (sample_shard i)),
     lr_shard_metadata := empty_shard_metadata\<lparr>sh_shard_loaded := True, sh_layers := shard_layers (sample_shard i),
       sh_owns_embedding := (i = 0), sh_owns_norm := (i = 2), sh_owns_lm_head := (i = 2),
       sh_next_stage_url := (if i = 2 then [] else ''http://next:9001''), sh_hidden_size := 4\<rparr>\<rparr>"

definition served_node :: "nat \<Rightarrow> (f32 list list, nat) stage_node" where
  "served_node i = \<lparr>sn_cfg = default_stage_config, sn_env = sample_env, sn_rt = served_runtime i, sn_fresh = i, sn_entropy = 7,
     sn_me = sample_me, sn_chaining = None\<rparr>"

definition served_deployment :: "(f32 list list, nat) deployment" where
  "served_deployment = \<lparr>dp_platform = sample_platform True, dp_hparams = sample_hp, dp_io = served_io, dp_config = served_config,
     dp_nodes = (\<lambda>url. served_node (if url = ''http://p1:9001'' then 0 else if url = ''http://p2:9001'' then 1 else 2)),
     dp_model = sample_tensors [0, 1, 2], dp_first = sample_shard 0, dp_middle = [(sample_shard 1, ''http://p2:9001'')],
     dp_last = sample_shard 2, dp_last_url = ''http://p3:9001''\<rparr>"

definition served_tokenizer :: tokenizer where
  "served_tokenizer = \<lparr>tk_tokenize = (\<lambda>_. Inr [2, 0]), tk_detokenize = (\<lambda>_. Inr ''a''), tk_backend_name = ''sample''\<rparr>"

lemma served_node_serves: "serves_shard (sample_platform True) sample_hp served_io (served_node i) (sample_shard i)"
proof -
  have "number_text ''0''"
    by (simp add: number_text_def match_number_def split_minus_def match_mantissa_def is_digit_def match_exponent_def is_space_def)
  then show ?thesis
    by (simp add: serves_shard_def served_node_def served_runtime_def sample_stage_def sample_iteration_ok metrics_printable_def
      served_io_def env_bool_def sample_hp_def) (simp add: sample_env_def)
qed

lemma served_serves_model: "serves_model served_deployment"
proof -
  let ?d = served_deployment
  have "deployed (dp_platform ?d) (dp_hparams ?d) (dp_io ?d) (dp_config ?d) (dp_nodes ?d) (dp_first ?d) (dp_middle ?d) (dp_last ?d)
       (dp_last_url ?d)"
    using served_node_serves [of 0] served_node_serves [of 1] served_node_serves [of 2]
    by (simp add: served_deployment_def deployed_def served_config_def sample_config_def chain_graph_def sample_node_def
      empty_partition_node_def is_terminal_partition_def stage_url_for_partition_def last_stage_def is_source_def is_intermediate_def
      is_terminal_def) (simp add: served_node_def served_runtime_def)
  moreover have "\<not> sampling_enabled (dp_sampling ?d)"
    by (simp add: dp_sampling_def gateway_sampling_def Let_def served_deployment_def served_io_def f64_lt_def f64_zero_def)
  then have "head_tokens_fit (dp_platform ?d) (dp_hparams ?d) (sn_entropy (dp_terminal ?d)) (dp_sampling ?d) (dp_last ?d)"
    by (intro greedy_head_fits) (auto simp: served_deployment_def sample_shard_def shard_of_def sample_tensors_def sample_weight_def
      split: if_splits)
  ultimately show ?thesis using sample_shards
    by (simp add: serves_model_def) (simp add: served_deployment_def)
qed

text \<open>The gateway's request can be passed on when its printed controls read back as printed.\<close>

lemma gateway_request_passable:
  assumes send: "sendable io cfg rid ti mode ''int64'' [1, int (length toks)]" "readable io cfg"
    and "\<not> native_stage_chaining_enabled cfg" "activation_precision cfg \<noteq> ''fp16''" "activation_precision cfg \<noteq> ''float16''"
    and t: "t = the (stod io (stream_f64 io (gl_temperature cfg)))" "number_text (stream_f64 io t)" "stod io (stream_f64 io t) = Some t"
    and p: "p = (if gl_has_top_p cfg then the (stod io (to_string_f64 io (gl_top_p cfg))) else f64_zero)"
      "number_text (stream_f64 io p)" "stod io (stream_f64 io p) = Some p"
    and seed: "i = (if gl_has_seed cfg then i64_of_f64 io (the (stod io (show_int (gl_seed cfg)))) else 0)"
      "stod io (show_int i) = Some x" "gl_has_seed cfg \<longrightarrow> i64_of_f64 io x = i"
  shows "passable io (gateway_request io cfg rid ti mode toks)"
proof -
  let ?rq = "gateway_request io cfg rid ti mode toks"
  have fields: "rq_has_temperature ?rq" "rq_temperature ?rq = t" "rq_has_top_k ?rq" "rq_top_k ?rq = gl_top_k cfg"
    "rq_has_top_p ?rq = gl_has_top_p cfg" "rq_top_p ?rq = p" "rq_has_seed ?rq = gl_has_seed cfg" "rq_seed ?rq = i"
    "rq_request_id ?rq = rid" "rq_generation_mode ?rq = mode" "rq_transport_mode ?rq = ''binary_octet_stream''"
    "rq_activation_precision ?rq = activation_precision cfg" "rq_token_index ?rq = ti" "rq_kv_cache_enabled ?rq"
    "\<not> rq_native_stage_chaining_enabled ?rq"
    "rq_metadata_level ?rq = (if metadata_level_is_compact (metadata_level cfg) then ''debug'' else metadata_level cfg)"
    using assms(3) by (simp_all add: gateway_request_def make_runtime_request_def step_frame_def gateway_metadata_read [OF send]
      sent_metadata_def t(1) p(1) seed(1))
  show ?thesis
    using assms(4,5) t(2,3) p seed send(1) unfolding passable_def controls_settle_def controls_ok_def fields sendable_def
    by (auto simp: fields unicode_escaped_def)
qed

lemma served_step_writable:
  assumes "mode = ''prefill'' \<or> mode = ''decode''" "ti \<in> {0, 1}" "n \<in> {1, 2}"
  shows "step_writable served_deployment ''r'' ti mode n"
proof -
  let ?io = "dp_io served_deployment" and ?cfg = "dp_config served_deployment"
  note defs = served_deployment_def served_io_def served_config_def sample_config_def
  have number: "number_text ''0''"
    by (simp add: number_text_def match_number_def split_minus_def match_mantissa_def is_digit_def match_exponent_def is_space_def)
  have send: "sendable ?io ?cfg ''r'' ti mode ''int64'' [1, int n]" "readable ?io ?cfg"
    using assms number by (auto simp: defs sendable_def readable_def int32_range_def int64_range_def unicode_escaped_def)
  have "passable ?io (gateway_request ?io ?cfg ''r'' ti mode toks)" if "length toks = n" for toks
    by (rule gateway_request_passable [where t = 0 and p = 0 and i = 0 and x = 0])
      (use send that number in \<open>simp_all add: defs f64_zero_def\<close>)
  moreover have "frame_fits (step_frame ?io ?cfg ''r'' ti mode [1, int n] toks)" if "length toks = n" for toks
  proof -
    have "length (concat (map i64_block xs)) = 8 * length xs" for xs by (induction xs) simp_all
    note bytes = this
    have texts: "length (show_int 0) = 1" "length (show_int 1) = 1" "length (show_int 2) = 1" "length (show_int 40) = 2"
      "length (json_escape ''r'') = 1" "length (json_escape ''prefill'') = 7" "length (json_escape ''decode'') = 6"
      "length (json_escape ''int64'') = 5" "length (json_escape ''little'') = 6" "length (json_escape ''fp32'') = 4"
      by code_simp+
    have "length (request_metadata_json ?io ?cfg ''r'' ti mode ''int64'' [1, int n]) \<le> 16777216"
      using assms by (auto simp: request_metadata_json_def defs metadata_level_is_compact_def json_key_def json_str_def
        shape_json_def json_bool_def texts)
    then show ?thesis using that assms(3)
      by (auto simp: frame_fits_def step_frame_def dli2_limits int64_tokens_to_bytes_eq bytes)
  qed
  ultimately show ?thesis using send by (simp add: step_writable_def)
qed


end
